(* ===== verification/Prelude.thy ===== *)
theory Prelude
  imports Complex_Main "HOL-Library.AList" "HOL-Library.List_Lexorder" "HOL-Library.Char_ord"
begin

text \<open>
  The development's common ground: JSON-like values, the state-and-exception actions that every
  stateful handler of the runtime is written in, the rules that carry an invariant through such an
  action, keyed tables (what the SQL statement \<open>INSERT OR REPLACE\<close> does) with their interface as a
  locale, and generic lemmas on lists and association lists.

  An action takes the state and gives either an exception (\<open>Inl\<close>) or a value (\<open>Inr\<close>), and the state
  it leaves behind: a Python exception does not undo the writes made before it was raised, so the
  state is part of both outcomes.
\<close>

section \<open>Values\<close>

text \<open>What \<open>yaml.safe_load\<close> and \<open>json.loads\<close> give; dictionaries keep their insertion order.\<close>

datatype json =
    JNull
  | JBool bool
  | JInt int
  | JFloat rat
  | JStr string
  | JList "json list"
  | JObj "(string \<times> json) list"

type_synonym dict = "(string \<times> json) list"

text \<open>\<open>payload.update(extra)\<close>: keys already present keep their place, new ones go to the end.\<close>

definition dict_update :: "('k \<times> 'v) list \<Rightarrow> ('k \<times> 'v) list \<Rightarrow> ('k \<times> 'v) list" where
  "dict_update d extra = fold (\<lambda>(k, v) acc. AList.update k v acc) extra d"

section \<open>Actions: state and exceptions\<close>

type_synonym ('s, 'e, 'a) act = "'s \<Rightarrow> ('e + 'a) \<times> 's"

definition ret :: "'a \<Rightarrow> ('s, 'e, 'a) act" where
  "ret x s = (Inr x, s)"

definition throw :: "'e \<Rightarrow> ('s, 'e, 'a) act" where
  "throw e s = (Inl e, s)"

definition bindE :: "('s, 'e, 'a) act \<Rightarrow> ('a \<Rightarrow> ('s, 'e, 'b) act) \<Rightarrow> ('s, 'e, 'b) act" where
  "bindE m f s = (case m s of (Inl e, s') \<Rightarrow> (Inl e, s') | (Inr x, s') \<Rightarrow> f x s')"

definition gets :: "('s \<Rightarrow> 'a) \<Rightarrow> ('s, 'e, 'a) act" where
  "gets f s = (Inr (f s), s)"

definition modify :: "('s \<Rightarrow> 's) \<Rightarrow> ('s, 'e, unit) act" where
  "modify f s = (Inr (), f s)"

definition try_except :: "('s, 'e, 'a) act \<Rightarrow> ('e \<Rightarrow> ('s, 'e, 'a) act) \<Rightarrow> ('s, 'e, 'a) act" where
  "try_except m h s = (case m s of (Inl e, s') \<Rightarrow> h e s' | (Inr x, s') \<Rightarrow> (Inr x, s'))"

fun forE :: "'a list \<Rightarrow> ('a \<Rightarrow> ('s, 'e, 'b) act) \<Rightarrow> ('s, 'e, 'b list) act" where
  "forE [] f = ret []"
| "forE (x # xs) f = bindE (f x) (\<lambda>y. bindE (forE xs f) (\<lambda>ys. ret (y # ys)))"

lemmas act_defs = ret_def throw_def bindE_def gets_def modify_def try_except_def

lemma bindE_ret [simp]: "bindE (ret x) f = f x"
  by (rule ext) (simp add: act_defs)

lemma bindE_throw [simp]: "bindE (throw e) f = throw e"
  by (rule ext) (simp add: act_defs)

lemma bindE_ok: "m s = (Inr x, s') \<Longrightarrow> bindE m f s = f x s'"
  by (simp add: bindE_def)

lemma bindE_err: "m s = (Inl e, s') \<Longrightarrow> bindE m f s = (Inl e, s')"
  by (simp add: bindE_def)

lemma bindE_OkE:
  assumes "bindE m f s = (Inr y, t)"
  obtains x s' where "m s = (Inr x, s')" and "f x s' = (Inr y, t)"
  using assms by (auto simp: bindE_def split: prod.splits sum.splits)

lemma bindE_assoc: "bindE (bindE m f) g = bindE m (\<lambda>x. bindE (f x) g)"
  by (rule ext) (simp add: bindE_def split: prod.split sum.split)

section \<open>Carrying an invariant through an action\<close>

text \<open>
  \<open>preserves I m\<close>: whatever \<open>m\<close> does, exceptions included, it keeps \<open>I\<close>. The collection
  \<open>pres\<close> holds the rules for the combinators and for every handler of the components.
\<close>

named_theorems pres \<open>preservation of an invariant by an action\<close>

definition preserves :: "('s \<Rightarrow> bool) \<Rightarrow> ('s, 'e, 'a) act \<Rightarrow> bool" where
  "preserves I m \<longleftrightarrow> (\<forall>s. I s \<longrightarrow> I (snd (m s)))"

lemma preservesI: "(\<And>s. I s \<Longrightarrow> I (snd (m s))) \<Longrightarrow> preserves I m"
  by (simp add: preserves_def)

lemma preservesD: "preserves I m \<Longrightarrow> I s \<Longrightarrow> I (snd (m s))"
  by (simp add: preserves_def)

lemma preserves_stepD: "preserves I m \<Longrightarrow> I s \<Longrightarrow> m s = (r, t) \<Longrightarrow> I t"
  by (auto simp: preserves_def dest: spec [of _ s])

lemma pres_ret [pres]: "preserves I (ret x)"
  by (simp add: preserves_def act_defs)

lemma pres_throw [pres]: "preserves I (throw e)"
  by (simp add: preserves_def act_defs)

lemma pres_gets [pres]: "preserves I (gets f)"
  by (simp add: preserves_def act_defs)

lemma pres_bindE [pres]:
  "preserves I m \<Longrightarrow> (\<And>x. preserves I (f x)) \<Longrightarrow> preserves I (bindE m f)"
  by (fastforce simp: preserves_def bindE_def split: prod.splits sum.splits)

lemma pres_try [pres]:
  "preserves I m \<Longrightarrow> (\<And>e. preserves I (h e)) \<Longrightarrow> preserves I (try_except m h)"
  by (fastforce simp: preserves_def try_except_def split: prod.splits sum.splits)

lemma pres_if [pres]:
  "(b \<Longrightarrow> preserves I m) \<Longrightarrow> (\<not> b \<Longrightarrow> preserves I n) \<Longrightarrow> preserves I (if b then m else n)"
  by simp

lemma pres_option [pres]:
  "preserves I m \<Longrightarrow> (\<And>x. preserves I (f x)) \<Longrightarrow> preserves I (case y of None \<Rightarrow> m | Some x \<Rightarrow> f x)"
  by (cases y) simp_all

lemma pres_prod [pres]: "(\<And>a b. preserves I (f a b)) \<Longrightarrow> preserves I (case p of (a, b) \<Rightarrow> f a b)"
  by (cases p) simp

lemma pres_forE [pres]: "(\<And>x. preserves I (f x)) \<Longrightarrow> preserves I (forE xs f)"
  by (induction xs) (auto intro!: pres)

lemma pres_modify: "(\<And>s. I s \<Longrightarrow> I (f s)) \<Longrightarrow> preserves I (modify f)"
  by (simp add: preserves_def act_defs)

section \<open>What an action gives\<close>

text \<open>\<open>gives P m Q\<close>: from a state with \<open>P\<close>, if \<open>m\<close> returns \<open>x\<close>, then \<open>Q x\<close> holds of the state it
  leaves.\<close>

definition gives :: "('s \<Rightarrow> bool) \<Rightarrow> ('s, 'e, 'a) act \<Rightarrow> ('a \<Rightarrow> 's \<Rightarrow> bool) \<Rightarrow> bool" where
  "gives P m Q \<longleftrightarrow> (\<forall>s x s'. P s \<longrightarrow> m s = (Inr x, s') \<longrightarrow> Q x s')"

lemma givesI: "(\<And>s x s'. P s \<Longrightarrow> m s = (Inr x, s') \<Longrightarrow> Q x s') \<Longrightarrow> gives P m Q"
  by (simp add: gives_def)

lemma givesD: "gives P m Q \<Longrightarrow> P s \<Longrightarrow> m s = (Inr x, s') \<Longrightarrow> Q x s'"
  by (simp add: gives_def)

lemma gives_bind: "gives P m R \<Longrightarrow> (\<And>x. gives (R x) (f x) Q) \<Longrightarrow> gives P (bindE m f) Q"
  unfolding gives_def by (blast elim: bindE_OkE)

lemma gives_ret: "(\<And>s. P s \<Longrightarrow> Q x s) \<Longrightarrow> gives P (ret x) Q"
  by (simp add: gives_def ret_def)

lemma gives_throw: "gives P (throw e) Q"
  by (simp add: gives_def throw_def)

lemma gives_if: "(b \<Longrightarrow> gives P m Q) \<Longrightarrow> (\<not> b \<Longrightarrow> gives P n Q) \<Longrightarrow> gives P (if b then m else n) Q"
  by simp

lemma gives_weaken: "gives P' m Q \<Longrightarrow> (\<And>s. P s \<Longrightarrow> P' s) \<Longrightarrow> gives P m Q"
  unfolding gives_def by blast

lemma gives_post: "gives P m Q' \<Longrightarrow> (\<And>x s. Q' x s \<Longrightarrow> Q x s) \<Longrightarrow> gives P m Q"
  unfolding gives_def by blast

lemma gives_keep: "preserves I m \<Longrightarrow> gives I m (\<lambda>_. I)"
  by (auto simp: gives_def dest: preserves_stepD)

lemma gives_both: "gives P m Q \<Longrightarrow> gives P' m Q' \<Longrightarrow> gives (\<lambda>s. P s \<and> P' s) m (\<lambda>x s. Q x s \<and> Q' x s)"
  unfolding gives_def by blast

lemma set_update_subset: "set (AList.update k v xs) \<subseteq> insert (k, v) (set xs)"
  by (induction xs) auto

lemma find_SomeD: "find P xs = Some x \<Longrightarrow> P x \<and> x \<in> set xs"
  by (induction xs) (auto split: if_splits)

end
