(* ===== verification/Models.thy ===== *)
theory Models
  imports Complex_Main Prelude PyString
begin

text \<open>
  The execution domain models of \<open>execution/models.py\<close>: the three state enumerations and the event
  types with their wire strings, the records of runs, tasks, attempts and events, the transition
  table and \<open>can_transition\<close>, and the two sources of nondeterminism every record draws on, the
  random identifiers and the clock. Each domain's table is an instance of the locale
  \<open>lifecycle\<close>, whose lemmas say what a finished entity can no longer do.
\<close>

section \<open>Exceptions\<close>

text \<open>
  The exceptions the modelled code raises, with the data their messages are built from.
  \<open>IntegrityError\<close> is the database's refusal of a dangling foreign key or a duplicate primary key.
\<close>

datatype exn =
    PersistenceError string
  | InvalidTransition string string string string
  | IntegrityError string
  | ValueError string
  | KeyError string
  | RuntimeError string
  | DAGError string
  | CapabilityError string
  | GitError "string list" int string
  | SecurityError string
  | BudgetExceeded string rat rat
  | GoalNotCompletable string
  | CancelledError
  | VerificationConfigError string
  | HTTPException nat string
  | AttributeError string
  | TypeError string
  | YAMLError string
  | AtlasLoadError string
  | SettingsError string
  | McpConfigError string
  | AdaptationError string
  | AcpError string
  | FileNotFound string
  | DocumentParseError string
  | ValidationError string
  | OSError string
  | OverflowError string
  | IndexError string
  | JSONDecodeError string
  | AcpRemoteError int string
  | TimeoutError

section \<open>Identifiers and the clock\<close>

text \<open>
  \<open>uuid_hex n\<close> is what the \<open>n\<close>-th call of \<open>uuid.uuid4().hex\<close> returns in this process, \<open>now_iso n\<close>
  the \<open>n\<close>-th reading of the clock; the counters say how many have been taken. Nothing is assumed of
  either here: a lemma that needs fresh identifiers says so.
\<close>

record os =
  uuid_hex :: "nat \<Rightarrow> string"
  clock_iso :: "nat \<Rightarrow> string"
  draws :: nat
  ticks :: nat

definition now_iso :: "('z os_scheme, exn, string) act" where
  "now_iso s = (Inr (clock_iso s (ticks s)), s\<lparr>ticks := Suc (ticks s)\<rparr>)"

definition new_id :: "string \<Rightarrow> ('z os_scheme, exn, string) act" where
  "new_id prefix s =
     (Inr (prefix @ ''-'' @ take 12 (uuid_hex s (draws s))), s\<lparr>draws := Suc (draws s)\<rparr>)"

section \<open>States\<close>

datatype run_state =
    R_CREATED | R_PLANNING | R_READY | R_RUNNING | R_VERIFYING | R_REVIEWING
  | R_COMPLETED | R_BLOCKED | R_CANCELLED | R_FAILED

datatype task_state =
    T_PLANNED | T_READY | T_RUNNING | T_SUCCEEDED | T_BLOCKED | T_FAILED
  | T_CANCELLED | T_SUPERSEDED

datatype attempt_state =
    A_CREATED | A_STARTING | A_RUNNING | A_COMPLETED | A_FAILED | A_CANCELLED

datatype event_type =
    RUN_STARTED | RUN_COMPLETED | RUN_FAILED | TASK_READY | TASK_SUCCEEDED | TASK_FAILED
  | ATTEMPT_STARTED | ATTEMPT_COMPLETED | ATTEMPT_FAILED | GATE_PASSED | GATE_FAILED
  | STATE_CHANGE

fun run_state_str :: "run_state \<Rightarrow> string" where
  "run_state_str R_CREATED = ''CREATED''"
| "run_state_str R_PLANNING = ''PLANNING''"
| "run_state_str R_READY = ''READY''"
| "run_state_str R_RUNNING = ''RUNNING''"
| "run_state_str R_VERIFYING = ''VERIFYING''"
| "run_state_str R_REVIEWING = ''REVIEWING''"
| "run_state_str R_COMPLETED = ''COMPLETED''"
| "run_state_str R_BLOCKED = ''BLOCKED''"
| "run_state_str R_CANCELLED = ''CANCELLED''"
| "run_state_str R_FAILED = ''FAILED''"

fun task_state_str :: "task_state \<Rightarrow> string" where
  "task_state_str T_PLANNED = ''PLANNED''"
| "task_state_str T_READY = ''READY''"
| "task_state_str T_RUNNING = ''RUNNING''"
| "task_state_str T_SUCCEEDED = ''SUCCEEDED''"
| "task_state_str T_BLOCKED = ''BLOCKED''"
| "task_state_str T_FAILED = ''FAILED''"
| "task_state_str T_CANCELLED = ''CANCELLED''"
| "task_state_str T_SUPERSEDED = ''SUPERSEDED''"

fun attempt_state_str :: "attempt_state \<Rightarrow> string" where
  "attempt_state_str A_CREATED = ''CREATED''"
| "attempt_state_str A_STARTING = ''STARTING''"
| "attempt_state_str A_RUNNING = ''RUNNING''"
| "attempt_state_str A_COMPLETED = ''COMPLETED''"
| "attempt_state_str A_FAILED = ''FAILED''"
| "attempt_state_str A_CANCELLED = ''CANCELLED''"

fun event_type_str :: "event_type \<Rightarrow> string" where
  "event_type_str RUN_STARTED = ''atlas.run.started''"
| "event_type_str RUN_COMPLETED = ''atlas.run.completed''"
| "event_type_str RUN_FAILED = ''atlas.run.failed''"
| "event_type_str TASK_READY = ''atlas.task.ready''"
| "event_type_str TASK_SUCCEEDED = ''atlas.task.succeeded''"
| "event_type_str TASK_FAILED = ''atlas.task.failed''"
| "event_type_str ATTEMPT_STARTED = ''atlas.attempt.started''"
| "event_type_str ATTEMPT_COMPLETED = ''atlas.attempt.completed''"
| "event_type_str ATTEMPT_FAILED = ''atlas.attempt.failed''"
| "event_type_str GATE_PASSED = ''atlas.gate.passed''"
| "event_type_str GATE_FAILED = ''atlas.gate.failed''"
| "event_type_str STATE_CHANGE = ''atlas.state.change''"

section \<open>Records\<close>

definition UNKNOWN_PROJECT :: string where
  "UNKNOWN_PROJECT = ''unknown-project''"

record domain_event =
  e_id :: string
  e_timestamp :: string
  e_project_id :: string
  e_run_id :: "string option"
  e_type :: event_type
  e_version :: int
  e_payload :: dict

record run =
  r_id :: string
  r_project_id :: string
  r_goal_id :: string
  r_goal_revision :: string
  r_state :: run_state
  r_autonomy :: string
  r_created_at :: string
  r_started_at :: "string option"
  r_completed_at :: "string option"

record task =
  t_id :: string
  t_run_id :: string
  t_objective :: string
  t_role :: "string option"
  t_risk :: string
  t_scope :: "string list"
  t_state :: task_state
  t_dependencies :: "string list"
  t_created_at :: string

record attempt =
  a_id :: string
  a_task_id :: string
  a_run_id :: string
  a_runner :: "string option"
  a_model_provider :: "string option"
  a_model_id :: "string option"
  a_state :: attempt_state
  a_created_at :: string
  a_started_at :: "string option"
  a_completed_at :: "string option"
  a_error_msg :: "string option"

text \<open>The constructors with the defaults of the pydantic fields.\<close>

definition mk_event ::
  "string \<Rightarrow> string option \<Rightarrow> event_type \<Rightarrow> dict \<Rightarrow> ('z os_scheme, exn, domain_event) act" where
  "mk_event project_id run_id type payload =
     bindE (new_id ''evt'') (\<lambda>i. bindE now_iso (\<lambda>ts.
       ret \<lparr>e_id = i, e_timestamp = ts, e_project_id = project_id, e_run_id = run_id,
            e_type = type, e_version = 1, e_payload = payload\<rparr>))"

definition mk_run ::
  "string \<Rightarrow> string \<Rightarrow> string \<Rightarrow> string \<Rightarrow> ('z os_scheme, exn, run) act" where
  "mk_run project_id goal_id goal_revision autonomy =
     bindE (new_id ''run'') (\<lambda>i. bindE now_iso (\<lambda>ts.
       ret \<lparr>r_id = i, r_project_id = project_id, r_goal_id = goal_id,
            r_goal_revision = goal_revision, r_state = R_CREATED, r_autonomy = autonomy,
            r_created_at = ts, r_started_at = None, r_completed_at = None\<rparr>))"

definition mk_task ::
  "string \<Rightarrow> string \<Rightarrow> string option \<Rightarrow> string \<Rightarrow> string list \<Rightarrow> ('z os_scheme, exn, task) act" where
  "mk_task run_id objective role risk scope =
     bindE (new_id ''task'') (\<lambda>i. bindE now_iso (\<lambda>ts.
       ret \<lparr>t_id = i, t_run_id = run_id, t_objective = objective, t_role = role, t_risk = risk,
            t_scope = scope, t_state = T_PLANNED, t_dependencies = [], t_created_at = ts\<rparr>))"

definition mk_attempt ::
  "string \<Rightarrow> string \<Rightarrow> string option \<Rightarrow> string option \<Rightarrow> ('z os_scheme, exn, attempt) act" where
  "mk_attempt task_id run_id runner model_id =
     bindE (new_id ''att'') (\<lambda>i. bindE now_iso (\<lambda>ts.
       ret \<lparr>a_id = i, a_task_id = task_id, a_run_id = run_id, a_runner = runner,
            a_model_provider = None, a_model_id = model_id, a_state = A_CREATED,
            a_created_at = ts, a_started_at = None, a_completed_at = None, a_error_msg = None\<rparr>))"

section \<open>The transition table\<close>

definition VALID_TRANSITIONS :: "(string \<times> (string \<times> string list) list) list" where
  "VALID_TRANSITIONS =
    [(''run'',
      List.map (\<lambda>(s, ts). (run_state_str s, List.map run_state_str ts))
        [(R_CREATED, [R_PLANNING, R_CANCELLED]),
         (R_PLANNING, [R_READY, R_FAILED, R_CANCELLED]),
         (R_READY, [R_RUNNING, R_CANCELLED]),
         (R_RUNNING, [R_VERIFYING, R_BLOCKED, R_FAILED, R_CANCELLED]),
         (R_VERIFYING, [R_REVIEWING, R_FAILED]),
         (R_REVIEWING, [R_COMPLETED, R_FAILED])]),
     (''task'',
      List.map (\<lambda>(s, ts). (task_state_str s, List.map task_state_str ts))
        [(T_PLANNED, [T_READY, T_BLOCKED, T_CANCELLED]),
         (T_BLOCKED, [T_READY, T_CANCELLED]),
         (T_READY, [T_RUNNING, T_CANCELLED]),
         (T_RUNNING, [T_SUCCEEDED, T_FAILED, T_CANCELLED]),
         (T_SUCCEEDED, [T_SUPERSEDED]),
         (T_FAILED, [T_READY, T_CANCELLED])]),
     (''attempt'',
      List.map (\<lambda>(s, ts). (attempt_state_str s, List.map attempt_state_str ts))
        [(A_CREATED, [A_STARTING, A_CANCELLED]),
         (A_STARTING, [A_RUNNING, A_FAILED, A_CANCELLED]),
         (A_RUNNING, [A_COMPLETED, A_FAILED, A_CANCELLED])])]"

definition can_transition :: "string \<Rightarrow> string \<Rightarrow> string \<Rightarrow> bool" where
  "can_transition from_state to_state domain =
     (let transitions = (case map_of VALID_TRANSITIONS domain of None \<Rightarrow> [] | Some d \<Rightarrow> d);
          allowed = (case map_of transitions from_state of None \<Rightarrow> [] | Some l \<Rightarrow> l)
      in to_state \<in> set allowed)"

definition run_step :: "run_state \<Rightarrow> run_state \<Rightarrow> bool" where
  "run_step s t = can_transition (run_state_str s) (run_state_str t) ''run''"

definition task_step :: "task_state \<Rightarrow> task_state \<Rightarrow> bool" where
  "task_step s t = can_transition (task_state_str s) (task_state_str t) ''task''"

definition attempt_step :: "attempt_state \<Rightarrow> attempt_state \<Rightarrow> bool" where
  "attempt_step s t = can_transition (attempt_state_str s) (attempt_state_str t) ''attempt''"

text \<open>The table as the typed step relations it stands for.\<close>

lemma run_step_iff:
  "run_step s t \<longleftrightarrow> t \<in> set (case s of
      R_CREATED \<Rightarrow> [R_PLANNING, R_CANCELLED]
    | R_PLANNING \<Rightarrow> [R_READY, R_FAILED, R_CANCELLED]
    | R_READY \<Rightarrow> [R_RUNNING, R_CANCELLED]
    | R_RUNNING \<Rightarrow> [R_VERIFYING, R_BLOCKED, R_FAILED, R_CANCELLED]
    | R_VERIFYING \<Rightarrow> [R_REVIEWING, R_FAILED]
    | R_REVIEWING \<Rightarrow> [R_COMPLETED, R_FAILED]
    | _ \<Rightarrow> [])"
  by (cases s; cases t) (simp_all add: run_step_def can_transition_def VALID_TRANSITIONS_def)

lemma task_step_iff:
  "task_step s t \<longleftrightarrow> t \<in> set (case s of
      T_PLANNED \<Rightarrow> [T_READY, T_BLOCKED, T_CANCELLED]
    | T_BLOCKED \<Rightarrow> [T_READY, T_CANCELLED]
    | T_READY \<Rightarrow> [T_RUNNING, T_CANCELLED]
    | T_RUNNING \<Rightarrow> [T_SUCCEEDED, T_FAILED, T_CANCELLED]
    | T_SUCCEEDED \<Rightarrow> [T_SUPERSEDED]
    | T_FAILED \<Rightarrow> [T_READY, T_CANCELLED]
    | _ \<Rightarrow> [])"
  by (cases s; cases t) (simp_all add: task_step_def can_transition_def VALID_TRANSITIONS_def)

lemma attempt_step_iff:
  "attempt_step s t \<longleftrightarrow> t \<in> set (case s of
      A_CREATED \<Rightarrow> [A_STARTING, A_CANCELLED]
    | A_STARTING \<Rightarrow> [A_RUNNING, A_FAILED, A_CANCELLED]
    | A_RUNNING \<Rightarrow> [A_COMPLETED, A_FAILED, A_CANCELLED]
    | _ \<Rightarrow> [])"
  by (cases s; cases t) (simp_all add: attempt_step_def can_transition_def VALID_TRANSITIONS_def)

lemmas step_iffs = run_step_iff task_step_iff attempt_step_iff

section \<open>Lifecycles\<close>

text \<open>
  What the runtime relies on in a transition table: a set of final states no step leaves, and a
  height that every step lowers except the ones that retry. Paths are the reflexive, transitive
  closure of the steps.
\<close>

locale lifecycle =
  fixes lc_step :: "'s \<Rightarrow> 's \<Rightarrow> bool"
    and final :: "'s \<Rightarrow> bool"
    and initial :: 's
  assumes final_stuck: "final s \<Longrightarrow> \<not> lc_step s t"
    and initial_not_final: "\<not> final initial"
    and no_return: "\<not> lc_step s initial"
begin

lemma final_closed: "lc_step\<^sup>*\<^sup>* s t \<Longrightarrow> final s \<Longrightarrow> t = s"
  by (erule converse_rtranclpE) (auto simp: final_stuck)

lemma never_restarts: "lc_step\<^sup>*\<^sup>* s initial \<Longrightarrow> s = initial"
  by (erule rtranclp.cases) (auto simp: no_return)

lemma reaches_final_once:
  assumes "lc_step\<^sup>*\<^sup>* s t" and "lc_step\<^sup>*\<^sup>* t u" and "final t"
  shows "u = t"
  using assms final_closed by blast

end

fun run_final :: "run_state \<Rightarrow> bool" where
  "run_final s = (s \<in> {R_COMPLETED, R_BLOCKED, R_CANCELLED, R_FAILED})"

fun task_final :: "task_state \<Rightarrow> bool" where
  "task_final s = (s \<in> {T_CANCELLED, T_SUPERSEDED})"

fun attempt_final :: "attempt_state \<Rightarrow> bool" where
  "attempt_final s = (s \<in> {A_COMPLETED, A_FAILED, A_CANCELLED})"

interpretation run_lc: lifecycle run_step run_final R_CREATED
  by unfold_locales (auto simp: run_step_iff split: run_state.splits)

interpretation task_lc: lifecycle task_step task_final T_PLANNED
  by unfold_locales (auto simp: task_step_iff split: task_state.splits)

interpretation attempt_lc: lifecycle attempt_step attempt_final A_CREATED
  by unfold_locales (auto simp: attempt_step_iff split: attempt_state.splits)

end
