(* ===== verification/Config.thy ===== *)
theory Config
  imports Models
begin

text \<open>
  The configuration record (\<open>config.py\<close>) with the defaults of the code. The layers that override it are
  modelled on attribute dictionaries in \<open>Settings\<close>; the components take this typed record. Amounts of
  money are exact rationals.
\<close>

record config =
  project_root :: string
  project_id :: string
  autonomy_mode :: string
  planning_requires_human :: bool
  max_parallel_tasks :: int
  max_retries_per_task :: int
  max_fallback_attempts :: int
  max_cost_per_run_usd :: rat
  max_tokens_per_run :: int
  state_dir :: string
  database_file :: string
  worktree_base :: string
  isolate_mutating_tasks :: bool
  worktree_strategy :: string
  command_code_timeout_seconds :: int
  command_code_max_turns :: int
  acp_agent_command :: "string list"
  provider_credential_refs :: "(string \<times> string) list"
  mcp_enabled :: bool
  mcp_servers :: "string list"
  log_level :: string
  redaction_patterns :: "string list"
  artifact_retention_days :: int
  transcript_retention_days :: int

text \<open>\<open>read_id\<close> is what \<open>_read_project_id\<close> finds in the project's manifest.\<close>

definition default_config :: "string \<Rightarrow> string \<Rightarrow> (string \<Rightarrow> string) \<Rightarrow> config" where
  "default_config dir pid read_id = \<lparr>project_root = dir,
     project_id = (if pid = [] then read_id dir else pid),
     autonomy_mode = ''agentic'', planning_requires_human = True,
     max_parallel_tasks = 4, max_retries_per_task = 3, max_fallback_attempts = 2,
     max_cost_per_run_usd = 10, max_tokens_per_run = 1000000,
     state_dir = ''.atlas-flow'', database_file = ''state.db'',
     worktree_base = [], isolate_mutating_tasks = True, worktree_strategy = ''per-task'',
     command_code_timeout_seconds = 600, command_code_max_turns = 50, acp_agent_command = [],
     provider_credential_refs = [], mcp_enabled = False, mcp_servers = [], log_level = ''INFO'',
     redaction_patterns = [], artifact_retention_days = 30, transcript_retention_days = 90\<rparr>"

definition state_path :: "config \<Rightarrow> string" where
  "state_path c = project_root c @ ''/'' @ state_dir c"

definition database_path :: "config \<Rightarrow> string" where
  "database_path c = state_path c @ ''/'' @ database_file c"

end
