(* ===== verification/Dag.thy ===== *)
theory Dag
  imports Models "HOL-Library.Multiset"
begin

text \<open>
  The planner's task graph (\<open>planner/dag.py\<close>): the plan records, \<open>validate_dag\<close> with its
  depth-first cycle search, the write-scope conflict report and the execution order. The main facts:
  a plan is accepted exactly when every dependency is known and the dependency graph has no cycle,
  and then \<open>dependency_aware_order\<close> returns a permutation in which dependencies come first.
\<close>

section \<open>Plans\<close>

datatype risk_level = LOW | MEDIUM | HIGH

fun risk_str :: "risk_level \<Rightarrow> string" where
  "risk_str LOW = ''low''"
| "risk_str MEDIUM = ''medium''"
| "risk_str HIGH = ''high''"

record task_node =
  n_id :: string
  n_objective :: string
  n_dependencies :: "string list"
  n_write_scope :: "string list"
  n_gates :: "string list"
  n_risk :: risk_level
  n_parallelizable :: bool
  n_capabilities :: "string list"

record plan =
  pl_goal_id :: string
  pl_tasks :: "task_node list"

definition task_by_id :: "plan \<Rightarrow> string \<Rightarrow> task_node option" where
  "task_by_id p i = find (\<lambda>t. n_id t = i) (pl_tasks p)"

definition downstream_of :: "plan \<Rightarrow> string \<Rightarrow> task_node list" where
  "downstream_of p i = filter (\<lambda>t. i \<in> set (n_dependencies t)) (pl_tasks p)"

section \<open>Cycle search\<close>

text \<open>
  The \<open>color\<close> dictionary has the task ids as its keys throughout, so it is the list \<open>N\<close> of the ids
  and a function giving 0 (white), 1 (gray) or 2 (black). \<open>visit\<close> is the loop of \<open>dfs\<close> over the
  neighbours \<open>vs\<close>, with the recursive call \<open>dfs(v)\<close> unfolded in its white branch.
\<close>

definition adj_of :: "plan \<Rightarrow> string \<Rightarrow> string list" where
  "adj_of p = fold (\<lambda>t m. m(n_id t := n_dependencies t)) (pl_tasks p) (\<lambda>_. [])"

function visit ::
  "string list \<Rightarrow> (string \<Rightarrow> string list) \<Rightarrow> string list \<Rightarrow> (string \<Rightarrow> nat) \<Rightarrow>
   bool \<times> (string \<Rightarrow> nat)" where
  "visit N adj [] c = (False, c)"
| "visit N adj (v # vs) c =
     (if v \<notin> set N then visit N adj vs c
      else if c v = 1 then (True, c)
      else if c v = 0 then
        (case visit N adj (adj v) (c(v := 1)) of
           (True, c1) \<Rightarrow> (True, c1)
         | (False, c1) \<Rightarrow> visit N adj vs (c1(v := 2)))
      else visit N adj vs c)"
  by pat_completeness auto

abbreviation white :: "string list \<Rightarrow> (string \<Rightarrow> nat) \<Rightarrow> string set" where
  "white N c \<equiv> {x \<in> set N. c x = 0}"

lemma visit_white_dom:
  "visit_dom (N, adj, vs, c) \<Longrightarrow> snd (visit N adj vs c) x = 0 \<Longrightarrow> c x = 0"
proof (induction N adj vs c rule: visit.pinduct)
  case (1 N adj c)
  then show ?case by (simp add: visit.psimps)
next
  case (2 N adj v vs c)
  obtain b c1 where r: "visit N adj (adj v) (c(v := 1)) = (b, c1)"
    by (cases "visit N adj (adj v) (c(v := 1))")
  note psimp = visit.psimps(2) [OF 2(1)]
  consider "v \<notin> set N" | "v \<in> set N" "c v = 1" | "v \<in> set N" "c v \<noteq> 0" "c v \<noteq> 1"
    | "v \<in> set N" "c v = 0" by blast
  then show ?case
  proof cases
    case 4
    have inner: "c1 y = 0 \<Longrightarrow> y = x \<Longrightarrow> x \<noteq> v \<and> c x = 0" for y
    proof -
      assume "c1 y = 0" and "y = x"
      then have "snd (visit N adj (adj v) (c(v := 1))) x = 0" by (simp only: r snd_conv)
      then have "(c(v := 1)) x = 0" using 4 by (intro "2.IH"(2)) (assumption | simp)+
      then show "x \<noteq> v \<and> c x = 0" by (simp split: if_splits)
    qed
    show ?thesis
    proof (cases b)
      case True
      with "2.prems" 4 r inner psimp show ?thesis by simp
    next
      case False
      then have "snd (visit N adj vs (c1(v := 2))) x = 0" using "2.prems" 4 r psimp by simp
      with False have "(c1(v := 2)) x = 0"
        using 4 by (intro "2.IH"(3) [OF _ _ _ r [symmetric]]) (assumption | simp)+
      with inner show ?thesis by (simp split: if_splits)
    qed
  qed (use 2 psimp in simp_all)
qed

termination visit
proof (relation "inv_image (less_than <*lex*> less_than)
    (\<lambda>(N, adj, vs, c). (card (white N c), length vs))", goal_cases)
  case 1
  show ?case by (intro wf_inv_image wf_lex_prod wf_less_than)
next
  case (2 N adj v vs c)
  then show ?case by simp
next
  case (3 N adj v vs c)
  then have "white N (c(v := 1)) \<subset> white N c" by (auto split: if_splits)
  then show ?case by (simp add: psubset_card_mono)
next
  case (4 N adj v vs c b c1)
  have "c1 x = 0 \<Longrightarrow> x \<noteq> v \<and> c x = 0" for x
    using visit_white_dom [OF 4(6), of x] unfolding 4(4) [symmetric] by (simp split: if_splits)
  then have "white N (c1(v := 2)) \<subset> white N c"
    using 4(1-3) by (auto split: if_splits)
  then show ?case by (simp add: psubset_card_mono)
next
  case (5 N adj v vs c)
  then show ?case by simp
qed

definition dfs ::
  "string list \<Rightarrow> (string \<Rightarrow> string list) \<Rightarrow> string \<Rightarrow> (string \<Rightarrow> nat) \<Rightarrow> bool \<times> (string \<Rightarrow> nat)" where
  "dfs N adj u c =
     (if u \<notin> set N then (False, c)
      else (case visit N adj (adj u) (c(u := 1)) of
              (True, c1) \<Rightarrow> (True, c1)
            | (False, c1) \<Rightarrow> (False, c1(u := 2))))"

fun cycle_search ::
  "string list \<Rightarrow> (string \<Rightarrow> string list) \<Rightarrow> string list \<Rightarrow> (string \<Rightarrow> nat) \<Rightarrow> string option" where
  "cycle_search N adj [] c = None"
| "cycle_search N adj (i # is) c =
     (if c i = 0 then
        (case dfs N adj i c of
           (True, c1) \<Rightarrow> Some i
         | (False, c1) \<Rightarrow> cycle_search N adj is c1)
      else cycle_search N adj is c)"

text \<open>
  \<open>set_order\<close> is the order in which Python iterates over the set of ids built from the given list;
  the facts below hold for every such order.
\<close>

definition closure_errors :: "plan \<Rightarrow> string list" where
  "closure_errors p =
     concat (List.map (\<lambda>t.
       List.map (\<lambda>d. ''Task '' @ quoted (n_id t) @ '' depends on unknown task '' @ quoted d)
         (filter (\<lambda>d. d \<notin> set (List.map n_id (pl_tasks p))) (n_dependencies t)))
       (pl_tasks p))"

definition validate_dag :: "(string list \<Rightarrow> string list) \<Rightarrow> plan \<Rightarrow> string list" where
  "validate_dag set_order p =
     (let ids = List.map n_id (pl_tasks p)
      in closure_errors p @
         (case cycle_search ids (adj_of p) (set_order ids) (\<lambda>_. 0) of
            None \<Rightarrow> []
          | Some i \<Rightarrow> [''Cycle detected involving task '' @ quoted i]))"

subsection \<open>Correctness of the search\<close>

definition edges :: "string list \<Rightarrow> (string \<Rightarrow> string list) \<Rightarrow> (string \<times> string) set" where
  "edges N adj = {(u, v). u \<in> set N \<and> v \<in> set N \<and> v \<in> set (adj u)}"

definition black :: "string list \<Rightarrow> (string \<Rightarrow> nat) \<Rightarrow> string set" where
  "black N c = {x \<in> set N. c x \<noteq> 0 \<and> c x \<noteq> 1}"

definition safe :: "string list \<Rightarrow> (string \<Rightarrow> string list) \<Rightarrow> (string \<Rightarrow> nat) \<Rightarrow> bool" where
  "safe N adj c \<longleftrightarrow> edges N adj `` black N c \<subseteq> black N c
     \<and> (\<forall>x \<in> black N c. (x, x) \<notin> (edges N adj)\<^sup>+)"

lemma closed_trancl: "(x, y) \<in> r\<^sup>+ \<Longrightarrow> x \<in> B \<Longrightarrow> r `` B \<subseteq> B \<Longrightarrow> y \<in> B"
  by (induction rule: trancl_induct) auto

lemma safe_blacken:
  assumes "safe N adj c" and v: "v \<in> set N" "c v = 1"
    and kids: "set (adj v) \<inter> set N \<subseteq> black N c"
  shows "safe N adj (c(v := 2))"
proof -
  let ?E = "edges N adj"
  have B: "black N (c(v := 2)) = insert v (black N c)"
    using v by (auto simp: black_def)
  have closed: "?E `` black N c \<subseteq> black N c" and acyc: "\<forall>x \<in> black N c. (x, x) \<notin> ?E\<^sup>+"
    using assms(1) by (auto simp: safe_def)
  have "v \<notin> black N c" using v by (simp add: black_def)
  have "(v, v) \<notin> ?E\<^sup>+"
  proof
    assume "(v, v) \<in> ?E\<^sup>+"
    then obtain w where "(v, w) \<in> ?E" and w: "w = v \<or> (w, v) \<in> ?E\<^sup>+"
      by (auto elim: converse_tranclE)
    then have "w \<in> black N c" using kids by (auto simp: edges_def)
    with w have "v \<in> black N c" using closed closed_trancl by metis
    with \<open>v \<notin> black N c\<close> show False ..
  qed
  moreover have "?E `` insert v (black N c) \<subseteq> insert v (black N c)"
    using closed kids by (auto simp: edges_def)
  ultimately show ?thesis using acyc by (simp add: safe_def B)
qed

lemma visit_gray: "visit N adj vs c = (False, c') \<Longrightarrow> (c' x = 1) = (c x = 1)"
  by (induction N adj vs c arbitrary: c' rule: visit.induct)
    (auto split: if_splits prod.splits bool.splits)

lemma visit_complete:
  "visit N adj vs c = (False, c') \<Longrightarrow> safe N adj c \<Longrightarrow>
   safe N adj c' \<and> set vs \<inter> set N \<subseteq> black N c' \<and> black N c \<subseteq> black N c'"
proof (induction N adj vs c arbitrary: c' rule: visit.induct)
  case (1 N adj c)
  then show ?case by simp
next
  case (2 N adj v vs c)
  consider "v \<notin> set N" | "v \<in> set N" "c v = 1" | "v \<in> set N" "c v \<noteq> 0" "c v \<noteq> 1"
    | "v \<in> set N" "c v = 0" by blast
  then show ?case
  proof cases
    case 3
    with 2 have "safe N adj c' \<and> set vs \<inter> set N \<subseteq> black N c' \<and> black N c \<subseteq> black N c'"
      by simp
    moreover have "v \<in> black N c" using 3 by (simp add: black_def)
    ultimately show ?thesis by auto
  next
    case 4
    obtain b c1 where r: "visit N adj (adj v) (c(v := 1)) = (b, c1)"
      by (cases "visit N adj (adj v) (c(v := 1))")
    from 2 4 r have b: "\<not> b" and c': "visit N adj vs (c1(v := 2)) = (False, c')"
      by (auto split: bool.splits)
    have eq: "black N (c(v := 1)) = black N c" using 4 by (auto simp: black_def)
    then have "safe N adj (c(v := 1))" using "2.prems"(2) by (simp add: safe_def)
    moreover have "visit N adj (adj v) (c(v := 1)) = (False, c1)" using r b by simp
    ultimately have "safe N adj c1 \<and> set (adj v) \<inter> set N \<subseteq> black N c1
        \<and> black N (c(v := 1)) \<subseteq> black N c1"
      using 4 by (intro "2.IH"(2)) (assumption | simp)+
    then have inner: "safe N adj c1" "set (adj v) \<inter> set N \<subseteq> black N c1" "black N c \<subseteq> black N c1"
      by (simp_all only: eq)
    have "c1 v = 1" using visit_gray [of N adj "adj v" "c(v := 1)" c1 v] r b by simp
    then have s1: "safe N adj (c1(v := 2))" using safe_blacken inner 4 by blast
    with c' have fin: "safe N adj c' \<and> set vs \<inter> set N \<subseteq> black N c'
        \<and> black N (c1(v := 2)) \<subseteq> black N c'"
      using 4 b by (intro "2.IH"(3) [OF _ _ _ r [symmetric]]) (assumption | simp)+
    moreover have "insert v (black N c1) \<subseteq> black N (c1(v := 2))"
      using 4 by (auto simp: black_def)
    ultimately show ?thesis using inner by auto
  qed (use 2 in auto)
qed

lemma visit_sound:
  "visit N adj vs c = (True, c') \<Longrightarrow> u \<in> set N \<Longrightarrow> set vs \<subseteq> set (adj u) \<Longrightarrow>
   (\<And>g. g \<in> set N \<Longrightarrow> c g = 1 \<Longrightarrow> (g, u) \<in> (edges N adj)\<^sup>*) \<Longrightarrow>
   \<exists>x \<in> set N. (x, x) \<in> (edges N adj)\<^sup>+"
proof (induction N adj vs c arbitrary: c' u rule: visit.induct)
  case (1 N adj c)
  then show ?case by simp
next
  case (2 N adj v vs c)
  have step: "v \<in> set N \<Longrightarrow> (u, v) \<in> edges N adj"
    using "2.prems" by (auto simp: edges_def)
  consider "v \<notin> set N" | "v \<in> set N" "c v = 1" | "v \<in> set N" "c v \<noteq> 0" "c v \<noteq> 1"
    | "v \<in> set N" "c v = 0" by blast
  then show ?case
  proof cases
    case 2
    then have "(v, u) \<in> (edges N adj)\<^sup>*" using "2.prems"(4) by simp
    then have "(u, u) \<in> (edges N adj)\<^sup>+" using step 2 by (meson r_into_trancl trancl_rtrancl_trancl)
    then show ?thesis using "2.prems" by blast
  next
    case 4
    obtain b c1 where r: "visit N adj (adj v) (c(v := 1)) = (b, c1)"
      by (cases "visit N adj (adj v) (c(v := 1))")
    show ?thesis
    proof (cases b)
      case True
      have "(g, v) \<in> (edges N adj)\<^sup>*" if "g \<in> set N" "(c(v := 1)) g = 1" for g
        using that step 4 "2.prems"(4) [of g] by (auto split: if_splits intro: rtrancl_into_rtrancl)
      moreover have "visit N adj (adj v) (c(v := 1)) = (True, c1)" using r True by simp
      ultimately show ?thesis using 4 by (intro "2.IH"(2) [of c1 v]) (assumption | simp)+
    next
      case False
      have "(g, u) \<in> (edges N adj)\<^sup>*" if "g \<in> set N" "(c1(v := 2)) g = 1" for g
        using that visit_gray [of N adj "adj v" "c(v := 1)" c1 g] r False "2.prems"(4) [of g]
        by (auto split: if_splits)
      moreover have "visit N adj vs (c1(v := 2)) = (True, c')" using "2.prems"(1) 4 r False by simp
      ultimately show ?thesis
        using 4 False "2.prems"(2,3)
        by (intro "2.IH"(3) [OF _ _ _ r [symmetric], of c' u]) (assumption | simp)+
    qed
  qed (use 2 in auto)
qed

subsection \<open>What an accepted plan is\<close>

definition deps_rel :: "plan \<Rightarrow> (string \<times> string) set" where
  "deps_rel p = {(n_id t, d) | t d. t \<in> set (pl_tasks p) \<and> d \<in> set (n_dependencies t)}"

definition deps_known :: "plan \<Rightarrow> bool" where
  "deps_known p \<longleftrightarrow>
     (\<forall>t \<in> set (pl_tasks p). set (n_dependencies t) \<subseteq> n_id ` set (pl_tasks p))"

definition distinct_ids :: "plan \<Rightarrow> bool" where
  "distinct_ids p \<longleftrightarrow> distinct (List.map n_id (pl_tasks p))"

lemma safe_start: "safe N adj c \<Longrightarrow> c u = 0 \<Longrightarrow> safe N adj (c(u := 1))"
proof -
  assume "safe N adj c" and "c u = 0"
  then have eq: "black N (c(u := 1)) = black N c" by (auto simp: black_def)
  show ?thesis using \<open>safe N adj c\<close> unfolding safe_def eq .
qed

lemma dfs_False:
  assumes r: "dfs N adj u c = (False, c')" and c: "safe N adj c" "c u = 0" "\<forall>x. c x \<noteq> 1" "u \<in> set N"
  shows "safe N adj c' \<and> u \<in> black N c' \<and> black N c \<subseteq> black N c' \<and> (\<forall>x. c' x \<noteq> 1)"
proof -
  obtain c1 where v: "visit N adj (adj u) (c(u := 1)) = (False, c1)" and c': "c' = c1(u := 2)"
    using r c by (auto simp: dfs_def split: prod.splits bool.splits)
  have black_eq: "black N (c(u := 1)) = black N c" using c by (auto simp: black_def)
  have gray: "(c1 x = 1) = (x = u)" for x
    using visit_gray [OF v, of x] c(3) by (auto split: if_splits)
  have inner: "safe N adj c1 \<and> set (adj u) \<inter> set N \<subseteq> black N c1 \<and> black N (c(u := 1)) \<subseteq> black N c1"
    by (rule visit_complete [OF v safe_start [OF c(1,2)]])
  then have "safe N adj c'" unfolding c' using safe_blacken gray c(4) by blast
  moreover have "black N c \<subseteq> black N c'" using inner unfolding black_eq c' by (auto simp: black_def)
  moreover have "u \<in> black N c'" "\<forall>x. c' x \<noteq> 1" using c(4) gray by (auto simp: c' black_def)
  ultimately show ?thesis by blast
qed

lemma dfs_True:
  assumes r: "dfs N adj u c = (True, c')" and c: "\<forall>x. c x \<noteq> 1"
  shows "\<exists>x \<in> set N. (x, x) \<in> (edges N adj)\<^sup>+"
proof -
  have "u \<in> set N" "visit N adj (adj u) (c(u := 1)) = (True, c')"
    using r by (auto simp: dfs_def split: if_splits prod.splits bool.splits)
  then show ?thesis using c by (intro visit_sound) (auto split: if_splits)
qed

lemma cycle_search_None:
  "cycle_search N adj is c = None \<Longrightarrow> safe N adj c \<Longrightarrow> \<forall>x. c x \<noteq> 1 \<Longrightarrow> set is \<subseteq> set N \<Longrightarrow>
   \<exists>c'. safe N adj c' \<and> set is \<subseteq> black N c' \<and> black N c \<subseteq> black N c'"
proof (induction "is" arbitrary: c)
  case (Cons i "is")
  show ?case
  proof (cases "c i = 0")
    case True
    with Cons.prems obtain c1 where d: "dfs N adj i c = (False, c1)"
      and rest: "cycle_search N adj is c1 = None"
      by (auto split: prod.splits bool.splits)
    have "safe N adj c1 \<and> i \<in> black N c1 \<and> black N c \<subseteq> black N c1 \<and> (\<forall>x. c1 x \<noteq> 1)"
      using dfs_False [OF d] Cons.prems True by simp
    moreover then obtain c' where "safe N adj c' \<and> set is \<subseteq> black N c' \<and> black N c1 \<subseteq> black N c'"
      using Cons.IH [OF rest] Cons.prems by auto
    ultimately show ?thesis by (intro exI [of _ c']) auto
  next
    case False
    then have "i \<in> black N c" using Cons.prems by (simp add: black_def)
    then show ?thesis using Cons.IH [of c] Cons.prems False by fastforce
  qed
qed auto

lemma cycle_search_Some:
  "cycle_search N adj is c = Some i \<Longrightarrow> safe N adj c \<Longrightarrow> \<forall>x. c x \<noteq> 1 \<Longrightarrow> set is \<subseteq> set N \<Longrightarrow>
   \<exists>x \<in> set N. (x, x) \<in> (edges N adj)\<^sup>+"
proof (induction "is" arbitrary: c)
  case (Cons j "is")
  show ?case
  proof (cases "c j = 0")
    case True
    obtain b c1 where d: "dfs N adj j c = (b, c1)" by (cases "dfs N adj j c")
    show ?thesis
    proof (cases b)
      case False
      then have "safe N adj c1 \<and> (\<forall>x. c1 x \<noteq> 1)" using dfs_False [of N adj j c c1] d Cons.prems True by simp
      then show ?thesis using Cons.IH [of c1] Cons.prems True d False by simp
    qed (use dfs_True d Cons.prems in metis)
  qed (use Cons in simp)
qed simp

lemma cycle_search_iff:
  assumes "set is = set N"
  shows "cycle_search N adj is (\<lambda>_. 0) = None \<longleftrightarrow> acyclic (edges N adj)"
proof -
  have s: "safe N adj (\<lambda>_. 0)" by (simp add: safe_def black_def)
  show ?thesis
  proof
    assume "cycle_search N adj is (\<lambda>_. 0) = None"
    then obtain c where c: "safe N adj c" "set N \<subseteq> black N c"
      using cycle_search_None [of N adj "is" "\<lambda>_. 0"] s assms by auto
    have "x \<in> set N" if "(x, x) \<in> (edges N adj)\<^sup>+" for x
      using that by (auto elim!: converse_tranclE simp: edges_def)
    then show "acyclic (edges N adj)" using c unfolding acyclic_def safe_def by blast
  next
    assume "acyclic (edges N adj)"
    then show "cycle_search N adj is (\<lambda>_. 0) = None"
      using cycle_search_Some [OF _ s] assms by (cases "cycle_search N adj is (\<lambda>_. 0)") (auto simp: acyclic_def)
  qed
qed

lemma adj_fold_other:
  "u \<notin> n_id ` set ts \<Longrightarrow> fold (\<lambda>t m. m(n_id t := n_dependencies t)) ts m u = m u"
  by (induction ts arbitrary: m) auto

lemma adj_fold:
  "distinct (List.map n_id ts) \<Longrightarrow> t \<in> set ts \<Longrightarrow>
   fold (\<lambda>t m. m(n_id t := n_dependencies t)) ts m (n_id t) = n_dependencies t"
  by (induction ts arbitrary: m) (auto simp: adj_fold_other)

lemma adj_of_task: "distinct_ids p \<Longrightarrow> t \<in> set (pl_tasks p) \<Longrightarrow> adj_of p (n_id t) = n_dependencies t"
  unfolding adj_of_def distinct_ids_def by (rule adj_fold)

lemma edges_deps_rel:
  assumes "distinct_ids p" and "deps_known p"
  shows "edges (List.map n_id (pl_tasks p)) (adj_of p) = deps_rel p"
  using assms adj_of_task [OF assms(1)] unfolding edges_def deps_rel_def deps_known_def by auto

lemma closure_errors_Nil: "closure_errors p = [] \<longleftrightarrow> deps_known p"
  by (auto simp: closure_errors_def deps_known_def filter_empty_conv)

lemma validate_dag_known: "validate_dag f p = [] \<Longrightarrow> deps_known p"
  by (simp add: validate_dag_def Let_def flip: closure_errors_Nil)

lemma validate_dag_valid:
  assumes "distinct_ids p" and "\<And>xs. set (f xs) = set xs"
  shows "validate_dag f p = [] \<longleftrightarrow> deps_known p \<and> acyclic (deps_rel p)"
proof (cases "deps_known p")
  case True
  then show ?thesis
    using cycle_search_iff [of "f (List.map n_id (pl_tasks p))" "List.map n_id (pl_tasks p)" "adj_of p"]
      assms(2) edges_deps_rel [OF assms(1) True] closure_errors_Nil [of p]
    by (auto simp: validate_dag_def Let_def split: option.splits)
qed (use validate_dag_known in blast)

section \<open>Execution order\<close>

lemma remove_ready: "fold remove1 (filter P xs) xs = filter (\<lambda>x. \<not> P x) xs"
proof (induction xs)
  case (Cons x xs)
  have "x \<notin> set ys \<Longrightarrow> fold remove1 ys (x # zs) = x # fold remove1 ys zs" for ys zs
    by (induction ys arbitrary: zs) auto
  with Cons show ?case by simp
qed simp

definition ready_now :: "string list \<Rightarrow> task_node list \<Rightarrow> task_node list" where
  "ready_now completed remaining =
     filter (\<lambda>t. list_all (\<lambda>d. d \<in> set completed) (n_dependencies t)) remaining"

function order_loop ::
  "task_node list \<Rightarrow> string list \<Rightarrow> task_node list \<Rightarrow> exn + task_node list" where
  "order_loop remaining completed result =
     (if remaining = [] then Inr result
      else let ready = ready_now completed remaining
        in if ready = [] then Inl (DAGError ''Cannot resolve execution order: cycle or missing dependency'')
           else order_loop (fold remove1 ready remaining) (completed @ List.map n_id ready)
                  (result @ ready))"
  by pat_completeness auto
termination
proof (relation "measure (\<lambda>(remaining, _). length remaining)", goal_cases)
  case (2 remaining completed result ready)
  then obtain t where "t \<in> set remaining" "list_all (\<lambda>d. d \<in> set completed) (n_dependencies t)"
    by (auto simp: ready_now_def filter_empty_conv)
  then show ?case unfolding 2(2) ready_now_def remove_ready
    by (simp add: length_filter_less)
qed simp

declare order_loop.simps [simp del]

definition dependency_aware_order :: "plan \<Rightarrow> exn + task_node list" where
  "dependency_aware_order p = order_loop (pl_tasks p) [] []"

text \<open>The order it promises: every task comes after the tasks it depends on.\<close>

fun deps_first :: "string set \<Rightarrow> task_node list \<Rightarrow> bool" where
  "deps_first done [] = True"
| "deps_first done (t # ts) =
     (set (n_dependencies t) \<subseteq> done \<and> deps_first (insert (n_id t) done) ts)"

lemma deps_first_append:
  "deps_first D (xs @ ys) \<longleftrightarrow> deps_first D xs \<and> deps_first (D \<union> n_id ` set xs) ys"
  by (induction xs arbitrary: D) auto

lemma deps_first_all: "\<forall>t \<in> set ts. set (n_dependencies t) \<subseteq> D \<Longrightarrow> deps_first D ts"
  by (induction ts arbitrary: D) (auto simp: subset_insertI2)

lemma deps_first_nth:
  "deps_first D ts \<Longrightarrow> i < length ts \<Longrightarrow> set (n_dependencies (ts ! i)) \<subseteq> D \<union> n_id ` set (take i ts)"
proof (induction ts arbitrary: D i)
  case (Cons t ts)
  then show ?case
  proof (cases i)
    case (Suc j)
    with Cons have "set (n_dependencies (ts ! j)) \<subseteq> insert (n_id t) D \<union> n_id ` set (take j ts)" by auto
    with Suc show ?thesis by auto
  qed simp
qed simp

lemma deps_first_known:
  "deps_first D ts \<Longrightarrow> t \<in> set ts \<Longrightarrow> set (n_dependencies t) \<subseteq> D \<union> n_id ` set ts"
  by (induction ts arbitrary: D) fastforce+

lemma order_loop_sound:
  "order_loop rem cs res = Inr out \<Longrightarrow> deps_first {} res \<Longrightarrow> set cs = n_id ` set res \<Longrightarrow>
   mset out = mset res + mset rem \<and> deps_first {} out"
proof (induction rem cs res rule: order_loop.induct)
  case (1 rem cs res)
  show ?case
  proof (cases "rem = []")
    case False
    let ?ready = "ready_now cs rem"
    from 1(2) False have ne: "?ready \<noteq> []"
      and next_: "order_loop (fold remove1 ?ready rem) (cs @ List.map n_id ?ready) (res @ ?ready) = Inr out"
      by (subst (asm) order_loop.simps, auto simp: Let_def split: if_splits)+
    have "deps_first {} (res @ ?ready)"
      using 1(3,4) by (auto simp: deps_first_append ready_now_def list_all_iff intro!: deps_first_all)
    with 1(1) [OF False refl ne next_] 1(4)
    have "mset out = mset (res @ ?ready) + mset (fold remove1 ?ready rem) \<and> deps_first {} out"
      by (simp add: image_Un)
    then show ?thesis by (simp add: ready_now_def remove_ready)
  qed (use 1 order_loop.simps in simp)
qed

lemma order_loop_complete:
  assumes "finite r" "acyclic r"
  shows "set rem \<subseteq> T \<Longrightarrow> n_id ` T = set cs \<union> n_id ` set rem \<Longrightarrow>
    (\<And>t d. t \<in> T \<Longrightarrow> d \<in> set (n_dependencies t) \<Longrightarrow> (n_id t, d) \<in> r \<and> d \<in> n_id ` T) \<Longrightarrow>
    \<exists>out. order_loop rem cs res = Inr out"
proof (induction rem cs res rule: order_loop.induct)
  case (1 rem cs res)
  show ?case
  proof (cases "rem = []")
    case False
    let ?ready = "ready_now cs rem"
    have "wf (r\<inverse>)" using assms by (rule finite_acyclic_wf_converse)
    moreover from False have "n_id (last rem) \<in> n_id ` set rem" by simp
    ultimately obtain m where m: "m \<in> n_id ` set rem" "\<And>y. (y, m) \<in> r\<inverse> \<Longrightarrow> y \<notin> n_id ` set rem"
      using wfE_min by metis
    then obtain t where t: "t \<in> set rem" "n_id t = m" by auto
    have "d \<in> set cs" if "d \<in> set (n_dependencies t)" for d
      using 1(4) [of t d] 1(2,3) m(2) t that by auto
    then have ne: "?ready \<noteq> []" using t(1) by (auto simp: ready_now_def filter_empty_conv list_all_iff)
    have "\<exists>out. order_loop (fold remove1 ?ready rem) (cs @ List.map n_id ?ready) (res @ ?ready) = Inr out"
      by (rule 1(1) [OF False refl ne]) (use 1(2-4) in \<open>auto simp: ready_now_def remove_ready\<close>)
    with False ne show ?thesis by (subst order_loop.simps) (simp add: Let_def)
  qed (simp add: order_loop.simps)
qed

lemma finite_deps_rel: "finite (deps_rel p)"
proof -
  have "deps_rel p = (\<Union>t \<in> set (pl_tasks p). Pair (n_id t) ` set (n_dependencies t))"
    by (auto simp: deps_rel_def)
  then show ?thesis by simp
qed

lemma order_acyclic:
  assumes "deps_first {} out" and "distinct (List.map n_id out)" and "set out = set (pl_tasks p)"
  shows "deps_known p \<and> acyclic (deps_rel p)"
proof
  have earlier: "\<exists>j < i. d = n_id (out ! j)"
    if "i < length out" "d \<in> set (n_dependencies (out ! i))" for i d
  proof -
    have "d \<in> n_id ` set (take i out)" using deps_first_nth [OF assms(1) that(1)] that(2) by auto
    then obtain j where "j < i" "d = n_id (out ! j)" using that(1) by (auto simp: in_set_conv_nth)
    then show ?thesis by blast
  qed
  show "deps_known p"
    unfolding deps_known_def assms(3) [symmetric] using deps_first_known [OF assms(1)] by simp
  let ?pos = "\<lambda>x. LEAST i. i < length out \<and> n_id (out ! i) = x"
  have pos: "?pos (n_id (out ! i)) = i" if "i < length out" for i
    using that assms(2) by (intro Least_equality) (auto simp: distinct_conv_nth)
  show "acyclic (deps_rel p)"
  proof (rule acyclicI_order [of _ ?pos])
    fix a b assume "(a, b) \<in> deps_rel p"
    then obtain i where "i < length out" "a = n_id (out ! i)" "b \<in> set (n_dependencies (out ! i))"
      by (auto simp: deps_rel_def assms(3) [symmetric] in_set_conv_nth)
    then show "?pos b < ?pos a" using earlier [of i b] pos by fastforce
  qed
qed

lemma order_sound:
  "dependency_aware_order p = Inr out \<Longrightarrow> mset out = mset (pl_tasks p) \<and> deps_first {} out"
  using order_loop_sound [of "pl_tasks p" "[]" "[]" out] by (simp add: dependency_aware_order_def)

lemma order_iff_valid:
  assumes "distinct_ids p" and "\<And>xs. set (f xs) = set xs"
  shows "(\<exists>out. dependency_aware_order p = Inr out) \<longleftrightarrow> validate_dag f p = []"
proof
  assume "\<exists>out. dependency_aware_order p = Inr out"
  then obtain out where out: "mset out = mset (pl_tasks p)" "deps_first {} out" using order_sound by blast
  then have "mset (List.map n_id out) = mset (List.map n_id (pl_tasks p))" by simp
  then have "distinct (List.map n_id out)"
    using assms(1) unfolding distinct_ids_def by (metis mset_eq_imp_distinct_iff)
  with out show "validate_dag f p = []"
    using order_acyclic mset_eq_setD validate_dag_valid [of p f, OF assms] by blast
next
  assume "validate_dag f p = []"
  then have v: "deps_known p" "acyclic (deps_rel p)" using validate_dag_valid [of p f, OF assms] by auto
  show "\<exists>out. dependency_aware_order p = Inr out"
    unfolding dependency_aware_order_def
    by (rule order_loop_complete [OF finite_deps_rel [of p] v(2), of _ "set (pl_tasks p)"])
      (use v(1) in \<open>auto simp: deps_rel_def deps_known_def\<close>)
qed

section \<open>Write-scope conflicts\<close>

fun common_prefix :: "'a list \<Rightarrow> 'a list \<Rightarrow> 'a list" where
  "common_prefix (a # as) (b # bs) = (if a = b then a # common_prefix as bs else [])"
| "common_prefix _ _ = []"

definition path_parts :: "string \<Rightarrow> string list" where
  "path_parts p = split_on (CHR ''/'') (strip_while (\<lambda>c. c = CHR ''/'') p)"

definition shared_prefix :: "string \<Rightarrow> string \<Rightarrow> string" where
  "shared_prefix a b = join ''/'' (common_prefix (path_parts a) (path_parts b))"

definition are_concurrent :: "task_node \<Rightarrow> task_node \<Rightarrow> bool" where
  "are_concurrent a b \<longleftrightarrow> n_id a \<notin> set (n_dependencies b) \<and> n_id b \<notin> set (n_dependencies a)"

type_synonym conflict = "string \<times> string \<times> string"

text \<open>
  The two loops over the paths of a pair: the inner one stops at the first shared prefix; the outer
  one stops as soon as the report names the pair (because of this pair or of an earlier pair of
  tasks with the same ids).
\<close>

fun scan_paths_b :: "string \<Rightarrow> string \<Rightarrow> string \<Rightarrow> string list \<Rightarrow> conflict list \<Rightarrow> conflict list" where
  "scan_paths_b i j pa [] cs = cs"
| "scan_paths_b i j pa (pb # pbs) cs =
     (if shared_prefix pa pb \<noteq> [] then cs @ [(i, j, shared_prefix pa pb)]
      else scan_paths_b i j pa pbs cs)"

fun scan_paths_a :: "string \<Rightarrow> string \<Rightarrow> string list \<Rightarrow> string list \<Rightarrow> conflict list \<Rightarrow> conflict list" where
  "scan_paths_a i j [] pbs cs = cs"
| "scan_paths_a i j (pa # pas) pbs cs =
     (let cs1 = scan_paths_b i j pa pbs cs
      in if list_ex (\<lambda>(x, y, _). x = i \<and> y = j) cs1 then cs1 else scan_paths_a i j pas pbs cs1)"

definition scan_pair :: "task_node \<Rightarrow> task_node \<Rightarrow> conflict list \<Rightarrow> conflict list" where
  "scan_pair a b cs =
     (if are_concurrent a b
      then scan_paths_a (n_id a) (n_id b) (n_write_scope a) (n_write_scope b) cs else cs)"

fun scan_tasks :: "task_node list \<Rightarrow> conflict list \<Rightarrow> conflict list" where
  "scan_tasks [] cs = cs"
| "scan_tasks (a # rest) cs = scan_tasks rest (fold (scan_pair a) rest cs)"

definition detect_write_scope_conflicts :: "plan \<Rightarrow> conflict list" where
  "detect_write_scope_conflicts p = scan_tasks (pl_tasks p) []"

definition scopes_clash :: "task_node \<Rightarrow> task_node \<Rightarrow> bool" where
  "scopes_clash a b \<longleftrightarrow>
     (\<exists>pa \<in> set (n_write_scope a). \<exists>pb \<in> set (n_write_scope b). shared_prefix pa pb \<noteq> [])"

lemma scan_paths_b_Nil:
  "scan_paths_b i j pa pbs cs = [] \<longleftrightarrow> cs = [] \<and> (\<forall>pb \<in> set pbs. shared_prefix pa pb = [])"
  by (induction pbs) auto

lemma scan_paths_a_Nil:
  "scan_paths_a i j pas pbs cs = [] \<longleftrightarrow>
     cs = [] \<and> (\<forall>pa \<in> set pas. \<forall>pb \<in> set pbs. shared_prefix pa pb = [])"
proof (induction pas arbitrary: cs)
  case (Cons pa pas)
  let ?cs = "scan_paths_b i j pa pbs cs"
  show ?case
  proof (cases "?cs = []")
    case True
    then have "scan_paths_a i j (pa # pas) pbs cs = scan_paths_a i j pas pbs []" by (simp add: Let_def)
    with True show ?thesis using Cons [of "[]"] by (auto simp: scan_paths_b_Nil)
  next
    case False
    then have "scan_paths_a i j (pa # pas) pbs cs \<noteq> []" using Cons [of ?cs] by (simp add: Let_def)
    with False show ?thesis by (auto simp: scan_paths_b_Nil)
  qed
qed simp

lemma scan_pair_Nil: "scan_pair a b cs = [] \<longleftrightarrow> cs = [] \<and> \<not> (are_concurrent a b \<and> scopes_clash a b)"
  by (auto simp: scan_pair_def scan_paths_a_Nil scopes_clash_def)

lemma scan_fold_Nil:
  "fold (scan_pair a) rest cs = [] \<longleftrightarrow>
     cs = [] \<and> (\<forall>b \<in> set rest. \<not> (are_concurrent a b \<and> scopes_clash a b))"
  by (induction rest arbitrary: cs) (auto simp: scan_pair_Nil)

lemma scan_tasks_Nil:
  "scan_tasks ts cs = [] \<longleftrightarrow>
     cs = [] \<and> sorted_wrt (\<lambda>a b. \<not> (are_concurrent a b \<and> scopes_clash a b)) ts"
  by (induction ts arbitrary: cs) (auto simp: scan_fold_Nil)

lemma common_prefix_Nil: "common_prefix xs ys = [] \<longleftrightarrow> xs = [] \<or> ys = [] \<or> hd xs \<noteq> hd ys"
  by (cases "(xs, ys)" rule: common_prefix.cases) auto

lemma common_prefix_sym: "common_prefix xs ys = common_prefix ys xs"
  by (induction xs ys rule: common_prefix.induct) auto

lemma common_prefix_take: "common_prefix xs ys = take (length (common_prefix xs ys)) xs"
  by (induction xs ys rule: common_prefix.induct) auto

lemma path_parts_not_Nil [simp]: "path_parts p \<noteq> []"
  by (simp add: path_parts_def)

lemma conflicts_Nil:
  "detect_write_scope_conflicts p = [] \<longleftrightarrow>
     sorted_wrt (\<lambda>a b. \<not> (are_concurrent a b \<and> scopes_clash a b)) (pl_tasks p)"
  by (simp add: detect_write_scope_conflicts_def scan_tasks_Nil)

section \<open>Properties\<close>

text \<open>C7. The planner accepts a plan exactly when every dependency names a task of the plan and the
  dependency relation has no cycle, in whatever order the set of ids is iterated over; an accepted
  plan is exactly one \<open>dependency_aware_order\<close> can order.\<close>

theorem validate_dag_iff:
  assumes "distinct_ids p" and "\<And>xs. set (f xs) = set xs"
  shows "(validate_dag f p = [] \<longleftrightarrow> deps_known p \<and> acyclic (deps_rel p))
     \<and> (validate_dag f p = [] \<longleftrightarrow> (\<exists>out. dependency_aware_order p = Inr out))"
  using validate_dag_valid [OF assms] order_iff_valid [OF assms] by blast

definition diamond :: plan where
  "diamond = (let node = (\<lambda>i ds ws. \<lparr>n_id = i, n_objective = ''o'', n_dependencies = ds,
       n_write_scope = ws, n_gates = [], n_risk = MEDIUM, n_parallelizable = True,
       n_capabilities = []\<rparr>)
     in \<lparr>pl_goal_id = ''G1'', pl_tasks =
       [node ''d'' [''b'', ''c''] [], node ''b'' [''a''] [''src/x''], node ''c'' [''a''] [''src/y''],
        node ''a'' [] []]\<rparr>)"

lemma diamond_tasks: "List.map n_id (pl_tasks diamond) = [''d'', ''b'', ''c'', ''a'']"
  by (simp add: diamond_def Let_def)

theorem validate_dag_iff_witness:
  "validate_dag (\<lambda>xs. xs) diamond = [] \<and> acyclic (deps_rel diamond)"
proof -
  have "distinct_ids diamond" by (simp add: distinct_ids_def diamond_tasks)
  moreover have "validate_dag (\<lambda>xs. xs) diamond = []" by code_simp
  ultimately show ?thesis using validate_dag_iff [of diamond "\<lambda>xs. xs"] by simp
qed

text \<open>The execution order is a permutation of the tasks in which every task comes after all the
  tasks it depends on.\<close>

theorem dependency_order_correct:
  assumes "dependency_aware_order p = Inr out"
  shows "mset out = mset (pl_tasks p)
     \<and> (\<forall>i < length out. set (n_dependencies (out ! i)) \<subseteq> n_id ` set (take i out))"
proof -
  from order_sound [OF assms] have "mset out = mset (pl_tasks p)" "deps_first {} out" by auto
  then show ?thesis using deps_first_nth [of "{}" out] by simp
qed

theorem dependency_order_correct_witness:
  "\<exists>out. dependency_aware_order diamond = Inr out \<and> mset out = mset (pl_tasks diamond)
     \<and> List.map n_id out = [''a'', ''b'', ''c'', ''d'']"
proof -
  let ?out = "[pl_tasks diamond ! 3, pl_tasks diamond ! 1, pl_tasks diamond ! 2, pl_tasks diamond ! 0]"
  have o: "dependency_aware_order diamond = Inr ?out" by code_simp
  have ids: "List.map n_id ?out = [''a'', ''b'', ''c'', ''d'']" by code_simp
  show ?thesis
    by (rule exI [of _ ?out]) (intro conjI o ids conjunct1 [OF dependency_order_correct [OF o]])
qed

text \<open>The conflict report is empty exactly when no two concurrent tasks of the plan have paths in
  their write scopes that start with the same component.\<close>

theorem conflict_report_complete:
  "detect_write_scope_conflicts p = [] \<longleftrightarrow>
     (\<forall>j < length (pl_tasks p). \<forall>i < j. are_concurrent (pl_tasks p ! i) (pl_tasks p ! j) \<longrightarrow>
        \<not> scopes_clash (pl_tasks p ! i) (pl_tasks p ! j))"
  unfolding conflicts_Nil sorted_wrt_iff_nth_less by blast

theorem conflict_report_complete_witness:
  "detect_write_scope_conflicts diamond = [(''b'', ''c'', ''src'')]
     \<and> (\<exists>j < 4. \<exists>i < j. scopes_clash (pl_tasks diamond ! i) (pl_tasks diamond ! j))"
proof -
  have "detect_write_scope_conflicts diamond = [(''b'', ''c'', ''src'')]" by code_simp
  moreover have "length (pl_tasks diamond) = 4" by code_simp
  ultimately show ?thesis using conflict_report_complete [of diamond] by auto
qed

end
