(* ===== verification/Plans.thy ===== *)
theory Plans
  imports Dag
begin

text \<open>
  The durable plan snapshots of \<open>execution/plans.py\<close>: plan states, the stored form of a task node and
  of a plan, and the conversions between the stored form and the planner's graph, which lose nothing.
\<close>

datatype plan_state = DRAFT | LOCKED | CONSUMED

fun plan_state_str :: "plan_state \<Rightarrow> string" where
  "plan_state_str DRAFT = ''DRAFT''"
| "plan_state_str LOCKED = ''LOCKED''"
| "plan_state_str CONSUMED = ''CONSUMED''"

record plan_task =
  pt_id :: string
  pt_objective :: string
  pt_dependencies :: "string list"
  pt_write_scope :: "string list"
  pt_gates :: "string list"
  pt_risk :: risk_level
  pt_parallelizable :: bool
  pt_capabilities :: "string list"

record plan_record =
  pr_id :: string
  pr_project_id :: string
  pr_goal_id :: string
  pr_goal_revision :: string
  pr_state :: plan_state
  pr_autonomy :: string
  pr_runner :: string
  pr_integration_target :: string
  pr_created_at :: string
  pr_tasks :: "plan_task list"

definition plan_task_of :: "task_node \<Rightarrow> plan_task" where
  "plan_task_of t = \<lparr>pt_id = n_id t, pt_objective = n_objective t,
     pt_dependencies = n_dependencies t, pt_write_scope = n_write_scope t, pt_gates = n_gates t,
     pt_risk = n_risk t, pt_parallelizable = n_parallelizable t,
     pt_capabilities = n_capabilities t\<rparr>"

definition to_task_node :: "plan_task \<Rightarrow> task_node" where
  "to_task_node t = \<lparr>n_id = pt_id t, n_objective = pt_objective t,
     n_dependencies = pt_dependencies t, n_write_scope = pt_write_scope t, n_gates = pt_gates t,
     n_risk = pt_risk t, n_parallelizable = pt_parallelizable t,
     n_capabilities = pt_capabilities t\<rparr>"

definition to_plan :: "plan_record \<Rightarrow> plan" where
  "to_plan p = \<lparr>pl_goal_id = pr_goal_id p, pl_tasks = List.map to_task_node (pr_tasks p)\<rparr>"

text \<open>\<open>PlanRecord(...)\<close> with a fresh identifier and the current time.\<close>

definition mk_plan_record ::
  "string \<Rightarrow> string \<Rightarrow> string \<Rightarrow> plan_state \<Rightarrow> string \<Rightarrow> string \<Rightarrow> string \<Rightarrow> plan_task list \<Rightarrow>
   ('z os_scheme, exn, plan_record) act" where
  "mk_plan_record project goal revision state autonomy runner target ts =
     bindE (new_id ''plan'') (\<lambda>i. bindE now_iso (\<lambda>now.
       ret \<lparr>pr_id = i, pr_project_id = project, pr_goal_id = goal, pr_goal_revision = revision,
            pr_state = state, pr_autonomy = autonomy, pr_runner = runner,
            pr_integration_target = target, pr_created_at = now, pr_tasks = ts\<rparr>))"

lemma node_round_trip [simp]: "to_task_node (plan_task_of t) = t"
  by (cases t) (simp add: to_task_node_def plan_task_of_def)

lemma stored_round_trip [simp]: "plan_task_of (to_task_node t) = t"
  by (cases t) (simp add: to_task_node_def plan_task_of_def)

lemma plan_round_trip:
  "pr_goal_id r = pl_goal_id p \<Longrightarrow> pr_tasks r = List.map plan_task_of (pl_tasks p) \<Longrightarrow> to_plan r = p"
  by (cases p) (simp add: to_plan_def comp_def)

end
