(* ===== verification/Tables.thy ===== *)
theory Tables
  imports Prelude
begin

text \<open>
  What the SQL statements of the runtime do to a table. A table is the list of its rows in rowid
  order; \<open>INSERT OR REPLACE\<close> deletes the row with the same primary key and appends the new one,
  \<open>INSERT OR IGNORE\<close> keeps the old one. The locale \<open>keyed_store\<close> is the contract the stores rely
  on, whatever the table holds.
\<close>

definition upsert :: "('r \<Rightarrow> 'k) \<Rightarrow> 'r \<Rightarrow> 'r list \<Rightarrow> 'r list" where
  "upsert key r t = filter (\<lambda>x. key x \<noteq> key r) t @ [r]"

definition insert_ignore :: "('r \<Rightarrow> 'k) \<Rightarrow> 'r \<Rightarrow> 'r list \<Rightarrow> 'r list" where
  "insert_ignore key r t = (if key r \<in> set (map key t) then t else t @ [r])"

definition row_by :: "('r \<Rightarrow> 'k) \<Rightarrow> 'k \<Rightarrow> 'r list \<Rightarrow> 'r option" where
  "row_by key k t = find (\<lambda>x. key x = k) t"

definition has_row :: "('r \<Rightarrow> 'k) \<Rightarrow> 'k \<Rightarrow> 'r list \<Rightarrow> bool" where
  "has_row key k t \<longleftrightarrow> k \<in> set (map key t)"

text \<open>\<open>ORDER BY c\<close> and \<open>ORDER BY c DESC\<close>; rows that tie stay in rowid order.\<close>

definition order_by :: "('r \<Rightarrow> 'k::linorder) \<Rightarrow> 'r list \<Rightarrow> 'r list" where
  "order_by f t = sort_key f t"

definition order_by_desc :: "('r \<Rightarrow> 'k::linorder) \<Rightarrow> 'r list \<Rightarrow> 'r list" where
  "order_by_desc f t = rev (sort_key f (rev t))"

definition keys_distinct :: "('r \<Rightarrow> 'k) \<Rightarrow> 'r list \<Rightarrow> bool" where
  "keys_distinct key t = distinct (map key t)"

section \<open>The contract\<close>

locale keyed_store =
  fixes key :: "'r \<Rightarrow> 'k"
    and put :: "'r \<Rightarrow> 't \<Rightarrow> 't"
    and get :: "'k \<Rightarrow> 't \<Rightarrow> 'r option"
    and ok :: "'t \<Rightarrow> bool"
  assumes get_put: "get k (put r t) = (if k = key r then Some r else get k t)"
    and ok_put: "ok t \<Longrightarrow> ok (put r t)"
    and get_key: "get k t = Some r \<Longrightarrow> key r = k"
begin

lemma put_then_get: "get (key r) (put r t) = Some r"
  by (simp add: get_put)

lemma put_other: "k \<noteq> key r \<Longrightarrow> get k (put r t) = get k t"
  by (simp add: get_put)

lemma last_put_wins: "key r = key r' \<Longrightarrow> get k (put r' (put r t)) = get k (put r' t)"
  by (simp add: get_put)

lemma write_back: "get k t = Some r \<Longrightarrow> get k' (put r t) = get k' t"
  using get_key [of k t r] by (auto simp: get_put)

lemma ok_puts: "ok t \<Longrightarrow> ok (fold put rs t)"
  by (induction rs arbitrary: t) (auto simp: ok_put)

lemma puts_other: "k \<notin> key ` set rs \<Longrightarrow> get k (fold put rs t) = get k t"
  by (induction rs arbitrary: t) (auto simp: put_other)

lemma puts_get:
  assumes "distinct (map key rs)" and "r \<in> set rs"
  shows "get (key r) (fold put rs t) = Some r"
  using assms
proof (induction rs arbitrary: t)
  case (Cons x rs)
  show ?case
  proof (cases "r = x")
    case True
    with Cons.prems have "key r \<notin> key ` set rs" by auto
    with True show ?thesis by (simp add: puts_other put_then_get)
  next
    case False
    with Cons show ?thesis by simp
  qed
qed simp

end

section \<open>Tables meet the contract\<close>

lemma row_by_upsert: "row_by key k (upsert key r t) = (if k = key r then Some r else row_by key k t)"
  unfolding row_by_def upsert_def by (induction t) auto

lemma row_by_key: "row_by key k t = Some r \<Longrightarrow> key r = k"
  by (auto simp: row_by_def find_Some_iff)

lemma row_by_in: "row_by key k t = Some r \<Longrightarrow> r \<in> set t"
  by (auto simp: row_by_def find_Some_iff)

lemma row_by_None: "row_by key k t = None \<longleftrightarrow> k \<notin> key ` set t"
  by (auto simp: row_by_def find_None_iff)

lemma distinct_upsert: "keys_distinct key t \<Longrightarrow> keys_distinct key (upsert key r t)"
  by (auto simp: keys_distinct_def upsert_def distinct_map inj_on_def)

lemma distinct_insert_ignore: "keys_distinct key t \<Longrightarrow> keys_distinct key (insert_ignore key r t)"
  by (auto simp: keys_distinct_def insert_ignore_def)

lemma row_by_distinct: "keys_distinct key t \<Longrightarrow> r \<in> set t \<Longrightarrow> row_by key (key r) t = Some r"
  unfolding row_by_def keys_distinct_def by (induction t) auto

lemma set_upsert: "set (upsert key r t) = insert r {x \<in> set t. key x \<noteq> key r}"
  by (auto simp: upsert_def)

lemma keys_upsert: "key ` set (upsert key r t) = insert (key r) (key ` set t)"
  by (auto simp: upsert_def)

lemma set_insert_ignore:
  "set (insert_ignore key r t) = (if key r \<in> key ` set t then set t else insert r (set t))"
  by (auto simp: insert_ignore_def)

lemma has_row_iff: "has_row key k t \<longleftrightarrow> k \<in> key ` set t"
  by (simp add: has_row_def)

lemma has_row_upsert: "has_row key k (upsert key r t) \<longleftrightarrow> k = key r \<or> has_row key k t"
  by (auto simp: has_row_iff keys_upsert)

lemma set_order_by [simp]: "set (order_by f t) = set t"
  by (simp add: order_by_def)

lemma set_order_by_desc [simp]: "set (order_by_desc f t) = set t"
  by (simp add: order_by_desc_def)

lemma sorted_order_by: "sorted (map f (order_by f t))"
  by (simp add: order_by_def)

interpretation table: keyed_store key "upsert key" "row_by key" "keys_distinct key"
  for key :: "'r \<Rightarrow> 'k"
  by unfold_locales (auto simp: row_by_upsert distinct_upsert dest: row_by_key)

section \<open>Sweeping a table\<close>

text \<open>
  A handler that loads the rows satisfying \<open>R\<close> and writes back \<open>h x\<close> for those that also satisfy
  \<open>P\<close> maps the table, whatever else its steps do to the state.
\<close>

lemma sweep:
  assumes "\<And>x s. x \<in> set xs \<Longrightarrow> Q s \<Longrightarrow>
      \<exists>s1. f x s = (Inr (g x), s1) \<and> Q s1
         \<and> tab s1 = (if P x then upsert key (h x) (tab s) else tab s)"
    and "Q s"
  shows "\<exists>s1. forE xs f s = (Inr (map g xs), s1) \<and> Q s1
     \<and> tab s1 = fold (upsert key) (map h (filter P xs)) (tab s)"
  using assms
proof (induction xs arbitrary: s)
  case (Cons x xs)
  from Cons.prems obtain s1 where s1: "f x s = (Inr (g x), s1)" "Q s1"
    "tab s1 = (if P x then upsert key (h x) (tab s) else tab s)"
    by (meson list.set_intros(1))
  from Cons.IH [OF Cons.prems(1) s1(2)] obtain s2 where
    "forE xs f s1 = (Inr (map g xs), s2)" "Q s2"
    "tab s2 = fold (upsert key) (map h (filter P xs)) (tab s1)" by auto
  with s1 show ?case by (auto simp: bindE_def ret_def)
qed (simp add: ret_def)

lemma set_fold_upsert:
  "distinct (map key rs) \<Longrightarrow>
   set (fold (upsert key) rs t) = set rs \<union> {x \<in> set t. key x \<notin> key ` set rs}"
  by (induction rs arbitrary: t) (auto simp: set_upsert)

lemma keys_distinct_inj: "keys_distinct key t \<Longrightarrow> inj_on key (set t) \<and> distinct t"
  by (simp add: keys_distinct_def distinct_map)

lemma swept_set:
  assumes t: "keys_distinct key t" and xs: "set xs = {x \<in> set t. R x}" "distinct xs"
    and h: "\<And>x. key (h x) = key x"
  shows "set (fold (upsert key) (map h (filter P xs)) t) = (\<lambda>x. if R x \<and> P x then h x else x) ` set t"
proof -
  have inj: "inj_on key (set t)" using keys_distinct_inj [OF t] by simp
  have "distinct (map key (map h (filter P xs)))"
    using xs inj by (auto simp: h distinct_map comp_def intro: inj_on_subset)
  then have "set (fold (upsert key) (map h (filter P xs)) t)
      = h ` {x \<in> set t. R x \<and> P x} \<union> {x \<in> set t. key x \<notin> key ` h ` {x \<in> set t. R x \<and> P x}}"
    by (simp add: set_fold_upsert xs(1) conj_ac Collect_conj_eq [symmetric] image_Un)
  moreover have "key ` h ` {x \<in> set t. R x \<and> P x} = key ` {x \<in> set t. R x \<and> P x}"
    by (simp add: image_image h)
  moreover have "{x \<in> set t. key x \<notin> key ` {x \<in> set t. R x \<and> P x}} = {x \<in> set t. \<not> (R x \<and> P x)}"
    using inj by (auto simp: inj_on_def)
  ultimately show ?thesis by (auto simp: image_iff)
qed

lemma distinct_order_by: "distinct xs \<Longrightarrow> distinct (order_by f xs)"
  by (simp add: order_by_def)

end
