(* ===== verification/GateTypes.thy ===== *)
theory GateTypes
  imports Models
begin

text \<open>
  The data of the verification engine (\<open>verification/gates.py\<close>) that the database also stores: the
  four gates, the verdicts and the evidence record. Gates are ordered by their wire string, which is
  what \<open>sorted\<close> does to a list of \<open>StrEnum\<close> members.
\<close>

datatype gate_kind = BUILD | TESTS | REVIEW | DOCUMENTATION

datatype gate_verdict = PASSED | FAILED | PENDING

fun gate_str :: "gate_kind \<Rightarrow> string" where
  "gate_str BUILD = ''build''"
| "gate_str TESTS = ''tests''"
| "gate_str REVIEW = ''review''"
| "gate_str DOCUMENTATION = ''documentation''"

fun verdict_str :: "gate_verdict \<Rightarrow> string" where
  "verdict_str PASSED = ''PASSED''"
| "verdict_str FAILED = ''FAILED''"
| "verdict_str PENDING = ''PENDING''"

definition all_gates :: "gate_kind list" where
  "all_gates = [BUILD, TESTS, REVIEW, DOCUMENTATION]"

text \<open>\<open>GateKind(name)\<close>: raises \<open>ValueError\<close> for a name that is no gate.\<close>

definition gate_of :: "string \<Rightarrow> exn + gate_kind" where
  "gate_of name =
     (case find (\<lambda>g. gate_str g = name) all_gates of
        Some g \<Rightarrow> Inr g
      | None \<Rightarrow> Inl (ValueError (quoted name @ '' is not a valid GateKind'')))"

lemma gate_str_inj: "gate_str g = gate_str h \<longleftrightarrow> g = h"
  by (cases g; cases h) simp_all

lemma gate_of_str [simp]: "gate_of (gate_str g) = Inr g"
  by (cases g) (simp_all add: gate_of_def all_gates_def)

lemma gate_of_Inr: "gate_of n = Inr g \<longleftrightarrow> n = gate_str g"
proof
  assume "gate_of n = Inr g"
  then show "n = gate_str g"
    by (auto simp: gate_of_def find_Some_iff split: option.splits)
qed simp

instantiation gate_kind :: linorder
begin

definition less_eq_gate_kind :: "gate_kind \<Rightarrow> gate_kind \<Rightarrow> bool" where
  "less_eq_gate_kind g h = (gate_str g \<le> gate_str h)"

definition less_gate_kind :: "gate_kind \<Rightarrow> gate_kind \<Rightarrow> bool" where
  "less_gate_kind g h = (gate_str g < gate_str h)"

instance
  by intro_classes
    (auto simp: less_eq_gate_kind_def less_gate_kind_def gate_str_inj [symmetric])

end

record evidence =
  ev_id :: string
  ev_goal_id :: string
  ev_gate :: gate_kind
  ev_kind :: string
  ev_uri :: string
  ev_digest :: string
  ev_attached_at :: string
  ev_verdict :: gate_verdict
  ev_run_id :: "string option"
  ev_task_id :: "string option"

text \<open>\<open>Evidence.new\<close>: a fresh identifier and the current time.\<close>

definition evidence_new ::
  "string \<Rightarrow> gate_kind \<Rightarrow> string \<Rightarrow> gate_verdict \<Rightarrow> string \<Rightarrow> string \<Rightarrow> string option \<Rightarrow>
   string option \<Rightarrow> ('z os_scheme, exn, evidence) act" where
  "evidence_new goal_id gate kind verdict uri digest run_id task_id =
     bindE (new_id ''ev'') (\<lambda>i. bindE now_iso (\<lambda>ts.
       ret \<lparr>ev_id = i, ev_goal_id = goal_id, ev_gate = gate, ev_kind = kind, ev_uri = uri,
            ev_digest = digest, ev_attached_at = ts, ev_verdict = verdict, ev_run_id = run_id,
            ev_task_id = task_id\<rparr>))"

end
