(* ===== verification/Persistence.thy ===== *)
theory Persistence
  imports Plans Tables GateTypes
begin

text \<open>
  The operational store (\<open>execution/persistence.py\<close>). The state is the open flag, the listeners, the
  events handed to them, and one table per entity; the events table is the log, in the order of
  \<open>seq\<close>. A statement either changes the database or is refused with an \<open>IntegrityError\<close>; a transaction
  of several statements is rolled back to its start on the first refusal, and listeners hear of an
  event only after the commit. The asyncio lock, which makes each of these steps one step, is what
  lets them be functions on the state.

  The locale \<open>runtime_invariant\<close> is the interface the components above use: an invariant of the
  database that each statement keeps. Its lemmas carry such an invariant through every operation of
  the store; the components add theirs. It is interpreted here for referential integrity and for the
  append-only event log.
\<close>

record db = os +
  db_open :: bool
  listeners :: "string list"
  delivered :: "(string \<times> domain_event) list"
  runs :: "run list"
  tasks :: "task list"
  attempts :: "attempt list"
  events :: "domain_event list"
  evidence_rows :: "evidence list"
  plans :: "plan_record list"

type_synonym ('z, 'a) db_act = "('z db_scheme, exn, 'a) act"
type_synonym 'z stmt = "'z db_scheme \<Rightarrow> exn + 'z db_scheme"

section \<open>Statements and transactions\<close>

definition upsert_run :: "run \<Rightarrow> 'z stmt" where
  "upsert_run r s = Inr (s\<lparr>runs := upsert r_id r (runs s)\<rparr>)"

definition upsert_task :: "task \<Rightarrow> 'z stmt" where
  "upsert_task t s =
     (if has_row r_id (t_run_id t) (runs s) then Inr (s\<lparr>tasks := upsert t_id t (tasks s)\<rparr>)
      else Inl (IntegrityError ''FOREIGN KEY constraint failed''))"

definition upsert_attempt :: "attempt \<Rightarrow> 'z stmt" where
  "upsert_attempt a s =
     (if has_row t_id (a_task_id a) (tasks s) \<and> has_row r_id (a_run_id a) (runs s)
      then Inr (s\<lparr>attempts := upsert a_id a (attempts s)\<rparr>)
      else Inl (IntegrityError ''FOREIGN KEY constraint failed''))"

definition insert_event :: "domain_event \<Rightarrow> 'z stmt" where
  "insert_event e s = Inr (s\<lparr>events := insert_ignore e_id e (events s)\<rparr>)"

definition upsert_evidence :: "evidence \<Rightarrow> 'z stmt" where
  "upsert_evidence e s = Inr (s\<lparr>evidence_rows := upsert ev_id e (evidence_rows s)\<rparr>)"

definition upsert_plan :: "plan_record \<Rightarrow> 'z stmt" where
  "upsert_plan p s = Inr (s\<lparr>plans := upsert pr_id p (plans s)\<rparr>)"

lemmas stmt_defs = upsert_run_def upsert_task_def upsert_attempt_def insert_event_def
  upsert_evidence_def upsert_plan_def

definition require_conn :: "('z, unit) db_act" where
  "require_conn s =
     (if db_open s then (Inr (), s) else (Inl (PersistenceError ''Persistence not initialized''), s))"

definition execute :: "'z stmt \<Rightarrow> ('z, unit) db_act" where
  "execute st = bindE require_conn (\<lambda>_ s. case st s of Inl e \<Rightarrow> (Inl e, s) | Inr s' \<Rightarrow> (Inr (), s'))"

fun run_stmts :: "'z stmt list \<Rightarrow> 'z stmt" where
  "run_stmts [] s = Inr s"
| "run_stmts (st # sts) s = (case st s of Inl e \<Rightarrow> Inl e | Inr s' \<Rightarrow> run_stmts sts s')"

text \<open>The rollback: on an exception the state is the one the transaction began with.\<close>

definition transaction :: "'z stmt list \<Rightarrow> ('z, unit) db_act" where
  "transaction sts =
     bindE require_conn (\<lambda>_ s. case run_stmts sts s of Inl e \<Rightarrow> (Inl e, s) | Inr s' \<Rightarrow> (Inr (), s'))"

definition query :: "('z db_scheme \<Rightarrow> 'a) \<Rightarrow> ('z, 'a) db_act" where
  "query f = bindE require_conn (\<lambda>_. gets f)"

definition initialize :: "('z, unit) db_act" where
  "initialize = modify (\<lambda>s. s\<lparr>db_open := True\<rparr>)"

definition close_db :: "('z, unit) db_act" where
  "close_db = modify (\<lambda>s. s\<lparr>db_open := False\<rparr>)"

definition subscribe :: "string \<Rightarrow> ('z, unit) db_act" where
  "subscribe l = modify (\<lambda>s. s\<lparr>listeners := listeners s @ [l]\<rparr>)"

text \<open>Every listener is given the event; what it raises is swallowed.\<close>

definition publish :: "domain_event \<Rightarrow> ('z, unit) db_act" where
  "publish e = modify (\<lambda>s. s\<lparr>delivered := delivered s @ List.map (\<lambda>l. (l, e)) (listeners s)\<rparr>)"

section \<open>The operations\<close>

definition load_plan :: "string \<Rightarrow> ('z, plan_record option) db_act" where
  "load_plan i = query (\<lambda>s. row_by pr_id i (plans s))"

definition save_plan :: "plan_record \<Rightarrow> ('z, unit) db_act" where
  "save_plan p =
     bindE (load_plan (pr_id p)) (\<lambda>existing.
       case existing of
         None \<Rightarrow> execute (upsert_plan p)
       | Some old \<Rightarrow>
           if pr_state old = DRAFT then execute (upsert_plan p)
           else if pr_state old = LOCKED \<and> pr_state p = CONSUMED then execute (upsert_plan p)
           else if old \<noteq> p then
             throw (PersistenceError
               (''Plan '' @ pr_id p @ '' is immutable after '' @ plan_state_str (pr_state old)))
           else ret ())"

definition list_plans :: "string option \<Rightarrow> ('z, plan_record list) db_act" where
  "list_plans goal =
     bindE (query (\<lambda>s. order_by_desc pr_created_at
              (case goal of None \<Rightarrow> plans s | Some g \<Rightarrow> filter (\<lambda>p. pr_goal_id p = g) (plans s))))
       (\<lambda>rows. bindE (forE rows (\<lambda>p. load_plan (pr_id p)))
       (\<lambda>ps. ret (List.map_filter (\<lambda>p. p) ps)))"

definition save_run :: "run \<Rightarrow> ('z, unit) db_act" where
  "save_run r = execute (upsert_run r)"

definition load_run :: "string \<Rightarrow> ('z, run option) db_act" where
  "load_run i = query (\<lambda>s. row_by r_id i (runs s))"

definition list_runs :: "string option \<Rightarrow> ('z, run list) db_act" where
  "list_runs project = query (\<lambda>s. order_by_desc r_created_at
     (case project of None \<Rightarrow> runs s | Some p \<Rightarrow> filter (\<lambda>r. r_project_id r = p) (runs s)))"

definition save_event :: "domain_event \<Rightarrow> ('z, unit) db_act" where
  "save_event e = bindE (execute (insert_event e)) (\<lambda>_. publish e)"

definition load_events :: "string \<Rightarrow> ('z, domain_event list) db_act" where
  "load_events run_id = query (\<lambda>s. filter (\<lambda>e. e_run_id e = Some run_id) (events s))"

definition save_task :: "task \<Rightarrow> ('z, unit) db_act" where
  "save_task t = execute (upsert_task t)"

definition load_tasks :: "string \<Rightarrow> ('z, task list) db_act" where
  "load_tasks run_id =
     query (\<lambda>s. order_by t_created_at (filter (\<lambda>t. t_run_id t = run_id) (tasks s)))"

definition save_attempt :: "attempt \<Rightarrow> ('z, unit) db_act" where
  "save_attempt a = execute (upsert_attempt a)"

definition load_attempts :: "string \<Rightarrow> ('z, attempt list) db_act" where
  "load_attempts run_id =
     query (\<lambda>s. order_by a_created_at (filter (\<lambda>a. a_run_id a = run_id) (attempts s)))"

definition load_attempts_for_task :: "string \<Rightarrow> ('z, attempt list) db_act" where
  "load_attempts_for_task task_id =
     query (\<lambda>s. order_by a_created_at (filter (\<lambda>a. a_task_id a = task_id) (attempts s)))"

definition save_evidence :: "evidence \<Rightarrow> ('z, unit) db_act" where
  "save_evidence e = execute (upsert_evidence e)"

definition load_evidence :: "string \<Rightarrow> ('z, evidence list) db_act" where
  "load_evidence goal_id =
     query (\<lambda>s. order_by ev_attached_at (filter (\<lambda>e. ev_goal_id e = goal_id) (evidence_rows s)))"

text \<open>\<open>_guard\<close>, on the wire strings, as the code calls it.\<close>

definition guard :: "string \<Rightarrow> string \<Rightarrow> string \<Rightarrow> string \<Rightarrow> ('z, unit) db_act" where
  "guard from_state to_state domain entity_id =
     (if can_transition from_state to_state domain then ret ()
      else throw (InvalidTransition domain entity_id from_state to_state))"

definition record_run_transition :: "run \<Rightarrow> run_state \<Rightarrow> domain_event \<Rightarrow> ('z, run) db_act" where
  "record_run_transition r st e =
     bindE (guard (run_state_str (r_state r)) (run_state_str st) ''run'' (r_id r)) (\<lambda>_.
     (let r' = r\<lparr>r_state := st\<rparr> in
      bindE (transaction [upsert_run r', insert_event e]) (\<lambda>_.
      bindE (publish e) (\<lambda>_. ret r'))))"

definition record_task_transition :: "task \<Rightarrow> task_state \<Rightarrow> domain_event \<Rightarrow> ('z, task) db_act" where
  "record_task_transition t st e =
     bindE (guard (task_state_str (t_state t)) (task_state_str st) ''task'' (t_id t)) (\<lambda>_.
     (let t' = t\<lparr>t_state := st\<rparr> in
      bindE (transaction [upsert_task t', insert_event e]) (\<lambda>_.
      bindE (publish e) (\<lambda>_. ret t'))))"

definition record_attempt_transition ::
  "attempt \<Rightarrow> attempt_state \<Rightarrow> domain_event \<Rightarrow> ('z, attempt) db_act" where
  "record_attempt_transition a st e =
     bindE (guard (attempt_state_str (a_state a)) (attempt_state_str st) ''attempt'' (a_id a)) (\<lambda>_.
     (let a' = a\<lparr>a_state := st\<rparr> in
      bindE (transaction [upsert_attempt a', insert_event e]) (\<lambda>_.
      bindE (publish e) (\<lambda>_. ret a'))))"

section \<open>The interface: invariants of the store\<close>

lemma run_stmts_two:
  "run_stmts [a, b] s = (case a s of Inl e \<Rightarrow> Inl e | Inr s' \<Rightarrow> b s')"
  by (simp split: sum.splits)

locale runtime_invariant =
  fixes I :: "'z db_scheme \<Rightarrow> bool" and ok_task :: "task \<Rightarrow> bool" and ok_run :: "run \<Rightarrow> bool"
  assumes I_draws: "I s \<Longrightarrow> I (s\<lparr>draws := n\<rparr>)"
    and I_ticks: "I s \<Longrightarrow> I (s\<lparr>ticks := n\<rparr>)"
    and I_delivered: "I s \<Longrightarrow> I (s\<lparr>delivered := ds\<rparr>)"
    and I_open: "I s \<Longrightarrow> I (s\<lparr>db_open := b\<rparr>)"
    and I_listeners: "I s \<Longrightarrow> I (s\<lparr>listeners := ls\<rparr>)"
    and I_run: "I s \<Longrightarrow> ok_run r \<Longrightarrow> I (s\<lparr>runs := upsert r_id r (runs s)\<rparr>)"
    and I_task: "I s \<Longrightarrow> ok_task t \<Longrightarrow> has_row r_id (t_run_id t) (runs s) \<Longrightarrow>
          I (s\<lparr>tasks := upsert t_id t (tasks s)\<rparr>)"
    and I_attempt: "I s \<Longrightarrow> has_row t_id (a_task_id a) (tasks s) \<Longrightarrow> has_row r_id (a_run_id a) (runs s) \<Longrightarrow>
          I (s\<lparr>attempts := upsert a_id a (attempts s)\<rparr>)"
    and I_event: "I s \<Longrightarrow> I (s\<lparr>events := insert_ignore e_id e (events s)\<rparr>)"
    and I_evidence: "I s \<Longrightarrow> I (s\<lparr>evidence_rows := upsert ev_id ev (evidence_rows s)\<rparr>)"
    and I_plan: "I s \<Longrightarrow> I (s\<lparr>plans := upsert pr_id p (plans s)\<rparr>)"
    and ok_step: "task_step (t_state t) st \<Longrightarrow> ok_task (t\<lparr>t_state := st\<rparr>)"
begin

definition keeps :: "'z stmt \<Rightarrow> bool" where
  "keeps st \<longleftrightarrow> (\<forall>s s'. I s \<longrightarrow> st s = Inr s' \<longrightarrow> I s')"

lemma keepsD: "keeps st \<Longrightarrow> I s \<Longrightarrow> st s = Inr s' \<Longrightarrow> I s'"
  unfolding keeps_def by blast

lemma keeps_stmts:
  "ok_run r \<Longrightarrow> keeps (upsert_run r)" "ok_task t \<Longrightarrow> keeps (upsert_task t)" "keeps (upsert_attempt a)"
  "keeps (insert_event e)" "keeps (upsert_evidence ev)" "keeps (upsert_plan p)"
  by (auto simp: keeps_def stmt_defs I_run I_task I_attempt I_event I_evidence I_plan split: if_splits)

lemma pres_query: "preserves I (query f)"
  by (auto simp: preserves_def query_def require_conn_def act_defs)

lemma pres_execute: "keeps st \<Longrightarrow> preserves I (execute st)"
  by (auto simp: preserves_def execute_def require_conn_def act_defs intro: keepsD split: sum.splits)

lemma pres_transaction2: "keeps st \<Longrightarrow> keeps st' \<Longrightarrow> preserves I (transaction [st, st'])"
proof (rule preservesI)
  fix s assume k: "keeps st" "keeps st'" and s: "I s"
  have "run_stmts [st, st'] s = Inr s2 \<Longrightarrow> I s2" for s2
    using k s unfolding run_stmts_two by (auto split: sum.splits intro: keepsD)
  then show "I (snd (transaction [st, st'] s))"
    using s unfolding transaction_def require_conn_def bindE_def
    by (cases "run_stmts [st, st'] s") (simp_all del: run_stmts.simps)
qed

lemma pres_publish: "preserves I (publish e)"
  by (auto simp: publish_def intro!: pres_modify I_delivered)

lemma pres_guard: "preserves I (guard a b d i)"
  by (auto simp: guard_def intro!: pres)

lemma pres_now_iso: "preserves I now_iso"
  by (auto simp: preserves_def now_iso_def I_ticks)

lemma pres_new_id: "preserves I (new_id p)"
  by (auto simp: preserves_def new_id_def I_draws)

lemmas store_rules = pres pres_query pres_execute pres_publish pres_guard pres_now_iso pres_new_id
  keeps_stmts

lemma pres_mk:
  "preserves I (mk_event p rid ty pl)" "preserves I (mk_run p g gr au)"
  "preserves I (mk_task rn ob ro ri sc)" "preserves I (mk_attempt tn rn ru mo)"
  "preserves I (evidence_new g k ki v u d rid tid)"
  "preserves I (mk_plan_record p g gr st au rn ta ts)"
  unfolding mk_event_def mk_run_def mk_task_def mk_attempt_def evidence_new_def mk_plan_record_def
  by (intro store_rules)+

lemma pres_loads:
  "preserves I (load_plan i)" "preserves I (load_run i)" "preserves I (load_tasks i)"
  "preserves I (load_attempts i)" "preserves I (load_attempts_for_task i)"
  "preserves I (load_events i)" "preserves I (load_evidence i)" "preserves I (list_runs pr)"
  "preserves I (list_plans g)"
  unfolding load_plan_def load_run_def load_tasks_def load_attempts_def load_attempts_for_task_def
    load_events_def load_evidence_def list_runs_def list_plans_def
  by (intro store_rules)+

lemma pres_saves:
  "ok_run r \<Longrightarrow> preserves I (save_run r)" "ok_task t \<Longrightarrow> preserves I (save_task t)" "preserves I (save_attempt a)"
  "preserves I (save_event e)" "preserves I (save_evidence ev)"
  unfolding save_run_def save_task_def save_attempt_def save_event_def save_evidence_def
  by (intro store_rules | assumption)+

lemma pres_save_plan: "preserves I (save_plan p)"
  unfolding save_plan_def by (intro store_rules pres_loads)

lemma pres_lifecycle:
  "preserves I initialize" "preserves I close_db" "preserves I (subscribe l)"
  unfolding initialize_def close_db_def subscribe_def
  by (auto intro!: pres_modify I_open I_listeners)

lemma pres_run_transition:
  "ok_run (r\<lparr>r_state := st\<rparr>) \<Longrightarrow> preserves I (record_run_transition r st e)"
  unfolding record_run_transition_def Let_def by (intro store_rules pres_transaction2 | assumption)+

lemma pres_attempt_transition: "preserves I (record_attempt_transition a st e)"
  unfolding record_attempt_transition_def Let_def by (intro store_rules pres_transaction2)

lemma pres_task_transition: "preserves I (record_task_transition t st e)"
proof (cases "task_step (t_state t) st")
  case True
  then have "ok_task (t\<lparr>t_state := st\<rparr>)" by (rule ok_step)
  then show ?thesis
    unfolding record_task_transition_def Let_def by (intro store_rules pres_transaction2)
next
  case False
  then show ?thesis
    by (simp add: record_task_transition_def guard_def pres_throw flip: task_step_def)
qed

lemmas store_pres = store_rules pres_mk pres_loads pres_saves pres_save_plan pres_lifecycle
  pres_run_transition pres_attempt_transition pres_task_transition

end

section \<open>Referential integrity\<close>

definition integrity :: "'z db_scheme \<Rightarrow> bool" where
  "integrity s \<longleftrightarrow>
     keys_distinct r_id (runs s) \<and> keys_distinct t_id (tasks s) \<and> keys_distinct a_id (attempts s)
   \<and> keys_distinct e_id (events s) \<and> keys_distinct ev_id (evidence_rows s)
   \<and> keys_distinct pr_id (plans s)
   \<and> t_run_id ` set (tasks s) \<subseteq> r_id ` set (runs s)
   \<and> a_task_id ` set (attempts s) \<subseteq> t_id ` set (tasks s)
   \<and> a_run_id ` set (attempts s) \<subseteq> r_id ` set (runs s)"

interpretation integrity: runtime_invariant integrity "\<lambda>_. True" "\<lambda>_. True"
proof (unfold_locales, goal_cases)
  case (6 s r)
  then show ?case by (auto simp: integrity_def distinct_upsert keys_upsert)
next
  case (7 s t)
  then have "t_run_id ` set (upsert t_id t (tasks s)) \<subseteq> r_id ` set (runs s)"
    by (auto simp: integrity_def set_upsert has_row_iff)
  with 7 show ?case by (auto simp: integrity_def distinct_upsert keys_upsert)
next
  case (8 s a)
  then show ?case by (auto simp: integrity_def distinct_upsert set_upsert has_row_iff)
qed (simp_all add: integrity_def distinct_upsert distinct_insert_ignore)

section \<open>The event log is append-only\<close>

definition log_from :: "domain_event list \<Rightarrow> 'z db_scheme \<Rightarrow> bool" where
  "log_from es s \<longleftrightarrow> (\<exists>new. events s = es @ new)"

interpretation event_log: runtime_invariant "log_from es" "\<lambda>_. True" "\<lambda>_. True"
  for es :: "domain_event list"
  by unfold_locales (auto simp: log_from_def insert_ignore_def)

section \<open>What a transition does\<close>

lemma run_state_str_inj [simp]: "run_state_str a = run_state_str b \<longleftrightarrow> a = b"
  by (cases a; cases b) simp_all

text \<open>The state after a committed transition, and the three operations on every branch.\<close>

definition committed_event :: "domain_event \<Rightarrow> 'z db_scheme \<Rightarrow> 'z db_scheme" where
  "committed_event e s = s\<lparr>events := insert_ignore e_id e (events s),
     delivered := delivered s @ List.map (\<lambda>l. (l, e)) (listeners s)\<rparr>"

lemma record_run_transition_eq:
  "record_run_transition r st e s =
     (if \<not> run_step (r_state r) st
      then (Inl (InvalidTransition ''run'' (r_id r) (run_state_str (r_state r)) (run_state_str st)), s)
      else if \<not> db_open s then (Inl (PersistenceError ''Persistence not initialized''), s)
      else (Inr (r\<lparr>r_state := st\<rparr>),
            committed_event e (s\<lparr>runs := upsert r_id (r\<lparr>r_state := st\<rparr>) (runs s)\<rparr>)))"
  by (simp add: record_run_transition_def guard_def run_step_def transaction_def require_conn_def
      stmt_defs publish_def committed_event_def Let_def act_defs)

lemma record_task_transition_eq:
  "record_task_transition t st e s =
     (if \<not> task_step (t_state t) st
      then (Inl (InvalidTransition ''task'' (t_id t) (task_state_str (t_state t)) (task_state_str st)), s)
      else if \<not> db_open s then (Inl (PersistenceError ''Persistence not initialized''), s)
      else if \<not> has_row r_id (t_run_id t) (runs s)
      then (Inl (IntegrityError ''FOREIGN KEY constraint failed''), s)
      else (Inr (t\<lparr>t_state := st\<rparr>),
            committed_event e (s\<lparr>tasks := upsert t_id (t\<lparr>t_state := st\<rparr>) (tasks s)\<rparr>)))"
  by (simp add: record_task_transition_def guard_def task_step_def transaction_def require_conn_def
      stmt_defs publish_def committed_event_def Let_def act_defs)

lemma record_attempt_transition_eq:
  "record_attempt_transition a st e s =
     (if \<not> attempt_step (a_state a) st
      then (Inl (InvalidTransition ''attempt'' (a_id a) (attempt_state_str (a_state a))
              (attempt_state_str st)), s)
      else if \<not> db_open s then (Inl (PersistenceError ''Persistence not initialized''), s)
      else if \<not> (has_row t_id (a_task_id a) (tasks s) \<and> has_row r_id (a_run_id a) (runs s))
      then (Inl (IntegrityError ''FOREIGN KEY constraint failed''), s)
      else (Inr (a\<lparr>a_state := st\<rparr>),
            committed_event e (s\<lparr>attempts := upsert a_id (a\<lparr>a_state := st\<rparr>) (attempts s)\<rparr>)))"
  by (simp add: record_attempt_transition_def guard_def attempt_step_def transaction_def
      require_conn_def stmt_defs publish_def committed_event_def Let_def act_defs)

lemmas transition_eqs =
  record_run_transition_eq record_task_transition_eq record_attempt_transition_eq

lemma committed_event_simps [simp]:
  "runs (committed_event e s) = runs s" "tasks (committed_event e s) = tasks s"
  "attempts (committed_event e s) = attempts s" "db_open (committed_event e s) = db_open s"
  "plans (committed_event e s) = plans s" "evidence_rows (committed_event e s) = evidence_rows s"
  "events (committed_event e s) = insert_ignore e_id e (events s)"
  "listeners (committed_event e s) = listeners s"
  "delivered (committed_event e s) = delivered s @ List.map (\<lambda>l. (l, e)) (listeners s)"
  by (simp_all add: committed_event_def)

section \<open>Properties\<close>

text \<open>An empty, open database, for concrete instances: the n-th identifier and time are numerals.\<close>

definition empty_db :: db where
  "empty_db = \<lparr>uuid_hex = nat_str, clock_iso = nat_str, draws = 0, ticks = 0, db_open = True,
     listeners = [''ws''], delivered = [], runs = [], tasks = [], attempts = [], events = [],
     evidence_rows = [], plans = []\<rparr>"

definition sample_run :: "run_state \<Rightarrow> run" where
  "sample_run st = \<lparr>r_id = ''r'', r_project_id = ''p'', r_goal_id = ''g'', r_goal_revision = ''1'',
     r_state = st, r_autonomy = ''agentic'', r_created_at = ''0'', r_started_at = None,
     r_completed_at = None\<rparr>"

definition sample_task :: "string \<Rightarrow> task_state \<Rightarrow> string list \<Rightarrow> task" where
  "sample_task i st deps = \<lparr>t_id = i, t_run_id = ''r'', t_objective = ''o'', t_role = None,
     t_risk = ''low'', t_scope = [], t_state = st, t_dependencies = deps, t_created_at = ''0''\<rparr>"

definition sample_attempt :: "string \<Rightarrow> string \<Rightarrow> attempt_state \<Rightarrow> attempt" where
  "sample_attempt i t st = \<lparr>a_id = i, a_task_id = t, a_run_id = ''r'', a_runner = None,
     a_model_provider = None, a_model_id = None, a_state = st, a_created_at = ''0'',
     a_started_at = None, a_completed_at = None, a_error_msg = None\<rparr>"

definition sample_event :: "string \<Rightarrow> domain_event" where
  "sample_event i = \<lparr>e_id = i, e_timestamp = ''0'', e_project_id = ''p'', e_run_id = Some ''r'',
     e_type = STATE_CHANGE, e_version = 1, e_payload = []\<rparr>"

definition sample_plan :: "plan_state \<Rightarrow> string \<Rightarrow> plan_record" where
  "sample_plan st g = \<lparr>pr_id = ''p1'', pr_project_id = ''p'', pr_goal_id = g, pr_goal_revision = ''1'',
     pr_state = st, pr_autonomy = ''agentic'', pr_runner = ''dummy'',
     pr_integration_target = ''main'', pr_created_at = ''0'', pr_tasks = []\<rparr>"

lemmas samples = empty_db_def sample_run_def sample_task_def sample_attempt_def sample_event_def
  sample_plan_def

lemma sample_simps [simp]:
  "t_id (sample_task i st ds) = i" "t_run_id (sample_task i st ds) = ''r''"
  "t_state (sample_task i st ds) = st" "t_dependencies (sample_task i st ds) = ds"
  "(sample_task i st ds)\<lparr>t_state := st'\<rparr> = sample_task i st' ds"
  "r_id (sample_run rs) = ''r''" "r_state (sample_run rs) = rs"
  "(sample_run rs)\<lparr>r_state := rs'\<rparr> = sample_run rs'"
  "a_id (sample_attempt x t as) = x" "a_task_id (sample_attempt x t as) = t"
  "a_run_id (sample_attempt x t as) = ''r''" "a_state (sample_attempt x t as) = as"
  "(sample_attempt x t as)\<lparr>a_state := as'\<rparr> = sample_attempt x t as'"
  by (simp_all add: samples)

text \<open>C11. A task transition is atomic: either it raises and the database is exactly what it was, or
  the step is one the table allows, the row has the new state, the event is in the log, and no other
  row has changed.\<close>

theorem task_transition_atomic:
  "case record_task_transition t st e s of
     (Inl err, s') \<Rightarrow> s' = s
   | (Inr t', s') \<Rightarrow> task_step (t_state t) st \<and> t' = t\<lparr>t_state := st\<rparr>
       \<and> row_by t_id (t_id t) (tasks s') = Some t' \<and> e_id e \<in> e_id ` set (events s')
       \<and> (\<forall>i. i \<noteq> t_id t \<longrightarrow> row_by t_id i (tasks s') = row_by t_id i (tasks s))
       \<and> runs s' = runs s \<and> attempts s' = attempts s"
  by (auto simp: record_task_transition_eq table.put_then_get table.put_other row_by_upsert
      set_insert_ignore)

theorem task_transition_atomic_witness:
  "let s = empty_db\<lparr>runs := [sample_run R_RUNNING]\<rparr>; t = sample_task ''t'' T_READY [] in
   case record_task_transition t T_RUNNING (sample_event ''e'') s of
     (Inl _, _) \<Rightarrow> False
   | (Inr _, s') \<Rightarrow> row_by t_id ''t'' (tasks s') = Some (sample_task ''t'' T_RUNNING [])
       \<and> row_by t_id ''u'' (tasks s') = None"
  using task_transition_atomic [where t = "sample_task ''t'' T_READY []" and st = T_RUNNING
      and e = "sample_event ''e''" and s = "empty_db\<lparr>runs := [sample_run R_RUNNING]\<rparr>"]
  by (simp add: samples record_task_transition_eq task_step_iff has_row_def Let_def row_by_def)

text \<open>Once a plan is locked or consumed, saving a record under its identifier never changes the
  table, whatever the record says, unless it consumes a locked plan; and the save succeeds exactly
  when the record is the stored one.\<close>

theorem saved_plan_immutable:
  assumes "row_by pr_id (pr_id p) (plans s) = Some old" and "pr_state old \<noteq> DRAFT"
    and "\<not> (pr_state old = LOCKED \<and> pr_state p = CONSUMED)" and "db_open s"
  shows "snd (save_plan p s) = s \<and> (fst (save_plan p s) = Inr () \<longleftrightarrow> p = old)"
  using assms by (auto simp: save_plan_def load_plan_def query_def require_conn_def act_defs)

theorem saved_plan_immutable_witness:
  "fst (save_plan (sample_plan LOCKED ''other'') (empty_db\<lparr>plans := [sample_plan LOCKED ''g'']\<rparr>)) \<noteq> Inr ()"
  using saved_plan_immutable [of "sample_plan LOCKED ''other''"
      "empty_db\<lparr>plans := [sample_plan LOCKED ''g'']\<rparr>" "sample_plan LOCKED ''g''"]
  by (simp add: samples row_by_def)

text \<open>A plan survives storage: the record made from a plan's tasks, saved under a new identifier, is
  loaded as it was and reads back as the same plan.\<close>

theorem plan_survives_storage:
  assumes "db_open s" and "row_by pr_id (pr_id r) (plans s) = None"
    and "pr_goal_id r = pl_goal_id p" and "pr_tasks r = List.map plan_task_of (pl_tasks p)"
  shows "\<exists>s'. save_plan r s = (Inr (), s') \<and> load_plan (pr_id r) s' = (Inr (Some r), s') \<and> to_plan r = p"
proof -
  have "save_plan r s = (Inr (), s\<lparr>plans := upsert pr_id r (plans s)\<rparr>)"
    using assms(1,2) by (simp add: save_plan_def load_plan_def query_def require_conn_def act_defs
        execute_def upsert_plan_def)
  moreover have "load_plan (pr_id r) (s\<lparr>plans := upsert pr_id r (plans s)\<rparr>)
      = (Inr (Some r), s\<lparr>plans := upsert pr_id r (plans s)\<rparr>)"
    using assms(1) by (simp add: load_plan_def query_def require_conn_def act_defs table.put_then_get)
  ultimately show ?thesis using plan_round_trip [OF assms(3,4)] by blast
qed

theorem plan_survives_storage_witness:
  "\<exists>s'. save_plan (sample_plan DRAFT ''g'') empty_db = (Inr (), s')
     \<and> load_plan (pr_id (sample_plan DRAFT ''g'')) s' = (Inr (Some (sample_plan DRAFT ''g'')), s')"
proof -
  let ?r = "sample_plan DRAFT ''g''"
  have "db_open empty_db" "row_by pr_id (pr_id ?r) (plans empty_db) = None"
    "pr_goal_id ?r = pl_goal_id \<lparr>pl_goal_id = ''g'', pl_tasks = []\<rparr>"
    "pr_tasks ?r = List.map plan_task_of (pl_tasks \<lparr>pl_goal_id = ''g'', pl_tasks = []\<rparr>)"
    by (simp_all add: samples row_by_def)
  from plan_survives_storage [OF this] show ?thesis by blast
qed

text \<open>Consuming a locked plan does not compare the record with the stored one, so it can replace
  the whole content of a plan that was locked: here the goal of the plan changes.\<close>

theorem consuming_rewrites_locked_plan:
  "let s = empty_db\<lparr>plans := [sample_plan LOCKED ''g'']\<rparr>
   in save_plan (sample_plan CONSUMED ''other'') s
      = (Inr (), s\<lparr>plans := [sample_plan CONSUMED ''other'']\<rparr>)"
  by (simp add: save_plan_def load_plan_def query_def require_conn_def act_defs samples row_by_def
      execute_def upsert_plan_def upsert_def Let_def)

end
