(* ===== verification/Guard.thy ===== *)
theory Guard
  imports Models
begin

text \<open>
  The checks of the security layer (\<open>security/guard.py\<close>) that decide on text alone: the git commands
  that are never run, and safe file names. \<open>validate_path\<close> resolves symbolic links and
  \<open>redact_secrets\<close> is regular-expression substitution; neither is modelled here.
\<close>

definition FORBIDDEN_GIT_SUBCOMMANDS :: "string list" where
  "FORBIDDEN_GIT_SUBCOMMANDS = [''push'', ''reset'', ''rebase'', ''filter-branch'', ''filter-repo'',
     ''clean'', ''gc'', ''prune'', ''reflog'']"

fun validate_git_words :: "string list \<Rightarrow> string list \<Rightarrow> exn + unit" where
  "validate_git_words args [] = Inr ()"
| "validate_git_words args (w # ws) =
     (if lower w \<in> set FORBIDDEN_GIT_SUBCOMMANDS
      then Inl (SecurityError (''git '' @ w @ '' is never performed by Atlas Flow: '' @ join '' '' args))
      else validate_git_words args ws)"

definition validate_git_command :: "string list \<Rightarrow> exn + unit" where
  "validate_git_command args = validate_git_words args args"

lemma validate_words_ok:
  "validate_git_words args ws = Inr () \<longleftrightarrow> (\<forall>w \<in> set ws. lower w \<notin> set FORBIDDEN_GIT_SUBCOMMANDS)"
  by (induction ws) auto

lemma validate_ok:
  "validate_git_command args = Inr () \<longleftrightarrow> (\<forall>w \<in> set args. lower w \<notin> set FORBIDDEN_GIT_SUBCOMMANDS)"
  by (simp add: validate_git_command_def validate_words_ok)

text \<open>
  \<open>PATH_TRAVERSAL\<close> finds a component \<open>..\<close>, the last one also before a final newline (\<open>$\<close>);
  \<open>SHELL_DANGEROUS\<close> is a character class.
\<close>

definition path_traversal :: "string \<Rightarrow> bool" where
  "path_traversal name \<longleftrightarrow> ''..'' \<in> set (split_on (CHR ''/'') name)
     \<or> last (split_on (CHR ''/'') name) = ''..'' @ newline"

definition SHELL_DANGEROUS :: string where
  "SHELL_DANGEROUS = '';&|'' @ [CHR 0x60] @ ''$(){}[]<>*?!'' @ [CHR 0x0A, CHR 0x0D, CHR 0x09]"

definition is_safe_filename :: "string \<Rightarrow> bool" where
  "is_safe_filename name \<longleftrightarrow>
     (if path_traversal name then False
      else if list_ex (\<lambda>c. c \<in> set SHELL_DANGEROUS) name then False
      else name \<noteq> [] \<and> \<not> starts_with name ''.'')"

text \<open>A file name passes exactly when it is not empty, does not start with a dot, has none of the
  shell's special characters and no \<open>..\<close> component.\<close>

theorem safe_filename_iff:
  "is_safe_filename name \<longleftrightarrow> name \<noteq> [] \<and> hd name \<noteq> CHR ''.'' \<and> set name \<inter> set SHELL_DANGEROUS = {}
     \<and> ''..'' \<notin> set (split_on (CHR ''/'') name)"
proof -
  have "\<exists>c \<in> set name. c \<in> set SHELL_DANGEROUS" if "last (split_on (CHR ''/'') name) = ''..'' @ newline"
  proof -
    have "last (split_on (CHR ''/'') name) \<in> set (split_on (CHR ''/'') name)" by simp
    then have "CHR 0x0A \<in> set (join ''/'' (split_on (CHR ''/'') name))"
      using that mem_join by (fastforce simp: newline_def)
    then show ?thesis unfolding join_split_on by (auto simp: SHELL_DANGEROUS_def)
  qed
  then show ?thesis
    by (cases name) (auto simp: is_safe_filename_def path_traversal_def list_ex_iff starts_with_def)
qed

end
