(* ===== verification/Worktree.thy ===== *)
theory Worktree
  imports Persistence Guard "HOL-Library.Sublist"
begin

text \<open>
  Isolation and integration (\<open>planner/worktree.py\<close>): which write scopes can coexist, the partition of
  tasks into parallel-safe batches, and the worktree manager. Git is outside the repository: the state
  holds \<open>git_out\<close>, which says what the n-th git process prints and exits with, and \<open>git_log\<close>, the
  commands started so far; nothing is assumed of the answers. Paths are strings; creating directories
  and the \<open>.gitignore\<close> marker is not modelled.

  The locale \<open>batching\<close> is the contract of the two greedy partitions of the code (here and in the goal
  runner): a batch only takes a member that fits it.
\<close>

section \<open>Greedy batches\<close>

fun place :: "('a list \<Rightarrow> bool) \<Rightarrow> 'a \<Rightarrow> 'a list list \<Rightarrow> 'a list list" where
  "place fits x [] = [[x]]"
| "place fits x (b # bs) = (if fits b then (b @ [x]) # bs else b # place fits x bs)"

definition batches_of :: "('a \<Rightarrow> 'a list \<Rightarrow> bool) \<Rightarrow> 'a list \<Rightarrow> 'a list list" where
  "batches_of fits xs = fold (\<lambda>x bs. place (fits x) x bs) xs []"

locale batching =
  fixes fits :: "'a \<Rightarrow> 'a list \<Rightarrow> bool" and safe_pair :: "'a \<Rightarrow> 'a \<Rightarrow> bool" and limit :: "nat option"
  assumes fits_safe: "fits x b \<Longrightarrow> y \<in> set b \<Longrightarrow> safe_pair y x"
    and fits_limit: "fits x b \<Longrightarrow> limit = Some n \<Longrightarrow> length b < n"
    and limit_pos: "limit = Some n \<Longrightarrow> 0 < n"
begin

definition good :: "'a list \<Rightarrow> bool" where
  "good b \<longleftrightarrow> b \<noteq> [] \<and> sorted_wrt safe_pair b \<and> (\<forall>n. limit = Some n \<longrightarrow> length b \<le> n)"

lemma place_good: "list_all good bs \<Longrightarrow> list_all good (place (fits x) x bs)"
proof (induction bs)
  case Nil
  have "\<forall>n. limit = Some n \<longrightarrow> 1 \<le> n" using limit_pos by fastforce
  then show ?case by (simp add: good_def)
next
  case (Cons b bs)
  have "good (b @ [x])" if "fits x b"
    using Cons.prems fits_safe [OF that] fits_limit [OF that]
    by (simp add: good_def sorted_wrt_append Suc_le_eq)
  with Cons show ?case by simp
qed

lemma place_mset: "mset (concat (place (fits x) x bs)) = add_mset x (mset (concat bs))"
  by (induction bs) auto

lemma fold_place:
  "list_all good bs \<Longrightarrow> list_all good (fold (\<lambda>x bs. place (fits x) x bs) xs bs)
     \<and> mset (concat (fold (\<lambda>x bs. place (fits x) x bs) xs bs)) = mset (concat bs) + mset xs"
  by (induction xs arbitrary: bs) (auto simp: place_good place_mset)

lemma batches_good: "b \<in> set (batches_of fits xs) \<Longrightarrow> good b"
  using fold_place [of "[]" xs] by (auto simp: batches_of_def list_all_iff)

lemma batches_partition: "mset (concat (batches_of fits xs)) = mset xs"
  using fold_place [of "[]" xs] by (simp add: batches_of_def)

lemma batches_pairwise: "b \<in> set (batches_of fits xs) \<Longrightarrow> sorted_wrt safe_pair b"
  using batches_good by (simp add: good_def)

lemma batches_limit: "b \<in> set (batches_of fits xs) \<Longrightarrow> limit = Some n \<Longrightarrow> length b \<le> n"
  using batches_good unfolding good_def by blast

end

section \<open>Write scopes\<close>

definition requires_isolation :: "string list \<Rightarrow> bool" where
  "requires_isolation scope \<longleftrightarrow> length scope > 0"

definition can_coexist :: "string list \<Rightarrow> string list \<Rightarrow> bool" where
  "can_coexist scope_a scope_b =
     list_all (\<lambda>pa. list_all (\<lambda>pb.
       (let parts_a = path_parts pa; parts_b = path_parts pb;
            common = length (common_prefix parts_a parts_b)
        in \<not> (common > 0 \<and> common = min (length parts_a) (length parts_b)))) scope_b) scope_a"

text \<open>\<open>scopes\<close> is a dictionary: an association list whose keys are distinct.\<close>

definition partition_parallel_safe :: "(string \<times> string list) list \<Rightarrow> string list list" where
  "partition_parallel_safe scopes =
     batches_of (\<lambda>i b. list_all (\<lambda>other. can_coexist (the (map_of scopes i)) (the (map_of scopes other))) b)
       (List.map fst scopes)"

lemma common_prefix_full_left: "length (common_prefix xs ys) = length xs \<longleftrightarrow> prefix xs ys"
  by (induction xs ys rule: common_prefix.induct) auto

lemma common_prefix_full:
  "length (common_prefix xs ys) = min (length xs) (length ys) \<longleftrightarrow> prefix xs ys \<or> prefix ys xs"
  using common_prefix_full_left [of xs ys] common_prefix_full_left [of ys xs]
  by (cases "length xs \<le> length ys")
    (auto simp: common_prefix_sym [of ys xs] min_def dest: prefix_length_le)

lemma can_coexist_prefix:
  "can_coexist a b \<longleftrightarrow> (\<forall>pa \<in> set a. \<forall>pb \<in> set b.
      \<not> prefix (path_parts pa) (path_parts pb) \<and> \<not> prefix (path_parts pb) (path_parts pa))"
proof -
  have "(0 < length (common_prefix (path_parts x) (path_parts y))
        \<and> length (common_prefix (path_parts x) (path_parts y))
          = min (length (path_parts x)) (length (path_parts y)))
      \<longleftrightarrow> prefix (path_parts x) (path_parts y) \<or> prefix (path_parts y) (path_parts x)" for x y
    using common_prefix_full [of "path_parts x" "path_parts y"] by (auto simp: min_def split: if_splits)
  then show ?thesis by (auto simp: can_coexist_def list_all_iff Let_def)
qed

lemma can_coexist_sym: "can_coexist a b \<longleftrightarrow> can_coexist b a"
  by (auto simp: can_coexist_prefix)

interpretation scope_batches: batching
  "\<lambda>i b. list_all (\<lambda>other. can_coexist (the (map_of scopes i)) (the (map_of scopes other))) b"
  "\<lambda>i j. can_coexist (the (map_of scopes i)) (the (map_of scopes j))" None
  for scopes :: "(string \<times> string list) list"
  by unfold_locales (auto simp: list_all_iff can_coexist_sym)

section \<open>Git\<close>

record vcs = db +
  git_out :: "nat \<Rightarrow> string \<Rightarrow> string list \<Rightarrow> string \<times> string \<times> int"
  git_log :: "(string \<times> string list) list"

type_synonym ('z, 'a) vcs_act = "('z vcs_scheme, exn, 'a) act"

definition run_git_raw :: "string \<Rightarrow> string list \<Rightarrow> ('z, string \<times> string \<times> int) vcs_act" where
  "run_git_raw repo args s =
     (Inr (git_out s (length (git_log s)) repo args), s\<lparr>git_log := git_log s @ [(repo, args)]\<rparr>)"

definition run_git :: "string \<Rightarrow> string list \<Rightarrow> ('z, string) vcs_act" where
  "run_git repo args =
     (case validate_git_command args of
        Inl e \<Rightarrow> throw e
      | Inr _ \<Rightarrow> bindE (run_git_raw repo args) (\<lambda>(out, err, code).
          if code \<noteq> 0 then throw (GitError args code (strip err)) else ret out))"

section \<open>The manager\<close>

definition worktree_branch_name :: "string \<Rightarrow> string \<Rightarrow> string" where
  "worktree_branch_name goal_id task_id = ''atlas/'' @ goal_id @ ''/'' @ task_id"

definition worktree_directory :: "string \<Rightarrow> string \<Rightarrow> string \<Rightarrow> string" where
  "worktree_directory base goal_id task_id = base @ ''/worktrees/'' @ goal_id @ ''-'' @ task_id"

record worktree =
  w_goal_id :: string
  w_task_id :: string
  w_branch :: string
  w_path :: string

record integration_result =
  ir_branch :: string
  ir_target :: string
  ir_integrated :: bool
  ir_conflicts :: "string list"
  ir_reason :: string

definition has_conflicts :: "integration_result \<Rightarrow> bool" where
  "has_conflicts r \<longleftrightarrow> ir_conflicts r \<noteq> []"

record manager =
  repo_root :: string
  wt_base :: string

definition mk_manager :: "string \<Rightarrow> string option \<Rightarrow> manager" where
  "mk_manager repo base = \<lparr>repo_root = repo,
     wt_base = (case base of None \<Rightarrow> repo @ ''/.atlas-flow'' | Some b \<Rightarrow> b)\<rparr>"

definition wt_create :: "manager \<Rightarrow> string \<Rightarrow> string \<Rightarrow> string \<Rightarrow> ('z, worktree) vcs_act" where
  "wt_create m goal_id task_id start_point =
     (let branch = worktree_branch_name goal_id task_id;
          path = worktree_directory (wt_base m) goal_id task_id
      in bindE (run_git (repo_root m) [''worktree'', ''add'', ''-b'', branch, path, start_point]) (\<lambda>_.
           ret \<lparr>w_goal_id = goal_id, w_task_id = task_id, w_branch = branch, w_path = path\<rparr>))"

definition wt_list_paths :: "manager \<Rightarrow> ('z, string list) vcs_act" where
  "wt_list_paths m =
     bindE (run_git (repo_root m) [''worktree'', ''list'', ''--porcelain'']) (\<lambda>out.
       ret (List.map (\<lambda>l. strip (drop (length ''worktree '') l))
              (filter (\<lambda>l. starts_with l ''worktree '') (splitlines out))))"

definition wt_remove :: "manager \<Rightarrow> worktree \<Rightarrow> bool \<Rightarrow> ('z, unit) vcs_act" where
  "wt_remove m w force =
     bindE (run_git (repo_root m)
              ([''worktree'', ''remove'', w_path w] @ (if force then [''--force''] else [])))
       (\<lambda>_. ret ())"

definition is_dirty :: "string \<Rightarrow> ('z, bool) vcs_act" where
  "is_dirty repo = bindE (run_git repo [''status'', ''--porcelain'']) (\<lambda>out. ret (strip out \<noteq> []))"

definition commit_all :: "worktree \<Rightarrow> string \<Rightarrow> ('z, bool) vcs_act" where
  "commit_all w message =
     bindE (is_dirty (w_path w)) (\<lambda>dirty.
       if \<not> dirty then ret False
       else bindE (run_git (w_path w) [''add'', ''-A'']) (\<lambda>_.
            bindE (run_git (w_path w) [''commit'', ''-m'', message]) (\<lambda>_. ret True)))"

definition merge_tree_args :: "string \<Rightarrow> string \<Rightarrow> string list" where
  "merge_tree_args branch target = [''merge-tree'', ''--write-tree'', ''--name-only'', target, branch]"

definition conflict_lines :: "string \<Rightarrow> string list" where
  "conflict_lines out = List.map strip (takeWhile (\<lambda>l. strip l \<noteq> []) (tl (splitlines out)))"

definition detect_conflicts :: "manager \<Rightarrow> string \<Rightarrow> string \<Rightarrow> ('z, string list) vcs_act" where
  "detect_conflicts m branch target =
     bindE (run_git_raw (repo_root m) (merge_tree_args branch target)) (\<lambda>(out, err, code).
       if code = 0 then ret []
       else if code \<noteq> 1 then throw (GitError [''merge-tree'', target, branch] code (strip err))
       else ret (conflict_lines out))"

definition merge_args :: "worktree \<Rightarrow> string list" where
  "merge_args w = [''merge'', ''--no-ff'', ''-m'', ''Integrate '' @ w_branch w, w_branch w]"

definition integrate :: "manager \<Rightarrow> worktree \<Rightarrow> string \<Rightarrow> ('z, integration_result) vcs_act" where
  "integrate m w target =
     (let result = \<lparr>ir_branch = w_branch w, ir_target = target, ir_integrated = False,
                    ir_conflicts = [], ir_reason = ''''\<rparr>
      in bindE (is_dirty (repo_root m)) (\<lambda>dirty.
         if dirty then ret (result\<lparr>ir_reason := ''Target checkout '' @ repo_root m
              @ '' has uncommitted changes; integration would risk overwriting unrelated user work.''\<rparr>)
         else bindE (detect_conflicts m (w_branch w) target) (\<lambda>conflicts.
         if conflicts \<noteq> [] then ret (result\<lparr>ir_conflicts := conflicts,
              ir_reason := nat_str (length conflicts) @ '' conflicting path(s) between '' @ w_branch w
                @ '' and '' @ target @ ''; resolve them explicitly.''\<rparr>)
         else bindE (run_git (repo_root m) [''rev-parse'', ''--abbrev-ref'', ''HEAD'']) (\<lambda>current.
              bindE (if strip current \<noteq> target
                     then bindE (run_git (repo_root m) [''checkout'', target]) (\<lambda>_. ret ()) else ret ())
                (\<lambda>_. bindE (run_git (repo_root m) (merge_args w)) (\<lambda>_.
                ret (result\<lparr>ir_integrated := True,
                       ir_reason := ''Merged '' @ w_branch w @ '' into '' @ target @ ''.''\<rparr>)))))))"

section \<open>Invariants of the store and of the log\<close>

locale vcs_invariant = runtime_invariant I ok_task ok_run
  for I :: "'z vcs_scheme \<Rightarrow> bool" and ok_task :: "task \<Rightarrow> bool"
    and ok_run :: "run \<Rightarrow> bool" +
  fixes ok_git :: "string list \<Rightarrow> bool"
  assumes I_git: "I s \<Longrightarrow> ok_git args \<Longrightarrow> I (s\<lparr>git_log := git_log s @ [(repo, args)]\<rparr>)"
    and ok_valid: "validate_git_command args = Inr () \<Longrightarrow> ok_git args"
    and ok_merge_tree: "ok_git (merge_tree_args b t)"
begin

lemma pres_git_raw: "ok_git args \<Longrightarrow> preserves I (run_git_raw repo args)"
  by (auto simp: preserves_def run_git_raw_def I_git)

lemma pres_git: "preserves I (run_git repo args)"
proof (cases "validate_git_command args")
  case (Inr u)
  then have "ok_git args" using ok_valid by simp
  then show ?thesis unfolding run_git_def Inr sum.case by (intro store_rules pres_git_raw)
qed (simp add: run_git_def pres_throw)

lemma pres_worktrees:
  "preserves I (wt_create m g t sp)" "preserves I (wt_list_paths m)" "preserves I (wt_remove m w f)"
  "preserves I (is_dirty repo)" "preserves I (commit_all w msg)" "preserves I (detect_conflicts m b t)"
  "preserves I (integrate m w t)"
  unfolding wt_create_def wt_list_paths_def wt_remove_def commit_all_def integrate_def is_dirty_def
    detect_conflicts_def Let_def
  by (intro store_rules pres_git pres_git_raw ok_merge_tree)+

lemmas vcs_pres = store_pres pres_git pres_worktrees

end

text \<open>Every command in the log passes the guard, or is the conflict query.\<close>

definition guarded_args :: "string list \<Rightarrow> bool" where
  "guarded_args args \<longleftrightarrow> (\<forall>w \<in> set args. lower w \<notin> set FORBIDDEN_GIT_SUBCOMMANDS)
     \<or> (\<exists>b t. args = merge_tree_args b t)"

definition guarded_log :: "'z vcs_scheme \<Rightarrow> bool" where
  "guarded_log s \<longleftrightarrow> (\<forall>(repo, args) \<in> set (git_log s). guarded_args args)"

interpretation guarded: vcs_invariant guarded_log "\<lambda>_. True" "\<lambda>_. True" guarded_args
  by unfold_locales (auto simp: guarded_log_def guarded_args_def validate_ok)

interpretation vcs_integrity: vcs_invariant integrity "\<lambda>_. True" "\<lambda>_. True" "\<lambda>_. True"
  by unfold_locales (auto simp: integrity_def)

section \<open>What integration does\<close>

definition porcelain :: "manager \<Rightarrow> 'z vcs_scheme \<Rightarrow> string \<times> string \<times> int" where
  "porcelain m s = git_out s (length (git_log s)) (repo_root m) [''status'', ''--porcelain'']"

definition merge_preview :: "manager \<Rightarrow> worktree \<Rightarrow> string \<Rightarrow> 'z vcs_scheme \<Rightarrow> string \<times> string \<times> int" where
  "merge_preview m w target s =
     git_out s (Suc (length (git_log s))) (repo_root m) (merge_tree_args (w_branch w) target)"

definition preview_clean :: "string \<times> string \<times> int \<Rightarrow> bool" where
  "preview_clean r \<longleftrightarrow> (case r of (out, err, code) \<Rightarrow> code = 0 \<or> code = 1 \<and> conflict_lines out = [])"

definition new_git :: "'z vcs_scheme \<Rightarrow> 'z vcs_scheme \<Rightarrow> string list list" where
  "new_git s s' = List.map snd (drop (length (git_log s)) (git_log s'))"

lemmas git_run_defs = run_git_def run_git_raw_def act_defs

lemma status_ok: "validate_git_command [''status'', ''--porcelain''] = Inr ()"
  by code_simp

lemma revparse_ok: "validate_git_command [''rev-parse'', ''--abbrev-ref'', ''HEAD''] = Inr ()"
  by code_simp

definition logged :: "string \<Rightarrow> string list \<Rightarrow> 'z vcs_scheme \<Rightarrow> 'z vcs_scheme" where
  "logged repo args s = s\<lparr>git_log := git_log s @ [(repo, args)]\<rparr>"

lemma logged_simps [simp]:
  "git_log (logged repo args s) = git_log s @ [(repo, args)]" "git_out (logged repo args s) = git_out s"
  by (simp_all add: logged_def)

lemma run_git_eq:
  "run_git repo args s =
     (case validate_git_command args of Inl e \<Rightarrow> (Inl e, s) | Inr _ \<Rightarrow>
       (case git_out s (length (git_log s)) repo args of (out, err, code) \<Rightarrow>
         (if code \<noteq> 0 then Inl (GitError args code (strip err)) else Inr out, logged repo args s)))"
  by (simp add: git_run_defs logged_def split: sum.split prod.split)

lemma is_dirty_eq:
  "is_dirty (repo_root m) s = (case porcelain m s of (out, err, code) \<Rightarrow>
     (if code \<noteq> 0 then Inl (GitError [''status'', ''--porcelain''] code (strip err))
      else Inr (strip out \<noteq> []), logged (repo_root m) [''status'', ''--porcelain''] s))"
  by (simp add: is_dirty_def bindE_def run_git_eq status_ok porcelain_def ret_def split: prod.split)

lemma detect_conflicts_eq:
  "detect_conflicts m (w_branch w) target (logged (repo_root m) [''status'', ''--porcelain''] s) =
     (case merge_preview m w target s of (out, err, code) \<Rightarrow>
       (if code = 0 then Inr []
        else if code \<noteq> 1 then Inl (GitError [''merge-tree'', target, w_branch w] code (strip err))
        else Inr (conflict_lines out),
        logged (repo_root m) (merge_tree_args (w_branch w) target)
          (logged (repo_root m) [''status'', ''--porcelain''] s)))"
  by (simp add: detect_conflicts_def run_git_raw_def merge_preview_def logged_def act_defs
      split: prod.split)

definition merge_tail :: "manager \<Rightarrow> worktree \<Rightarrow> string \<Rightarrow> ('z, integration_result) vcs_act" where
  "merge_tail m w target =
     bindE (run_git (repo_root m) [''rev-parse'', ''--abbrev-ref'', ''HEAD'']) (\<lambda>current.
     bindE (if strip current \<noteq> target
            then bindE (run_git (repo_root m) [''checkout'', target]) (\<lambda>_. ret ()) else ret ())
       (\<lambda>_. bindE (run_git (repo_root m) (merge_args w)) (\<lambda>_.
       ret \<lparr>ir_branch = w_branch w, ir_target = target, ir_integrated = True, ir_conflicts = [],
            ir_reason = ''Merged '' @ w_branch w @ '' into '' @ target @ ''.''\<rparr>)))"

lemma integrate_eq:
  "integrate m w target s =
     (let s1 = logged (repo_root m) [''status'', ''--porcelain''] s;
          s2 = logged (repo_root m) (merge_tree_args (w_branch w) target) s1;
          result = \<lparr>ir_branch = w_branch w, ir_target = target, ir_integrated = False,
                    ir_conflicts = [], ir_reason = []\<rparr>
      in case porcelain m s of (out, err, code) \<Rightarrow>
         if code \<noteq> 0 then (Inl (GitError [''status'', ''--porcelain''] code (strip err)), s1)
         else if strip out \<noteq> [] then
           (Inr (result\<lparr>ir_reason := ''Target checkout '' @ repo_root m
              @ '' has uncommitted changes; integration would risk overwriting unrelated user work.''\<rparr>), s1)
         else (case merge_preview m w target s of (out, err, code) \<Rightarrow>
           if code = 0 \<or> code = 1 \<and> conflict_lines out = [] then merge_tail m w target s2
           else if code \<noteq> 1 then (Inl (GitError [''merge-tree'', target, w_branch w] code (strip err)), s2)
           else (Inr (result\<lparr>ir_conflicts := conflict_lines out,
              ir_reason := nat_str (length (conflict_lines out)) @ '' conflicting path(s) between ''
                @ w_branch w @ '' and '' @ target @ ''; resolve them explicitly.''\<rparr>), s2)))"
  by (simp add: integrate_def bindE_def is_dirty_eq detect_conflicts_eq merge_tail_def ret_def Let_def
      split: prod.split)

lemma merge_tail_ok:
  assumes "merge_tail m w target s = (Inr r, s')"
  shows "ir_integrated r \<and> (\<exists>pre. git_log s' = git_log s @ pre @ [(repo_root m, merge_args w)])
     \<and> snd (snd (git_out s (length (git_log s') - 1) (repo_root m) (merge_args w))) = 0"
  using assms unfolding merge_tail_def
  by (auto simp: bindE_def run_git_eq ret_def split: sum.splits prod.splits if_splits)

section \<open>Properties\<close>

text \<open>Two write scopes may run side by side exactly when no path of one is, component by component,
  a prefix of a path of the other; the relation is symmetric.\<close>

theorem coexist_iff_no_containment:
  "(can_coexist a b \<longleftrightarrow> (\<forall>pa \<in> set a. \<forall>pb \<in> set b.
      \<not> prefix (path_parts pa) (path_parts pb) \<and> \<not> prefix (path_parts pb) (path_parts pa)))
   \<and> (can_coexist a b \<longleftrightarrow> can_coexist b a)"
  using can_coexist_prefix can_coexist_sym by blast

theorem coexist_iff_no_containment_witness:
  "\<not> can_coexist [''src/a''] [''docs'', ''/src/a/x.py''] \<and> can_coexist [''src/a''] [''src/b'']
     \<and> can_coexist [''docs'', ''/src/b/''] [''src/a'']"
proof -
  have "path_parts ''src/a'' = [''src'', ''a'']" "path_parts ''/src/b/'' = [''src'', ''b'']"
    "path_parts ''src/b'' = [''src'', ''b'']" "path_parts ''docs'' = [''docs'']"
    "path_parts ''/src/a/x.py'' = [''src'', ''a'', ''x.py'']" by code_simp+
  then show ?thesis
    using coexist_iff_no_containment [of "[''src/a'']" "[''docs'', ''/src/a/x.py'']"]
      coexist_iff_no_containment [of "[''src/a'']" "[''src/b'']"]
      coexist_iff_no_containment [of "[''docs'', ''/src/b/'']" "[''src/a'']"] by simp
qed

text \<open>The root directory contains every path, yet a task that writes to it is declared able to run
  beside one that writes below it.\<close>

theorem root_scope_coexists:
  "can_coexist [''/''] [''src/a''] \<and> can_coexist [[]] [''src/a'']"
  by code_simp

text \<open>\<open>partition_parallel_safe\<close> puts every task in exactly one batch, leaves no batch empty, and
  no two tasks of a batch have overlapping write scopes.\<close>

theorem partition_parallel_safe_correct:
  assumes "distinct (List.map fst scopes)"
  shows "mset (concat (partition_parallel_safe scopes)) = mset (List.map fst scopes)
     \<and> (\<forall>b \<in> set (partition_parallel_safe scopes). b \<noteq> [] \<and> distinct b \<and>
          (\<forall>i \<in> set b. \<forall>j \<in> set b. i \<noteq> j \<longrightarrow>
             can_coexist (the (map_of scopes i)) (the (map_of scopes j))))"
proof -
  have m: "mset (concat (partition_parallel_safe scopes)) = mset (List.map fst scopes)"
    unfolding partition_parallel_safe_def by (rule scope_batches.batches_partition)
  then have d: "distinct (concat (partition_parallel_safe scopes))"
    using assms by (metis mset_eq_imp_distinct_iff)
  have b: "b \<noteq> [] \<and> distinct b \<and> (\<forall>i \<in> set b. \<forall>j \<in> set b. i \<noteq> j \<longrightarrow>
      can_coexist (the (map_of scopes i)) (the (map_of scopes j)))"
    if "b \<in> set (partition_parallel_safe scopes)" for b
  proof -
    from that have g: "scope_batches.good scopes b"
      unfolding partition_parallel_safe_def by (rule scope_batches.batches_good)
    then have s: "sorted_wrt (\<lambda>i j. can_coexist (the (map_of scopes i)) (the (map_of scopes j))) b"
      and "b \<noteq> []" unfolding scope_batches.good_def by auto
    moreover have "can_coexist (the (map_of scopes i)) (the (map_of scopes j))"
      if "i \<in> set b" "j \<in> set b" "i \<noteq> j" for i j
      using s that by (metis in_set_conv_nth can_coexist_sym linorder_neqE_nat sorted_wrt_iff_nth_less)
    ultimately show ?thesis using d that by (simp add: distinct_concat_iff)
  qed
  with m show ?thesis by blast
qed

theorem partition_parallel_safe_correct_witness:
  "partition_parallel_safe [(''a'', [''src'']), (''b'', [''src/x'']), (''c'', [''docs''])]
     = [[''a'', ''c''], [''b'']]
   \<and> can_coexist [''src''] [''docs'']"
proof -
  let ?p = "[(''a'', [''src'']), (''b'', [''src/x'']), (''c'', [''docs''])]"
  have eq: "partition_parallel_safe ?p = [[''a'', ''c''], [''b'']]" by code_simp
  show ?thesis using partition_parallel_safe_correct [of ?p] unfolding eq by auto
qed

text \<open>C8. Integration is never forced: when it answers that the branch was integrated, the target
  checkout was clean, the preview of the merge listed no conflict, and the last git command was the
  merge, which exited with 0; when it refuses, no git command but the two queries was run.\<close>

theorem integrate_never_forced:
  assumes "integrate m w target s = (Inr r, s')"
  shows "if ir_integrated r
     then (case porcelain m s of (out, err, code) \<Rightarrow> code = 0 \<and> strip out = [])
        \<and> preview_clean (merge_preview m w target s)
        \<and> (\<exists>pre. git_log s' = git_log s @ pre @ [(repo_root m, merge_args w)])
        \<and> snd (snd (git_out s (length (git_log s') - 1) (repo_root m) (merge_args w))) = 0
     else set (new_git s s') \<subseteq> {[''status'', ''--porcelain''], merge_tree_args (w_branch w) target}
        \<and> ir_reason r \<noteq> []"
proof -
  let ?s1 = "logged (repo_root m) [''status'', ''--porcelain''] s"
  let ?s2 = "logged (repo_root m) (merge_tree_args (w_branch w) target) ?s1"
  obtain o1 e1 c1 where p: "porcelain m s = (o1, e1, c1)" by (cases "porcelain m s")
  obtain o2 e2 c2 where q: "merge_preview m w target s = (o2, e2, c2)"
    by (cases "merge_preview m w target s")
  note eq = assms [unfolded integrate_eq Let_def p q prod.case]
  show ?thesis
  proof (cases "c1 = 0 \<and> strip o1 = [] \<and> (c2 = 0 \<or> c2 = 1 \<and> conflict_lines o2 = [])")
    case True
    then have "merge_tail m w target ?s2 = (Inr r, s')" using eq by simp
    from merge_tail_ok [OF this] True p q show ?thesis by (auto simp: preview_clean_def)
  next
    case False
    with eq show ?thesis by (auto simp: new_git_def split: if_splits)
  qed
qed

definition sample_vcs :: vcs where
  "sample_vcs = \<lparr>uuid_hex = nat_str, clock_iso = nat_str, draws = 0, ticks = 0, db_open = True,
     listeners = [], delivered = [], runs = [], tasks = [], attempts = [], events = [],
     evidence_rows = [], plans = [],
     git_out = (\<lambda>_ _ args. if args = [''rev-parse'', ''--abbrev-ref'', ''HEAD''] then (''main'', [], 0)
                         else ([], [], 0)),
     git_log = []\<rparr>"

definition sample_worktree :: worktree where
  "sample_worktree = \<lparr>w_goal_id = ''g'', w_task_id = ''t'', w_branch = ''atlas/g/t'', w_path = ''/w''\<rparr>"

lemma sample_integrates:
  "case integrate (mk_manager ''/r'' None) sample_worktree ''main'' sample_vcs of
     (Inr r, _) \<Rightarrow> ir_integrated r | _ \<Rightarrow> False"
  by code_simp

theorem integrate_never_forced_witness:
  "\<exists>r s'. integrate (mk_manager ''/r'' None) sample_worktree ''main'' sample_vcs = (Inr r, s')
     \<and> ir_integrated r \<and> preview_clean (merge_preview (mk_manager ''/r'' None) sample_worktree ''main'' sample_vcs)"
proof -
  obtain r s' where x: "integrate (mk_manager ''/r'' None) sample_worktree ''main'' sample_vcs = (Inr r, s')"
    and ok: "ir_integrated r"
    using sample_integrates by (auto split: prod.splits sum.splits)
  from integrate_never_forced [OF x] x ok show ?thesis by auto
qed

end
