(* ===== verification/Router.thy ===== *)
theory Router
  imports Models
begin

text \<open>
  The model router (\<open>routing/router.py\<close>): the roster and the role defaults as the code lists them,
  reachability, routing, the choice of a reviewer from another provider, and the scorecard.
\<close>

datatype priority = PRIMARY | EFFICIENT

datatype availability = EXPECTED | PROBE_REQUIRED

record model_entry =
  m_key :: string
  m_provider :: string
  m_command_code_id :: string
  m_priority :: priority
  m_availability :: availability

record route_decision =
  rd_role :: string
  rd_selected :: "model_entry option"
  rd_reason :: string
  rd_fallback_attempts :: nat
  rd_candidates :: "model_entry list"

definition ROSTER :: "model_entry list" where
  "ROSTER =
    [\<lparr>m_key = ''deepseek-v4-pro'', m_provider = ''deepseek'',
      m_command_code_id = ''deepseek/deepseek-v4-pro'', m_priority = PRIMARY, m_availability = EXPECTED\<rparr>,
     \<lparr>m_key = ''mimo-v2.5-pro'', m_provider = ''xiaomi'',
      m_command_code_id = ''xiaomi/mimo-v2.5-pro'', m_priority = PRIMARY, m_availability = EXPECTED\<rparr>,
     \<lparr>m_key = ''gpt-5.6-luna'', m_provider = ''openai'',
      m_command_code_id = ''gpt-5.6-luna'', m_priority = EFFICIENT, m_availability = PROBE_REQUIRED\<rparr>]"

definition ROLE_DEFAULTS :: "(string \<times> string list) list" where
  "ROLE_DEFAULTS =
    [(''chief-architect'', [''deepseek-v4-pro'', ''mimo-v2.5-pro'']),
     (''goal-planner'', [''deepseek-v4-pro'', ''mimo-v2.5-pro'']),
     (''core-implementer'', [''mimo-v2.5-pro'', ''deepseek-v4-pro'']),
     (''ui-engineer'', [''mimo-v2.5-pro'', ''deepseek-v4-pro'']),
     (''tester'', [''gpt-5.6-luna'', ''mimo-v2.5-pro'']),
     (''repo-explorer'', [''gpt-5.6-luna'', ''mimo-v2.5-pro'']),
     (''reviewer'', [''deepseek-v4-pro''])]"

definition model_by_key :: "(string \<times> model_entry) list" where
  "model_by_key = List.map (\<lambda>m. (m_key m, m)) ROSTER"

text \<open>\<open>available\<close> is the router's \<open>_available\<close> set; only whether it is empty and what it contains matter.\<close>

definition is_reachable :: "string list \<Rightarrow> model_entry \<Rightarrow> bool" where
  "is_reachable available entry =
     (if available = [] then m_availability entry = EXPECTED
      else list_ex (\<lambda>a. contains a (m_command_code_id entry) \<or> contains (lower a) (lower (m_key entry)))
             available)"

definition role_candidates :: "string \<Rightarrow> model_entry list" where
  "role_candidates role =
     List.map_filter (map_of model_by_key)
       (case map_of ROLE_DEFAULTS role of
          None \<Rightarrow> [''deepseek-v4-pro'', ''mimo-v2.5-pro'', ''gpt-5.6-luna'']
        | Some order \<Rightarrow> order)"

fun route_loop :: "string list \<Rightarrow> nat \<Rightarrow> model_entry list \<Rightarrow> route_decision \<Rightarrow> route_decision" where
  "route_loop available idx [] d =
     d\<lparr>rd_reason := ''No reachable model for role '' @ quoted (rd_role d)\<rparr>"
| "route_loop available idx (c # cs) d =
     (if is_reachable available c
      then d\<lparr>rd_selected := Some c,
             rd_reason := ''Selected '' @ m_key c @ '' ('' @ m_provider c @ '') for role ''
               @ quoted (rd_role d) @ '' '' @ emdash @ '' index '' @ nat_str idx @ '' in preference order'',
             rd_fallback_attempts := idx\<rparr>
      else route_loop available (Suc idx) cs d)"

definition route :: "string list \<Rightarrow> string \<Rightarrow> route_decision" where
  "route available role =
     route_loop available 0 (role_candidates role)
       \<lparr>rd_role = role, rd_selected = None, rd_reason = [], rd_fallback_attempts = 0,
        rd_candidates = role_candidates role\<rparr>"

definition select_high_risk_reviewer :: "string list \<Rightarrow> string \<Rightarrow> model_entry option" where
  "select_high_risk_reviewer available implementer_provider =
     (let cross = filter (\<lambda>r. m_provider r \<noteq> implementer_provider \<and> is_reachable available r) ROSTER
      in if cross \<noteq> []
         then let primary = filter (\<lambda>r. m_priority r = PRIMARY) cross
              in Some (hd (if primary \<noteq> [] then primary else cross))
         else None)"

definition why_this_model :: "route_decision \<Rightarrow> string" where
  "why_this_model d =
     (case rd_selected d of
        None \<Rightarrow> ''No model available for role '' @ quoted (rd_role d)
      | Some m \<Rightarrow> ''Role '' @ quoted (rd_role d) @ '' routed to '' @ m_key m @ '' ('' @ m_provider m @ '') ''
          @ emdash @ '' '' @ rd_reason d)"

section \<open>The scorecard\<close>

record score =
  sc_uses :: nat
  sc_successes :: nat
  sc_failures :: nat

type_synonym scorecard = "(string \<times> score) list"

definition observe :: "string \<Rightarrow> bool \<Rightarrow> scorecard \<Rightarrow> scorecard" where
  "observe key success sc =
     (let e = (case map_of sc key of None \<Rightarrow> \<lparr>sc_uses = 0, sc_successes = 0, sc_failures = 0\<rparr> | Some e \<Rightarrow> e);
          e1 = e\<lparr>sc_uses := sc_uses e + 1\<rparr>
      in AList.update key
           (if success then e1\<lparr>sc_successes := sc_successes e1 + 1\<rparr>
            else e1\<lparr>sc_failures := sc_failures e1 + 1\<rparr>) sc)"

definition success_rate :: "scorecard \<Rightarrow> string \<Rightarrow> rat" where
  "success_rate sc key =
     (case map_of sc key of None \<Rightarrow> 0
      | Some e \<Rightarrow> if sc_uses e = 0 then 0 else of_nat (sc_successes e) / of_nat (sc_uses e))"

definition total_uses :: "scorecard \<Rightarrow> string \<Rightarrow> nat" where
  "total_uses sc key = (case map_of sc key of None \<Rightarrow> 0 | Some e \<Rightarrow> sc_uses e)"

definition total_successes :: "scorecard \<Rightarrow> string \<Rightarrow> nat" where
  "total_successes sc key = (case map_of sc key of None \<Rightarrow> 0 | Some e \<Rightarrow> sc_successes e)"

definition balanced :: "scorecard \<Rightarrow> bool" where
  "balanced sc \<longleftrightarrow> (\<forall>(k, e) \<in> set sc. sc_uses e = sc_successes e + sc_failures e)"

lemma observe_total:
  "total_uses (observe k b sc) j = total_uses sc j + (if j = k then 1 else 0)"
  "total_successes (observe k b sc) j = total_successes sc j + (if j = k \<and> b then 1 else 0)"
  by (auto simp: observe_def total_uses_def total_successes_def Let_def update_conv' split: option.splits)

lemma observe_balanced: "balanced sc \<Longrightarrow> balanced (observe k b sc)"
proof -
  assume b: "balanced sc"
  let ?e = "case map_of sc k of None \<Rightarrow> \<lparr>sc_uses = 0, sc_successes = 0, sc_failures = 0\<rparr> | Some e \<Rightarrow> e"
  have "sc_uses ?e = sc_successes ?e + sc_failures ?e"
    using b by (auto simp: balanced_def split: option.splits dest!: map_of_SomeD)
  then show ?thesis
    using b set_update_subset unfolding balanced_def observe_def Let_def
    by (fastforce split: if_splits)
qed

section \<open>Routing facts\<close>

lemma route_loop_spec:
  "route_loop av i cs d =
     (case List.find (is_reachable av) cs of
        None \<Rightarrow> d\<lparr>rd_reason := ''No reachable model for role '' @ quoted (rd_role d)\<rparr>
      | Some c \<Rightarrow> route_loop av i cs d)"
  by (induction cs arbitrary: i) (auto split: option.splits)

lemma route_loop_selected:
  "rd_selected (route_loop av i cs d) =
     (case List.find (is_reachable av) cs of None \<Rightarrow> rd_selected d | Some c \<Rightarrow> Some c)
   \<and> rd_candidates (route_loop av i cs d) = rd_candidates d
   \<and> rd_role (route_loop av i cs d) = rd_role d"
  by (induction cs arbitrary: i) auto

lemma route_loop_index:
  "List.find (is_reachable av) cs = Some c \<Longrightarrow>
   \<exists>j < length cs. rd_fallback_attempts (route_loop av i cs d) = i + j \<and> cs ! j = c
     \<and> (\<forall>k < j. \<not> is_reachable av (cs ! k))"
proof (induction cs arbitrary: i)
  case (Cons a cs)
  show ?case
  proof (cases "is_reachable av a")
    case True
    then show ?thesis using Cons.prems by (intro exI [of _ 0]) simp
  next
    case False
    with Cons obtain j where "j < length cs" "rd_fallback_attempts (route_loop av (Suc i) cs d) = Suc i + j"
      "cs ! j = c" "\<forall>k < j. \<not> is_reachable av (cs ! k)" by fastforce
    then show ?thesis using False by (intro exI [of _ "Suc j"]) (auto simp: nth_Cons split: nat.splits)
  qed
qed simp

lemma roster_facts:
  "distinct (List.map m_key ROSTER)" "distinct (List.map m_provider ROSTER)"
  by code_simp+

lemma role_candidates_roster: "c \<in> set (role_candidates role) \<Longrightarrow> c \<in> set ROSTER"
proof -
  assume "c \<in> set (role_candidates role)"
  then obtain k where "map_of model_by_key k = Some c"
    by (force simp: role_candidates_def map_filter_def)
  then show "c \<in> set ROSTER" by (auto simp: model_by_key_def dest!: map_of_SomeD)
qed

section \<open>Properties\<close>

text \<open>Routing selects the first reachable model of the role's preference order and records its
  index in it, or selects nothing when none of them is reachable; the candidates are the role's models
  of the roster.\<close>

theorem route_first_reachable:
  "case rd_selected (route av role) of
     None \<Rightarrow> \<forall>c \<in> set (role_candidates role). \<not> is_reachable av c
   | Some c \<Rightarrow> is_reachable av c \<and> c \<in> set ROSTER
       \<and> (\<exists>j < length (role_candidates role). rd_fallback_attempts (route av role) = j
            \<and> role_candidates role ! j = c \<and> (\<forall>k < j. \<not> is_reachable av (role_candidates role ! k)))"
proof (cases "List.find (is_reachable av) (role_candidates role)")
  case None
  then have "\<forall>c \<in> set (role_candidates role). \<not> is_reachable av c" by (simp add: find_None_iff)
  with None show ?thesis by (simp add: route_def route_loop_selected)
next
  case (Some c)
  then have c: "c \<in> set (role_candidates role)" "is_reachable av c" by (auto simp: find_Some_iff)
  have sel: "rd_selected (route av role) = Some c" by (simp add: route_def route_loop_selected Some)
  have "\<exists>j < length (role_candidates role). rd_fallback_attempts (route av role) = j
      \<and> role_candidates role ! j = c \<and> (\<forall>k < j. \<not> is_reachable av (role_candidates role ! k))"
    unfolding route_def using route_loop_index [OF Some, of 0] by simp
  with c role_candidates_roster show ?thesis unfolding sel option.case by blast
qed

theorem route_first_reachable_witness:
  "rd_selected (route [''xiaomi/mimo-v2.5-pro''] ''tester'') = Some (ROSTER ! 1)
     \<and> is_reachable [''xiaomi/mimo-v2.5-pro''] (ROSTER ! 1)
     \<and> rd_selected (route [''other''] ''tester'') = None"
proof -
  have s: "rd_selected (route [''xiaomi/mimo-v2.5-pro''] ''tester'') = Some (ROSTER ! 1)"
    "rd_selected (route [''other''] ''tester'') = None" by code_simp+
  from route_first_reachable [where av = "[''xiaomi/mimo-v2.5-pro'']" and role = "''tester''"] s show ?thesis by simp
qed

text \<open>A high-risk reviewer never comes from the provider of the implementer, is reachable, is a
  primary model whenever a primary model of another provider is reachable, and is missing only when no
  model of another provider is reachable.\<close>

theorem reviewer_from_other_provider:
  "case select_high_risk_reviewer av p of
     None \<Rightarrow> \<forall>r \<in> set ROSTER. m_provider r \<noteq> p \<longrightarrow> \<not> is_reachable av r
   | Some r \<Rightarrow> r \<in> set ROSTER \<and> m_provider r \<noteq> p \<and> is_reachable av r
       \<and> ((\<exists>q \<in> set ROSTER. m_provider q \<noteq> p \<and> is_reachable av q \<and> m_priority q = PRIMARY)
           \<longrightarrow> m_priority r = PRIMARY)"
proof -
  let ?cross = "filter (\<lambda>r. m_provider r \<noteq> p \<and> is_reachable av r) ROSTER"
  let ?primary = "filter (\<lambda>r. m_priority r = PRIMARY) ?cross"
  have "hd xs \<in> set xs" if "xs \<noteq> []" for xs :: "model_entry list" using that by simp
  from this [of ?primary] this [of ?cross] show ?thesis
    by (auto simp: select_high_risk_reviewer_def Let_def filter_empty_conv)
qed

theorem reviewer_from_other_provider_witness:
  "select_high_risk_reviewer [] ''deepseek'' = Some (ROSTER ! 1) \<and> m_provider (ROSTER ! 1) \<noteq> ''deepseek''"
proof -
  have s: "select_high_risk_reviewer [] ''deepseek'' = Some (ROSTER ! 1)" by code_simp
  from reviewer_from_other_provider [where av = "[]" and p = "''deepseek''"] s show ?thesis by simp
qed

end
