(* ===== verification/RoutingStore.thy ===== *)
theory RoutingStore
  imports Worktree Router
begin

text \<open>
  Durable routing memory (\<open>routing/store.py\<close>): the two tables it adds to the database, the
  observations and decisions it records, the statistics per model, and \<open>restore\<close>, which rebuilds a
  scorecard from them. The state also holds the router of the process: the models the last probe found
  and the scorecard in memory. Latencies are rationals.
\<close>

record observation =
  ob_id :: string
  ob_model_key :: string
  ob_role :: string
  ob_success :: bool
  ob_latency_ms :: rat
  ob_run_id :: "string option"
  ob_task_id :: "string option"
  ob_observed_at :: string

record stored_decision =
  sd_id :: string
  sd_run_id :: "string option"
  sd_task_id :: string
  sd_role :: string
  sd_selected :: "string option"
  sd_candidates :: "string list"
  sd_reason :: string
  sd_fallback_attempts :: nat
  sd_decided_at :: string

record routing = vcs +
  available_models :: "string list"
  scores :: scorecard
  observations :: "observation list"
  route_decisions :: "stored_decision list"

type_synonym ('z, 'a) routing_act = "('z routing_scheme, exn, 'a) act"

definition probe_available :: "string list \<Rightarrow> ('z, unit) routing_act" where
  "probe_available ids = modify (\<lambda>s. s\<lparr>available_models := ids\<rparr>)"

definition observe_model :: "string \<Rightarrow> bool \<Rightarrow> ('z, unit) routing_act" where
  "observe_model key success = modify (\<lambda>s. s\<lparr>scores := observe key success (scores s)\<rparr>)"

text \<open>A plain \<open>INSERT\<close>: a duplicate primary key is refused.\<close>

definition record_observation ::
  "string \<Rightarrow> bool \<Rightarrow> string \<Rightarrow> rat \<Rightarrow> string option \<Rightarrow> string option \<Rightarrow> ('z, unit) routing_act" where
  "record_observation key success role latency run_id task_id =
     bindE (new_id ''obs'') (\<lambda>i. bindE now_iso (\<lambda>now.
     let row = \<lparr>ob_id = i, ob_model_key = key, ob_role = role, ob_success = success,
                ob_latency_ms = latency, ob_run_id = run_id, ob_task_id = task_id,
                ob_observed_at = now\<rparr>
     in execute (\<lambda>s. if has_row ob_id i (observations s)
                     then Inl (IntegrityError ''UNIQUE constraint failed: model_observations.id'')
                     else Inr (s\<lparr>observations := observations s @ [row]\<rparr>))))"

definition record_decision :: "route_decision \<Rightarrow> string \<Rightarrow> string option \<Rightarrow> ('z, unit) routing_act" where
  "record_decision d task_id run_id =
     bindE (new_id ''route'') (\<lambda>i. bindE now_iso (\<lambda>now.
     let row = \<lparr>sd_id = i, sd_run_id = run_id, sd_task_id = task_id, sd_role = rd_role d,
                sd_selected = map_option m_key (rd_selected d),
                sd_candidates = List.map m_key (rd_candidates d), sd_reason = rd_reason d,
                sd_fallback_attempts = rd_fallback_attempts d, sd_decided_at = now\<rparr>
     in execute (\<lambda>s. Inr (s\<lparr>route_decisions := upsert sd_id row (route_decisions s)\<rparr>))))"

record model_stats =
  ms_model_key :: string
  ms_uses :: nat
  ms_successes :: nat
  ms_failures :: nat
  ms_average_latency_ms :: rat

definition stats_success_rate :: "model_stats \<Rightarrow> rat" where
  "stats_success_rate m = (if ms_uses m \<noteq> 0 then of_nat (ms_successes m) / of_nat (ms_uses m) else 0)"

text \<open>\<open>GROUP BY model_key ORDER BY uses DESC\<close>; groups that tie come in key order.\<close>

definition stats_row :: "observation list \<Rightarrow> string \<Rightarrow> model_stats" where
  "stats_row obs k =
     (let rows = filter (\<lambda>r. ob_model_key r = k) obs;
          uses = length rows; successes = length (filter ob_success rows)
      in \<lparr>ms_model_key = k, ms_uses = uses, ms_successes = successes, ms_failures = uses - successes,
          ms_average_latency_ms = sum_list (List.map ob_latency_ms rows) / of_nat uses\<rparr>)"

definition stats_of :: "observation list \<Rightarrow> model_stats list" where
  "stats_of obs =
     order_by_desc ms_uses (List.map (stats_row obs) (sort (remdups (List.map ob_model_key obs))))"

definition routing_stats :: "('z, model_stats list) routing_act" where
  "routing_stats = query (\<lambda>s. stats_of (observations s))"

definition decisions_for_run :: "string \<Rightarrow> ('z, stored_decision list) routing_act" where
  "decisions_for_run run_id =
     query (\<lambda>s. order_by sd_decided_at (filter (\<lambda>d. sd_run_id d = Some run_id) (route_decisions s)))"

definition replay_stat :: "model_stats \<Rightarrow> scorecard \<Rightarrow> scorecard" where
  "replay_stat st sc =
     (observe (ms_model_key st) False ^^ ms_failures st)
       ((observe (ms_model_key st) True ^^ ms_successes st) sc)"

definition restore_scorecard :: "scorecard \<Rightarrow> ('z, scorecard) routing_act" where
  "restore_scorecard sc = bindE routing_stats (\<lambda>sts. ret (fold replay_stat sts sc))"

section \<open>Invariants\<close>

locale routing_invariant = vcs_invariant I ok_task ok_run ok_git
  for I :: "'z routing_scheme \<Rightarrow> bool" and ok_task :: "task \<Rightarrow> bool"
    and ok_run :: "run \<Rightarrow> bool" and ok_git :: "string list \<Rightarrow> bool" +
  assumes I_scores: "I s \<Longrightarrow> I (s\<lparr>scores := sc\<rparr>)"
    and I_available: "I s \<Longrightarrow> I (s\<lparr>available_models := av\<rparr>)"
    and I_observations: "I s \<Longrightarrow> I (s\<lparr>observations := obs\<rparr>)"
    and I_decisions: "I s \<Longrightarrow> I (s\<lparr>route_decisions := ds\<rparr>)"
begin

lemma keeps_routing:
  "keeps (\<lambda>s. if b s then Inl e else Inr (s\<lparr>observations := f s\<rparr>))"
  "keeps (\<lambda>s. Inr (s\<lparr>route_decisions := g s\<rparr>))"
  by (auto simp: keeps_def I_observations I_decisions split: if_splits)

lemma pres_routing:
  "preserves I (probe_available ids)" "preserves I (observe_model k b)"
  "preserves I (record_observation k b ro l r t)" "preserves I (record_decision d t' r)"
  "preserves I routing_stats" "preserves I (decisions_for_run i)" "preserves I (restore_scorecard sc)"
  unfolding probe_available_def observe_model_def record_observation_def record_decision_def
    routing_stats_def decisions_for_run_def restore_scorecard_def Let_def
  by (intro vcs_pres pres_modify I_scores I_available keeps_routing | assumption)+

lemmas routing_pres = vcs_pres pres_routing

end

interpretation routing_integrity: routing_invariant integrity "\<lambda>_. True" "\<lambda>_. True" "\<lambda>_. True"
  by unfold_locales (auto simp: integrity_def)

interpretation routing_guarded: routing_invariant guarded_log "\<lambda>_. True" "\<lambda>_. True" guarded_args
  by unfold_locales (auto simp: guarded_log_def)

section \<open>Restoring a scorecard\<close>

lemma observe_times:
  "total_uses ((observe k b ^^ n) sc) j = total_uses sc j + (if j = k then n else 0)"
  "total_successes ((observe k b ^^ n) sc) j = total_successes sc j + (if j = k \<and> b then n else 0)"
  by (induction n) (auto simp: observe_total)

lemma replay_total:
  "total_uses (replay_stat st sc) j =
     total_uses sc j + (if j = ms_model_key st then ms_successes st + ms_failures st else 0)"
  "total_successes (replay_stat st sc) j =
     total_successes sc j + (if j = ms_model_key st then ms_successes st else 0)"
  by (auto simp: replay_stat_def observe_times)

lemma fold_replay_total:
  "total_uses (fold replay_stat sts sc) j =
     total_uses sc j + sum_list (List.map (\<lambda>st. if j = ms_model_key st then ms_successes st + ms_failures st else 0) sts)"
  "total_successes (fold replay_stat sts sc) j =
     total_successes sc j + sum_list (List.map (\<lambda>st. if j = ms_model_key st then ms_successes st else 0) sts)"
  by (induction sts arbitrary: sc) (auto simp: replay_total)

lemma sum_list_order_by_desc: "sum_list (List.map f (order_by_desc g xs)) = sum_list (List.map f xs)"
  for f :: "'a \<Rightarrow> nat"
proof -
  have "mset (order_by_desc g xs) = mset xs" by (simp add: order_by_desc_def)
  then have "mset (List.map f (order_by_desc g xs)) = mset (List.map f xs)" by simp
  then show ?thesis by (metis sum_mset_sum_list)
qed

lemma sum_list_one_key:
  "distinct ks \<Longrightarrow> sum_list (List.map (\<lambda>k. if j = k then f k else 0) ks) = (if j \<in> set ks then f j else (0 :: nat))"
  by (induction ks) auto

lemma total_empty: "total_uses [] k = 0" "total_successes [] k = 0"
  by (simp_all add: total_uses_def total_successes_def)

definition count_obs :: "(observation \<Rightarrow> bool) \<Rightarrow> string \<Rightarrow> observation list \<Rightarrow> nat" where
  "count_obs P k obs = length (filter (\<lambda>r. ob_model_key r = k \<and> P r) obs)"

lemma stats_row_sums:
  "ms_model_key (stats_row obs k) = k"
  "ms_successes (stats_row obs k) = count_obs ob_success k obs"
  "ms_successes (stats_row obs k) + ms_failures (stats_row obs k) = count_obs (\<lambda>_. True) k obs"
proof -
  have "length (filter ob_success (filter (\<lambda>r. ob_model_key r = k) obs))
      \<le> length (filter (\<lambda>r. ob_model_key r = k) obs)" by (rule length_filter_le)
  then show "ms_model_key (stats_row obs k) = k"
    "ms_successes (stats_row obs k) = count_obs ob_success k obs"
    "ms_successes (stats_row obs k) + ms_failures (stats_row obs k) = count_obs (\<lambda>_. True) k obs"
    by (simp_all add: stats_row_def count_obs_def Let_def filter_filter conj_commute)
qed

text \<open>Restoring an empty scorecard from the database gives it, for every model, as many uses and as
  many successes as there are stored observations of the model and successful ones, and changes
  nothing else.\<close>

theorem restore_matches_observations:
  assumes "db_open s"
  shows "\<exists>sc. restore_scorecard [] s = (Inr sc, s)
     \<and> (\<forall>k. total_uses sc k = count_obs (\<lambda>_. True) k (observations s)
          \<and> total_successes sc k = count_obs ob_success k (observations s))"
proof -
  let ?obs = "observations s"
  let ?keys = "sort (remdups (List.map ob_model_key ?obs))"
  have none: "k \<notin> set ?keys \<Longrightarrow> count_obs P k ?obs = 0" for P k
    by (auto simp: count_obs_def filter_empty_conv)
  have "total_uses (fold replay_stat (stats_of ?obs) []) k = count_obs (\<lambda>_. True) k ?obs"
    "total_successes (fold replay_stat (stats_of ?obs) []) k = count_obs ob_success k ?obs" for k
    using none [of k]
      sum_list_one_key [of ?keys k "\<lambda>k. ms_successes (stats_row ?obs k) + ms_failures (stats_row ?obs k)"]
      sum_list_one_key [of ?keys k "\<lambda>k. ms_successes (stats_row ?obs k)"]
    by (simp_all add: fold_replay_total stats_of_def sum_list_order_by_desc comp_def stats_row_sums
        stats_row_sums(3) [unfolded stats_row_sums(2)]
        total_empty del: set_sort)
  with assms show ?thesis
    by (simp add: restore_scorecard_def routing_stats_def query_def require_conn_def act_defs)
qed

definition empty_routing :: routing where
  "empty_routing = \<lparr>uuid_hex = nat_str, clock_iso = nat_str, draws = 0, ticks = 0, db_open = True,
     listeners = [], delivered = [], runs = [], tasks = [], attempts = [], events = [],
     evidence_rows = [], plans = [], git_out = (\<lambda>_ _ _. ([], [], 0)), git_log = [],
     available_models = [], scores = [], observations = [], route_decisions = []\<rparr>"

definition sample_observation :: "string \<Rightarrow> string \<Rightarrow> bool \<Rightarrow> observation" where
  "sample_observation i k b = \<lparr>ob_id = i, ob_model_key = k, ob_role = [], ob_success = b,
     ob_latency_ms = 1, ob_run_id = None, ob_task_id = None, ob_observed_at = ''0''\<rparr>"

theorem restore_matches_observations_witness:
  "\<exists>sc. fst (restore_scorecard [] (empty_routing\<lparr>observations :=
       [sample_observation ''1'' ''m'' True, sample_observation ''2'' ''m'' False,
        sample_observation ''3'' ''n'' True]\<rparr>)) = Inr sc \<and> total_uses sc ''m'' = 2"
proof -
  let ?obs = "[sample_observation ''1'' ''m'' True, sample_observation ''2'' ''m'' False,
        sample_observation ''3'' ''n'' True]"
  have o: "db_open (empty_routing\<lparr>observations := ?obs\<rparr>)" by (simp add: empty_routing_def)
  have c: "count_obs (\<lambda>_. True) ''m'' ?obs = 2" by (simp add: count_obs_def sample_observation_def)
  from restore_matches_observations [OF o] c show ?thesis by fastforce
qed

end
