(* ===== verification/Scheduler.thy ===== *)
theory Scheduler
  imports Persistence
begin

text \<open>
  The scheduler (\<open>execution/scheduler.py\<close>): the events it writes, the transitions of runs and tasks,
  the choice of the tasks that are ready, cancellation, the evaluation of a run's completion, and
  \<open>recover_run\<close>. Every handler keeps any invariant of the store (\<open>runtime_invariant\<close>); the main
  theorems say what cancelling and recovering leave behind.
\<close>

section \<open>Events\<close>

definition run_event ::
  "run \<Rightarrow> event_type \<Rightarrow> run_state \<Rightarrow> dict \<Rightarrow> ('z, domain_event) db_act" where
  "run_event r ty to_state extra =
     mk_event (r_project_id r) (Some (r_id r)) ty
       (dict_update [(''run_id'', JStr (r_id r)), (''goal_id'', JStr (r_goal_id r)),
          (''previous'', JStr (run_state_str (r_state r))), (''next'', JStr (run_state_str to_state))]
          extra)"

definition task_event ::
  "task \<Rightarrow> event_type \<Rightarrow> dict \<Rightarrow> string \<Rightarrow> ('z, domain_event) db_act" where
  "task_event t ty extra project_id =
     mk_event project_id (Some (t_run_id t)) ty
       (dict_update [(''task_id'', JStr (t_id t)), (''objective'', JStr (t_objective t)),
          (''previous'', JStr (task_state_str (t_state t)))] extra)"

definition attempt_recovery_event :: "attempt \<Rightarrow> string \<Rightarrow> ('z, domain_event) db_act" where
  "attempt_recovery_event a project_id =
     mk_event project_id (Some (a_run_id a)) ATTEMPT_FAILED
       [(''attempt_id'', JStr (a_id a)), (''task_id'', JStr (a_task_id a)),
        (''previous'', JStr (attempt_state_str (a_state a))),
        (''reason'', JStr ''interrupted by process restart'')]"

section \<open>Operations\<close>

definition start_run :: "run \<Rightarrow> ('z, run) db_act" where
  "start_run r = bindE (run_event r RUN_STARTED R_PLANNING [])
     (\<lambda>e. record_run_transition r R_PLANNING e)"

definition advance_run :: "run \<Rightarrow> run_state \<Rightarrow> ('z, run) db_act" where
  "advance_run r to_state =
     bindE (run_event r (case map_of [(R_COMPLETED, RUN_COMPLETED), (R_FAILED, RUN_FAILED)] to_state of
                           Some ty \<Rightarrow> ty | None \<Rightarrow> STATE_CHANGE) to_state [])
       (\<lambda>e. record_run_transition r to_state e)"

definition schedule_tasks :: "run \<Rightarrow> task list \<Rightarrow> ('z, run \<times> task list) db_act" where
  "schedule_tasks r ts =
     bindE (forE ts save_task) (\<lambda>_.
     bindE (run_event r STATE_CHANGE R_READY [(''task_count'', JInt (int (length ts)))]) (\<lambda>e.
     bindE (record_run_transition r R_READY e) (\<lambda>r'. ret (r', ts))))"

text \<open>\<open>by_id\<close> is built by a comprehension: of two tasks with one id the later one stays.\<close>

definition dependencies_met :: "task list \<Rightarrow> task \<Rightarrow> bool" where
  "dependencies_met ts t =
     list_all (\<lambda>d. case row_by t_id d (rev ts) of None \<Rightarrow> False | Some u \<Rightarrow> t_state u = T_SUCCEEDED)
       (t_dependencies t)"

definition ready_tasks :: "string \<Rightarrow> ('z, task list) db_act" where
  "ready_tasks run_id =
     bindE (load_tasks run_id) (\<lambda>ts.
       ret (filter (\<lambda>t. t_state t = T_PLANNED \<and> dependencies_met ts t) ts))"

definition mark_task_ready :: "string \<Rightarrow> task \<Rightarrow> ('z, task) db_act" where
  "mark_task_ready project t =
     bindE (task_event t TASK_READY [] project) (\<lambda>e. record_task_transition t T_READY e)"

definition start_task :: "string \<Rightarrow> task \<Rightarrow> ('z, task) db_act" where
  "start_task project t =
     bindE (task_event t STATE_CHANGE [] project) (\<lambda>e. record_task_transition t T_RUNNING e)"

definition complete_task :: "string \<Rightarrow> task \<Rightarrow> ('z, task) db_act" where
  "complete_task project t =
     bindE (task_event t TASK_SUCCEEDED [] project) (\<lambda>e. record_task_transition t T_SUCCEEDED e)"

definition fail_task :: "string \<Rightarrow> task \<Rightarrow> string \<Rightarrow> ('z, task) db_act" where
  "fail_task project t reason =
     bindE (task_event t TASK_FAILED [(''reason'', JStr reason)] project)
       (\<lambda>e. record_task_transition t T_FAILED e)"

definition cancel_task :: "string \<Rightarrow> task \<Rightarrow> string \<Rightarrow> ('z, task) db_act" where
  "cancel_task project t reason =
     bindE (task_event t TASK_FAILED [(''reason'', JStr reason)] project)
       (\<lambda>e. record_task_transition t T_CANCELLED e)"

definition open_task_states :: "task_state list" where
  "open_task_states = [T_PLANNED, T_BLOCKED, T_READY, T_RUNNING]"

definition cancel_run :: "string \<Rightarrow> run \<Rightarrow> string \<Rightarrow> ('z, run) db_act" where
  "cancel_run project r reason =
     bindE (load_tasks (r_id r)) (\<lambda>ts.
     bindE (forE ts (\<lambda>t. if t_state t \<in> set open_task_states
                         then bindE (cancel_task project t reason) (\<lambda>_. ret ()) else ret ())) (\<lambda>_.
     bindE (load_run (r_id r)) (\<lambda>found.
       let reloaded = (case found of None \<Rightarrow> r | Some r' \<Rightarrow> r')
       in if r_state reloaded \<in> {R_PLANNING, R_READY, R_RUNNING}
          then bindE (run_event reloaded RUN_FAILED R_CANCELLED [(''reason'', JStr reason)])
                 (\<lambda>e. record_run_transition reloaded R_CANCELLED e)
          else ret reloaded)))"

definition evaluate_run_completion :: "run \<Rightarrow> ('z, bool) db_act" where
  "evaluate_run_completion r =
     bindE (load_tasks (r_id r)) (\<lambda>ts.
       if ts = [] then ret False
       else if list_ex (\<lambda>t. t_state t = T_FAILED) ts
       then bindE (advance_run r R_FAILED) (\<lambda>_. ret False)
       else if list_ex (\<lambda>t. t_state t = T_CANCELLED) ts
       then bindE (advance_run r R_CANCELLED) (\<lambda>_. ret False)
       else if list_all (\<lambda>t. t_state t \<in> {T_SUCCEEDED, T_CANCELLED, T_SUPERSEDED}) ts
       then bindE (advance_run r R_VERIFYING) (\<lambda>_. ret True)
       else ret False)"

section \<open>Recovery\<close>

record recovery_report =
  rr_run :: run
  rr_orphaned_tasks :: "string list"
  rr_orphaned_attempts :: "string list"

definition reconciled :: "recovery_report \<Rightarrow> bool" where
  "reconciled rep \<longleftrightarrow> rr_orphaned_tasks rep \<noteq> [] \<or> rr_orphaned_attempts rep \<noteq> []"

definition orphan_attempt :: "attempt \<Rightarrow> bool" where
  "orphan_attempt a \<longleftrightarrow> a_state a \<in> {A_STARTING, A_RUNNING}"

definition orphan_task :: "task \<Rightarrow> bool" where
  "orphan_task t \<longleftrightarrow> t_state t = T_RUNNING"

definition recover_attempt :: "run \<Rightarrow> attempt \<Rightarrow> ('z, string list) db_act" where
  "recover_attempt r a =
     (if orphan_attempt a
      then bindE (attempt_recovery_event a (r_project_id r)) (\<lambda>e.
           bindE (record_attempt_transition a A_FAILED e) (\<lambda>_. ret [a_id a]))
      else ret [])"

definition recover_task :: "run \<Rightarrow> task \<Rightarrow> ('z, string list) db_act" where
  "recover_task r t =
     (if orphan_task t
      then bindE (task_event t TASK_FAILED [(''reason'', JStr ''interrupted by process restart'')]
                   (r_project_id r)) (\<lambda>e.
           bindE (record_task_transition t T_FAILED e) (\<lambda>_. ret [t_id t]))
      else ret [])"

definition recover_run :: "string \<Rightarrow> ('z, recovery_report option) db_act" where
  "recover_run run_id =
     bindE (load_run run_id) (\<lambda>found. case found of None \<Rightarrow> ret None | Some r \<Rightarrow>
       bindE (load_attempts run_id) (\<lambda>as.
       bindE (forE as (recover_attempt r)) (\<lambda>oas.
       bindE (load_tasks run_id) (\<lambda>ts.
       bindE (forE ts (recover_task r)) (\<lambda>ots.
         let rep = \<lparr>rr_run = r, rr_orphaned_tasks = concat ots, rr_orphaned_attempts = concat oas\<rparr>
         in if concat ots \<noteq> [] \<and> r_state r = R_RUNNING
            then bindE (run_event r STATE_CHANGE R_BLOCKED
                         [(''reason'', JStr ''recovered with interrupted tasks'')]) (\<lambda>e.
                 bindE (record_run_transition r R_BLOCKED e) (\<lambda>r'.
                   ret (Some (rep\<lparr>rr_run := r'\<rparr>))))
            else ret (Some rep))))))"

section \<open>Every handler keeps the store's invariants\<close>

context runtime_invariant
begin

lemma pres_events:
  "preserves I (run_event r ty st ex)" "preserves I (task_event t ty ex p)"
  "preserves I (attempt_recovery_event a p)"
  unfolding run_event_def task_event_def attempt_recovery_event_def by (intro store_pres)+

lemma pres_task_handlers:
  "preserves I (ready_tasks i)" "preserves I (mark_task_ready p t)" "preserves I (start_task p t)" "preserves I (complete_task p t)"
  "preserves I (fail_task p t m)" "preserves I (cancel_task p t m)"
  unfolding ready_tasks_def mark_task_ready_def start_task_def
    complete_task_def fail_task_def cancel_task_def
  by (intro store_pres pres_events)+

lemma pres_run_handlers:
  assumes ok: "\<And>r. ok_run r"
  shows "preserves I (start_run r)" "preserves I (advance_run r st)" "preserves I (cancel_run p r m)"
    "preserves I (evaluate_run_completion r)" "preserves I (recover_run i)"
proof -
  show 1: "preserves I (advance_run r st)" for r st
    unfolding advance_run_def by (intro store_pres pres_events ok)
  show "preserves I (start_run r)"
    unfolding start_run_def by (intro store_pres pres_events ok)
  show "preserves I (cancel_run p r m)"
    unfolding cancel_run_def Let_def by (intro store_pres pres_events pres_task_handlers ok)
  show "preserves I (evaluate_run_completion r)"
    unfolding evaluate_run_completion_def by (intro store_pres 1)
  show "preserves I (recover_run i)"
    unfolding recover_run_def recover_attempt_def recover_task_def Let_def
    by (intro store_pres pres_events ok)
qed

lemma pres_schedule_tasks:
  assumes ok: "\<And>r. ok_run r" "\<And>t. ok_task t"
  shows "preserves I (schedule_tasks r ts)"
  unfolding schedule_tasks_def by (intro store_pres pres_events ok)

lemmas scheduler_pres = pres_events pres_task_handlers

end

section \<open>What one step does\<close>

definition stamped :: "'z db_scheme \<Rightarrow> 'z db_scheme" where
  "stamped s = s\<lparr>draws := Suc (draws s), ticks := Suc (ticks s)\<rparr>"

lemma stamped_simps [simp]:
  "runs (stamped s) = runs s" "tasks (stamped s) = tasks s" "attempts (stamped s) = attempts s"
  "db_open (stamped s) = db_open s" "events (stamped s) = events s" "plans (stamped s) = plans s"
  "listeners (stamped s) = listeners s" "evidence_rows (stamped s) = evidence_rows s"
  "delivered (stamped s) = delivered s"
  by (simp_all add: stamped_def)

lemma mk_event_ok: "\<exists>e. mk_event p r ty pl s = (Inr e, stamped s)"
  by (simp add: mk_event_def new_id_def now_iso_def act_defs stamped_def)

lemma event_ok:
  "\<exists>e. run_event r ty st ex s = (Inr e, stamped s)"
  "\<exists>e. task_event t ty ex p s = (Inr e, stamped s)"
  "\<exists>e. attempt_recovery_event a p s = (Inr e, stamped s)"
  unfolding run_event_def task_event_def attempt_recovery_event_def by (rule mk_event_ok)+

text \<open>The part of the database a task or attempt transition leaves alone.\<close>

definition same_but_tasks :: "'z db_scheme \<Rightarrow> 'z db_scheme \<Rightarrow> bool" where
  "same_but_tasks s s' \<longleftrightarrow> runs s' = runs s \<and> attempts s' = attempts s \<and> db_open s' = db_open s
     \<and> plans s' = plans s \<and> evidence_rows s' = evidence_rows s"


lemma task_step_ok:
  assumes "db_open s" "has_row r_id (t_run_id t) (runs s)" "task_step (t_state t) st"
  shows "\<exists>s1. bindE (task_event t ty ex p) (record_task_transition t st) s
      = (Inr (t\<lparr>t_state := st\<rparr>), s1)
    \<and> same_but_tasks s s1 \<and> tasks s1 = upsert t_id (t\<lparr>t_state := st\<rparr>) (tasks s)"
proof -
  obtain e where "task_event t ty ex p s = (Inr e, stamped s)" using event_ok(2) by blast
  with assms show ?thesis
    by (simp add: bindE_def record_task_transition_eq same_but_tasks_def)
qed


lemma run_step_ok:
  assumes "db_open s" "run_step (r_state r) st"
  shows "\<exists>s1. bindE (run_event r ty to ex) (record_run_transition r st) s
      = (Inr (r\<lparr>r_state := st\<rparr>), s1)
    \<and> tasks s1 = tasks s \<and> attempts s1 = attempts s \<and> db_open s1 = db_open s
    \<and> runs s1 = upsert r_id (r\<lparr>r_state := st\<rparr>) (runs s)"
proof -
  obtain e where "run_event r ty to ex s = (Inr e, stamped s)" using event_ok(1) by blast
  with assms show ?thesis by (simp add: bindE_def record_run_transition_eq)
qed

lemma query_ok: "db_open s \<Longrightarrow> query f s = (Inr (f s), s)"
  by (simp add: query_def require_conn_def act_defs)

lemmas loads = load_tasks_def load_attempts_def load_run_def

lemma load_run_ok: "db_open s \<Longrightarrow> load_run i s = (Inr (row_by r_id i (runs s)), s)"
  by (simp add: load_run_def query_ok)

definition rows_of_run :: "string \<Rightarrow> task list \<Rightarrow> task list" where
  "rows_of_run i T = order_by t_created_at (filter (\<lambda>t. t_run_id t = i) T)"

lemma load_tasks_ok: "db_open s \<Longrightarrow> load_tasks i s = (Inr (rows_of_run i (tasks s)), s)"
  by (simp add: load_tasks_def query_ok rows_of_run_def)

lemma set_rows_of_run [simp]: "set (rows_of_run i T) = {t \<in> set T. t_run_id t = i}"
  by (auto simp: rows_of_run_def)

lemma distinct_rows_of_run: "keys_distinct t_id T \<Longrightarrow> distinct (rows_of_run i T)"
  by (simp add: rows_of_run_def distinct_order_by keys_distinct_inj)

lemma rows_of_run_Nil: "rows_of_run i T = [] \<longleftrightarrow> (\<forall>t \<in> set T. t_run_id t \<noteq> i)"
  by (metis (mono_tags, lifting) Collect_empty_eq set_empty set_rows_of_run)

lemma row_by_unique:
  "keys_distinct t_id T \<Longrightarrow> set ts \<subseteq> set T \<Longrightarrow>
   row_by t_id d (rev ts) = Some u \<longleftrightarrow> u \<in> set ts \<and> t_id u = d"
proof
  assume "keys_distinct t_id T" "set ts \<subseteq> set T" and u: "u \<in> set ts \<and> t_id u = d"
  then have inj: "inj_on t_id (set ts)" using keys_distinct_inj inj_on_subset by blast
  from u have "row_by t_id d (rev ts) \<noteq> None" by (auto simp: row_by_None)
  then obtain v where v: "row_by t_id d (rev ts) = Some v" by blast
  then have "v \<in> set ts" "t_id v = d" using row_by_in row_by_key by fastforce+
  with inj u have "v = u" by (auto simp: inj_on_def)
  with v show "row_by t_id d (rev ts) = Some u" by simp
qed (use row_by_in row_by_key in fastforce)

section \<open>Sweeps over the tasks and attempts of a run\<close>

lemma task_sweep:
  assumes up: "db_open s" and i: "integrity s"
    and f: "\<And>t s0. f t s0 = (if P t then bindE (bindE (task_event t ty (ex t) p)
              (record_task_transition t st)) (\<lambda>_. ret (g1 t)) s0 else (Inr (g2 t), s0))"
    and ok: "\<And>t. P t \<Longrightarrow> task_step (t_state t) st"
  shows "\<exists>s1. forE (rows_of_run run_id (tasks s)) f s
      = (Inr (List.map (\<lambda>t. if P t then g1 t else g2 t) (rows_of_run run_id (tasks s))), s1)
    \<and> same_but_tasks s s1 \<and> keys_distinct t_id (tasks s1)
    \<and> set (tasks s1) = (\<lambda>t. if t_run_id t = run_id \<and> P t then t\<lparr>t_state := st\<rparr> else t) ` set (tasks s)"
proof -
  let ?rows = "rows_of_run run_id (tasks s)" and ?h = "\<lambda>t. t\<lparr>t_state := st\<rparr>"
  let ?Q = "\<lambda>s1. same_but_tasks s s1 \<and> keys_distinct t_id (tasks s1)"
  have kd: "keys_distinct t_id (tasks s)" using i by (simp add: integrity_def)
  have q0: "?Q s" using kd by (simp add: same_but_tasks_def)
  have step: "\<exists>s2. f t s1 = (Inr (if P t then g1 t else g2 t), s2) \<and> ?Q s2
      \<and> tasks s2 = (if P t then upsert t_id (?h t) (tasks s1) else tasks s1)"
    if t: "t \<in> set ?rows" and q: "?Q s1" for t s1
  proof (cases "P t")
    case True
    have "has_row r_id (t_run_id t) (runs s1)" "db_open s1"
      using t q i up by (auto simp: integrity_def has_row_iff same_but_tasks_def)
    from task_step_ok [OF this(2,1) ok [OF True]] obtain s2 where
      "bindE (task_event t ty (ex t) p) (record_task_transition t st) s1 = (Inr (?h t), s2)"
      "same_but_tasks s1 s2" "tasks s2 = upsert t_id (?h t) (tasks s1)" by blast
    with q True show ?thesis
      by (auto simp: f bindE_ok ret_def same_but_tasks_def distinct_upsert)
  qed (use q f in simp)
  from sweep [where xs = ?rows and Q = ?Q and tab = tasks and key = t_id and h = ?h and P = P, OF step q0]
  obtain s1 where "forE ?rows f s = (Inr (List.map (\<lambda>t. if P t then g1 t else g2 t) ?rows), s1)"
    "?Q s1" "tasks s1 = fold (upsert t_id) (List.map ?h (filter P ?rows)) (tasks s)"
    by blast
  then show ?thesis
    using swept_set [OF kd, of ?rows "\<lambda>t. t_run_id t = run_id" ?h P] distinct_rows_of_run [OF kd]
    by simp
qed

definition attempts_of_run :: "string \<Rightarrow> attempt list \<Rightarrow> attempt list" where
  "attempts_of_run i A = order_by a_created_at (filter (\<lambda>a. a_run_id a = i) A)"

lemma set_attempts_of_run [simp]: "set (attempts_of_run i A) = {a \<in> set A. a_run_id a = i}"
  by (auto simp: attempts_of_run_def)



section \<open>The handlers on every branch\<close>

lemma cancel_run_spec:
  assumes up: "db_open s" and i: "integrity s" and r0: "row_by r_id (r_id r) (runs s) = Some r0"
  shows "\<exists>r' s'. cancel_run project r reason s = (Inr r', s')
     \<and> set (tasks s') = (\<lambda>t. if t_run_id t = r_id r \<and> t_state t \<in> set open_task_states
           then t\<lparr>t_state := T_CANCELLED\<rparr> else t) ` set (tasks s)
     \<and> r' = (if r_state r0 \<in> {R_PLANNING, R_READY, R_RUNNING} then r0\<lparr>r_state := R_CANCELLED\<rparr> else r0)
     \<and> row_by r_id (r_id r) (runs s') = Some r' \<and> attempts s' = attempts s"
proof -
  let ?f = "\<lambda>t. if t_state t \<in> set open_task_states
       then bindE (cancel_task project t reason) (\<lambda>_. ret ()) else ret ()"
  have "\<exists>s1. forE (rows_of_run (r_id r) (tasks s)) ?f s
      = (Inr (List.map (\<lambda>t. if t_state t \<in> set open_task_states then () else ())
           (rows_of_run (r_id r) (tasks s))), s1)
    \<and> same_but_tasks s s1 \<and> keys_distinct t_id (tasks s1)
    \<and> set (tasks s1) = (\<lambda>t. if t_run_id t = r_id r \<and> t_state t \<in> set open_task_states
        then t\<lparr>t_state := T_CANCELLED\<rparr> else t) ` set (tasks s)"
    by (rule task_sweep [OF up i, where ty = TASK_FAILED and p = project
        and ex = "\<lambda>_. [(''reason'', JStr reason)]" and st = T_CANCELLED])
      (auto simp: cancel_task_def open_task_states_def task_step_iff ret_def)
  then obtain s1 u where s1: "forE (rows_of_run (r_id r) (tasks s)) ?f s = (Inr u, s1)"
    "same_but_tasks s s1"
    "set (tasks s1) = (\<lambda>t. if t_run_id t = r_id r \<and> t_state t \<in> set open_task_states
        then t\<lparr>t_state := T_CANCELLED\<rparr> else t) ` set (tasks s)" by blast
  from s1(2) up r0 have s1': "db_open s1" "row_by r_id (r_id r) (runs s1) = Some r0"
    "attempts s1 = attempts s" by (simp_all add: same_but_tasks_def)
  have id0: "r_id r0 = r_id r" using row_by_key [OF r0] .
  have c: "cancel_run project r reason s =
      (if r_state r0 \<in> {R_PLANNING, R_READY, R_RUNNING}
       then bindE (run_event r0 RUN_FAILED R_CANCELLED [(''reason'', JStr reason)])
              (record_run_transition r0 R_CANCELLED) s1
       else (Inr r0, s1))"
    using s1(1) s1' up
    by (simp add: cancel_run_def bindE_ok load_tasks_ok load_run_ok ret_def Let_def)
  show ?thesis
  proof (cases "r_state r0 \<in> {R_PLANNING, R_READY, R_RUNNING}")
    case True
    then have "run_step (r_state r0) R_CANCELLED" by (auto simp: run_step_iff)
    from run_step_ok [OF s1'(1) this] c True s1 s1' id0 show ?thesis
      by (fastforce simp: row_by_upsert)
  qed (use c s1 s1' in simp)
qed

lemma advance_ok:
  assumes "db_open s" "run_step (r_state r) st"
  shows "\<exists>s1. advance_run r st s = (Inr (r\<lparr>r_state := st\<rparr>), s1)
    \<and> tasks s1 = tasks s \<and> attempts s1 = attempts s \<and> db_open s1 = db_open s
    \<and> runs s1 = upsert r_id (r\<lparr>r_state := st\<rparr>) (runs s)"
  unfolding advance_run_def by (rule run_step_ok [OF assms])

lemma evaluate_spec:
  assumes up: "db_open s" and run: "r_state r = R_RUNNING"
  defines "T \<equiv> {t \<in> set (tasks s). t_run_id t = r_id r}"
  defines "verdict \<equiv> (if T = {} then None else if \<exists>t \<in> T. t_state t = T_FAILED then Some R_FAILED
      else if \<exists>t \<in> T. t_state t = T_CANCELLED then Some R_CANCELLED
      else if \<forall>t \<in> T. t_state t \<in> {T_SUCCEEDED, T_SUPERSEDED} then Some R_VERIFYING else None)"
  shows "\<exists>s'. evaluate_run_completion r s = (Inr (verdict = Some R_VERIFYING), s')
     \<and> tasks s' = tasks s
     \<and> runs s' = (case verdict of None \<Rightarrow> runs s | Some st \<Rightarrow> upsert r_id (r\<lparr>r_state := st\<rparr>) (runs s))"
proof -
  let ?rows = "rows_of_run (r_id r) (tasks s)"
  have T: "set ?rows = T" by (simp add: T_def)
  have step: "run_step (r_state r) R_FAILED" "run_step (r_state r) R_CANCELLED"
    "run_step (r_state r) R_VERIFYING" using run by (simp_all add: run_step_iff)
  note a = step [THEN advance_ok [OF up]]
  from T have nil: "?rows = [] \<longleftrightarrow> T = {}" by (metis set_empty)
  have e: "evaluate_run_completion r s =
     (if T = {} then ret False
       else if \<exists>t \<in> T. t_state t = T_FAILED
       then bindE (advance_run r R_FAILED) (\<lambda>_. ret False)
       else if \<exists>t \<in> T. t_state t = T_CANCELLED
       then bindE (advance_run r R_CANCELLED) (\<lambda>_. ret False)
       else if \<forall>t \<in> T. t_state t \<in> {T_SUCCEEDED, T_CANCELLED, T_SUPERSEDED}
       then bindE (advance_run r R_VERIFYING) (\<lambda>_. ret True)
       else ret False) s"
    using load_tasks_ok [OF up, of "r_id r"]
    by (simp only: evaluate_run_completion_def bindE_ok nil list_ex_iff list_all_iff T)
  note cases = verdict_def e bindE_def ret_def
  consider "T = {}" | "T \<noteq> {}" "\<exists>t \<in> T. t_state t = T_FAILED"
    | "T \<noteq> {}" "\<not> (\<exists>t \<in> T. t_state t = T_FAILED)" "\<exists>t \<in> T. t_state t = T_CANCELLED"
    | "T \<noteq> {}" "\<not> (\<exists>t \<in> T. t_state t = T_FAILED)" "\<not> (\<exists>t \<in> T. t_state t = T_CANCELLED)"
    by blast
  then show ?thesis
  proof cases
    case 4
    then have "(\<forall>t \<in> T. t_state t \<in> {T_SUCCEEDED, T_CANCELLED, T_SUPERSEDED})
        \<longleftrightarrow> (\<forall>t \<in> T. t_state t \<in> {T_SUCCEEDED, T_SUPERSEDED})" by blast
    with 4 a(3) show ?thesis unfolding cases by auto
  qed (use a(1,2) in \<open>unfold cases, auto\<close>)
qed

lemma ready_tasks_ok:
  "db_open s \<Longrightarrow> ready_tasks i s =
     (Inr (filter (\<lambda>t. t_state t = T_PLANNED \<and> dependencies_met (rows_of_run i (tasks s)) t)
        (rows_of_run i (tasks s))), s)"
  by (simp add: ready_tasks_def bindE_ok load_tasks_ok ret_def)

lemma dependencies_met_iff:
  "keys_distinct t_id T \<Longrightarrow> dependencies_met (rows_of_run i T) t \<longleftrightarrow>
     (\<forall>d \<in> set (t_dependencies t). \<exists>u \<in> set T. t_run_id u = i \<and> t_id u = d \<and> t_state u = T_SUCCEEDED)"
proof -
  assume kd: "keys_distinct t_id T"
  let ?rows = "rows_of_run i T"
  have u: "row_by t_id d (rev ?rows) = Some u \<longleftrightarrow> u \<in> set ?rows \<and> t_id u = d" for d u
    by (rule row_by_unique [OF kd]) auto
  have "(case row_by t_id d (rev ?rows) of None \<Rightarrow> False | Some u \<Rightarrow> t_state u = T_SUCCEEDED) \<longleftrightarrow>
      (\<exists>u. row_by t_id d (rev ?rows) = Some u \<and> t_state u = T_SUCCEEDED)" for d
    by (cases "row_by t_id d (rev ?rows)") auto
  then show ?thesis unfolding dependencies_met_def list_all_iff u by auto
qed

section \<open>Recovery\<close>





section \<open>Properties\<close>

definition sample_db :: "run_state \<Rightarrow> task list \<Rightarrow> attempt list \<Rightarrow> db" where
  "sample_db st ts as = empty_db\<lparr>runs := [sample_run st], tasks := ts, attempts := as\<rparr>"

definition two_tasks :: "task_state \<Rightarrow> task_state \<Rightarrow> task list" where
  "two_tasks a b = [sample_task ''a'' a [], sample_task ''b'' b [''a'']]"

lemma sample_db_ok:
  "db_open (sample_db st ts as)"
  "row_by r_id ''r'' (runs (sample_db st ts as)) = Some (sample_run st)"
  "tasks (sample_db st ts as) = ts" "attempts (sample_db st ts as) = as"
  "integrity (sample_db st (two_tasks u v) [sample_attempt ''x'' ''a'' w])"
  "keys_distinct t_id (two_tasks u v)"
  "set (two_tasks u v) = {sample_task ''a'' u [], sample_task ''b'' v [''a'']}"
  by (simp_all add: sample_db_def empty_db_def two_tasks_def row_by_def integrity_def keys_distinct_def)

text \<open>C12. \<open>ready_tasks\<close> gives, in order of creation, exactly the planned tasks of the run all of whose
  dependencies are succeeded tasks of the same run, and changes nothing.\<close>

theorem ready_tasks_correct:
  assumes "db_open s" and "keys_distinct t_id (tasks s)"
  shows "\<exists>ts. ready_tasks i s = (Inr ts, s) \<and> sorted (List.map t_created_at ts) \<and> distinct ts
     \<and> set ts = {t \<in> set (tasks s). t_run_id t = i \<and> t_state t = T_PLANNED
          \<and> (\<forall>d \<in> set (t_dependencies t). \<exists>u \<in> set (tasks s).
               t_run_id u = i \<and> t_id u = d \<and> t_state u = T_SUCCEEDED)}"
proof -
  have "sorted (List.map t_created_at (rows_of_run i (tasks s)))"
    by (simp add: rows_of_run_def sorted_order_by)
  then show ?thesis
    unfolding ready_tasks_ok [OF assms(1)] dependencies_met_iff [OF assms(2)]
    using distinct_rows_of_run [OF assms(2), of i] by (auto intro: sorted_filter)
qed

theorem ready_tasks_correct_witness:
  "\<exists>ts. ready_tasks ''r'' (sample_db R_RUNNING (two_tasks T_SUCCEEDED T_PLANNED) [])
       = (Inr ts, sample_db R_RUNNING (two_tasks T_SUCCEEDED T_PLANNED) [])
     \<and> set ts = {sample_task ''b'' T_PLANNED [''a'']}"
proof -
  let ?s = "sample_db R_RUNNING (two_tasks T_SUCCEEDED T_PLANNED) []"
  have "keys_distinct t_id (tasks ?s)" by (simp add: sample_db_ok)
  from ready_tasks_correct [OF sample_db_ok(1) this, of "''r''"] show ?thesis
    by (simp add: sample_db_ok) (auto simp: sample_db_ok)
qed

text \<open>C6. Cancelling a run always succeeds on a consistent database: afterwards every task of the run
  that was planned, blocked, ready or running is cancelled and every other task is what it was; the
  stored run is cancelled when it was planning, ready or running, and is returned as stored.\<close>

theorem cancel_run_closes_tasks:
  assumes "db_open s" and "integrity s" and "row_by r_id (r_id r) (runs s) = Some r0"
  shows "\<exists>r' s'. cancel_run project r reason s = (Inr r', s')
     \<and> set (tasks s') = (\<lambda>t. if t_run_id t = r_id r \<and> t_state t \<in> {T_PLANNED, T_BLOCKED, T_READY, T_RUNNING}
           then t\<lparr>t_state := T_CANCELLED\<rparr> else t) ` set (tasks s)
     \<and> r' = (if r_state r0 \<in> {R_PLANNING, R_READY, R_RUNNING} then r0\<lparr>r_state := R_CANCELLED\<rparr> else r0)
     \<and> row_by r_id (r_id r) (runs s') = Some r'"
proof -
  have "set open_task_states = {T_PLANNED, T_BLOCKED, T_READY, T_RUNNING}"
    by (simp add: open_task_states_def)
  note eq = this
  show ?thesis using cancel_run_spec [OF assms, of project reason] unfolding eq by blast
qed

theorem cancel_run_closes_tasks_witness:
  "\<exists>r' s'. cancel_run ''p'' (sample_run R_READY) ''stop''
        (sample_db R_RUNNING (two_tasks T_SUCCEEDED T_RUNNING) [sample_attempt ''x'' ''a'' A_RUNNING])
      = (Inr r', s')
    \<and> set (tasks s') = {sample_task ''a'' T_SUCCEEDED [], sample_task ''b'' T_CANCELLED [''a'']}
    \<and> r' = sample_run R_CANCELLED"
  using cancel_run_closes_tasks [of "sample_db R_RUNNING (two_tasks T_SUCCEEDED T_RUNNING)
      [sample_attempt ''x'' ''a'' A_RUNNING]" "sample_run R_READY" "sample_run R_RUNNING"
      "''p''" "''stop''"]
  by (auto simp: sample_db_ok)

text \<open>A running run is declared verifiable exactly when it has tasks and every one of them has
  succeeded or been superseded; a failed task fails the run, otherwise a cancelled task cancels it,
  and otherwise the run is left alone.\<close>

theorem run_completion_verdict:
  assumes "db_open s" and "r_state r = R_RUNNING" and "T = {t \<in> set (tasks s). t_run_id t = r_id r}"
    and "verdict = (if T = {} then None else if \<exists>t \<in> T. t_state t = T_FAILED then Some R_FAILED
      else if \<exists>t \<in> T. t_state t = T_CANCELLED then Some R_CANCELLED
      else if \<forall>t \<in> T. t_state t \<in> {T_SUCCEEDED, T_SUPERSEDED} then Some R_VERIFYING else None)"
  shows "\<exists>s'. evaluate_run_completion r s = (Inr (verdict = Some R_VERIFYING), s')
     \<and> tasks s' = tasks s
     \<and> runs s' = (case verdict of None \<Rightarrow> runs s | Some st \<Rightarrow> upsert r_id (r\<lparr>r_state := st\<rparr>) (runs s))"
  unfolding assms(3,4) by (rule evaluate_spec [OF assms(1,2)])

theorem run_completion_verdict_witness:
  "\<exists>s'. evaluate_run_completion (sample_run R_RUNNING)
        (sample_db R_RUNNING (two_tasks T_SUCCEEDED T_CANCELLED) []) = (Inr False, s')
      \<and> runs s' = [sample_run R_CANCELLED]"
proof -
  let ?s = "sample_db R_RUNNING (two_tasks T_SUCCEEDED T_CANCELLED) []"
  let ?T = "set (two_tasks T_SUCCEEDED T_CANCELLED)"
  have T: "?T = {t \<in> set (tasks ?s). t_run_id t = r_id (sample_run R_RUNNING)}"
    by (auto simp: sample_db_ok)
  have v: "Some R_CANCELLED = (if ?T = {} then None else if \<exists>t \<in> ?T. t_state t = T_FAILED then Some R_FAILED
      else if \<exists>t \<in> ?T. t_state t = T_CANCELLED then Some R_CANCELLED
      else if \<forall>t \<in> ?T. t_state t \<in> {T_SUCCEEDED, T_SUPERSEDED} then Some R_VERIFYING else None)"
    by (simp add: sample_db_ok)
  from run_completion_verdict [OF sample_db_ok(1) _ T v] show ?thesis
    by (auto simp: sample_db_def upsert_def)
qed



end
