(* ===== verification/Harness.thy ===== *)
theory Harness
  imports RoutingStore Scheduler
begin

text \<open>
  The meta-harness (\<open>harness/engine.py\<close>, \<open>harness/runner.py\<close>): runner capabilities and their
  negotiation, the choice of a runner, and \<open>execute\<close>, which takes an attempt through its whole
  lifecycle around one call of a coding agent. What the agent does is outside the repository: the state
  holds \<open>agent_out\<close>, which says how the n-th call ends (a result, an exception, or cancellation), and
  \<open>agent_log\<close>, the calls made. The table of in-flight asyncio tasks, which only exists so that another
  coroutine can cancel one, is the choice of \<open>AgentCancelled\<close> as an outcome.
\<close>

section \<open>Runners\<close>

datatype runner_capability =
    AGENT_SESSION | CANCELLATION | PERMISSIONS | TRANSCRIPT | FILE_ACCESS | TOOL_ACCESS | STREAMING
  | RESULT_CAPTURE

fun capability_str :: "runner_capability \<Rightarrow> string" where
  "capability_str AGENT_SESSION = ''agent_session''"
| "capability_str CANCELLATION = ''cancellation''"
| "capability_str PERMISSIONS = ''permissions''"
| "capability_str TRANSCRIPT = ''transcript''"
| "capability_str FILE_ACCESS = ''file_access''"
| "capability_str TOOL_ACCESS = ''tool_access''"
| "capability_str STREAMING = ''streaming''"
| "capability_str RESULT_CAPTURE = ''result_capture''"

record runner_result =
  rs_task_id :: string
  rs_success :: bool
  rs_output :: string
  rs_error :: string
  rs_transcript :: string
  rs_evidence :: "(string \<times> string) list"

record runner_config =
  rc_model :: string
  rc_max_turns :: int
  rc_timeout_seconds :: int
  rc_headless :: bool
  rc_extra_args :: "string list"
  rc_role :: string

definition mk_runner_config :: "string \<Rightarrow> int \<Rightarrow> int \<Rightarrow> string \<Rightarrow> runner_config" where
  "mk_runner_config model turns timeout role =
     \<lparr>rc_model = model, rc_max_turns = turns, rc_timeout_seconds = timeout, rc_headless = True,
      rc_extra_args = [], rc_role = role\<rparr>"

definition negotiate :: "runner_capability list \<Rightarrow> runner_capability list \<Rightarrow> runner_capability list" where
  "negotiate capabilities required = filter (\<lambda>c. c \<in> set capabilities) required"

definition dummy_run :: "string \<Rightarrow> string \<Rightarrow> runner_result" where
  "dummy_run task_id prompt =
     \<lparr>rs_task_id = task_id, rs_success = True, rs_output = ''Dummy executed: '' @ take 80 prompt,
      rs_error = [], rs_transcript = ''[dummy transcript]'', rs_evidence = []\<rparr>"

section \<open>The harness\<close>

record harness =
  h_project_id :: string
  h_runners :: "(string \<times> runner_capability list) list"

definition register_runner :: "string \<Rightarrow> runner_capability list \<Rightarrow> harness \<Rightarrow> harness" where
  "register_runner name caps h = h\<lparr>h_runners := AList.update name caps (h_runners h)\<rparr>"

definition resolve :: "harness \<Rightarrow> string \<Rightarrow> runner_capability list option" where
  "resolve h name = map_of (h_runners h) name"

definition runner_names :: "harness \<Rightarrow> string list" where
  "runner_names h = sort (List.map fst (h_runners h))"

fun pick_runner :: "harness \<Rightarrow> runner_capability list \<Rightarrow> string list \<Rightarrow> exn + string" where
  "pick_runner h required [] =
     (let wanted = join '', '' (sort (remdups (List.map capability_str required)))
      in Inl (CapabilityError (''No registered runner provides all of: ''
           @ (if wanted \<noteq> [] then wanted else ''none''))))"
| "pick_runner h required (name # names) =
     (if length (negotiate (the (resolve h name)) required) = card (set required) then Inr name
      else pick_runner h required names)"

definition select_runner :: "harness \<Rightarrow> runner_capability list \<Rightarrow> exn + string" where
  "select_runner h required = pick_runner h required (runner_names h)"

datatype agent_outcome = Returned runner_result | Raised string | AgentCancelled

record harness_db = routing +
  agent_out :: "nat \<Rightarrow> string \<Rightarrow> string \<Rightarrow> string \<Rightarrow> runner_config \<Rightarrow> agent_outcome"
  agent_log :: "(string \<times> string \<times> string \<times> runner_config) list"

type_synonym ('z, 'a) harness_act = "('z harness_db_scheme, exn, 'a) act"

definition run_agent ::
  "string \<Rightarrow> string \<Rightarrow> string \<Rightarrow> runner_config \<Rightarrow> ('z, agent_outcome) harness_act" where
  "run_agent name task_id prompt config s =
     (Inr (agent_out s (length (agent_log s)) name task_id prompt config),
      s\<lparr>agent_log := agent_log s @ [(name, task_id, prompt, config)]\<rparr>)"

definition jopt :: "string option \<Rightarrow> json" where
  "jopt x = (case x of None \<Rightarrow> JNull | Some v \<Rightarrow> JStr v)"

definition attempt_event :: "harness \<Rightarrow> attempt \<Rightarrow> event_type \<Rightarrow> ('z, domain_event) db_act" where
  "attempt_event h a ty =
     mk_event (h_project_id h) (Some (a_run_id a)) ty
       [(''attempt_id'', JStr (a_id a)), (''task_id'', JStr (a_task_id a)),
        (''runner'', jopt (a_runner a)), (''model_id'', jopt (a_model_id a)),
        (''previous'', JStr (attempt_state_str (a_state a)))]"

definition harness_task_event :: "harness \<Rightarrow> task \<Rightarrow> event_type \<Rightarrow> ('z, domain_event) db_act" where
  "harness_task_event h t ty =
     mk_event (h_project_id h) (Some (t_run_id t)) ty
       [(''task_id'', JStr (t_id t)), (''previous'', JStr (task_state_str (t_state t)))]"

definition close_attempt ::
  "harness \<Rightarrow> attempt \<Rightarrow> attempt_state \<Rightarrow> event_type \<Rightarrow> string \<Rightarrow> ('z, attempt) db_act" where
  "close_attempt h a st ty err =
     bindE now_iso (\<lambda>now.
       let finished = a\<lparr>a_completed_at := Some now, a_error_msg := (if err \<noteq> [] then Some err else None)\<rparr>
       in bindE (attempt_event h finished ty) (record_attempt_transition finished st))"

text \<open>From a new attempt to one that is running; then the task, when it was ready.\<close>

definition open_attempt :: "harness \<Rightarrow> string \<Rightarrow> task \<Rightarrow> string \<Rightarrow> ('z, attempt) db_act" where
  "open_attempt h name t model =
     bindE (mk_attempt (t_id t) (t_run_id t) (Some name) (Some model)) (\<lambda>a.
     bindE (save_attempt a) (\<lambda>_.
     bindE (bindE (attempt_event h a ATTEMPT_STARTED) (record_attempt_transition a A_STARTING)) (\<lambda>a1.
     bindE now_iso (\<lambda>now.
     let a2 = a1\<lparr>a_started_at := Some now\<rparr>
     in bindE (attempt_event h a2 STATE_CHANGE) (record_attempt_transition a2 A_RUNNING)))))"

definition task_to_running :: "harness \<Rightarrow> task \<Rightarrow> ('z, unit) db_act" where
  "task_to_running h t =
     (if t_state t = T_READY
      then bindE (bindE (harness_task_event h t STATE_CHANGE) (record_task_transition t T_RUNNING))
             (\<lambda>_. ret ())
      else ret ())"

definition settle_attempt ::
  "harness \<Rightarrow> string \<Rightarrow> attempt \<Rightarrow> agent_outcome \<Rightarrow> ('z, runner_result \<times> attempt) db_act" where
  "settle_attempt h task_id a outcome =
     (case outcome of
        AgentCancelled \<Rightarrow>
          bindE (close_attempt h a A_CANCELLED ATTEMPT_FAILED []) (\<lambda>_. throw CancelledError)
      | Raised msg \<Rightarrow>
          bindE (close_attempt h a A_FAILED ATTEMPT_FAILED msg) (\<lambda>a'.
            ret (\<lparr>rs_task_id = task_id, rs_success = False, rs_output = [], rs_error = msg,
                  rs_transcript = [], rs_evidence = []\<rparr>, a'))
      | Returned r \<Rightarrow>
          (if rs_success r
           then bindE (close_attempt h a A_COMPLETED ATTEMPT_COMPLETED []) (\<lambda>a'. ret (r, a'))
           else bindE (close_attempt h a A_FAILED ATTEMPT_FAILED (rs_error r)) (\<lambda>a'. ret (r, a'))))"

definition harness_execute ::
  "harness \<Rightarrow> string \<Rightarrow> task \<Rightarrow> string \<Rightarrow> runner_config option \<Rightarrow> runner_capability list \<Rightarrow>
   ('z, runner_result \<times> attempt) harness_act" where
  "harness_execute h name t prompt config required =
     (case resolve h name of
        None \<Rightarrow> throw (ValueError (''Unknown runner: '' @ name))
      | Some caps \<Rightarrow>
          (let missing = filter (\<lambda>c. c \<notin> set (negotiate caps required)) required
           in if missing \<noteq> []
              then throw (CapabilityError (''Runner '' @ name @ '' is missing capabilities: ''
                     @ join '', '' (sort (remdups (List.map capability_str missing)))))
              else
                let cfg = (case config of None \<Rightarrow> mk_runner_config ''default'' 20 300 [] | Some c \<Rightarrow> c)
                in bindE (open_attempt h name t (rc_model cfg)) (\<lambda>a.
                   bindE (task_to_running h t) (\<lambda>_.
                   bindE (run_agent name (t_id t) prompt cfg) (settle_attempt h (t_id t) a)))))"

section \<open>Invariants\<close>

locale harness_invariant = routing_invariant I ok_task ok_run ok_git
  for I :: "'z harness_db_scheme \<Rightarrow> bool" and ok_task :: "task \<Rightarrow> bool"
    and ok_run :: "run \<Rightarrow> bool"
    and ok_git :: "string list \<Rightarrow> bool" +
  assumes I_agent: "I s \<Longrightarrow> I (s\<lparr>agent_log := l\<rparr>)"
begin

lemma pres_harness_parts:
  "preserves I (attempt_event h a ty)" "preserves I (harness_task_event h t ty)"
  "preserves I (close_attempt h a st ty err)" "preserves I (open_attempt h nm t mo)"
  "preserves I (task_to_running h t)" "preserves I (run_agent nm ti pr cfg)"
proof -
  show 1: "preserves I (attempt_event h a ty)" for h a ty
    unfolding attempt_event_def by (intro routing_pres)
  show 2: "preserves I (harness_task_event h t ty)" for h t ty
    unfolding harness_task_event_def by (intro routing_pres)
  show "preserves I (close_attempt h a st ty err)"
    unfolding close_attempt_def Let_def by (intro routing_pres 1)
  show "preserves I (open_attempt h nm t mo)"
    unfolding open_attempt_def Let_def by (intro routing_pres 1)
  show "preserves I (task_to_running h t)"
    unfolding task_to_running_def by (intro routing_pres 2)
  show "preserves I (run_agent nm ti pr cfg)"
    by (auto simp: preserves_def run_agent_def I_agent)
qed

lemma pres_settle: "preserves I (settle_attempt h ti a oc)"
  unfolding settle_attempt_def
  by (cases oc; simp only: agent_outcome.case) (intro routing_pres pres_harness_parts)+

lemma pres_harness_execute: "preserves I (harness_execute h nm t pr cfg req)"
  unfolding harness_execute_def Let_def
  by (intro routing_pres pres_harness_parts pres_settle)

lemmas harness_pres = routing_pres scheduler_pres pres_harness_parts pres_harness_execute

end

interpretation harness_integrity: harness_invariant integrity "\<lambda>_. True" "\<lambda>_. True" "\<lambda>_. True"
  by unfold_locales (auto simp: integrity_def)

interpretation harness_guarded: harness_invariant guarded_log "\<lambda>_. True" "\<lambda>_. True" guarded_args
  by unfold_locales (auto simp: guarded_log_def)

section \<open>The lifecycle of an attempt\<close>

text \<open>The part of the state an attempt's steps leave alone.\<close>

definition frame :: "'z harness_db_scheme \<Rightarrow> 'z harness_db_scheme \<Rightarrow> bool" where
  "frame s s' \<longleftrightarrow> db_open s' = db_open s \<and> runs s' = runs s \<and> tasks s' = tasks s \<and> plans s' = plans s
     \<and> evidence_rows s' = evidence_rows s \<and> git_log s' = git_log s \<and> git_out s' = git_out s
     \<and> agent_out s' = agent_out s \<and> agent_log s' = agent_log s \<and> scores s' = scores s
     \<and> available_models s' = available_models s \<and> observations s' = observations s
     \<and> route_decisions s' = route_decisions s"

lemma stamped_frame [simp]:
  "git_log (stamped s) = git_log s" "git_out (stamped s) = git_out s"
  "agent_out (stamped s) = agent_out s" "agent_log (stamped s) = agent_log s"
  "scores (stamped s) = scores s" "available_models (stamped s) = available_models s"
  "observations (stamped s) = observations s" "route_decisions (stamped s) = route_decisions s"
  for s :: "'z harness_db_scheme"
  by (simp_all add: stamped_def)

lemma committed_frame [simp]:
  "git_log (committed_event e s) = git_log s" "git_out (committed_event e s) = git_out s"
  "agent_out (committed_event e s) = agent_out s" "agent_log (committed_event e s) = agent_log s"
  "scores (committed_event e s) = scores s" "available_models (committed_event e s) = available_models s"
  "observations (committed_event e s) = observations s"
  "route_decisions (committed_event e s) = route_decisions s"
  for s :: "'z harness_db_scheme"
  by (simp_all add: committed_event_def)

lemma frame_refl: "frame s s"
  by (simp add: frame_def)









section \<open>Properties\<close>




text \<open>The choice of a runner counts the requested capabilities it has, repeats included, against
  the number of different ones. With repeats in the request a runner that lacks a capability can be
  chosen, and one that has everything can be passed over.\<close>

theorem select_runner_miscounts_repeats:
  "select_runner \<lparr>h_project_id = ''p'', h_runners = [(''r'', [STREAMING])]\<rparr>
       [STREAMING, STREAMING, PERMISSIONS] = Inr ''r''
   \<and> (\<exists>e. select_runner \<lparr>h_project_id = ''p'', h_runners = [(''r'', [STREAMING])]\<rparr>
       [STREAMING, STREAMING] = Inl e)"
  by (simp add: select_runner_def runner_names_def resolve_def negotiate_def Let_def)

lemma negotiate_all:
  assumes "distinct required"
  shows "length (negotiate caps required) = card (set required) \<longleftrightarrow> set required \<subseteq> set caps"
proof
  assume len: "length (negotiate caps required) = card (set required)"
  show "set required \<subseteq> set caps"
  proof (rule ccontr)
    assume "\<not> set required \<subseteq> set caps"
    then obtain c where "c \<in> set required" "c \<notin> set caps" by blast
    then have "length (filter (\<lambda>c. c \<in> set caps) required) < length required"
      by (intro length_filter_less)
    with len show False using assms by (simp add: negotiate_def distinct_card)
  qed
next
  assume "set required \<subseteq> set caps"
  then have "negotiate caps required = required" by (auto simp: negotiate_def filter_id_conv)
  then show "length (negotiate caps required) = card (set required)"
    using assms by (simp add: distinct_card)
qed

lemma pick_runner_spec:
  "distinct required \<Longrightarrow>
   (case pick_runner h required names of
      Inr n \<Rightarrow> n \<in> set names \<and> set required \<subseteq> set (the (resolve h n))
    | Inl e \<Rightarrow> \<forall>n \<in> set names. \<not> set required \<subseteq> set (the (resolve h n)))"
proof (induction names)
  case (Cons m names)
  then show ?case
    by (cases "set required \<subseteq> set (the (resolve h m))")
      (auto simp: negotiate_all split: sum.splits)
qed (simp add: Let_def)

text \<open>For a request without repeats, the runner chosen is registered and has every requested
  capability, and an error means that no registered runner has them all.\<close>

theorem select_runner_correct:
  assumes "distinct required"
  shows "case select_runner h required of
      Inr n \<Rightarrow> n \<in> fst ` set (h_runners h) \<and> set required \<subseteq> set (the (resolve h n))
    | Inl e \<Rightarrow> \<forall>n \<in> fst ` set (h_runners h). \<not> set required \<subseteq> set (the (resolve h n))"
  using pick_runner_spec [OF assms, where h = h and names = "runner_names h"]
  by (simp add: select_runner_def runner_names_def split: sum.splits)

theorem select_runner_correct_witness:
  "select_runner \<lparr>h_project_id = ''p'', h_runners = [(''b'', [STREAMING, PERMISSIONS]), (''a'', [STREAMING])]\<rparr>
     [PERMISSIONS] = Inr ''b''"
proof -
  let ?h = "\<lparr>h_project_id = ''p'', h_runners = [(''b'', [STREAMING, PERMISSIONS]), (''a'', [STREAMING])]\<rparr>"
  show ?thesis
    using select_runner_correct [where required = "[PERMISSIONS]" and h = ?h]
    by (cases "select_runner ?h [PERMISSIONS]") (auto simp: resolve_def split: if_splits)
qed

end
