(* ===== verification/Gates.thy ===== *)
theory Gates
  imports Harness
begin

text \<open>
  The verification engine (\<open>verification/gates.py\<close>): evidence attached to a coordinator and stored, the
  evaluation of one gate and of all the gates a Goal requires, and the flow that records the verdicts of
  a run. The coordinator's two fields are part of the state; its evidence dictionary keeps insertion
  order.
\<close>

record gate_result =
  gr_gate :: gate_kind
  gr_verdict :: gate_verdict
  gr_evidence_ids :: "string list"
  gr_details :: string

record repair_action =
  ra_task_id :: string
  ra_reason :: string
  ra_repair_scope :: "string list"

record gate_db = harness_db +
  attached :: "(string \<times> evidence) list"
  repairs :: "repair_action list"

type_synonym ('z, 'a) gate_act = "('z gate_db_scheme, exn, 'a) act"

definition attach_evidence :: "evidence \<Rightarrow> ('z, unit) gate_act" where
  "attach_evidence e = modify (\<lambda>s. s\<lparr>attached := AList.update (ev_id e) e (attached s)\<rparr>)"

definition record_evidence :: "evidence \<Rightarrow> ('z, evidence) gate_act" where
  "record_evidence e =
     bindE (attach_evidence e) (\<lambda>_. bindE (save_evidence e) (\<lambda>_. ret e))"

definition gates_load_evidence :: "string \<Rightarrow> ('z, evidence list) gate_act" where
  "gates_load_evidence goal_id =
     bindE (load_evidence goal_id) (\<lambda>stored.
     bindE (forE stored attach_evidence) (\<lambda>_. ret stored))"

definition attached_values :: "'z gate_db_scheme \<Rightarrow> evidence list" where
  "attached_values s = List.map snd (attached s)"

definition evaluate_gate :: "evidence list \<Rightarrow> gate_kind \<Rightarrow> gate_result" where
  "evaluate_gate evs gate =
     (let relevant = filter (\<lambda>e. ev_gate e = gate) evs;
          passed = filter (\<lambda>e. ev_verdict e = PASSED) relevant;
          failed = filter (\<lambda>e. ev_verdict e = FAILED) relevant
      in if failed \<noteq> []
         then \<lparr>gr_gate = gate, gr_verdict = FAILED, gr_evidence_ids = List.map ev_id failed,
               gr_details = ''Gate '' @ gate_str gate @ '': '' @ nat_str (length failed)
                 @ '' evidence items FAILED''\<rparr>
         else if passed = []
         then \<lparr>gr_gate = gate, gr_verdict = PENDING, gr_evidence_ids = [],
               gr_details = ''Gate '' @ gate_str gate @ '': no evidence attached''\<rparr>
         else \<lparr>gr_gate = gate, gr_verdict = PASSED, gr_evidence_ids = List.map ev_id passed,
               gr_details = []\<rparr>)"

text \<open>\<open>required\<close> is a dictionary from gate names to requirements; only \<open>required\<close> ones are looked up.\<close>

fun evaluate_all :: "evidence list \<Rightarrow> (string \<times> string) list \<Rightarrow> exn + (gate_kind \<times> gate_result) list" where
  "evaluate_all evs [] = Inr []"
| "evaluate_all evs ((name, req) # rest) =
     (if req \<noteq> ''required'' then evaluate_all evs rest
      else case gate_of name of
          Inl e \<Rightarrow> Inl e
        | Inr g \<Rightarrow> (case evaluate_all evs rest of
              Inl e \<Rightarrow> Inl e
            | Inr rs \<Rightarrow> Inr ((g, evaluate_gate evs g) # rs)))"

definition results_passed :: "(gate_kind \<times> gate_result) list \<Rightarrow> bool" where
  "results_passed rs = (rs \<noteq> [] \<and> list_all (\<lambda>(_, r). gr_verdict r = PASSED) rs)"

definition all_passed :: "evidence list \<Rightarrow> (string \<times> string) list \<Rightarrow> exn + bool" where
  "all_passed evs required = (case evaluate_all evs required of
     Inl e \<Rightarrow> Inl e | Inr rs \<Rightarrow> Inr (results_passed rs))"

definition pending_gates :: "evidence list \<Rightarrow> (string \<times> string) list \<Rightarrow> exn + gate_kind list" where
  "pending_gates evs required = (case evaluate_all evs required of
     Inl e \<Rightarrow> Inl e
   | Inr rs \<Rightarrow> Inr (List.map fst (filter (\<lambda>(_, r). gr_verdict r \<noteq> PASSED) rs)))"

definition propose_repair :: "string \<Rightarrow> string \<Rightarrow> string list \<Rightarrow> ('z, repair_action) gate_act" where
  "propose_repair task_id reason scope =
     (let r = \<lparr>ra_task_id = task_id, ra_reason = reason, ra_repair_scope = scope\<rparr>
      in bindE (modify (\<lambda>s. s\<lparr>repairs := repairs s @ [r]\<rparr>)) (\<lambda>_. ret r))"

definition repair_is_distinct_from_amendment :: "repair_action \<Rightarrow> bool" where
  "repair_is_distinct_from_amendment r \<longleftrightarrow> ra_task_id r \<noteq> [] \<and> length (ra_repair_scope r) > 0"

definition gate_execution_flow ::
  "run \<Rightarrow> task \<Rightarrow> (string \<times> string) list \<Rightarrow> ('z, bool) gate_act" where
  "gate_execution_flow r t gates =
     bindE (gets attached_values) (\<lambda>evs.
     case evaluate_all evs gates of
       Inl e \<Rightarrow> throw e
     | Inr rs \<Rightarrow>
         bindE (forE rs (\<lambda>(g, res).
           bindE (mk_event (r_project_id r) (Some (r_id r))
                    (if gr_verdict res = PASSED then GATE_PASSED else GATE_FAILED)
                    [(''task_id'', JStr (t_id t)), (''gate'', JStr (gate_str g)),
                     (''verdict'', JStr (verdict_str (gr_verdict res)))]) save_event)) (\<lambda>_.
         bindE (if \<not> results_passed rs \<and> t_state t = T_RUNNING
                then bindE (mk_event (r_project_id r) (Some (r_id r)) TASK_FAILED
                             [(''task_id'', JStr (t_id t)), (''reason'', JStr ''gates did not pass'')])
                       (\<lambda>e. bindE (record_task_transition t T_FAILED e) (\<lambda>_. ret ()))
                else ret ()) (\<lambda>_.
         ret (results_passed rs))))"

section \<open>Invariants\<close>

locale gate_invariant = harness_invariant I ok_task ok_run ok_git
  for I :: "'z gate_db_scheme \<Rightarrow> bool" and ok_task :: "task \<Rightarrow> bool"
    and ok_run :: "run \<Rightarrow> bool" and ok_git :: "string list \<Rightarrow> bool" +
  assumes I_attached: "I s \<Longrightarrow> I (s\<lparr>attached := es\<rparr>)"
    and I_repairs: "I s \<Longrightarrow> I (s\<lparr>repairs := rs\<rparr>)"
begin

lemma pres_sum: "(\<And>e. preserves I (f e)) \<Longrightarrow> (\<And>x. preserves I (g x)) \<Longrightarrow>
  preserves I (case v of Inl e \<Rightarrow> f e | Inr x \<Rightarrow> g x)"
  by (cases v) simp_all

lemma pres_attach: "preserves I (attach_evidence e)"
  unfolding attach_evidence_def by (intro pres_modify I_attached)

lemma pres_gates:
  "preserves I (record_evidence e)" "preserves I (gates_load_evidence g)"
  "preserves I (propose_repair t m sc)" "preserves I (gate_execution_flow r t' gs)"
  unfolding record_evidence_def gates_load_evidence_def propose_repair_def gate_execution_flow_def Let_def
  by (intro harness_pres pres_attach pres_sum pres_modify I_repairs | assumption)+

lemmas gate_pres = harness_pres pres_sum pres_attach pres_gates

end

interpretation gate_integrity: gate_invariant integrity "\<lambda>_. True" "\<lambda>_. True" "\<lambda>_. True"
  by unfold_locales (auto simp: integrity_def)

section \<open>Facts\<close>

lemma evaluate_gate_verdict:
  "gr_verdict (evaluate_gate evs g) = PASSED \<longleftrightarrow>
     (\<exists>e \<in> set evs. ev_gate e = g \<and> ev_verdict e = PASSED)
     \<and> (\<forall>e \<in> set evs. ev_gate e = g \<longrightarrow> ev_verdict e \<noteq> FAILED)"
  by (auto simp: evaluate_gate_def Let_def filter_empty_conv)

lemma evaluate_all_gates:
  "evaluate_all evs required = Inr rs \<Longrightarrow>
   List.map fst rs = List.map (\<lambda>(n, _). projr (gate_of n)) (filter (\<lambda>(n, q). q = ''required'') required)
   \<and> (\<forall>(g, r) \<in> set rs. r = evaluate_gate evs g)"
proof (induction required arbitrary: rs)
  case (Cons p required)
  obtain n q where p: "p = (n, q)" by (cases p)
  from Cons p show ?case
    by (cases "q = ''required''"; cases "gate_of n") (auto split: sum.splits)
qed simp

section \<open>Properties\<close>

text \<open>The required gates pass exactly when there is at least one and each has a passing piece of
  evidence and no failing one; the pending ones are exactly the others, and a required name that is no
  gate raises.\<close>

theorem all_passed_iff:
  assumes "\<forall>(n, q) \<in> set required. q = ''required'' \<longrightarrow> n \<in> gate_str ` UNIV"
  shows "\<exists>ps. pending_gates evs required = Inr ps
     \<and> all_passed evs required = Inr
         ((\<exists>(n, q) \<in> set required. q = ''required'')
          \<and> (\<forall>g. (gate_str g, ''required'') \<in> set required \<longrightarrow>
               (\<exists>e \<in> set evs. ev_gate e = g \<and> ev_verdict e = PASSED)
               \<and> (\<forall>e \<in> set evs. ev_gate e = g \<longrightarrow> ev_verdict e \<noteq> FAILED)))
     \<and> set ps = {g. (gate_str g, ''required'') \<in> set required
          \<and> gr_verdict (evaluate_gate evs g) \<noteq> PASSED}"
proof -
  have "\<exists>rs. evaluate_all evs required = Inr rs \<and>
      set rs = {(g, evaluate_gate evs g) | g. (gate_str g, ''required'') \<in> set required}"
    using assms
  proof (induction required)
    case (Cons p required)
    obtain n q where p: "p = (n, q)" by (cases p)
    from Cons obtain rs where rs: "evaluate_all evs required = Inr rs"
      "set rs = {(g, evaluate_gate evs g) | g. (gate_str g, ''required'') \<in> set required}" by auto
    show ?case
    proof (cases "q = ''required''")
      case True
      with Cons.prems p obtain g where n: "n = gate_str g" by auto
      have "set ((g, evaluate_gate evs g) # rs)
          = {(g, evaluate_gate evs g) | g. (gate_str g, ''required'') \<in> set (p # required)}"
        using rs(2) p n True by (auto simp: gate_str_inj)
      with rs(1) p n True show ?thesis by simp
    qed (use p rs in auto)
  qed simp
  then obtain rs where rs: "evaluate_all evs required = Inr rs"
    "set rs = {(g, evaluate_gate evs g) | g. (gate_str g, ''required'') \<in> set required}" by blast
  have ne: "rs \<noteq> [] \<longleftrightarrow> (\<exists>(n, q) \<in> set required. q = ''required'')"
  proof -
    have "set rs \<noteq> {} \<longleftrightarrow> (\<exists>g. (gate_str g, ''required'') \<in> set required)" unfolding rs(2) by blast
    then have "rs \<noteq> [] \<longleftrightarrow> (\<exists>g. (gate_str g, ''required'') \<in> set required)" by simp
    also have "\<dots> \<longleftrightarrow> (\<exists>n. (n, ''required'') \<in> set required)"
    proof
      assume "\<exists>n. (n, ''required'') \<in> set required"
      then obtain n where n: "(n, ''required'') \<in> set required" ..
      with assms have "n \<in> range gate_str" by fastforce
      with n show "\<exists>g. (gate_str g, ''required'') \<in> set required" by blast
    qed blast
    also have "\<dots> \<longleftrightarrow> (\<exists>(n, q) \<in> set required. q = ''required'')" by auto
    finally show ?thesis .
  qed
  have "results_passed rs \<longleftrightarrow> rs \<noteq> [] \<and> (\<forall>g. (gate_str g, ''required'') \<in> set required \<longrightarrow>
      gr_verdict (evaluate_gate evs g) = PASSED)"
    unfolding results_passed_def list_all_iff rs(2) by auto
  then show ?thesis
    using rs ne by (auto simp: all_passed_def pending_gates_def evaluate_gate_verdict image_iff)
qed

definition sample_evidence :: "string \<Rightarrow> string \<Rightarrow> gate_kind \<Rightarrow> gate_verdict \<Rightarrow> evidence" where
  "sample_evidence i goal g v = \<lparr>ev_id = i, ev_goal_id = goal, ev_gate = g, ev_kind = ''log'', ev_uri = [],
     ev_digest = [], ev_attached_at = ''0'', ev_verdict = v, ev_run_id = None, ev_task_id = None\<rparr>"

theorem all_passed_iff_witness:
  "all_passed [sample_evidence ''1'' ''g'' BUILD PASSED] [(''build'', ''required''), (''tests'', ''optional'')]
     = Inr True
   \<and> all_passed [sample_evidence ''1'' ''g'' BUILD PASSED] [(''build'', ''required''), (''tests'', ''required'')]
     = Inr False"
proof -
  let ?a = "[(''build'', ''required''), (''tests'', ''optional'')] :: (string \<times> string) list"
  let ?b = "[(''build'', ''required''), (''tests'', ''required'')] :: (string \<times> string) list"
  let ?ev = "[sample_evidence ''1'' ''g'' BUILD PASSED]"
  have names: "''build'' \<in> range gate_str" "''tests'' \<in> range gate_str"
    using rangeI [of gate_str BUILD] rangeI [of gate_str TESTS] by simp_all
  have "\<forall>(n, q) \<in> set ?a. q = ''required'' \<longrightarrow> n \<in> gate_str ` UNIV"
    "\<forall>(n, q) \<in> set ?b. q = ''required'' \<longrightarrow> n \<in> gate_str ` UNIV" using names by auto
  note w = this [THEN all_passed_iff, of ?ev]
  have a: "(gate_str g, ''required'') \<in> set ?a \<longleftrightarrow> g = BUILD" for g by (cases g) simp_all
  have b: "(gate_str g, ''required'') \<in> set ?b \<longleftrightarrow> g = BUILD \<or> g = TESTS" for g by (cases g) simp_all
  from w(1) w(2) show ?thesis unfolding a b by (auto simp: sample_evidence_def)
qed

text \<open>The evaluation does not look at the goal a piece of evidence belongs to: evidence of one goal
  attached to a coordinator satisfies the gates of another.\<close>

theorem gates_ignore_goal:
  "all_passed [sample_evidence ''1'' ''other-goal'' BUILD PASSED] [(''build'', ''required'')] = Inr True"
  by (simp add: all_passed_def results_passed_def evaluate_gate_def sample_evidence_def gate_of_def
      all_gates_def)

end
