(* ===== verification/Commands.thy ===== *)
theory Commands
  imports Gates
begin

text \<open>
  The gate commands a project declares (\<open>verification/commands.py\<close>): reading the declaration, splitting
  a command into words as \<open>shlex\<close> does, running it and turning its exit into a verdict. The file's YAML
  is parsed outside the repository, so the loader takes the loaded value; a process's end is
  \<open>shell_out\<close>, the processes started are \<open>shell_log\<close>. \<open>redact\<close> stands for \<open>SecurityGuard.redact_secrets\<close>,
  a regular-expression substitution.
\<close>

section \<open>Splitting a command\<close>

abbreviation squote :: char where "squote \<equiv> CHR 0x27"
abbreviation dquote :: char where "dquote \<equiv> CHR 0x22"
abbreviation backslash :: char where "backslash \<equiv> CHR 0x5C"

definition shlex_space :: "char \<Rightarrow> bool" where
  "shlex_space c \<longleftrightarrow> c \<in> {CHR '' '', CHR 0x09, CHR 0x0D, CHR 0x0A}"

definition tok :: "string option \<Rightarrow> string" where
  "tok cur = (case cur of None \<Rightarrow> [] | Some t \<Rightarrow> t)"

definition emit :: "string option \<Rightarrow> exn + string list \<Rightarrow> exn + string list" where
  "emit cur r = (case r of Inl e \<Rightarrow> Inl e | Inr ts \<Rightarrow> Inr (case cur of None \<Rightarrow> ts | Some t \<Rightarrow> t # ts))"

fun shlex :: "string option \<Rightarrow> char option \<Rightarrow> string \<Rightarrow> exn + string list" where
  "shlex cur None [] = emit cur (Inr [])"
| "shlex cur (Some q) [] = Inl (ValueError ''No closing quotation'')"
| "shlex cur None (c # cs) =
     (if shlex_space c then emit cur (shlex None None cs)
      else if c = squote \<or> c = dquote then shlex (Some (tok cur)) (Some c) cs
      else if c = backslash then
        (case cs of [] \<Rightarrow> Inl (ValueError ''No escaped character'')
         | d # ds \<Rightarrow> shlex (Some (tok cur @ [d])) None ds)
      else shlex (Some (tok cur @ [c])) None cs)"
| "shlex cur (Some q) (c # cs) =
     (if c = q then shlex cur None cs
      else if q = dquote \<and> c = backslash then
        (case cs of [] \<Rightarrow> Inl (ValueError ''No escaped character'')
         | d # ds \<Rightarrow> shlex (Some (tok cur @ (if d = backslash \<or> d = q then [d] else [backslash, d])))
                       (Some q) ds)
      else shlex (Some (tok cur @ [c])) (Some q) cs)"

definition shlex_split :: "string \<Rightarrow> exn + string list" where
  "shlex_split s = shlex None None s"

section \<open>Declared commands\<close>

type_synonym gate_commands = "(gate_kind \<times> string) list"

definition known_gates :: string where
  "known_gates = join '', '' (sort (List.map gate_str all_gates))"

fun read_commands ::
  "(json \<Rightarrow> string) \<Rightarrow> string \<Rightarrow> dict \<Rightarrow> gate_commands \<Rightarrow> exn + gate_commands" where
  "read_commands repr path [] cmds = Inr cmds"
| "read_commands repr path ((name, command) # rest) cmds =
     (case gate_of name of
        Inl _ \<Rightarrow> Inl (VerificationConfigError (path @ '': '' @ quoted name
          @ '' is not a gate. Known gates: '' @ known_gates))
      | Inr g \<Rightarrow> read_commands repr path rest
          (if truthy command then AList.update g (py_str repr command) cmds else cmds))"

text \<open>\<open>file\<close> is \<open>None\<close> when the file does not exist, else what its YAML loads to.\<close>

definition load_gate_commands ::
  "(json \<Rightarrow> string) \<Rightarrow> string \<Rightarrow> json option \<Rightarrow> exn + gate_commands" where
  "load_gate_commands repr path file =
     (case file of
        None \<Rightarrow> Inr []
      | Some JNull \<Rightarrow> Inr []
      | Some (JObj raw) \<Rightarrow>
          (let declared = (case map_of raw ''gates'' of
                             None \<Rightarrow> JObj [] | Some v \<Rightarrow> if truthy v then v else JObj [])
           in case declared of
                JObj kvs \<Rightarrow> read_commands repr path kvs []
              | _ \<Rightarrow> Inl (VerificationConfigError (path @ '': 'gates' must be a mapping'')))
      | Some _ \<Rightarrow> Inl (VerificationConfigError (path @ '' must contain a mapping'')))"

definition for_gate :: "gate_commands \<Rightarrow> gate_kind \<Rightarrow> string option" where
  "for_gate cmds g = map_of cmds g"

definition declared_gates :: "gate_commands \<Rightarrow> gate_kind list" where
  "declared_gates cmds = sort (List.map fst cmds)"

section \<open>Running a command\<close>

datatype shell_outcome = CannotRun string | TimedOut | Exited int string

record shell_db = gate_db +
  shell_out :: "nat \<Rightarrow> string list \<Rightarrow> string \<Rightarrow> shell_outcome"
  shell_log :: "(string list \<times> string) list"

type_synonym ('z, 'a) shell_act = "('z shell_db_scheme, exn, 'a) act"

record gate_outcome =
  go_gate :: gate_kind
  go_verdict :: gate_verdict
  go_command :: string
  go_detail :: string

definition run_process :: "string list \<Rightarrow> string \<Rightarrow> ('z, shell_outcome) shell_act" where
  "run_process argv cwd s =
     (Inr (shell_out s (length (shell_log s)) argv cwd), s\<lparr>shell_log := shell_log s @ [(argv, cwd)]\<rparr>)"

definition last_chars :: "nat \<Rightarrow> string \<Rightarrow> string" where
  "last_chars n s = drop (length s - n) s"

definition outcome_of ::
  "(string \<Rightarrow> string) \<Rightarrow> string \<Rightarrow> gate_kind \<Rightarrow> string \<Rightarrow> shell_outcome \<Rightarrow> gate_outcome" where
  "outcome_of redact timeout gate command ending =
     (let result = (\<lambda>v d. \<lparr>go_gate = gate, go_verdict = v, go_command = command, go_detail = d\<rparr>)
      in case ending of
           CannotRun msg \<Rightarrow> result FAILED (''could not run: '' @ msg)
         | TimedOut \<Rightarrow> result FAILED (''timed out after '' @ timeout @ ''s'')
         | Exited code raw \<Rightarrow>
             (let output = strip (redact raw);
                  tail = (if output \<noteq> [] then last_chars 600 output else ''(no output)'')
              in if code = 0 then result PASSED tail
                 else result FAILED (''exit '' @ int_str code @ '': '' @ tail)))"

definition run_gate_command ::
  "(string \<Rightarrow> string) \<Rightarrow> string \<Rightarrow> gate_kind \<Rightarrow> string \<Rightarrow> string \<Rightarrow> ('z, gate_outcome) shell_act" where
  "run_gate_command redact timeout gate command cwd =
     (case shlex_split command of
        Inl e \<Rightarrow> throw e
      | Inr argv \<Rightarrow>
          if argv = [] then ret \<lparr>go_gate = gate, go_verdict = FAILED, go_command = command,
                                 go_detail = ''the declared command is empty''\<rparr>
          else bindE (run_process argv cwd) (\<lambda>r. ret (outcome_of redact timeout gate command r)))"

definition evidence_for :: "gate_outcome \<Rightarrow> string \<Rightarrow> string \<Rightarrow> ('z, evidence) db_act" where
  "evidence_for o' goal_id run_id =
     evidence_new goal_id (go_gate o') ''gate_command'' (go_verdict o')
       (take 1000 (go_command o' @ '' '' @ emdash @ '' '' @ go_detail o')) [] (Some run_id) None"

section \<open>Invariants\<close>

locale shell_invariant = gate_invariant I ok_task ok_run ok_git
  for I :: "'z shell_db_scheme \<Rightarrow> bool" and ok_task :: "task \<Rightarrow> bool"
    and ok_run :: "run \<Rightarrow> bool" and ok_git :: "string list \<Rightarrow> bool" +
  assumes I_shell: "I s \<Longrightarrow> I (s\<lparr>shell_log := l\<rparr>)"
begin

lemma pres_process: "preserves I (run_process argv cwd)"
  by (auto simp: preserves_def run_process_def I_shell)

lemma pres_commands:
  "preserves I (run_gate_command rd ti g c cwd)" "preserves I (evidence_for oc gi ri)"
  unfolding run_gate_command_def evidence_for_def by (intro gate_pres pres_process)+

lemmas shell_pres = gate_pres pres_commands

end

interpretation shell_integrity: shell_invariant integrity "\<lambda>_. True" "\<lambda>_. True" "\<lambda>_. True"
  by unfold_locales (auto simp: integrity_def)

section \<open>Facts\<close>

lemma read_commands_keys:
  "read_commands repr path kvs cmds = Inr out \<Longrightarrow> g \<in> fst ` set out \<longleftrightarrow>
     g \<in> fst ` set cmds \<or> (\<exists>v. (gate_str g, v) \<in> set kvs \<and> truthy v)"
proof (induction kvs arbitrary: cmds)
  case (Cons p kvs)
  obtain n v where p: "p = (n, v)" by (cases p)
  from Cons.prems p obtain h where h: "n = gate_str h"
    "read_commands repr path kvs (if truthy v then AList.update h (py_str repr v) cmds else cmds) = Inr out"
    by (auto simp: gate_of_Inr split: sum.splits)
  from Cons.IH [OF h(2)] show ?case
    using p h(1) by (auto simp: dom_update gate_str_inj)
qed simp

lemma shlex_plain:
  "(\<forall>c \<in> set w. \<not> shlex_space c \<and> c \<noteq> squote \<and> c \<noteq> dquote \<and> c \<noteq> backslash) \<Longrightarrow>
   shlex (Some t) None (w @ rest) = shlex (Some (t @ w)) None rest"
  by (induction w arbitrary: t) (auto simp: tok_def)

text \<open>A word with nothing special in it.\<close>

definition plain_word :: "string \<Rightarrow> bool" where
  "plain_word w \<longleftrightarrow> w \<noteq> [] \<and> (\<forall>c \<in> set w. \<not> shlex_space c \<and> c \<noteq> squote \<and> c \<noteq> dquote \<and> c \<noteq> backslash)"

lemma shlex_word: "plain_word w \<Longrightarrow> shlex None None (w @ rest) = shlex (Some w) None rest"
  by (cases w) (auto simp: plain_word_def tok_def shlex_plain)

lemma shlex_blank: "shlex cur None (CHR '' '' # r) = emit cur (shlex None None r)"
  by (simp add: shlex_space_def)

lemma shlex_join: "list_all plain_word ws \<Longrightarrow> shlex None None (join '' '' ws) = Inr ws"
proof (induction ws)
  case (Cons w ws)
  then have w: "plain_word w" and ws: "shlex None None (join '' '' ws) = Inr ws" by simp_all
  show ?case
  proof (cases "ws = []")
    case True
    then show ?thesis using shlex_word [OF w, of "[]"] by (simp add: emit_def)
  next
    case False
    have "join '' '' (w # ws) = w @ CHR '' '' # join '' '' ws"
      using join_Cons [OF False, of "'' ''" w] by simp
    then have "shlex None None (join '' '' (w # ws)) = emit (Some w) (Inr ws)"
      using shlex_word [OF w, of "CHR '' '' # join '' '' ws"] shlex_blank [of "Some w" "join '' '' ws"] ws
      by (simp only:)
    then show ?thesis by (simp add: emit_def)
  qed
qed (simp add: emit_def)

lemma outcome_of_facts:
  "go_gate (outcome_of redact timeout gate command ending) = gate"
  "go_command (outcome_of redact timeout gate command ending) = command"
  "go_verdict (outcome_of redact timeout gate command ending) = PASSED \<longleftrightarrow> (\<exists>raw. ending = Exited 0 raw)"
  "go_verdict (outcome_of redact timeout gate command ending) \<noteq> PENDING"
  by (cases ending; simp add: outcome_of_def Let_def)+

section \<open>Properties\<close>

text \<open>A declared check passes exactly when its process was started and exited with 0; every other
  end (an empty command, a program that cannot be run, a time-out, another exit code) is a failure, and
  at most one process is started for it, with the words of the command as its arguments.\<close>

theorem gate_command_verdict:
  assumes "run_gate_command redact timeout gate command cwd s = (Inr r, s')"
  shows "\<exists>argv. shlex_split command = Inr argv \<and> go_gate r = gate \<and> go_command r = command
     \<and> shell_log s' = shell_log s @ (if argv = [] then [] else [(argv, cwd)])
     \<and> (go_verdict r = PASSED \<longleftrightarrow>
          argv \<noteq> [] \<and> (\<exists>raw. shell_out s (length (shell_log s)) argv cwd = Exited 0 raw))
     \<and> go_verdict r \<noteq> PENDING"
proof -
  from assms obtain argv where argv: "shlex_split command = Inr argv"
    by (cases "shlex_split command") (auto simp: run_gate_command_def throw_def)
  show ?thesis
  proof (cases "argv = []")
    case True
    then show ?thesis using assms argv by (auto simp: run_gate_command_def ret_def)
  next
    case False
    then have "r = outcome_of redact timeout gate command (shell_out s (length (shell_log s)) argv cwd)"
      "shell_log s' = shell_log s @ [(argv, cwd)]"
      using assms argv by (auto simp: run_gate_command_def run_process_def bindE_def ret_def)
    then show ?thesis using argv False by (simp add: outcome_of_facts)
  qed
qed

definition sample_shell_db :: shell_db where
  "sample_shell_db = \<lparr>uuid_hex = nat_str, clock_iso = nat_str, draws = 0, ticks = 0, db_open = True,
     listeners = [], delivered = [], runs = [], tasks = [], attempts = [], events = [],
     evidence_rows = [], plans = [], git_out = (\<lambda>_ _ _. ([], [], 0)), git_log = [],
     available_models = [], scores = [], observations = [], route_decisions = [],
     agent_out = (\<lambda>_ _ _ _ _. AgentCancelled), agent_log = [], attached = [], repairs = [],
     shell_out = (\<lambda>_ _ _. Exited 2 ''bad''), shell_log = []\<rparr>"

theorem gate_command_verdict_witness:
  "\<exists>r s'. run_gate_command (\<lambda>s. s) ''900'' TESTS ''uv run'' ''/p'' sample_shell_db = (Inr r, s')
     \<and> go_verdict r \<noteq> PASSED \<and> shell_log s' = [([''uv'', ''run''], ''/p'')]"
proof -
  have sp: "shlex_split ''uv run'' = Inr [''uv'', ''run'']" by code_simp
  then obtain r s' where x: "run_gate_command (\<lambda>s. s) ''900'' TESTS ''uv run'' ''/p'' sample_shell_db = (Inr r, s')"
    by (auto simp: run_gate_command_def run_process_def bindE_def ret_def)
  from gate_command_verdict [OF x] show ?thesis
    unfolding sp x by (auto simp: sample_shell_db_def)
qed

text \<open>Splitting a command into words is the inverse of joining plain words with blanks.\<close>

theorem shlex_round_trip:
  assumes "list_all plain_word ws"
  shows "shlex_split (join '' '' ws) = Inr ws"
  unfolding shlex_split_def by (rule shlex_join [OF assms])

theorem shlex_round_trip_witness:
  "shlex_split ''uv run pytest'' = Inr [''uv'', ''run'', ''pytest'']"
proof -
  have "list_all plain_word [''uv'', ''run'', ''pytest'']" by code_simp
  from shlex_round_trip [OF this] show ?thesis by simp
qed

text \<open>The gates that have a command are exactly those declared with a non-empty one; a declared
  name that is no gate is refused.\<close>

theorem declared_gates_correct:
  assumes "load_gate_commands repr path (Some (JObj [(''gates'', JObj kvs)])) = Inr cmds"
  shows "set (declared_gates cmds) = {g. \<exists>v. (gate_str g, v) \<in> set kvs \<and> truthy v}
     \<and> sorted (declared_gates cmds)
     \<and> (\<forall>g. for_gate cmds g \<noteq> None \<longleftrightarrow> g \<in> set (declared_gates cmds))"
proof -
  have r: "read_commands repr path kvs [] = Inr cmds"
    using assms by (cases kvs) (simp_all add: load_gate_commands_def)
  have "g \<in> fst ` set cmds \<longleftrightarrow> (\<exists>v. (gate_str g, v) \<in> set kvs \<and> truthy v)" for g
    using read_commands_keys [OF r] by simp
  then show ?thesis by (auto simp: declared_gates_def for_gate_def map_of_eq_None_iff image_iff)
qed

theorem declared_gates_correct_witness:
  "\<exists>cmds. load_gate_commands (\<lambda>_. []) ''f'' (Some (JObj [(''gates'',
       JObj [(''tests'', JStr ''pytest''), (''build'', JStr [])])])) = Inr cmds
     \<and> set (declared_gates cmds) = {TESTS}"
proof -
  let ?kvs = "[(''tests'', JStr ''pytest''), (''build'', JStr [])]"
  have l: "load_gate_commands (\<lambda>_. []) ''f'' (Some (JObj [(''gates'', JObj ?kvs)])) = Inr [(TESTS, ''pytest'')]"
    by code_simp
  have "{g. \<exists>v. (gate_str g, v) \<in> set ?kvs \<and> truthy v} = {TESTS}"
  proof -
    have "(\<exists>v. (gate_str g, v) \<in> set ?kvs \<and> truthy v) \<longleftrightarrow> g = TESTS" for g by (cases g) simp_all
    then show ?thesis by simp
  qed
  with declared_gates_correct [OF l] l show ?thesis by simp
qed

end
