(* ===== verification/ConfigLayers.thy ===== *)
theory ConfigLayers
  imports Config Commands
begin

text \<open>
  How the configuration is put together (\<open>config.py\<close>): defaults, project files, the user's file, the
  environment. A configuration is Python's attribute dictionary, as the code sets attributes by name
  and with whatever value a file holds. A YAML file is the value it loads to, or \<open>Broken\<close> when it cannot
  be read or parsed; paths are strings.
\<close>

section \<open>Files and the environment\<close>

datatype yaml_file = Doc json | Broken string

type_synonym yamls = "string \<Rightarrow> yaml_file option"

record machine =
  home :: string
  environ :: "string \<Rightarrow> string option"
  yaml_files :: yamls

text \<open>\<open>yaml.safe_load(path.read_text())\<close> where the path is a file.\<close>

definition safe_load :: "yaml_file \<Rightarrow> exn + json" where
  "safe_load f = (case f of Doc v \<Rightarrow> Inr v | Broken why \<Rightarrow> Inl (YAMLError why))"

text \<open>Loading a file where only a mapping counts.\<close>

definition load_mapping :: "yamls \<Rightarrow> string \<Rightarrow> exn + dict" where
  "load_mapping fs path =
     (case fs path of
        None \<Rightarrow> Inr []
      | Some f \<Rightarrow> (case safe_load f of
            Inl e \<Rightarrow> Inl e
          | Inr v \<Rightarrow> Inr (case v of JObj d \<Rightarrow> d | _ \<Rightarrow> [])))"

text \<open>\<open>data.get(section, {})\<close> where only a mapping counts.\<close>

definition sub_mapping :: "string \<Rightarrow> dict \<Rightarrow> dict" where
  "sub_mapping section d = (case map_of d section of Some (JObj e) \<Rightarrow> e | _ \<Rightarrow> [])"

section \<open>Python's \<open>int\<close> of a string\<close>

fun digits_value :: "int \<Rightarrow> string \<Rightarrow> int option" where
  "digits_value n [] = Some n"
| "digits_value n (c # cs) =
     (if is_digit c then digits_value (10 * n + of_char c - 48) cs
      else if c = CHR ''_'' \<and> cs \<noteq> [] \<and> is_digit (hd cs) then digits_value n cs
      else None)"

definition unsigned_value :: "string \<Rightarrow> int option" where
  "unsigned_value s = (if s \<noteq> [] \<and> is_digit (hd s) then digits_value 0 s else None)"

definition py_int :: "string \<Rightarrow> exn + int" where
  "py_int s =
     (let t = strip s;
          v = (if t \<noteq> [] \<and> hd t = CHR ''-'' then map_option uminus (unsigned_value (tl t))
               else if t \<noteq> [] \<and> hd t = CHR ''+'' then unsigned_value (tl t)
               else unsigned_value t)
      in case v of
           Some i \<Rightarrow> Inr i
         | None \<Rightarrow> Inl (ValueError (''invalid literal for int() with base 10: '' @ quoted s)))"

section \<open>The layers\<close>

text \<open>The dataclass's fields with their defaults; the project's root and identifier are set first.\<close>

definition default_attrs :: "string \<Rightarrow> string \<Rightarrow> dict" where
  "default_attrs base pid =
     [(''project_root'', JStr base), (''project_id'', JStr pid), (''autonomy_mode'', JStr ''agentic''),
      (''planning_requires_human'', JBool True), (''max_parallel_tasks'', JInt 4),
      (''max_retries_per_task'', JInt 3), (''max_fallback_attempts'', JInt 2),
      (''max_cost_per_run_usd'', JFloat 10), (''max_tokens_per_run'', JInt 1000000),
      (''state_dir'', JStr ''.atlas-flow''), (''database_file'', JStr ''state.db''),
      (''worktree_base'', JStr []), (''isolate_mutating_tasks'', JBool True),
      (''worktree_strategy'', JStr ''per-task''), (''command_code_timeout_seconds'', JInt 600),
      (''command_code_max_turns'', JInt 50), (''acp_agent_command'', JList []),
      (''provider_credential_refs'', JObj []), (''mcp_enabled'', JBool False), (''mcp_servers'', JList []),
      (''log_level'', JStr ''INFO''), (''redaction_patterns'', JList []),
      (''artifact_retention_days'', JInt 30), (''transcript_retention_days'', JInt 90)]"

text \<open>What else \<open>hasattr\<close> finds on the class: methods, which an attribute may shadow, and properties,
  which cannot be set. (The names of the object protocol, such as \<open>__class__\<close>, are left out.)\<close>

definition class_methods :: "string list" where
  "class_methods = [''load'', ''_find_root'', ''_read_project_id'', ''_load_project_config'', ''_load_user_config'',
     ''_apply_override'', ''_apply_env_overrides'']"

definition class_properties :: "string list" where
  "class_properties = [''state_path'', ''database_path'']"

definition set_attr :: "string \<Rightarrow> json \<Rightarrow> dict \<Rightarrow> exn + dict" where
  "set_attr k v attrs =
     (if k \<in> set class_properties
      then Inl (AttributeError (''property '' @ quoted k @ '' of '' @ quoted ''AtlasFlowConfig'' @ '' object has no setter''))
      else Inr (AList.update k v attrs))"

definition has_attr :: "string \<Rightarrow> dict \<Rightarrow> bool" where
  "has_attr k attrs \<longleftrightarrow> k \<in> fst ` set attrs \<or> k \<in> set class_methods \<or> k \<in> set class_properties"

fun apply_override :: "(string \<times> json) list \<Rightarrow> dict \<Rightarrow> exn + dict" where
  "apply_override [] attrs = Inr attrs"
| "apply_override ((k, v) # rest) attrs =
     (if has_attr k attrs
      then (case set_attr k v attrs of Inl e \<Rightarrow> Inl e | Inr attrs' \<Rightarrow> apply_override rest attrs')
      else apply_override rest attrs)"

definition path_name :: "string \<Rightarrow> string" where
  "path_name p = last (split_on (CHR ''/'') p)"

text \<open>\<open>repr\<close> is Python's text of a float or container, as in \<open>py_str\<close>.\<close>

definition read_project_id :: "(json \<Rightarrow> string) \<Rightarrow> yamls \<Rightarrow> string \<Rightarrow> exn + string" where
  "read_project_id repr fs base =
     (case load_mapping fs (base @ ''/PROJECT_MANIFEST.yaml'') of
        Inl e \<Rightarrow> Inl e
      | Inr data \<Rightarrow>
          (case map_of (sub_mapping ''project'' data) ''id'' of
             Some v \<Rightarrow> if truthy v then Inr (py_str repr v)
                       else Inr (if path_name base \<noteq> [] then path_name base else ''unknown-project'')
           | None \<Rightarrow> Inr (if path_name base \<noteq> [] then path_name base else ''unknown-project'')))"

definition orchestration :: "string \<Rightarrow> string \<Rightarrow> string" where
  "orchestration base name = base @ ''/.ai/orchestration/'' @ name"

text \<open>\<open>{key: data[key] for key in keys if key in data}\<close>.\<close>

definition pick :: "string list \<Rightarrow> dict \<Rightarrow> dict" where
  "pick keys data = List.map_filter (\<lambda>k. map_option (Pair k) (map_of data k)) keys"

definition settings_known :: "string list" where
  "settings_known = [''planning_requires_human'', ''max_parallel_tasks'', ''max_fallback_attempts'',
     ''max_tokens_per_run'', ''max_cost_per_run_usd'', ''mcp_servers'']"

definition load_project_config :: "yamls \<Rightarrow> string \<Rightarrow> exn + dict" where
  "load_project_config fs base =
     (case load_mapping fs (orchestration base ''autonomy-policy.yaml'') of Inl e \<Rightarrow> Inl e | Inr auto \<Rightarrow>
     (case load_mapping fs (orchestration base ''orchestrator.yaml'') of Inl e \<Rightarrow> Inl e | Inr orch \<Rightarrow>
     (case load_mapping fs (orchestration base ''fallbacks.yaml'') of Inl e \<Rightarrow> Inl e | Inr fall \<Rightarrow>
     (case load_mapping fs (orchestration base ''settings.yaml'') of Inl e \<Rightarrow> Inl e | Inr sett \<Rightarrow>
       Inr (
         (case map_of (sub_mapping ''project_policy'' auto) ''current'' of
            None \<Rightarrow> [] | Some v \<Rightarrow> if v = JNull then [] else [(''autonomy_mode'', v)])
         @ pick [''isolate_mutating_tasks'', ''worktree_strategy''] (sub_mapping ''execution'' orch)
         @ (case map_of (sub_mapping ''quality'' fall) ''max_cross_model_attempts'' of
              None \<Rightarrow> [] | Some v \<Rightarrow> [(''max_retries_per_task'', v)])
         @ pick settings_known sett)))))"

definition user_file :: "'z machine_scheme \<Rightarrow> string" where
  "user_file m = home m @ ''/.atlas-flow.yaml''"

definition load_user_config :: "'z machine_scheme \<Rightarrow> exn + dict" where
  "load_user_config m = load_mapping (yaml_files m) (user_file m)"

text \<open>The environment map, with whether the value is converted by \<open>int\<close>.\<close>

definition env_map :: "(string \<times> string \<times> bool) list" where
  "env_map = [(''ATLAS_FLOW_MAX_PARALLEL'', ''max_parallel_tasks'', True),
     (''ATLAS_FLOW_MAX_RETRIES'', ''max_retries_per_task'', True),
     (''ATLAS_FLOW_LOG_LEVEL'', ''log_level'', False), (''ATLAS_FLOW_AUTONOMY'', ''autonomy_mode'', False),
     (''ATLAS_FLOW_STATE_DIR'', ''state_dir'', False)]"

fun apply_env :: "(string \<Rightarrow> string option) \<Rightarrow> (string \<times> string \<times> bool) list \<Rightarrow> dict \<Rightarrow> exn + dict" where
  "apply_env env [] attrs = Inr attrs"
| "apply_env env ((var, attr, to_int) # rest) attrs =
     (case env var of
        None \<Rightarrow> apply_env env rest attrs
      | Some v \<Rightarrow>
          if to_int then (case py_int v of
              Inl e \<Rightarrow> Inl e
            | Inr i \<Rightarrow> apply_env env rest (AList.update attr (JInt i) attrs))
          else apply_env env rest (AList.update attr (JStr v) attrs))"

definition apply_env_overrides :: "(string \<Rightarrow> string option) \<Rightarrow> dict \<Rightarrow> exn + dict" where
  "apply_env_overrides env attrs =
     (case apply_env env env_map attrs of
        Inl e \<Rightarrow> Inl e
      | Inr attrs' \<Rightarrow>
          (case env ''ATLAS_FLOW_ACP_AGENT'' of
             None \<Rightarrow> Inr attrs'
           | Some agent \<Rightarrow> (case shlex_split agent of
                 Inl e \<Rightarrow> Inl e
               | Inr argv \<Rightarrow> Inr (AList.update ''acp_agent_command'' (JList (List.map JStr argv)) attrs'))))"

definition load_config :: "(json \<Rightarrow> string) \<Rightarrow> 'z machine_scheme \<Rightarrow> string \<Rightarrow> exn + dict" where
  "load_config repr m base =
     (case read_project_id repr (yaml_files m) base of Inl e \<Rightarrow> Inl e | Inr pid \<Rightarrow>
     (case load_project_config (yaml_files m) base of Inl e \<Rightarrow> Inl e | Inr project \<Rightarrow>
     (case apply_override project (default_attrs base pid) of Inl e \<Rightarrow> Inl e | Inr a1 \<Rightarrow>
     (case load_user_config m of Inl e \<Rightarrow> Inl e | Inr user \<Rightarrow>
     (case apply_override user a1 of Inl e \<Rightarrow> Inl e | Inr a2 \<Rightarrow>
       apply_env_overrides (environ m) a2)))))"

section \<open>Reading an attribute back\<close>

lemma apply_override_get:
  assumes "apply_override ovs attrs = Inr out" and "distinct (List.map fst ovs)" and "k \<in> fst ` set attrs"
  shows "map_of out k = (case map_of ovs k of Some v \<Rightarrow> Some v | None \<Rightarrow> map_of attrs k) \<and> k \<in> fst ` set out"
  using assms
proof (induction ovs arbitrary: attrs)
  case (Cons ov rest)
  obtain k' v where ov: "ov = (k', v)" by (cases ov)
  have d: "distinct (List.map fst rest)" using Cons.prems(2) by simp
  show ?case
  proof (cases "has_attr k' attrs")
    case True
    with Cons.prems(1) obtain a1 where a1: "set_attr k' v attrs = Inr a1" "apply_override rest a1 = Inr out"
      by (auto simp: ov split: sum.splits)
    have upd: "a1 = AList.update k' v attrs"
      using a1(1) by (simp add: set_attr_def split: if_splits)
    have "k \<in> fst ` set a1"
      using Cons.prems(3) by (simp add: upd dom_update)
    from Cons.IH [OF a1(2) d this] show ?thesis
      using Cons.prems(2) by (auto simp: ov upd update_conv' map_of_eq_None_iff image_iff split: option.splits)
  next
    case False
    with Cons.prems(3) have "k' \<noteq> k" by (auto simp: has_attr_def)
    with False Cons.IH [OF _ d Cons.prems(3)] Cons.prems(1) show ?thesis
      by (simp add: ov)
  qed
qed simp

definition env_value :: "(string \<Rightarrow> string option) \<Rightarrow> (string \<times> string \<times> bool) list \<Rightarrow> string \<Rightarrow> json option" where
  "env_value env l k =
     (case find (\<lambda>(_, a, _). a = k) l of
        None \<Rightarrow> None
      | Some (var, _, to_int) \<Rightarrow> map_option (\<lambda>t. if to_int then JInt (projr (py_int t)) else JStr t) (env var))"

lemma apply_env_get:
  assumes "apply_env env l attrs = Inr out" and "distinct (List.map (\<lambda>(_, a, _). a) l)"
  shows "map_of out k = (case env_value env l k of Some v \<Rightarrow> Some v | None \<Rightarrow> map_of attrs k)"
  using assms
proof (induction env l attrs rule: apply_env.induct)
  case (2 env var attr to_int rest attrs)
  have rest: "env_value env rest attr = None"
  proof -
    have "find (\<lambda>(_, a, _). a = attr) rest = None"
      using "2.prems"(2) by (force simp: find_None_iff)
    then show ?thesis by (simp add: env_value_def)
  qed
  show ?case
  proof (cases "env var")
    case None
    with 2 rest show ?thesis by (auto simp: env_value_def)
  next
    case (Some t)
    show ?thesis
    proof (cases to_int)
      case True
      with Some "2.prems"(1) obtain i where i: "py_int t = Inr i" by (auto split: sum.splits)
      with 2 Some True rest show ?thesis
        by (auto simp: env_value_def update_conv' split: option.split)
    next
      case False
      with 2 Some rest show ?thesis by (auto simp: env_value_def update_conv' split: option.split)
    qed
  qed
qed (simp add: env_value_def)

lemma pick_get: "map_of (pick keys data) k = (if k \<in> set keys then map_of data k else None)"
  by (induction keys) (auto simp: pick_def map_filter_simps split: option.splits)

lemma pick_keys: "fst ` set (pick keys data) \<subseteq> set keys"
  by (auto simp: pick_def map_filter_def)

lemma pick_distinct: "distinct keys \<Longrightarrow> distinct (List.map fst (pick keys data))"
proof (induction keys)
  case (Cons k keys)
  then have "k \<notin> fst ` set (pick keys data)"
    using pick_keys [of keys data] by auto
  with Cons show ?case
    by (simp add: pick_def map_filter_simps split: option.split)
qed (simp add: pick_def map_filter_simps)

end
