(* ===== verification/Decimals.thy ===== *)
theory Decimals
  imports ConfigLayers
begin

text \<open>
  Numbers in decimal: what \<open>str\<close> prints for an integer, \<open>int\<close> reads back. Shared by the plan routes
  and by the documents' review intervals.
\<close>

section \<open>Numbers in decimal\<close>

lemma is_digit_char: "d < 10 \<Longrightarrow> is_digit (char_of (48 + d :: nat))"
  by (simp add: is_digit_def)

lemma nat_str_digits: "list_all is_digit (nat_str n)"
proof (induction n rule: nat_str.induct)
  case (1 n)
  then show ?case
    by (subst nat_str.simps) (auto simp: is_digit_char)
qed

lemma digits_snoc:
  "list_all is_digit s \<Longrightarrow> is_digit c \<Longrightarrow>
     digits_value a (s @ [c]) = map_option (\<lambda>v. 10 * v + of_char c - 48) (digits_value a s)"
  by (induction s arbitrary: a) simp_all

lemma digit_value: "d < 10 \<Longrightarrow> (of_char (char_of (48 + d :: nat)) :: int) = 48 + int d"
proof -
  assume d: "d < 10"
  have "(of_char (char_of (48 + d :: nat)) :: int) = int (of_char (char_of (48 + d :: nat)))"
    by (rule of_nat_of_char [symmetric])
  also have "\<dots> = 48 + int d"
    using d by (simp del: of_nat_of_char)
  finally show ?thesis .
qed

lemma digits_nat_str: "digits_value 0 (nat_str n) = Some (int n)"
proof (induction n rule: nat_str.induct)
  case (1 n)
  show ?case
  proof (cases "n < 10")
    case True
    then show ?thesis
      by (subst nat_str.simps) (simp add: is_digit_char digit_value)
  next
    case False
    have "int n = 10 * int (n div 10) + int (n mod 10)"
      by (metis div_mult_mod_eq mult.commute of_nat_add of_nat_mult of_nat_numeral)
    with 1 False show ?thesis
      by (subst nat_str.simps) (simp add: digits_snoc nat_str_digits is_digit_char digit_value)
  qed
qed

lemma nat_str_inj: "nat_str m = nat_str n \<longleftrightarrow> m = n"
  by (metis digits_nat_str of_nat_eq_iff option.inject)

lemma strip_no_space: "list_all (\<lambda>c. \<not> is_space c) s \<Longrightarrow> strip s = s"
proof -
  have keep: "list_all (\<lambda>c. \<not> is_space c) t \<Longrightarrow> dropWhile is_space t = t" for t
    by (cases t) auto
  show "list_all (\<lambda>c. \<not> is_space c) s \<Longrightarrow> strip s = s"
    by (simp add: strip_def strip_while_def keep list_all_iff)
qed

lemma digit_not_space: "is_digit c \<Longrightarrow> \<not> is_space c"
  by (auto simp: is_digit_def is_space_def)

lemma nat_str_head: "is_digit (hd (nat_str n))"
  using nat_str_digits [of n] by (cases "nat_str n") auto

lemma unsigned_nat_str: "unsigned_value (nat_str n) = Some (int n)"
  by (simp add: unsigned_value_def nat_str_head digits_nat_str)

text \<open>\<open>int\<close> reads back what \<open>str\<close> prints, for every integer.\<close>

theorem int_str_round_trip: "py_int (int_str i) = Inr i"
proof -
  have s: "strip (nat_str n) = nat_str n" "strip (CHR ''-'' # nat_str n) = CHR ''-'' # nat_str n" for n
  proof -
    have "list_all (\<lambda>c. \<not> is_space c) (nat_str n)"
      using nat_str_digits [of n] by (rule list.pred_mono_strong) (rule digit_not_space)
    moreover have "\<not> is_space (CHR ''-'')"
      by (simp add: is_space_def)
    ultimately show "strip (nat_str n) = nat_str n" "strip (CHR ''-'' # nat_str n) = CHR ''-'' # nat_str n"
      by (simp_all add: strip_no_space)
  qed
  have h: "hd (nat_str n) \<noteq> CHR ''-''" "hd (nat_str n) \<noteq> CHR ''+''" for n
    using nat_str_head [of n] by (auto simp: is_digit_def)
  show ?thesis
    by (cases "i < 0") (simp_all add: int_str_def py_int_def s unsigned_nat_str h Let_def)
qed

end
