(* ===== verification/Documents.thy ===== *)
theory Documents
  imports Decimals "HOL-Library.Product_Lexorder"
begin

text \<open>
  The documents of a project (\<open>evolution/documents.py\<close>, with the records of \<open>evolution/models.py\<close>):
  finding them, splitting off their front matter, deriving metadata for the ones that have none, and
  their freshness. A path is the list of its parts below the file system's root. Parsing YAML and
  Pydantic's validation of a mapping are parameters; dates are ordinals, as \<open>date.toordinal\<close> gives them.
\<close>

lemma map_sum_Inr: "map_sum f g x = Inr y \<longleftrightarrow> (\<exists>z. x = Inr z \<and> y = g z)"
  by (cases x) auto

section \<open>Records\<close>

datatype visibility = V_PUBLIC | V_INTERNAL | V_PRIVATE

datatype authority = CANONICAL | DERIVED | INFORMATIVE

datatype doc_source = BY_HUMAN | BY_CODE | GENERATED | EXTERNAL_DOC

datatype doc_risk = RISK_LOW | RISK_MEDIUM | RISK_HIGH | RISK_CRITICAL

datatype doc_status = D_DRAFT | D_ACTIVE | D_REVIEW_NEEDED | D_DEPRECATED | D_ARCHIVED

fun doc_status_str :: "doc_status \<Rightarrow> string" where
  "doc_status_str D_DRAFT = ''draft''"
| "doc_status_str D_ACTIVE = ''active''"
| "doc_status_str D_REVIEW_NEEDED = ''review-needed''"
| "doc_status_str D_DEPRECATED = ''deprecated''"
| "doc_status_str D_ARCHIVED = ''archived''"

record doc_metadata =
  md_schema_version :: int
  md_id :: string
  md_title :: string
  md_status :: doc_status
  md_version :: int
  md_audience :: "string list"
  md_visibility :: visibility
  md_authority :: authority
  md_source :: doc_source
  md_owner :: "string option"
  md_last_reviewed :: "int option"
  md_review_interval :: string
  md_estimated_tokens :: "int option"
  md_risk :: doc_risk
  md_tags :: "string list"
  md_related :: "string list"
  md_invariants :: "string list"
  md_section :: "string option"
  md_category :: "string option"
  md_order :: int

record project_manifest =
  mf_schema_version :: int
  mf_project :: "(string \<times> string) list"
  mf_docs_root :: string
  mf_data_root :: string
  mf_title :: string
  mf_default_visibility :: visibility
  mf_public :: "string list"
  mf_internal :: "string list"
  mf_private :: "string list"
  mf_intelligence :: bool
  mf_dashboard :: bool
  mf_default_budget :: string

definition default_manifest :: "(string \<times> string) list \<Rightarrow> project_manifest" where
  "default_manifest project = \<lparr>mf_schema_version = 2, mf_project = project, mf_docs_root = ''docs'',
     mf_data_root = ''.atlas'', mf_title = ''Project documentation'', mf_default_visibility = V_INTERNAL,
     mf_public = [], mf_internal = [], mf_private = [], mf_intelligence = True, mf_dashboard = True,
     mf_default_budget = ''medium''\<rparr>"

record document =
  doc_path :: "string list"
  doc_relative :: string
  doc_metadata :: doc_metadata
  doc_body :: string
  doc_front_matter :: bool

text \<open>The project's tree: its resolved root, \<open>Path.resolve\<close>, the directories, and the entries a
  recursive listing visits. Reading an entry gives its text, an \<open>OSError\<close> or a decoding error.\<close>

datatype text_file = Text string | Unreadable string | NotUtf8 string

record tree_entry =
  te_path :: "string list"
  te_symlink :: bool
  te_text :: text_file

record tree =
  tr_root :: "string list"
  tr_resolve :: "string list \<Rightarrow> string list"
  tr_dirs :: "string list list"
  tr_entries :: "tree_entry list"

type_synonym yaml_parser = "string \<Rightarrow> exn + json"
type_synonym 'm validator = "dict \<Rightarrow> string + 'm"

definition entry_at :: "'z tree_scheme \<Rightarrow> string list \<Rightarrow> text_file option" where
  "entry_at tr p = map_option te_text (find (\<lambda>e. te_path e = p) (tr_entries tr))"

section \<open>Paths\<close>

text \<open>\<open>Path(s).parts\<close> and \<open>is_absolute\<close>.\<close>

definition is_absolute :: "string \<Rightarrow> bool" where
  "is_absolute s \<longleftrightarrow> starts_with s ''/''"

definition parts_of :: "string \<Rightarrow> string list" where
  "parts_of s = (if is_absolute s then [''/''] else [])
     @ filter (\<lambda>p. p \<noteq> [] \<and> p \<noteq> ''.'') (split_on (CHR ''/'') s)"

definition validate_relative_path :: "string \<Rightarrow> string \<Rightarrow> exn + unit" where
  "validate_relative_path v field =
     (if is_absolute v \<or> ''..'' \<in> set (parts_of v)
      then Inl (DocumentParseError (field @ '' must be a relative path inside the project''))
      else Inr ())"

definition resolve_project_path :: "'z tree_scheme \<Rightarrow> string \<Rightarrow> string \<Rightarrow> exn + string list" where
  "resolve_project_path tr relative field =
     (case validate_relative_path relative field of Inl e \<Rightarrow> Inl e | Inr _ \<Rightarrow>
       let project_root = tr_resolve tr (tr_root tr);
           candidate = tr_resolve tr (project_root @ parts_of relative)
       in if prefix project_root candidate then Inr candidate
          else Inl (DocumentParseError (field @ '' must stay inside the project root'')))"

section \<open>The manifest\<close>

text \<open>\<open>yaml.safe_load(text) or {}\<close>.\<close>

definition or_mapping :: "json \<Rightarrow> json" where
  "or_mapping v = (if truthy v then v else JObj [])"

definition path_text :: "string list \<Rightarrow> string" where
  "path_text p = ''/'' @ join ''/'' p"

definition read_manifest ::
  "yaml_parser \<Rightarrow> project_manifest validator \<Rightarrow> string list \<Rightarrow> text_file \<Rightarrow> exn + project_manifest" where
  "read_manifest yaml valid p f =
     (let invalid = (\<lambda>why. Inl (DocumentParseError (path_text p @ '': invalid manifest: '' @ why)))
      in case f of
        Unreadable why \<Rightarrow> invalid why
      | NotUtf8 why \<Rightarrow> Inl (ValueError why)
      | Text text \<Rightarrow>
          (case yaml text of
             Inl (YAMLError why) \<Rightarrow> invalid why
           | Inl e \<Rightarrow> Inl e
           | Inr v \<Rightarrow>
              (case or_mapping v of
                 JObj raw \<Rightarrow>
                   (case valid raw of
                      Inl why \<Rightarrow> invalid why
                    | Inr m \<Rightarrow>
                        (case validate_relative_path (mf_docs_root m) ''docs_root'' of Inl e \<Rightarrow> Inl e | Inr _ \<Rightarrow>
                        (case validate_relative_path (mf_data_root m) ''data_root'' of Inl e \<Rightarrow> Inl e | Inr _ \<Rightarrow>
                          Inr m)))
               | _ \<Rightarrow> Inl (DocumentParseError (path_text p @ '': manifest must be a YAML mapping'')))))"

definition manifest_candidates :: "'z tree_scheme \<Rightarrow> string list list" where
  "manifest_candidates tr = [tr_root tr @ [''atlas.config.yaml''], tr_root tr @ [''docs'', ''_meta'', ''project.yaml'']]"

fun first_manifest ::
  "yaml_parser \<Rightarrow> project_manifest validator \<Rightarrow> 'z tree_scheme \<Rightarrow> string list list
     \<Rightarrow> exn + (project_manifest \<times> string list option)" where
  "first_manifest yaml valid tr [] =
     Inr (default_manifest [(''name'', if tr_root tr = [] then [] else last (tr_root tr))], None)"
| "first_manifest yaml valid tr (p # ps) =
     (case entry_at tr p of
        None \<Rightarrow> first_manifest yaml valid tr ps
      | Some f \<Rightarrow> map_sum id (\<lambda>m. (m, Some p)) (read_manifest yaml valid p f))"

definition load_manifest ::
  "yaml_parser \<Rightarrow> project_manifest validator \<Rightarrow> 'z tree_scheme \<Rightarrow> exn + (project_manifest \<times> string list option)" where
  "load_manifest yaml valid tr = first_manifest yaml valid tr (manifest_candidates tr)"

section \<open>Front matter\<close>

text \<open>
  The regular expression \<open>\A---\s*\n(header: .*?)\n---\s*\n(body: .*)\Z\<close> with backtracking.
  \<open>after_breaks s\<close> lists what can follow \<open>\s*\n\<close> at the front of \<open>s\<close>, the greediest match first;
  the header is the shortest that some closing marker follows.
\<close>

fun after_breaks :: "string \<Rightarrow> string list" where
  "after_breaks [] = []"
| "after_breaks (c # cs) =
     (if is_space c then after_breaks cs @ (if [c] = newline then [cs] else []) else [])"

definition after_marker :: "string \<Rightarrow> string list" where
  "after_marker s = (if starts_with s ''---'' then after_breaks (drop 3 s) else [])"

fun close_header :: "string \<Rightarrow> (string \<times> string) option" where
  "close_header [] = None"
| "close_header (c # cs) =
     (case (if [c] = newline then after_marker cs else []) of
        body # _ \<Rightarrow> Some ([], body)
      | [] \<Rightarrow> map_option (\<lambda>(h, b). (c # h, b)) (close_header cs))"

definition match_front_matter :: "string \<Rightarrow> (string \<times> string) option" where
  "match_front_matter text =
     (case List.map_filter close_header (after_marker text) of [] \<Rightarrow> None | m # _ \<Rightarrow> Some m)"

definition split_front_matter :: "yaml_parser \<Rightarrow> string \<Rightarrow> exn + (dict option \<times> string)" where
  "split_front_matter yaml text =
     (case match_front_matter text of
        None \<Rightarrow> Inr (None, text)
      | Some (header, body) \<Rightarrow>
          (case yaml header of
             Inl (YAMLError why) \<Rightarrow> Inl (DocumentParseError (''invalid YAML front matter: '' @ why))
           | Inl e \<Rightarrow> Inl e
           | Inr v \<Rightarrow> (case or_mapping v of
                 JObj d \<Rightarrow> Inr (Some d, body)
               | _ \<Rightarrow> Inl (DocumentParseError ''front matter must be a YAML mapping''))))"

section \<open>Derived metadata\<close>

text \<open>\<open>len(s)\<close> counts code points: the bytes that do not continue one.\<close>

definition char_count :: "string \<Rightarrow> nat" where
  "char_count s = length (filter (\<lambda>c. \<not> (128 \<le> (of_char c :: nat) \<and> (of_char c :: nat) < 192)) s)"

definition estimate_tokens :: "string \<Rightarrow> int" where
  "estimate_tokens text = max 1 ((int (char_count text) + 3) div 4)"

definition is_letter :: "char \<Rightarrow> bool" where
  "is_letter c \<longleftrightarrow> is_alnum c \<and> \<not> is_digit c"

fun title_case :: "bool \<Rightarrow> string \<Rightarrow> string" where
  "title_case inside [] = []"
| "title_case inside (c # cs) = (if inside then lower_char c else upper_char c) # title_case (is_letter c) cs"

text \<open>\<open>path.stem\<close>: a leading dot does not start a suffix.\<close>

definition path_stem :: "string list \<Rightarrow> string" where
  "path_stem p =
     (let name = (if p = [] then [] else last p);
          suffix = takeWhile (\<lambda>c. c \<noteq> CHR ''.'') (rev name)
      in if length suffix + 1 < length name \<and> suffix \<noteq> [] then take (length name - length suffix - 1) name else name)"

definition spaced :: "string \<Rightarrow> string" where
  "spaced = List.map (\<lambda>c. if c = CHR ''_'' \<or> c = CHR ''-'' then CHR '' '' else c)"

definition title_from_body :: "string \<Rightarrow> string list \<Rightarrow> string" where
  "title_from_body body p =
     (case find (\<lambda>l. starts_with l ''# '') (splitlines body) of
        Some l \<Rightarrow> strip (drop 2 l)
      | None \<Rightarrow> title_case False (strip (spaced (path_stem p))))"

fun collapse :: "bool \<Rightarrow> string \<Rightarrow> string" where
  "collapse inside [] = []"
| "collapse inside (c # cs) =
     (if is_alnum c then c # collapse False cs
      else (if inside then [] else [CHR ''-'']) @ collapse True cs)"

definition remove_suffix :: "string \<Rightarrow> string \<Rightarrow> string" where
  "remove_suffix s t = (if ends_with s t then take (length s - length t) s else s)"

definition document_id :: "string \<Rightarrow> string" where
  "document_id relative =
     ''DOC-'' @ upper (strip_while (\<lambda>c. c = CHR ''-'') (collapse False (remove_suffix relative ''.md'')))"

definition section_of :: "string \<Rightarrow> string" where
  "section_of relative = (case parts_of relative of [] \<Rightarrow> ''root'' | p # _ \<Rightarrow> p)"

definition legacy_visibility :: "string \<Rightarrow> project_manifest \<Rightarrow> visibility" where
  "legacy_visibility relative m =
     (let s = section_of relative in
      if s \<in> set (mf_public m) then V_PUBLIC
      else if s \<in> set (mf_private m) then V_PRIVATE
      else if s \<in> set (mf_internal m) then V_INTERNAL
      else mf_default_visibility m)"

text \<open>The constructor of the metadata in the legacy branch; identifier and title must not be empty.\<close>

definition legacy_metadata :: "string \<Rightarrow> string \<Rightarrow> string \<Rightarrow> string list \<Rightarrow> project_manifest \<Rightarrow> exn + doc_metadata" where
  "legacy_metadata relative section body p m =
     (let title = title_from_body body p in
      if title = [] \<or> document_id relative = []
      then Inl (ValidationError ''String should have at least 1 character'')
      else Inr \<lparr>md_schema_version = 1, md_id = document_id relative, md_title = title, md_status = D_ACTIVE,
        md_version = 1, md_audience = [], md_visibility = legacy_visibility relative m,
        md_authority = CANONICAL, md_source = BY_HUMAN, md_owner = None, md_last_reviewed = None,
        md_review_interval = ''180d'', md_estimated_tokens = Some (estimate_tokens body),
        md_risk = RISK_LOW, md_tags = [], md_related = [], md_invariants = [],
        md_section = Some section, md_category = None, md_order = 0\<rparr>)"

definition set_default :: "string \<Rightarrow> json \<Rightarrow> dict \<Rightarrow> dict" where
  "set_default k v d = (case map_of d k of Some _ \<Rightarrow> d | None \<Rightarrow> d @ [(k, v)])"

section \<open>Documents\<close>

definition relative_to_root :: "'z tree_scheme \<Rightarrow> string list \<Rightarrow> exn + string" where
  "relative_to_root tr p =
     (if prefix (tr_root tr) p then Inr (join ''/'' (drop (length (tr_root tr)) p))
      else Inl (ValueError (path_text p @ '' is not in the subpath of '' @ path_text (tr_root tr))))"

definition parse_document ::
  "yaml_parser \<Rightarrow> doc_metadata validator \<Rightarrow> 'z tree_scheme \<Rightarrow> project_manifest \<Rightarrow> string list \<Rightarrow> text_file
     \<Rightarrow> exn + document" where
  "parse_document yaml valid tr m p f =
     (case f of
        Unreadable why \<Rightarrow> Inl (DocumentParseError (path_text p @ '': cannot read document: '' @ why))
      | NotUtf8 why \<Rightarrow> Inl (DocumentParseError (path_text p @ '': cannot read document: '' @ why))
      | Text text \<Rightarrow>
         (case relative_to_root tr p of Inl e \<Rightarrow> Inl e | Inr relative \<Rightarrow>
         (case split_front_matter yaml text of Inl e \<Rightarrow> Inl e | Inr (raw, body) \<Rightarrow>
           let section = section_of relative;
               made = (\<lambda>md fm. \<lparr>doc_path = p, doc_relative = relative, doc_metadata = md, doc_body = body,
                          doc_front_matter = fm\<rparr>)
           in case raw of
                None \<Rightarrow> map_sum id (\<lambda>md. made md False) (legacy_metadata relative section body p m)
              | Some d \<Rightarrow>
                  (let d1 = set_default ''title'' (JStr (title_from_body body p)) d;
                       d2 = set_default ''id'' (JStr (document_id relative)) d1;
                       d3 = set_default ''section'' (JStr section) d2;
                       d4 = set_default ''estimated_tokens'' (JInt (estimate_tokens body)) d3
                   in case valid d4 of
                        Inl why \<Rightarrow> Inl (DocumentParseError (path_text p @ '': invalid document metadata: '' @ why))
                      | Inr md \<Rightarrow> Inr (made md True)))))"

definition SKIPPED_PARTS :: "string list" where
  "SKIPPED_PARTS = [''node_modules'', ''build'', ''dist'']"

definition markdown_under :: "string list \<Rightarrow> 'z tree_scheme \<Rightarrow> tree_entry list" where
  "markdown_under base tr = filter (\<lambda>e. prefix base (te_path e) \<and> te_path e \<noteq> base
     \<and> ends_with (last (te_path e)) ''.md'') (tr_entries tr)"

definition skipped_entry :: "tree_entry \<Rightarrow> bool" where
  "skipped_entry e \<longleftrightarrow> te_symlink e \<or> list_ex (\<lambda>part. part \<in> set SKIPPED_PARTS) (te_path e)"

fun parse_all ::
  "yaml_parser \<Rightarrow> doc_metadata validator \<Rightarrow> 'z tree_scheme \<Rightarrow> project_manifest \<Rightarrow> tree_entry list
     \<Rightarrow> exn + document list" where
  "parse_all yaml valid tr m [] = Inr []"
| "parse_all yaml valid tr m (e # es) =
     (if skipped_entry e then parse_all yaml valid tr m es
      else (case parse_document yaml valid tr m (te_path e) (te_text e) of
          Inl x \<Rightarrow> Inl x
        | Inr d \<Rightarrow> map_sum id (Cons d) (parse_all yaml valid tr m es)))"

definition discover_documents ::
  "yaml_parser \<Rightarrow> doc_metadata validator \<Rightarrow> 'z tree_scheme \<Rightarrow> project_manifest \<Rightarrow> exn + document list" where
  "discover_documents yaml valid tr m =
     (case resolve_project_path tr (mf_docs_root m) ''docs_root'' of
        Inl e \<Rightarrow> Inl e
      | Inr docs_root \<Rightarrow>
          if docs_root \<notin> set (tr_dirs tr) then Inr []
          else parse_all yaml valid tr m (sort_key te_path (markdown_under docs_root tr)))"

section \<open>Freshness\<close>

text \<open>Days of \<open><number> <d, w or m>\<close>. \<open>int\<close> refuses more than 4300 digits, \<open>timedelta\<close> more than
  999999999 days, and a date ends with the year 9999.\<close>

definition MAX_ORDINAL :: int where
  "MAX_ORDINAL = 3652059"

definition parse_review_interval :: "string \<Rightarrow> exn + int" where
  "parse_review_interval v =
     (let s = strip v;
          digits = takeWhile is_digit s;
          unit = dropWhile is_space (dropWhile is_digit s);
          bad = Inl (ValueError (''invalid review interval '' @ quoted v @ '', expected e.g. 180d''))
      in if digits = [] \<or> length unit \<noteq> 1 \<or> lower unit \<notin> {''d'', ''w'', ''m''} then bad
         else if length digits > 4300 then Inl (ValueError ''Exceeds the limit for integer string conversion'')
         else let amount = the (unsigned_value digits);
                  days = (if lower unit = ''d'' then amount else amount * (if lower unit = ''w'' then 7 else 30))
              in if days > 999999999 then Inl (OverflowError ''days'') else Inr days)"

definition freshness_of :: "doc_metadata \<Rightarrow> int \<Rightarrow> exn + string" where
  "freshness_of md today =
     (if md_status md = D_DEPRECATED \<or> md_status md = D_ARCHIVED then Inr (upper (doc_status_str (md_status md)))
      else case md_last_reviewed md of
        None \<Rightarrow> Inr ''ACTIVE''
      | Some reviewed \<Rightarrow>
          (case parse_review_interval (md_review_interval md) of
             Inl (ValueError _) \<Rightarrow> Inr ''NEEDS REVIEW''
           | Inl e \<Rightarrow> Inl e
           | Inr days \<Rightarrow>
               if reviewed + days > MAX_ORDINAL then Inl (OverflowError ''date value out of range'')
               else Inr (if today > reviewed + days then ''NEEDS REVIEW'' else ''ACTIVE'')))"

section \<open>Front matter comes back\<close>

lemma after_breaks_no_space: "s = [] \<or> \<not> is_space (hd s) \<Longrightarrow> after_breaks s = []"
  by (cases s) auto

lemma newline_space [simp]: "is_space (CHR 0x0A)"
  by (simp add: is_space_def)

lemma after_marker_text:
  "s = [] \<or> \<not> is_space (hd s) \<Longrightarrow> after_marker (''---'' @ newline @ s) = [s]"
  by (simp add: after_marker_def starts_with_def newline_def after_breaks_no_space)

lemma marker_line:
  "starts_with (s @ CHR 0x0A # r) ''---'' \<Longrightarrow> starts_with (hd (split_on (CHR 0x0A) s)) ''---''"
proof -
  assume "starts_with (s @ CHR 0x0A # r) ''---''"
  then obtain t where "s = CHR ''-'' # CHR ''-'' # CHR ''-'' # t"
    by (cases s; cases "tl s"; cases "tl (tl s)") (auto simp: starts_with_def)
  then show ?thesis
    by (auto simp: starts_with_def split: list.split)
qed

lemma close_header_lines:
  assumes "\<And>l. l \<in> set (tl (split_on (CHR 0x0A) h)) \<Longrightarrow> \<not> starts_with l ''---''"
    and "b = [] \<or> \<not> is_space (hd b)"
  shows "close_header (h @ newline @ ''---'' @ newline @ b) = Some (h, b)"
  using assms(1)
proof (induction h)
  case Nil
  then show ?case
    using after_marker_text [OF assms(2)] by (simp add: newline_def)
next
  case (Cons c h)
  obtain l ls where l: "split_on (CHR 0x0A) h = l # ls" by (cases "split_on (CHR 0x0A) h") simp_all
  have ih: "close_header (h @ newline @ ''---'' @ newline @ b) = Some (h, b)"
    using Cons.IH Cons.prems l by (cases "c = CHR 0x0A") auto
  show ?case
  proof (cases "c = CHR 0x0A")
    case True
    with Cons.prems l have "\<not> starts_with (hd (split_on (CHR 0x0A) h)) ''---''" by simp
    then have "after_marker (h @ newline @ ''---'' @ newline @ b) = []"
      using marker_line [of h "''---'' @ newline @ b"] by (auto simp: after_marker_def newline_def)
    with ih show ?thesis by simp
  next
    case False
    with ih show ?thesis by (simp add: newline_def)
  qed
qed

text \<open>C27. A document written as front matter and body is split back into exactly the two, when no line of
  the header starts with three dashes and neither header nor body starts with white space; and a text
  that does not start with the marker is all body.\<close>

theorem front_matter_round_trip:
  assumes "\<And>l. l \<in> set (split_on (CHR 0x0A) h) \<Longrightarrow> \<not> starts_with l ''---''"
    and "h \<noteq> []" and "\<not> is_space (hd h)" and "b = [] \<or> \<not> is_space (hd b)"
    and "yaml h = Inr (JObj d)"
  shows "split_front_matter yaml (''---'' @ newline @ h @ newline @ ''---'' @ newline @ b) = Inr (Some d, b)
    \<and> (\<forall>t. \<not> starts_with t ''---'' \<longrightarrow> split_front_matter yaml t = Inr (None, t))"
proof -
  have "close_header (h @ newline @ ''---'' @ newline @ b) = Some (h, b)"
    by (rule close_header_lines [OF _ assms(4)]) (use assms(1) in \<open>auto dest: list.set_sel(2) [rotated]\<close>)
  moreover have "after_marker (''---'' @ newline @ (h @ newline @ ''---'' @ newline @ b))
      = [h @ newline @ ''---'' @ newline @ b]"
    using assms(2,3) by (intro after_marker_text) simp
  ultimately have "match_front_matter (''---'' @ newline @ h @ newline @ ''---'' @ newline @ b) = Some (h, b)"
    by (simp add: match_front_matter_def map_filter_simps)
  then show ?thesis
    using assms(5)
    by (auto simp: split_front_matter_def or_mapping_def match_front_matter_def after_marker_def map_filter_simps)
qed

theorem front_matter_round_trip_witness:
  "split_front_matter (\<lambda>_. Inr (JObj [(''id'', JStr ''D'')]))
     (''---'' @ newline @ ''id: D'' @ newline @ ''---'' @ newline @ ''# Title'')
   = Inr (Some [(''id'', JStr ''D'')], ''# Title'')"
  using front_matter_round_trip [of "''id: D''" "''# Title''" "\<lambda>_. Inr (JObj [(''id'', JStr ''D'')])"
      "[(''id'', JStr ''D'')]"]
  by (simp add: starts_with_def is_space_def)

section \<open>Identifiers, sections and discovery\<close>

text \<open>Two files whose names differ in punctuation derive the same identifier.\<close>

lemma document_ids_collide: "document_id ''docs/a-b.md'' = document_id ''docs/a_b.md''"
  by code_simp

text \<open>The sections of the publishing policy are compared with the first part of the path from the project's
  root, which for a document under \<open>docs\<close> is always \<open>docs\<close>.\<close>

lemma section_under_docs: "section_of (''docs/'' @ rest) = ''docs''"
proof -
  have "split_on (CHR ''/'') (''docs/'' @ rest) = ''docs'' # split_on (CHR ''/'') rest"
    using split_on_append_sep [of "CHR ''/''" "''docs''" rest] by simp
  then show ?thesis
    by (simp add: section_of_def parts_of_def is_absolute_def starts_with_def)
qed

lemma publishing_sections_ignored:
  "''docs'' \<notin> set (mf_public m) \<union> set (mf_private m) \<union> set (mf_internal m)
     \<Longrightarrow> legacy_visibility (''docs/'' @ rest) m = mf_default_visibility m"
  by (simp only: legacy_visibility_def section_under_docs Let_def) simp

text \<open>A project kept in a directory called \<open>build\<close> has no documents.\<close>

lemma parse_all_skips: "(\<And>e. e \<in> set es \<Longrightarrow> skipped_entry e) \<Longrightarrow> parse_all yaml valid tr m es = Inr []"
  by (induction es) simp_all

lemma discovery_blind_under_build:
  assumes "tr_resolve tr (tr_root tr) = tr_root tr" and "part \<in> set SKIPPED_PARTS" and "part \<in> set (tr_root tr)"
    and "discover_documents yaml valid tr m = Inr docs"
  shows "docs = []"
proof -
  have "skipped_entry e" if "prefix (tr_root tr) (te_path e)" for e
    using that assms(2,3) by (auto simp: skipped_entry_def list_ex_iff dest: set_mono_prefix)
  moreover have "prefix (tr_root tr) (te_path e)"
    if "resolve_project_path tr (mf_docs_root m) ''docs_root'' = Inr base" "e \<in> set (markdown_under base tr)" for base e
  proof -
    have "prefix (tr_root tr) base"
      using that(1) assms(1) by (auto simp: resolve_project_path_def Let_def split: sum.splits if_splits)
    with that(2) show ?thesis by (auto simp: markdown_under_def)
  qed
  ultimately have "parse_all yaml valid tr m (sort_key te_path (markdown_under base tr)) = Inr []"
    if "resolve_project_path tr (mf_docs_root m) ''docs_root'' = Inr base" for base
    using that by (intro parse_all_skips) simp
  then show ?thesis
    using assms(4) by (auto simp: discover_documents_def split: sum.splits if_splits)
qed

text \<open>A blank heading makes an empty title, which Pydantic refuses outside of any handler.\<close>

lemma blank_heading_escapes:
  "legacy_metadata ''docs/a.md'' ''docs'' ''#  '' [''docs'', ''a.md''] (default_manifest [])
     = Inl (ValidationError ''String should have at least 1 character'')"
  by code_simp

section \<open>When a review is due\<close>

lemma digits_prefix:
  "list_all is_digit s \<Longrightarrow> \<not> is_digit c \<Longrightarrow> takeWhile is_digit (s @ [c]) = s \<and> dropWhile is_digit (s @ [c]) = [c]"
  by (induction s) simp_all

definition unit_days :: "char \<Rightarrow> int" where
  "unit_days c = (if c = CHR ''w'' then 7 else if c = CHR ''m'' then 30 else 1)"

lemma parse_interval_printed:
  assumes "c \<in> {CHR ''d'', CHR ''w'', CHR ''m''}" and "length (nat_str n) \<le> 4300"
  shows "parse_review_interval (nat_str n @ [c])
    = (if int n * unit_days c > 999999999 then Inl (OverflowError ''days'') else Inr (int n * unit_days c))"
proof -
  have c: "\<not> is_space c" "\<not> is_digit c" "lower [c] = [c]"
    using assms(1) by (auto simp: is_space_def is_digit_def lower_def lower_char_def)
  have "list_all (\<lambda>c. \<not> is_space c) (nat_str n @ [c])"
    using nat_str_digits [of n] c(1) by (auto simp: list_all_iff dest: digit_not_space)
  then have s: "strip (nat_str n @ [c]) = nat_str n @ [c]" by (rule strip_no_space)
  note d = digits_prefix [OF nat_str_digits c(2)]
  show ?thesis
    using assms c by (auto simp: parse_review_interval_def s d unsigned_nat_str unit_days_def Let_def)
qed

lemma freshness_today: "freshness_of md today = Inl e \<Longrightarrow> freshness_of md today' = Inl e"
  by (auto simp: freshness_of_def split: if_splits option.splits sum.splits exn.splits)

text \<open>A live document reviewed on a day with an interval of \<open>n\<close> days, weeks or months is active up to
  and including that many days (of 7 or 30) later and needs review from the next day on, for ever; when
  that day is past the year 9999 the answer is an overflow, whatever the day. Without a review date it
  is active, and an interval that does not parse needs review.\<close>

theorem review_due:
  assumes "md_status md \<notin> {D_DEPRECATED, D_ARCHIVED}" and "md_last_reviewed md = Some r" and "0 < r"
    and "md_review_interval md = nat_str n @ [c]" and "c \<in> {CHR ''d'', CHR ''w'', CHR ''m''}"
    and "length (nat_str n) \<le> 4300"
  shows "(if r + int n * unit_days c \<le> MAX_ORDINAL
          then freshness_of md today = Inr (if today \<le> r + int n * unit_days c then ''ACTIVE'' else ''NEEDS REVIEW'')
          else \<exists>why. freshness_of md today = Inl (OverflowError why))
    \<and> freshness_of (md\<lparr>md_last_reviewed := None\<rparr>) today = Inr ''ACTIVE''
    \<and> (\<forall>v. parse_review_interval v = Inl (ValueError why) \<longrightarrow>
          freshness_of (md\<lparr>md_review_interval := v\<rparr>) today = Inr ''NEEDS REVIEW'')"
proof (intro conjI)
  show "if r + int n * unit_days c \<le> MAX_ORDINAL
        then freshness_of md today = Inr (if today \<le> r + int n * unit_days c then ''ACTIVE'' else ''NEEDS REVIEW'')
        else \<exists>why. freshness_of md today = Inl (OverflowError why)"
    using assms(1-4) by (auto simp: freshness_of_def parse_interval_printed [OF assms(5,6)] MAX_ORDINAL_def)
qed (use assms(1,2) in \<open>auto simp: freshness_of_def\<close>)

definition sample_metadata :: "string \<Rightarrow> visibility \<Rightarrow> doc_metadata" where
  "sample_metadata i v = \<lparr>md_schema_version = 1, md_id = i, md_title = i, md_status = D_ACTIVE,
     md_version = 1, md_audience = [], md_visibility = v, md_authority = CANONICAL, md_source = BY_HUMAN,
     md_owner = None, md_last_reviewed = Some 738000, md_review_interval = ''2w'',
     md_estimated_tokens = Some 100, md_risk = RISK_LOW, md_tags = [], md_related = [],
     md_invariants = [], md_section = Some ''docs'', md_category = None, md_order = 0\<rparr>"

theorem review_due_witness:
  "freshness_of (sample_metadata ''D'' V_PUBLIC) 738014 = Inr ''ACTIVE''
     \<and> freshness_of (sample_metadata ''D'' V_PUBLIC) 738015 = Inr ''NEEDS REVIEW''"
proof -
  have "nat_str 2 = ''2''" by code_simp
  then show ?thesis
    using review_due [of "sample_metadata ''D'' V_PUBLIC" 738000 2 "CHR ''w''" 738014]
      review_due [of "sample_metadata ''D'' V_PUBLIC" 738000 2 "CHR ''w''" 738015]
    by (simp add: sample_metadata_def unit_days_def MAX_ORDINAL_def)
qed

definition sample_tree :: "(string \<times> string) list \<Rightarrow> tree" where
  "sample_tree files = \<lparr>tr_root = [''p''], tr_resolve = (\<lambda>p. p),
     tr_dirs = [[''p''], [''p'', ''docs'']],
     tr_entries = List.map (\<lambda>(n, t). \<lparr>te_path = [''p'', ''docs'', n], te_symlink = False, te_text = Text t\<rparr>) files\<rparr>"

definition no_yaml :: yaml_parser where
  "no_yaml text = Inl (YAMLError ''unreadable'')"

end
