(* ===== verification/DocRegistry.thy ===== *)
theory DocRegistry
  imports Documents
begin

text \<open>
  The registry of documents and the knowledge graph derived from their metadata
  (\<open>evolution/registry.py\<close>). Both are pure functions of the documents; writing them out is the list of
  files written, in order.
\<close>

section \<open>Records\<close>

record registry_entry =
  re_id :: string
  re_path :: string
  re_title :: string
  re_section :: string
  re_category :: "string option"
  re_visibility :: visibility
  re_authority :: authority
  re_status :: doc_status
  re_tokens :: int
  re_tags :: "string list"

record graph_node =
  gn_id :: string
  gn_type :: string
  gn_path :: "string option"
  gn_title :: "string option"
  gn_visibility :: "visibility option"

record graph_edge =
  ge_source :: string
  ge_relation :: string
  ge_target :: string

record knowledge_graph =
  kg_nodes :: "graph_node list"
  kg_edges :: "graph_edge list"

section \<open>The registry\<close>

definition or_root :: "string option \<Rightarrow> string" where
  "or_root s = (case s of None \<Rightarrow> ''root'' | Some t \<Rightarrow> if t = [] then ''root'' else t)"

definition entry_of :: "document \<Rightarrow> registry_entry" where
  "entry_of d = (let md = doc_metadata d in
     \<lparr>re_id = md_id md, re_path = doc_relative d, re_title = md_title md,
      re_section = or_root (md_section md), re_category = md_category md,
      re_visibility = md_visibility md, re_authority = md_authority md, re_status = md_status md,
      re_tokens = (case md_estimated_tokens md of None \<Rightarrow> 0 | Some n \<Rightarrow> n), re_tags = md_tags md\<rparr>)"

definition entry_key :: "registry_entry \<Rightarrow> string \<times> string" where
  "entry_key e = (re_path e, re_id e)"

definition build_registry :: "document list \<Rightarrow> registry_entry list" where
  "build_registry docs = sort_key entry_key (List.map entry_of docs)"

definition registry_lookup :: "registry_entry list \<Rightarrow> string \<Rightarrow> registry_entry option" where
  "registry_lookup es = fold (\<lambda>e m. m(re_id e \<mapsto> e, re_path e \<mapsto> e)) es Map.empty"

definition reverse_path_index :: "registry_entry list \<Rightarrow> string \<Rightarrow> string option" where
  "reverse_path_index es = fold (\<lambda>e m. m(join ''/'' (parts_of (re_path e)) \<mapsto> re_id e)) es Map.empty"

section \<open>The graph\<close>

definition node_of :: "document \<Rightarrow> graph_node" where
  "node_of d = \<lparr>gn_id = md_id (doc_metadata d), gn_type = ''document'', gn_path = Some (doc_relative d),
     gn_title = Some (md_title (doc_metadata d)), gn_visibility = Some (md_visibility (doc_metadata d))\<rparr>"

definition reference_node :: "string \<Rightarrow> graph_node" where
  "reference_node i = \<lparr>gn_id = i, gn_type = ''reference'', gn_path = None, gn_title = None, gn_visibility = None\<rparr>"

definition edges_of :: "document \<Rightarrow> graph_edge list" where
  "edges_of d = (let md = doc_metadata d in
     List.map (\<lambda>t. \<lparr>ge_source = md_id md, ge_relation = ''related_to'', ge_target = t\<rparr>) (md_related md)
     @ List.map (\<lambda>t. \<lparr>ge_source = md_id md, ge_relation = ''governed_by'', ge_target = t\<rparr>) (md_invariants md))"

definition edge_key :: "graph_edge \<Rightarrow> string \<times> string \<times> string" where
  "edge_key e = (ge_source e, ge_relation e, ge_target e)"

text \<open>\<open>list(dict.fromkeys(xs))\<close>: the first occurrence of each.\<close>

definition dedup :: "'a list \<Rightarrow> 'a list" where
  "dedup xs = rev (remdups (rev xs))"

definition unique_edges :: "document list \<Rightarrow> graph_edge list" where
  "unique_edges docs = sort_key edge_key (dedup (concat (List.map edges_of docs)))"

definition dangling :: "document list \<Rightarrow> string list" where
  "dangling docs = sort (remdups (filter (\<lambda>t. t \<notin> set (List.map (gn_id \<circ> node_of) docs))
     (List.map ge_target (unique_edges docs))))"

text \<open>An edge with an empty end is refused by its model; the identifiers of documents are not empty.\<close>

definition build_graph :: "document list \<Rightarrow> exn + knowledge_graph" where
  "build_graph docs =
     (if list_ex (\<lambda>d. list_ex (\<lambda>e. ge_target e = []) (edges_of d)) docs
      then Inl (ValidationError ''String should have at least 1 character'')
      else Inr \<lparr>kg_nodes = sort_key gn_id (List.map node_of docs @ List.map reference_node (dangling docs)),
                kg_edges = unique_edges docs\<rparr>)"

definition graph_neighbors :: "knowledge_graph \<Rightarrow> string \<Rightarrow> string set" where
  "graph_neighbors g i = set (List.map_filter (\<lambda>e. if ge_source e = i then Some (ge_target e)
     else if ge_target e = i then Some (ge_source e) else None) (kg_edges g))"

section \<open>The projections of a project\<close>

definition load_project_index ::
  "yaml_parser \<Rightarrow> project_manifest validator \<Rightarrow> doc_metadata validator \<Rightarrow> 'z tree_scheme
     \<Rightarrow> exn + (project_manifest \<times> document list \<times> registry_entry list \<times> knowledge_graph)" where
  "load_project_index yaml vman vdoc tr =
     (case load_manifest yaml vman tr of Inl e \<Rightarrow> Inl e | Inr (m, _) \<Rightarrow>
     (case discover_documents yaml vdoc tr m of Inl e \<Rightarrow> Inl e | Inr docs \<Rightarrow>
     (case build_graph docs of Inl e \<Rightarrow> Inl e | Inr g \<Rightarrow>
       Inr (m, docs, build_registry docs, g))))"

text \<open>\<open>write_project_index\<close>: the two files with what they hold; \<open>dump\<close> is the JSON text of each.\<close>

definition write_project_index ::
  "(registry_entry list \<Rightarrow> string) \<Rightarrow> (knowledge_graph \<Rightarrow> string) \<Rightarrow> yaml_parser
     \<Rightarrow> project_manifest validator \<Rightarrow> doc_metadata validator \<Rightarrow> 'z tree_scheme
     \<Rightarrow> exn + (string list \<times> string) list" where
  "write_project_index dump_reg dump_graph yaml vman vdoc tr =
     (case load_project_index yaml vman vdoc tr of Inl e \<Rightarrow> Inl e | Inr (m, _, reg, g) \<Rightarrow>
     (case resolve_project_path tr (mf_data_root m) ''data_root'' of Inl e \<Rightarrow> Inl e | Inr out \<Rightarrow>
       Inr [(out @ [''index'', ''registry.json''], dump_reg reg @ newline),
            (out @ [''index'', ''graph.json''], dump_graph g @ newline)]))"

section \<open>Facts\<close>

lemma set_dedup [simp]: "set (dedup xs) = set xs"
  by (simp add: dedup_def)

lemma distinct_dedup [simp]: "distinct (dedup xs)"
  by (simp add: dedup_def)

lemma edge_key_inj: "edge_key a = edge_key b \<longleftrightarrow> a = (b :: graph_edge)"
  by (cases a; cases b) (simp add: edge_key_def)

lemma distinct_sort_key [simp]: "distinct (sort_key f xs) \<longleftrightarrow> distinct xs"
  by (metis card_distinct distinct_card length_sort set_sort)

lemma unique_edges_facts:
  "distinct (unique_edges docs)" "sorted (List.map edge_key (unique_edges docs))"
  "set (unique_edges docs) = (\<Union>d \<in> set docs. set (edges_of d))"
  by (simp_all add: unique_edges_def)

lemma set_dangling:
  "set (dangling docs) = ge_target ` (\<Union>d \<in> set docs. set (edges_of d)) - md_id ` doc_metadata ` set docs"
  by (auto simp: dangling_def unique_edges_facts node_of_def)

lemma edges_of_iff:
  "e \<in> set (edges_of d) \<longleftrightarrow> ge_source e = md_id (doc_metadata d)
     \<and> (ge_relation e = ''related_to'' \<and> ge_target e \<in> set (md_related (doc_metadata d))
        \<or> ge_relation e = ''governed_by'' \<and> ge_target e \<in> set (md_invariants (doc_metadata d)))"
  by (cases e) (auto simp: edges_of_def Let_def)

text \<open>The graph is closed and canonical: its edges are exactly the relations the metadata declare, each
  once and in order; both ends of every edge are nodes; the nodes are in order, one per document plus
  one reference node for each target no document declares. It is refused exactly when some declared
  target is blank.\<close>

theorem graph_closed:
  "case build_graph docs of
     Inl e \<Rightarrow> \<exists>d \<in> set docs. [] \<in> set (md_related (doc_metadata d)) \<union> set (md_invariants (doc_metadata d))
   | Inr g \<Rightarrow>
       (\<forall>s r t. (\<exists>e \<in> set (kg_edges g). edge_key e = (s, r, t)) =
          (\<exists>d \<in> set docs. s = md_id (doc_metadata d)
             \<and> (r = ''related_to'' \<and> t \<in> set (md_related (doc_metadata d))
                \<or> r = ''governed_by'' \<and> t \<in> set (md_invariants (doc_metadata d)))))
     \<and> distinct (kg_edges g) \<and> sorted (List.map edge_key (kg_edges g))
     \<and> (\<forall>e \<in> set (kg_edges g). {ge_source e, ge_target e} \<subseteq> gn_id ` set (kg_nodes g))
     \<and> sorted (List.map gn_id (kg_nodes g))
     \<and> mset (kg_nodes g) = mset (List.map node_of docs) + mset (List.map reference_node (dangling docs))
     \<and> (\<forall>i. reference_node i \<in> set (kg_nodes g) \<longrightarrow> i \<notin> md_id ` doc_metadata ` set docs)
     \<and> (\<forall>e \<in> set (kg_edges g). ge_target e \<noteq> [])"
proof (cases "build_graph docs")
  case (Inl e)
  then obtain d t where "d \<in> set docs" "t \<in> set (edges_of d)" "ge_target t = []"
    by (auto simp: build_graph_def list_ex_iff split: if_splits)
  with Inl show ?thesis by (auto simp: edges_of_iff)
next
  case (Inr g)
  then have g: "kg_edges g = unique_edges docs"
    "kg_nodes g = sort_key gn_id (List.map node_of docs @ List.map reference_node (dangling docs))"
    by (auto simp: build_graph_def split: if_splits)
  have ids: "gn_id ` set (kg_nodes g) = md_id ` doc_metadata ` set docs \<union> set (dangling docs)"
    by (auto simp: g node_of_def reference_node_def image_Un image_image)
  have edges: "(\<exists>e \<in> set (kg_edges g). edge_key e = (s, r, t)) =
          (\<exists>d \<in> set docs. s = md_id (doc_metadata d)
             \<and> (r = ''related_to'' \<and> t \<in> set (md_related (doc_metadata d))
                \<or> r = ''governed_by'' \<and> t \<in> set (md_invariants (doc_metadata d))))" for s r t
  proof -
    have "(\<exists>e \<in> set (kg_edges g). edge_key e = (s, r, t))
        \<longleftrightarrow> \<lparr>ge_source = s, ge_relation = r, ge_target = t\<rparr> \<in> set (kg_edges g)"
      by (metis edge_key_def edge_key_inj graph_edge.select_convs(1-3))
    then show ?thesis by (auto simp: g unique_edges_facts edges_of_iff)
  qed
  have ends: "{ge_source e, ge_target e} \<subseteq> gn_id ` set (kg_nodes g)" if "e \<in> set (kg_edges g)" for e
    using that unfolding ids set_dangling by (auto simp: g unique_edges_facts edges_of_iff)
  have refs: "i \<notin> md_id ` doc_metadata ` set docs" if "reference_node i \<in> set (kg_nodes g)" for i
    using that set_dangling [of docs] by (auto simp: g node_of_def reference_node_def image_iff)
  have "\<forall>e \<in> set (kg_edges g). ge_target e \<noteq> []"
    using Inr by (auto simp: g unique_edges_facts build_graph_def list_ex_iff split: if_splits)
  with edges ends refs show ?thesis
    by (simp add: Inr g unique_edges_facts)
qed

definition sample_document :: "string \<Rightarrow> visibility \<Rightarrow> string list \<Rightarrow> document" where
  "sample_document i v related = \<lparr>doc_path = [''p'', ''docs'', i @ ''.md''], doc_relative = ''docs/'' @ i @ ''.md'',
     doc_metadata = (sample_metadata i v)\<lparr>md_related := related\<rparr>, doc_body = i, doc_front_matter = True\<rparr>"

theorem graph_closed_witness:
  "\<exists>g. build_graph [sample_document ''A'' V_PUBLIC [''X'']] = Inr g
     \<and> (\<exists>e \<in> set (kg_edges g). edge_key e = (''A'', ''related_to'', ''X''))
     \<and> ''X'' \<in> gn_id ` set (kg_nodes g)"
proof -
  obtain g where g: "build_graph [sample_document ''A'' V_PUBLIC [''X'']] = Inr g"
    by (simp add: build_graph_def edges_of_def sample_document_def sample_metadata_def)
  note closed = graph_closed [of "[sample_document ''A'' V_PUBLIC [''X'']]", unfolded g sum.case]
  have e: "\<exists>e \<in> set (kg_edges g). edge_key e = (''A'', ''related_to'', ''X'')"
    by (subst closed [THEN conjunct1, rule_format]) (simp add: sample_document_def sample_metadata_def)
  then obtain e where "e \<in> set (kg_edges g)" "ge_target e = ''X''"
    by (auto simp: edge_key_def)
  with closed [THEN conjunct2, THEN conjunct2, THEN conjunct2, THEN conjunct1] have "''X'' \<in> gn_id ` set (kg_nodes g)"
    by (metis insert_subset)
  with g e show ?thesis by blast
qed

lemma lookup_last:
  "fold (\<lambda>e m. m(re_id e \<mapsto> e, re_path e \<mapsto> e)) es m k
     = (case find (\<lambda>e. k = re_id e \<or> k = re_path e) (rev es) of Some e \<Rightarrow> Some e | None \<Rightarrow> m k)"
  by (induction es rule: rev_induct) auto

lemma set_registry [simp]: "set (build_registry docs) = entry_of ` set docs"
  by (simp add: build_registry_def)

lemma lookup_unique:
  assumes "e \<in> set es" and "k = re_id e \<or> k = re_path e"
    and "\<And>e'. e' \<in> set es \<Longrightarrow> k = re_id e' \<or> k = re_path e' \<Longrightarrow> e' = e"
  shows "registry_lookup es k = Some e"
proof -
  have "find (\<lambda>e. k = re_id e \<or> k = re_path e) (rev es) \<noteq> None"
    using assms(1,2) by (auto simp: find_None_iff)
  then obtain x where x: "find (\<lambda>e. k = re_id e \<or> k = re_path e) (rev es) = Some x" by blast
  with assms(3) have "x = e" by (auto dest: find_SomeD)
  with x show ?thesis by (simp add: registry_lookup_def lookup_last)
qed

lemma lookup_of_registry:
  "registry_lookup es k = Some e \<Longrightarrow> e \<in> set es \<and> (k = re_id e \<or> k = re_path e)"
  by (auto simp: registry_lookup_def lookup_last dest: find_SomeD split: option.splits)

text \<open>The registry lists one entry per document, ordered by path and identifier. Looking up the
  identifier or the path of a document always finds an entry that has it, and only such entries are
  found; when identifiers and paths are unique and no identifier is another document's path, it finds
  that document's own.\<close>

theorem registry_finds_documents:
  assumes "d \<in> set docs"
  shows "mset (build_registry docs) = mset (List.map entry_of docs)
    \<and> sorted (List.map entry_key (build_registry docs))
    \<and> (\<forall>k \<in> {md_id (doc_metadata d), doc_relative d}.
         (\<exists>e. registry_lookup (build_registry docs) k = Some e \<and> (k = re_id e \<or> k = re_path e))
         \<and> ((\<forall>d' \<in> set docs. k = md_id (doc_metadata d') \<or> k = doc_relative d' \<longrightarrow> d' = d)
              \<longrightarrow> registry_lookup (build_registry docs) k = Some (entry_of d)))
    \<and> (\<forall>k e. registry_lookup (build_registry docs) k = Some e \<longrightarrow> e \<in> entry_of ` set docs \<and> k \<in> {re_id e, re_path e})"
proof -
  have keys: "re_id (entry_of x) = md_id (doc_metadata x)" "re_path (entry_of x) = doc_relative x" for x
    by (simp_all add: entry_of_def Let_def)
  have found: "\<exists>e. registry_lookup (build_registry docs) k = Some e \<and> (k = re_id e \<or> k = re_path e)"
    if "k \<in> {md_id (doc_metadata d), doc_relative d}" for k
  proof -
    have "find (\<lambda>e. k = re_id e \<or> k = re_path e) (rev (build_registry docs)) \<noteq> None"
      using that assms by (auto simp: find_None_iff keys)
    then show ?thesis
      by (auto simp: registry_lookup_def lookup_last dest: find_SomeD)
  qed
  have own: "registry_lookup (build_registry docs) k = Some (entry_of d)"
    if "k \<in> {md_id (doc_metadata d), doc_relative d}"
      and "\<forall>d' \<in> set docs. k = md_id (doc_metadata d') \<or> k = doc_relative d' \<longrightarrow> d' = d" for k
  proof (rule lookup_unique)
    show "entry_of d \<in> set (build_registry docs)" using assms by simp
    show "k = re_id (entry_of d) \<or> k = re_path (entry_of d)" using that(1) by (simp add: keys)
    show "e' = entry_of d" if "e' \<in> set (build_registry docs)" "k = re_id e' \<or> k = re_path e'" for e'
    proof -
      obtain d' where "d' \<in> set docs" "e' = entry_of d'"
        using \<open>e' \<in> set (build_registry docs)\<close> unfolding set_registry by (rule imageE)
      with \<open>k = re_id e' \<or> k = re_path e'\<close> \<open>\<forall>d' \<in> set docs. _\<close> show ?thesis by (simp only: keys)
    qed
  qed
  have only: "e \<in> entry_of ` set docs \<and> k \<in> {re_id e, re_path e}"
    if "registry_lookup (build_registry docs) k = Some e" for k e
    using lookup_of_registry [OF that] by simp
  have each: "(\<exists>e. registry_lookup (build_registry docs) k = Some e \<and> (k = re_id e \<or> k = re_path e))
         \<and> ((\<forall>d' \<in> set docs. k = md_id (doc_metadata d') \<or> k = doc_relative d' \<longrightarrow> d' = d)
              \<longrightarrow> registry_lookup (build_registry docs) k = Some (entry_of d))"
    if "k \<in> {md_id (doc_metadata d), doc_relative d}" for k
    by (rule conjI [OF found [OF that] impI [OF own [OF that]]])
  show ?thesis
    by (rule conjI [OF _ conjI [OF _ conjI [OF ballI [OF each] allI [OF allI [OF impI [OF only]]]]]])
      (simp_all add: build_registry_def)
qed

theorem registry_finds_documents_witness:
  "registry_lookup (build_registry [sample_document ''B'' V_PUBLIC [], sample_document ''A'' V_PUBLIC []]) ''A''
     = Some (entry_of (sample_document ''A'' V_PUBLIC []))"
  using registry_finds_documents [of "sample_document ''A'' V_PUBLIC []"
      "[sample_document ''B'' V_PUBLIC [], sample_document ''A'' V_PUBLIC []]"]
  by (simp add: sample_document_def sample_metadata_def)

text \<open>Neighbourhood is symmetric.\<close>

lemma neighbors_iff:
  "t \<in> graph_neighbors g s \<longleftrightarrow> (\<exists>e \<in> set (kg_edges g). (ge_source e = s \<and> ge_target e = t) \<or> (ge_source e = t \<and> ge_target e = s))"
  by (fastforce simp: graph_neighbors_def map_filter_def split: if_splits)

lemma neighbors_sym: "t \<in> graph_neighbors g s \<longleftrightarrow> s \<in> graph_neighbors g t"
  by (auto simp: neighbors_iff)

end
