(* ===== verification/DocSite.thy ===== *)
theory DocSite
  imports DocRegistry
begin

text \<open>
  The static documentation site and the documentation reports (\<open>evolution/site.py\<close>). A disk holds the
  text of files and a list of directories, both by their parts below the root; symbolic links are left
  out, making a directory always succeeds. \<open>enc\<close> and \<open>dec\<close> are \<open>json.dumps\<close> and \<open>json.loads\<close>.
\<close>

section \<open>The disk\<close>

record disk =
  dk_files :: "(string list \<times> string) list"
  dk_dirs :: "string list list"

definition is_file :: "'z disk_scheme \<Rightarrow> string list \<Rightarrow> bool" where
  "is_file dk p \<longleftrightarrow> p \<in> fst ` set (dk_files dk)"

definition is_dir :: "'z disk_scheme \<Rightarrow> string list \<Rightarrow> bool" where
  "is_dir dk p \<longleftrightarrow> p \<in> set (dk_dirs dk)"

definition has_children :: "'z disk_scheme \<Rightarrow> string list \<Rightarrow> bool" where
  "has_children dk p \<longleftrightarrow> list_ex (\<lambda>q. strict_prefix p q) (List.map fst (dk_files dk) @ dk_dirs dk)"

definition make_dirs :: "string list \<Rightarrow> 'z disk_scheme \<Rightarrow> 'z disk_scheme" where
  "make_dirs p dk = dk\<lparr>dk_dirs := List.union (prefixes p) (dk_dirs dk)\<rparr>"

definition write_text :: "string list \<Rightarrow> string \<Rightarrow> 'z disk_scheme \<Rightarrow> 'z disk_scheme" where
  "write_text p t dk = dk\<lparr>dk_files := AList.update p t (dk_files dk)\<rparr>"

definition unlink :: "string list \<Rightarrow> 'z disk_scheme \<Rightarrow> 'z disk_scheme" where
  "unlink p dk = dk\<lparr>dk_files := AList.delete p (dk_files dk)\<rparr>"

text \<open>\<open>base / s\<close>, with dots resolved by the operating system.\<close>

fun climb :: "string list \<Rightarrow> string list \<Rightarrow> string list" where
  "climb base [] = base"
| "climb base (p # ps) =
     (if p = ''..'' then climb (butlast base) ps else if p = ''/'' then climb [] ps else climb (base @ [p]) ps)"

definition path_join :: "string list \<Rightarrow> string \<Rightarrow> string list" where
  "path_join base s = climb base (parts_of s)"

section \<open>Pages\<close>

definition visibility_rank :: "string \<Rightarrow> nat option" where
  "visibility_rank = map_of [(''public'', 0), (''internal'', 1), (''private'', 2)]"

fun visibility_str :: "visibility \<Rightarrow> string" where
  "visibility_str V_PUBLIC = ''public''"
| "visibility_str V_INTERNAL = ''internal''"
| "visibility_str V_PRIVATE = ''private''"

definition visible :: "visibility \<Rightarrow> string \<Rightarrow> bool" where
  "visible v requested \<longleftrightarrow> the (visibility_rank (visibility_str v)) \<le> the (visibility_rank requested)"

definition visible_documents :: "string \<Rightarrow> document list \<Rightarrow> document list" where
  "visible_documents v found = filter (\<lambda>d. visible (md_visibility (doc_metadata d)) v) found"

definition escape_char :: "char \<Rightarrow> string" where
  "escape_char c =
     (if c = CHR ''&'' then ''&amp;'' else if c = CHR ''<'' then ''&lt;'' else if c = CHR ''>'' then ''&gt;''
      else if c = CHR 0x22 then ''&quot;'' else if c = CHR 0x27 then ''&#x27;'' else [c])"

definition html_escape :: "string \<Rightarrow> string" where
  "html_escape s = concat (List.map escape_char s)"

definition dq :: "string \<Rightarrow> string" where
  "dq s = CHR 0x22 # s @ [CHR 0x22]"

definition page_html :: "string \<Rightarrow> string \<Rightarrow> (string \<times> string) list \<Rightarrow> string" where
  "page_html title body navigation =
     (let links = join newline (List.map (\<lambda>(path, label).
            ''<li><a href='' @ dq (html_escape path) @ ''>'' @ html_escape label @ ''</a></li>'') navigation)
      in ''<!doctype html>'' @ newline
         @ ''<html lang='' @ dq ''pt-BR'' @ ''>'' @ newline
         @ ''<head><meta charset='' @ dq ''utf-8'' @ ''><meta name='' @ dq ''viewport'' @ '' content=''
         @ dq ''width=device-width,initial-scale=1'' @ ''>'' @ newline
         @ ''<title>'' @ html_escape title @ ''</title></head>'' @ newline
         @ ''<body><nav><ul>'' @ links @ ''</ul></nav><main><h1>'' @ html_escape title @ ''</h1>'' @ newline
         @ ''<pre>'' @ html_escape body @ ''</pre></main></body></html>'' @ newline)"

definition MARKER :: string where
  "MARKER = ''.atlas-flow-site.json''"

definition page_path :: "document \<Rightarrow> string" where
  "page_path d = remove_suffix (doc_relative d) ''.md'' @ ''.html''"

definition opt_str :: "string option \<Rightarrow> json" where
  "opt_str s = (case s of None \<Rightarrow> JNull | Some t \<Rightarrow> JStr t)"

definition search_entry :: "document \<Rightarrow> json" where
  "search_entry d = JObj [(''id'', JStr (md_id (doc_metadata d))), (''title'', JStr (md_title (doc_metadata d))),
     (''path'', JStr (page_path d)), (''section'', opt_str (md_section (doc_metadata d))),
     (''tags'', JList (List.map JStr (md_tags (doc_metadata d))))]"

definition navigation :: "document list \<Rightarrow> (string \<times> string) list" where
  "navigation docs = List.map (\<lambda>d. (page_path d, md_title (doc_metadata d))) docs"

definition site_names :: "document list \<Rightarrow> string list" where
  "site_names docs = sort (List.map page_path docs @ [''search.json'', ''index.html''])"

definition marker_json :: "document list \<Rightarrow> string \<Rightarrow> json" where
  "marker_json docs v = JObj [(''files'', JList (List.map JStr (site_names docs))), (''visibility'', JStr v),
     (''schema_version'', JInt 1)]"

text \<open>What a build writes, in its order.\<close>

definition site_files :: "(json \<Rightarrow> string) \<Rightarrow> project_manifest \<Rightarrow> string \<Rightarrow> document list \<Rightarrow> (string \<times> string) list" where
  "site_files enc m v docs =
     List.map (\<lambda>d. (page_path d, page_html (md_title (doc_metadata d)) (doc_body d) (navigation docs))) docs
     @ [(''search.json'', enc (JList (List.map search_entry docs)) @ newline),
        (''index.html'', page_html (mf_title m @ '' '' @ emdash @ '' Documentation'')
           ''Generated documentation index'' (navigation docs)),
        (MARKER, enc (marker_json docs v) @ newline)]"

definition write_page :: "string list \<Rightarrow> string \<times> string \<Rightarrow> 'z disk_scheme \<Rightarrow> 'z disk_scheme" where
  "write_page target page dk =
     (let p = path_join target (fst page) in write_text p (snd page) (make_dirs (butlast p) dk))"

definition write_pages :: "string list \<Rightarrow> (string \<times> string) list \<Rightarrow> 'z disk_scheme \<Rightarrow> 'z disk_scheme" where
  "write_pages target pages dk = fold (write_page target) pages dk"

section \<open>Building\<close>

text \<open>\<open>marker.get("files", [])\<close> of a loaded marker.\<close>

definition marker_files :: "(json \<Rightarrow> string) \<Rightarrow> json \<Rightarrow> exn + string list" where
  "marker_files repr v =
     (case v of
        JObj d \<Rightarrow>
          (case map_of d ''files'' of
             None \<Rightarrow> Inr []
           | Some (JList fs) \<Rightarrow> Inr (List.map (py_str repr) fs)
           | Some (JStr s) \<Rightarrow> Inr (List.map (\<lambda>c. [c]) s)
           | Some (JObj e) \<Rightarrow> Inr (List.map fst e)
           | Some _ \<Rightarrow> Inl (TypeError ''object is not iterable''))
      | _ \<Rightarrow> Inl (AttributeError ''object has no attribute get''))"

definition remove_generated :: "string list \<Rightarrow> string list \<Rightarrow> 'z disk_scheme \<Rightarrow> 'z disk_scheme" where
  "remove_generated output names dk =
     unlink (output @ [MARKER]) (fold (\<lambda>n. unlink (path_join output n)) names dk)"

definition prepare_output ::
  "(json \<Rightarrow> string) \<Rightarrow> (string \<Rightarrow> exn + json) \<Rightarrow> string list \<Rightarrow> 'z disk_scheme \<Rightarrow> exn + 'z disk_scheme" where
  "prepare_output repr dec output dk =
     (if \<not> is_file dk output \<and> \<not> is_dir dk output then Inr (make_dirs output dk)
      else case map_of (dk_files dk) (output @ [MARKER]) of
        None \<Rightarrow>
          if is_file dk output then Inl (OSError ''Not a directory'')
          else if has_children dk output
          then Inl (ValueError (''refusing to write documentation site into non-generated directory: '' @ path_text output))
          else Inr dk
      | Some text \<Rightarrow>
          (case dec text of Inl e \<Rightarrow> Inl e | Inr marker \<Rightarrow>
          (case marker_files repr marker of Inl e \<Rightarrow> Inl e | Inr names \<Rightarrow>
            Inr (remove_generated output names dk))))"

record site_result =
  sr_output :: "string list"
  sr_visibility :: string
  sr_pages :: "string list"
  sr_search :: string

definition build_at ::
  "(json \<Rightarrow> string) \<Rightarrow> (json \<Rightarrow> string) \<Rightarrow> (string \<Rightarrow> exn + json) \<Rightarrow> project_manifest \<Rightarrow> document list
     \<Rightarrow> string list \<Rightarrow> string \<Rightarrow> 'z disk_scheme \<Rightarrow> exn + (site_result \<times> 'z disk_scheme)" where
  "build_at repr enc dec m docs target v dk =
     (case prepare_output repr dec target dk of
        Inl e \<Rightarrow> Inl e
      | Inr dk' \<Rightarrow> Inr (\<lparr>sr_output = target, sr_visibility = v, sr_pages = site_names docs, sr_search = ''search.json''\<rparr>,
          write_pages target (site_files enc m v docs) dk'))"

definition build_site ::
  "(json \<Rightarrow> string) \<Rightarrow> (json \<Rightarrow> string) \<Rightarrow> (string \<Rightarrow> exn + json) \<Rightarrow> yaml_parser \<Rightarrow> project_manifest validator
     \<Rightarrow> doc_metadata validator \<Rightarrow> 'y tree_scheme \<Rightarrow> string list option \<Rightarrow> string \<Rightarrow> 'z disk_scheme
     \<Rightarrow> exn + (site_result \<times> 'z disk_scheme)" where
  "build_site repr enc dec yaml vman vdoc tr output v dk =
     (if visibility_rank v = None then Inl (ValueError (''unknown documentation visibility '' @ quoted v))
      else
       (case load_manifest yaml vman tr of Inl e \<Rightarrow> Inl e | Inr (m, _) \<Rightarrow>
       (case discover_documents yaml vdoc tr m of Inl e \<Rightarrow> Inl e | Inr found \<Rightarrow>
         let docs = visible_documents v found in
         (case (case output of Some p \<Rightarrow> Inr p
                | None \<Rightarrow> map_sum id (\<lambda>p. p @ [''site'']) (resolve_project_path tr (mf_data_root m) ''data_root'')) of
            Inl e \<Rightarrow> Inl e
          | Inr target \<Rightarrow> build_at repr enc dec m docs target v dk))))"

section \<open>Reports\<close>

definition freshness_report ::
  "yaml_parser \<Rightarrow> project_manifest validator \<Rightarrow> doc_metadata validator \<Rightarrow> 'y tree_scheme \<Rightarrow> int
     \<Rightarrow> exn + (string \<times> string \<times> string) list" where
  "freshness_report yaml vman vdoc tr today =
     (case load_manifest yaml vman tr of Inl e \<Rightarrow> Inl e | Inr (m, _) \<Rightarrow>
     (case discover_documents yaml vdoc tr m of Inl e \<Rightarrow> Inl e | Inr docs \<Rightarrow>
       fold (\<lambda>d acc. case acc of Inl e \<Rightarrow> Inl e | Inr rows \<Rightarrow>
           (case freshness_of (doc_metadata d) today of
              Inl e \<Rightarrow> Inl e
            | Inr status \<Rightarrow> Inr (rows @ [(md_id (doc_metadata d), doc_relative d, status)]))) docs (Inr [])))"

definition bump_section :: "document \<Rightarrow> (string \<times> int \<times> int) list \<Rightarrow> (string \<times> int \<times> int) list" where
  "bump_section d buckets =
     (let s = or_root (md_section (doc_metadata d));
          (total, versioned) = (case map_of buckets s of Some b \<Rightarrow> b | None \<Rightarrow> (0, 0))
      in AList.update s (total + 1, versioned + of_bool (doc_front_matter d)) buckets)"

record doc_coverage =
  cov_documents :: int
  cov_versioned :: int
  cov_ratio :: "rat option"
  cov_sections :: "(string \<times> int \<times> int) list"

definition coverage_of :: "document list \<Rightarrow> doc_coverage" where
  "coverage_of docs =
     (let total = int (length docs); versioned = sum_list (List.map (\<lambda>d. of_bool (doc_front_matter d)) docs)
      in \<lparr>cov_documents = total, cov_versioned = versioned,
          cov_ratio = (if total = 0 then None else Some (of_int versioned / of_int total)),
          cov_sections = fold bump_section docs []\<rparr>)"

definition documentation_coverage ::
  "yaml_parser \<Rightarrow> project_manifest validator \<Rightarrow> doc_metadata validator \<Rightarrow> 'y tree_scheme \<Rightarrow> exn + doc_coverage" where
  "documentation_coverage yaml vman vdoc tr =
     (case load_manifest yaml vman tr of Inl e \<Rightarrow> Inl e | Inr (m, _) \<Rightarrow>
       map_sum id coverage_of (discover_documents yaml vdoc tr m))"

section \<open>What is on the disk after a build\<close>

lemma dir_ops_files [simp]: "dk_files (make_dirs p dk) = dk_files dk"
  by (simp add: make_dirs_def)

lemma write_page_files:
  "map_of (dk_files (write_page target (n, t) dk)) = (map_of (dk_files dk))(path_join target n \<mapsto> t)"
  by (simp add: write_page_def write_text_def Let_def update_conv')

lemma write_pages_lookup:
  "map_of (dk_files (write_pages target pages dk)) q = Some text \<Longrightarrow>
     (\<exists>n. (n, text) \<in> set pages \<and> q = path_join target n)
     \<or> map_of (dk_files dk) q = Some text \<and> q \<notin> path_join target ` fst ` set pages"
proof (induction pages rule: rev_induct)
  case (snoc p pages)
  obtain n t where p: "p = (n, t)" by (cases p)
  show ?case
  proof (cases "q = path_join target n")
    case True
    with snoc.prems p have "text = t" by (simp add: write_pages_def write_page_files)
    with True p show ?thesis by auto
  next
    case False
    with snoc.prems p have "map_of (dk_files (write_pages target pages dk)) q = Some text"
      by (simp add: write_pages_def write_page_files)
    from snoc.IH [OF this] False p show ?thesis by auto
  qed
qed (simp add: write_pages_def)

lemma write_pages_last:
  "map_of (dk_files (write_pages target (pages @ [(n, t)]) dk)) (path_join target n) = Some t"
  by (simp add: write_pages_def write_page_files)

lemma unlink_lookup: "map_of (dk_files (unlink p dk)) q = (if q = p then None else map_of (dk_files dk) q)"
  by (simp add: unlink_def delete_conv')

lemma unlinks_lookup:
  "map_of (dk_files (fold (\<lambda>n. unlink (f n)) names dk)) q = (if q \<in> f ` set names then None else map_of (dk_files dk) q)"
  by (induction names arbitrary: dk) (auto simp: unlink_lookup)

lemma remove_generated_lookup:
  "map_of (dk_files (remove_generated output names dk)) q
     = (if q = output @ [MARKER] \<or> q \<in> path_join output ` set names then None else map_of (dk_files dk) q)"
  by (simp add: remove_generated_def unlink_lookup unlinks_lookup)

lemma prepare_keeps:
  "prepare_output repr dec output dk = Inr dk' \<Longrightarrow> map_of (dk_files dk') q = Some t \<Longrightarrow> map_of (dk_files dk) q = Some t"
  by (auto simp: prepare_output_def remove_generated_lookup split: if_splits option.splits sum.splits)

lemma path_join_marker [simp]: "path_join output MARKER = output @ [MARKER]"
proof -
  have "parts_of MARKER = [MARKER]" by code_simp
  moreover have "MARKER \<noteq> ''..''" "MARKER \<noteq> ''/''" by code_simp+
  ultimately show ?thesis by (simp add: path_join_def)
qed

lemma set_site_names: "set (site_names docs) = page_path ` set docs \<union> {''search.json'', ''index.html''}"
  by (auto simp: site_names_def)

lemma names_of_site_files: "fst ` set (site_files enc m v docs) = insert MARKER (set (site_names docs))"
  by (auto simp: site_files_def set_site_names image_Un image_image)

lemma marker_round_trip: "marker_files repr (marker_json docs v) = Inr (site_names docs)"
  by (simp add: marker_files_def marker_json_def comp_def)

lemma built_dir: "is_dir (write_pages target (site_files enc m v docs) dk) target"
  by (simp add: site_files_def write_pages_def write_page_def write_text_def make_dirs_def is_dir_def Let_def)

lemma built_marker:
  assumes "build_at repr enc dec m docs target v dk = Inr (r, dk')"
  shows "map_of (dk_files dk') (target @ [MARKER]) = Some (enc (marker_json docs v) @ newline)"
proof -
  obtain dk0 where "dk' = write_pages target (site_files enc m v docs) dk0"
    using assms by (auto simp: build_at_def split: sum.splits)
  then show ?thesis
    using write_pages_last [of target "butlast (site_files enc m v docs)" MARKER "enc (marker_json docs v) @ newline" dk0]
    by (simp add: site_files_def butlast_append)
qed

text \<open>Building over a built site succeeds, and what the first build wrote is gone.\<close>

lemma rebuild_at:
  assumes json: "dec (enc (marker_json docs v) @ newline) = Inr (marker_json docs v)"
    and first: "build_at repr enc dec m docs target v dk = Inr (r, dk1)"
  obtains dk2 where "build_at repr enc dec m' docs' target v' dk1 = Inr (\<lparr>sr_output = target, sr_visibility = v',
        sr_pages = site_names docs', sr_search = ''search.json''\<rparr>, dk2)"
    and "\<And>q text. map_of (dk_files dk2) q = Some text \<Longrightarrow>
      map_of (dk_files dk) q = Some text \<or> (\<exists>n. (n, text) \<in> set (site_files enc m' v' docs') \<and> q = path_join target n)"
proof -
  define dk' where "dk' = remove_generated target (site_names docs) dk1"
  define dk2 where "dk2 = write_pages target (site_files enc m' v' docs') dk'"
  obtain dk0 where dk0: "prepare_output repr dec target dk = Inr dk0" "dk1 = write_pages target (site_files enc m v docs) dk0"
    using first by (auto simp: build_at_def split: sum.splits)
  have marker: "map_of (dk_files dk1) (target @ [MARKER]) = Some (enc (marker_json docs v) @ newline)"
    by (rule built_marker [OF first])
  have "is_dir dk1 target"
    unfolding dk0(2) by (rule built_dir)
  with marker have "prepare_output repr dec target dk1 = Inr dk'"
    by (simp add: prepare_output_def json marker_round_trip dk'_def)
  then have built: "build_at repr enc dec m' docs' target v' dk1 = Inr (\<lparr>sr_output = target, sr_visibility = v',
        sr_pages = site_names docs', sr_search = ''search.json''\<rparr>, dk2)"
    by (simp add: build_at_def dk2_def)
  have "map_of (dk_files dk) q = Some text \<or> (\<exists>n. (n, text) \<in> set (site_files enc m' v' docs') \<and> q = path_join target n)"
    if q: "map_of (dk_files dk2) q = Some text" for q :: "string list" and "text" :: string
  proof (rule disjCI)
    assume "\<not> (\<exists>n. (n, text) \<in> set (site_files enc m' v' docs') \<and> q = path_join target n)"
    with write_pages_lookup [OF q [unfolded dk2_def]]
    have "map_of (dk_files dk') q = Some text" by blast
    then have old: "map_of (dk_files dk1) q = Some text" "q \<noteq> target @ [MARKER]" "q \<notin> path_join target ` set (site_names docs)"
      by (auto simp: dk'_def remove_generated_lookup split: if_splits)
    from write_pages_lookup [OF old(1) [unfolded dk0(2)]]
    have "map_of (dk_files dk0) q = Some text"
    proof
      assume "\<exists>n. (n, text) \<in> set (site_files enc m v docs) \<and> q = path_join target n"
      then obtain n where "n \<in> fst ` set (site_files enc m v docs)" "q = path_join target n" by force
      with old(2,3) show ?thesis by (auto simp: names_of_site_files)
    qed blast
    with prepare_keeps [OF dk0(1)] show "map_of (dk_files dk) q = Some text" by blast
  qed
  with built that show ?thesis by blast
qed

lemma build_site_at:
  assumes "visibility_rank v \<noteq> None" and "load_manifest yaml vman tr = Inr (m, p)"
    and "discover_documents yaml vdoc tr m = Inr found"
  shows "build_site repr enc dec yaml vman vdoc tr (Some target) v dk
    = build_at repr enc dec m (visible_documents v found) target v dk"
  unfolding build_site_def if_not_P [OF assms(1)] by (simp add: assms(2,3) Let_def)

text \<open>C29. Rebuilding a site with another visibility into the same directory succeeds and leaves nothing
  of the first build behind: every file on the disk then either was there before the first build, with
  the same text, or is written by the second, whose pages and index are those of the documents visible
  at its level and no others.\<close>

theorem rebuild_hides_documents:
  assumes "load_manifest yaml vman tr = Inr (m, p)" and "discover_documents yaml vdoc tr m = Inr found"
    and "build_site repr enc dec yaml vman vdoc tr (Some target) v dk = Inr (r, dk1)"
    and "dec (enc (marker_json (visible_documents v found) v) @ newline) = Inr (marker_json (visible_documents v found) v)"
    and "visibility_rank v' \<noteq> None"
  shows "\<exists>r' dk2. build_site repr enc dec yaml vman vdoc tr (Some target) v' dk1 = Inr (r', dk2)
    \<and> (\<forall>q text. map_of (dk_files dk2) q = Some text \<longrightarrow> map_of (dk_files dk) q = Some text
         \<or> (\<exists>n. (n, text) \<in> set (site_files enc m v' (visible_documents v' found)) \<and> q = path_join target n))
    \<and> (\<forall>n. n \<in> set (sr_pages r') \<longleftrightarrow> n \<in> {''search.json'', ''index.html''}
         \<or> (\<exists>d \<in> set found. visible (md_visibility (doc_metadata d)) v' \<and> n = page_path d))"
proof -
  have "visibility_rank v \<noteq> None"
    using assms(3) by (auto simp: build_site_def split: if_splits)
  from assms(3) [unfolded build_site_at [OF this assms(1,2)]]
  have first: "build_at repr enc dec m (visible_documents v found) target v dk = Inr (r, dk1)" .
  obtain dk2 where dk2: "build_at repr enc dec m (visible_documents v' found) target v' dk1
      = Inr (\<lparr>sr_output = target, sr_visibility = v', sr_pages = site_names (visible_documents v' found),
              sr_search = ''search.json''\<rparr>, dk2)"
    and left: "\<And>q text. map_of (dk_files dk2) q = Some text \<Longrightarrow> map_of (dk_files dk) q = Some text
         \<or> (\<exists>n. (n, text) \<in> set (site_files enc m v' (visible_documents v' found)) \<and> q = path_join target n)"
    by (rule rebuild_at [where dec = dec and enc = enc, OF assms(4) first]) blast
  have "n \<in> set (site_names (visible_documents v' found)) \<longleftrightarrow> n \<in> {''search.json'', ''index.html''}
         \<or> (\<exists>d \<in> set found. visible (md_visibility (doc_metadata d)) v' \<and> n = page_path d)" for n
    unfolding set_site_names visible_documents_def by auto
  with dk2 left show ?thesis
    unfolding build_site_at [OF assms(5,1,2)] by (intro exI conjI) (assumption, simp_all)
qed

text \<open>A directory that holds something and no marker is never written into.\<close>

lemma foreign_directory_refused:
  "is_dir dk target \<Longrightarrow> \<not> is_file dk target \<Longrightarrow> has_children dk target \<Longrightarrow> map_of (dk_files dk) (target @ [MARKER]) = None
     \<Longrightarrow> \<exists>why. build_at repr enc dec m docs target v dk = Inl (ValueError why)"
  by (simp add: build_at_def prepare_output_def)

text \<open>The marker's list is trusted: it can name a file outside of the site, which the next build deletes.\<close>

lemma marker_deletes_outside:
  "map_of (dk_files (remove_generated [''p'', ''site''] [''../README.md''] dk)) [''p'', ''README.md''] = None"
proof -
  have "path_join [''p'', ''site''] ''../README.md'' = [''p'', ''README.md'']" by code_simp
  then show ?thesis by (simp add: remove_generated_lookup)
qed

text \<open>No character of a title or body opens a tag.\<close>

lemma escaped_plain: "c \<in> set (html_escape s) \<Longrightarrow> c \<notin> {CHR ''<'', CHR ''>'', CHR 0x22, CHR 0x27}"
  by (auto simp: html_escape_def escape_char_def split: if_splits)

lemma coverage_sections:
  "sum_list (List.map (fst \<circ> snd) (cov_sections (coverage_of docs))) = cov_documents (coverage_of docs)"
proof -
  have upd: "sum_list (List.map (fst \<circ> snd) (AList.update s (c, b) l)) = sum_list (List.map (fst \<circ> snd) l) + (1 :: int)"
    if "c = 1 + (case map_of l s of Some x \<Rightarrow> fst x | None \<Rightarrow> 0)" for s c and b :: int and l
    using that by (induction l) (auto split: option.splits)
  have step: "sum_list (List.map (fst \<circ> snd) (bump_section d l)) = sum_list (List.map (fst \<circ> snd) l) + (1 :: int)" for d l
    by (auto simp: bump_section_def Let_def upd split: option.split prod.split)
  have "sum_list (List.map (fst \<circ> snd) (fold bump_section docs l)) = sum_list (List.map (fst \<circ> snd) l) + int (length docs)" for l
    by (induction docs arbitrary: l) (simp_all add: step)
  from this [of "[]"] show ?thesis by (simp add: coverage_of_def Let_def)
qed

definition sample_found :: "document list" where
  "sample_found = [\<lparr>doc_path = [''p'', ''docs'', ''a.md''], doc_relative = ''docs/a.md'',
     doc_metadata = projr (legacy_metadata ''docs/a.md'' ''docs'' ''# A'' [] (default_manifest [])),
     doc_body = ''# A'', doc_front_matter = False\<rparr>]"

lemma sample_site:
  "load_manifest no_yaml (\<lambda>_. Inl []) (sample_tree [(''a.md'', ''# A'')]) = Inr (default_manifest [(''name'', ''p'')], None)"
  "discover_documents no_yaml (\<lambda>_. Inl []) (sample_tree [(''a.md'', ''# A'')]) (default_manifest [(''name'', ''p'')])
     = Inr sample_found"
  "visible_documents ''private'' sample_found = sample_found" "visible_documents ''public'' sample_found = []"
  "page_path (hd sample_found) = ''docs/a.html''"
  "visibility_rank ''private'' = Some 2" "visibility_rank ''public'' = Some 0"
  by code_simp+

theorem rebuild_hides_documents_witness:
  "\<exists>enc dec r dk1 r' dk2.
     build_site (\<lambda>_. []) enc dec no_yaml (\<lambda>_. Inl []) (\<lambda>_. Inl []) (sample_tree [(''a.md'', ''# A'')])
       (Some [''out'']) ''private'' \<lparr>dk_files = [], dk_dirs = []\<rparr> = Inr (r, dk1)
     \<and> ''docs/a.html'' \<in> set (sr_pages r)
     \<and> build_site (\<lambda>_. []) enc dec no_yaml (\<lambda>_. Inl []) (\<lambda>_. Inl []) (sample_tree [(''a.md'', ''# A'')])
       (Some [''out'']) ''public'' dk1 = Inr (r', dk2)
     \<and> ''docs/a.html'' \<notin> set (sr_pages r')"
proof -
  define enc :: "json \<Rightarrow> string" where "enc v = ''{}''" for v
  define dec :: "string \<Rightarrow> exn + json" where "dec s = Inr (marker_json sample_found ''private'')" for s
  let ?build = "build_site (\<lambda>_. []) enc dec no_yaml (\<lambda>_. Inl []) (\<lambda>_. Inl []) (sample_tree [(''a.md'', ''# A'')]) (Some [''out''])"
  obtain dk1 where first: "?build ''private'' \<lparr>dk_files = [], dk_dirs = []\<rparr>
      = Inr (\<lparr>sr_output = [''out''], sr_visibility = ''private'', sr_pages = site_names sample_found, sr_search = ''search.json''\<rparr>, dk1)"
    by (simp add: build_site_at [OF _ sample_site(1,2)] sample_site build_at_def prepare_output_def is_file_def is_dir_def)
  obtain r' dk2 where second: "?build ''public'' dk1 = Inr (r', dk2)"
    and pages: "\<And>n. n \<in> set (sr_pages r') \<longleftrightarrow> n \<in> {''search.json'', ''index.html''}
         \<or> (\<exists>d \<in> set sample_found. visible (md_visibility (doc_metadata d)) ''public'' \<and> n = page_path d)"
    using rebuild_hides_documents [OF sample_site(1,2) first, of "''public''"]
    by (auto simp: sample_site dec_def)
  have hidden: "\<not> (\<exists>d \<in> set sample_found. visible (md_visibility (doc_metadata d)) ''public'' \<and> n = page_path d)" for n
    using sample_site(4) by (auto simp: visible_documents_def filter_empty_conv)
  have "''docs/a.html'' \<notin> set (sr_pages r')"
    unfolding pages using hidden by simp
  moreover have "''docs/a.html'' \<in> set (site_names sample_found)"
    using sample_site(5) unfolding set_site_names by (metis UnI1 imageI list.set_sel(1) list.simps(3) sample_found_def)
  ultimately show ?thesis
    using first second by (intro exI conjI) (assumption, simp_all)
qed

end
