(* ===== verification/DocValidation.thy ===== *)
theory DocValidation
  imports DocRegistry
begin

text \<open>
  The validation report of a project (\<open>evolution/validation.py\<close>): its documents, task maps and context
  packs. What the report does not catch leaves as an exception.
\<close>

section \<open>Records\<close>

record issue =
  vi_severity :: string
  vi_code :: string
  vi_message :: string
  vi_path :: "string option"

record validation_report =
  vr_issues :: "issue list"
  vr_documents :: nat
  vr_task_maps :: nat
  vr_context_packs :: nat

record task_map =
  tm_id :: string
  tm_intent :: string
  tm_risk :: doc_risk
  tm_required :: "string list"
  tm_optional :: "string list"
  tm_touch :: "(string \<times> string list) list"
  tm_usually_dont_touch :: "string list"
  tm_verify :: "string list"
  tm_documentation :: "string list"

record context_pack =
  cp_id :: string
  cp_intent :: string
  cp_include :: "string list"
  cp_optional :: "string list"
  cp_exclude :: "string list"
  cp_budget :: "(string \<times> int) list"
  cp_justifications :: "(string \<times> string) list"

definition report_errors :: "validation_report \<Rightarrow> issue list" where
  "report_errors r = filter (\<lambda>i. vi_severity i = ''error'') (vr_issues r)"

definition report_valid :: "validation_report \<Rightarrow> bool" where
  "report_valid r \<longleftrightarrow> report_errors r = []"

definition mk_issue :: "string \<Rightarrow> string \<Rightarrow> string \<Rightarrow> string option \<Rightarrow> issue" where
  "mk_issue severity code message p = \<lparr>vi_severity = severity, vi_code = code, vi_message = message, vi_path = p\<rparr>"

section \<open>Task maps and context packs\<close>

text \<open>The exceptions the loader turns into an issue.\<close>

fun caught_text :: "exn \<Rightarrow> string option" where
  "caught_text (OSError why) = Some why"
| "caught_text (YAMLError why) = Some why"
| "caught_text (ValidationError why) = Some why"
| "caught_text (ValueError why) = Some why"
| "caught_text e = None"

definition load_model :: "yaml_parser \<Rightarrow> 'm validator \<Rightarrow> text_file \<Rightarrow> exn + 'm" where
  "load_model yaml valid f =
     (case f of
        Unreadable why \<Rightarrow> Inl (OSError why)
      | NotUtf8 why \<Rightarrow> Inl (ValueError why)
      | Text text \<Rightarrow>
          (case yaml text of
             Inl e \<Rightarrow> Inl e
           | Inr (JObj d) \<Rightarrow> map_sum ValidationError id (valid d)
           | Inr v \<Rightarrow> Inl (ValueError ''expected a YAML mapping'')))"

fun load_each :: "yaml_parser \<Rightarrow> 'm validator \<Rightarrow> tree_entry list \<Rightarrow> exn + ('m list \<times> issue list)" where
  "load_each yaml valid [] = Inr ([], [])"
| "load_each yaml valid (e # es) =
     (case load_model yaml valid (te_text e) of
        Inr m \<Rightarrow> map_sum id (\<lambda>(ms, is). (m # ms, is)) (load_each yaml valid es)
      | Inl x \<Rightarrow>
          (case caught_text x of
             None \<Rightarrow> Inl x
           | Some why \<Rightarrow> map_sum id (\<lambda>(ms, is). (ms, mk_issue ''error'' ''invalid-yaml'' why (Some (path_text (te_path e))) # is))
               (load_each yaml valid es)))"

definition yaml_in :: "string list \<Rightarrow> 'z tree_scheme \<Rightarrow> tree_entry list" where
  "yaml_in directory tr = sort_key te_path (filter (\<lambda>e. te_path e \<noteq> [] \<and> butlast (te_path e) = directory
     \<and> ends_with (last (te_path e)) ''.yaml'') (tr_entries tr))"

definition load_models ::
  "yaml_parser \<Rightarrow> 'm validator \<Rightarrow> 'z tree_scheme \<Rightarrow> string list \<Rightarrow> exn + ('m list \<times> issue list)" where
  "load_models yaml valid tr directory =
     (if directory \<notin> set (tr_dirs tr) then Inr ([], [])
      else load_each yaml valid (yaml_in directory tr))"

definition meta_dir :: "'z tree_scheme \<Rightarrow> project_manifest \<Rightarrow> string \<Rightarrow> string list" where
  "meta_dir tr m name = tr_root tr @ parts_of (mf_docs_root m) @ [''_meta'', name]"

definition load_task_maps ::
  "yaml_parser \<Rightarrow> task_map validator \<Rightarrow> 'z tree_scheme \<Rightarrow> project_manifest \<Rightarrow> exn + (task_map list \<times> issue list)" where
  "load_task_maps yaml vmap tr m = load_models yaml vmap tr (meta_dir tr m ''task-maps'')"

definition load_context_packs ::
  "yaml_parser \<Rightarrow> context_pack validator \<Rightarrow> 'z tree_scheme \<Rightarrow> project_manifest
     \<Rightarrow> exn + (context_pack list \<times> issue list)" where
  "load_context_packs yaml vpack tr m = load_models yaml vpack tr (meta_dir tr m ''context-packs'')"

section \<open>The checks\<close>

text \<open>The loop over the registry; \<open>seen\<close> maps an identifier to the path it was last seen at.\<close>

fun duplicate_documents :: "(string \<Rightarrow> string option) \<Rightarrow> registry_entry list \<Rightarrow> issue list" where
  "duplicate_documents seen [] = []"
| "duplicate_documents seen (e # es) =
     (case seen (re_id e) of
        None \<Rightarrow> []
      | Some previous \<Rightarrow> [mk_issue ''error'' ''duplicate-document-id''
          (''Document ID '' @ quoted (re_id e) @ '' is used by both '' @ previous @ '' and '' @ re_path e @ ''.'')
          (Some (re_path e))])
     @ duplicate_documents (seen(re_id e \<mapsto> re_path e)) es"

definition missing_owners :: "document list \<Rightarrow> issue list" where
  "missing_owners docs =
     List.map (\<lambda>d. mk_issue ''warning'' ''missing-owner'' ''Versioned document metadata should declare an owner.''
        (Some (doc_relative d)))
       (filter (\<lambda>d. doc_front_matter d \<and> md_owner (doc_metadata d) = None) docs)"

definition dangling_references :: "knowledge_graph \<Rightarrow> issue list" where
  "dangling_references g =
     List.map (\<lambda>n. mk_issue ''warning'' ''dangling-reference''
        (''Graph target '' @ quoted (gn_id n) @ '' is not declared in the document registry.'') (Some (gn_id n)))
       (filter (\<lambda>n. gn_type n = ''reference'') (kg_nodes g))"

fun duplicate_ids :: "string \<Rightarrow> string set \<Rightarrow> string list \<Rightarrow> issue list" where
  "duplicate_ids kind seen [] = []"
| "duplicate_ids kind seen (i # is) =
     (if i \<in> seen
      then [mk_issue ''error'' (''duplicate-'' @ kind @ ''-id'') (''Duplicate '' @ kind @ '' ID '' @ quoted i @ ''.'') None]
      else [])
     @ duplicate_ids kind (insert i seen) is"

definition missing_references :: "string list \<Rightarrow> (string \<Rightarrow> 'e option) \<Rightarrow> string \<Rightarrow> issue list" where
  "missing_references references lookup source =
     List.map (\<lambda>r. mk_issue ''warning'' ''missing-reference''
        (source @ '' references '' @ quoted r @ '', which is not in the document registry.'') (Some source))
       (filter (\<lambda>r. lookup r = None) references)"

definition reference_issues :: "(string \<Rightarrow> 'e option) \<Rightarrow> task_map list \<Rightarrow> context_pack list \<Rightarrow> issue list" where
  "reference_issues lookup maps packs =
     concat (List.map (\<lambda>t. missing_references (tm_required t @ tm_optional t @ tm_documentation t) lookup (tm_id t)) maps)
     @ concat (List.map (\<lambda>p. missing_references (cp_include p @ cp_optional p) lookup (cp_id p)) packs)"

definition failed_report :: "issue list \<Rightarrow> validation_report" where
  "failed_report is = \<lparr>vr_issues = is, vr_documents = 0, vr_task_maps = 0, vr_context_packs = 0\<rparr>"

definition document_issues :: "document list \<Rightarrow> knowledge_graph \<Rightarrow> issue list" where
  "document_issues docs g = duplicate_documents Map.empty (build_registry docs)
     @ missing_owners docs @ dangling_references g"

definition report_of ::
  "issue list \<Rightarrow> document list \<Rightarrow> knowledge_graph \<Rightarrow> task_map list \<times> issue list \<Rightarrow> context_pack list \<times> issue list
     \<Rightarrow> validation_report" where
  "report_of issues docs g maps packs =
     \<lparr>vr_issues = issues @ document_issues docs g @ snd maps @ snd packs
        @ duplicate_ids ''task-map'' {} (List.map tm_id (fst maps))
        @ duplicate_ids ''context-pack'' {} (List.map cp_id (fst packs))
        @ reference_issues (registry_lookup (build_registry docs)) (fst maps) (fst packs),
      vr_documents = length docs, vr_task_maps = length (fst maps), vr_context_packs = length (fst packs)\<rparr>"

definition legacy_issue :: "string list option \<Rightarrow> issue list" where
  "legacy_issue p = (if p = None then [mk_issue ''warning'' ''legacy-project''
     ''No v2 manifest found; legacy documents are being indexed with derived metadata.'' None] else [])"

definition validate_project ::
  "yaml_parser \<Rightarrow> project_manifest validator \<Rightarrow> doc_metadata validator \<Rightarrow> task_map validator
     \<Rightarrow> context_pack validator \<Rightarrow> 'z tree_scheme \<Rightarrow> exn + validation_report" where
  "validate_project yaml vman vdoc vmap vpack tr =
     (case load_manifest yaml vman tr of
        Inl (DocumentParseError why) \<Rightarrow> Inr (failed_report [mk_issue ''error'' ''invalid-manifest'' why None])
      | Inl e \<Rightarrow> Inl e
      | Inr (m, p) \<Rightarrow>
          (case discover_documents yaml vdoc tr m of
             Inl (DocumentParseError why) \<Rightarrow>
               Inr (failed_report (legacy_issue p @ [mk_issue ''error'' ''invalid-document'' why None]))
           | Inl e \<Rightarrow> Inl e
           | Inr docs \<Rightarrow>
               (case build_graph docs of Inl e \<Rightarrow> Inl e | Inr g \<Rightarrow>
               (case load_task_maps yaml vmap tr m of Inl e \<Rightarrow> Inl e | Inr maps \<Rightarrow>
               (case load_context_packs yaml vpack tr m of Inl e \<Rightarrow> Inl e | Inr packs \<Rightarrow>
                 Inr (report_of (legacy_issue p) docs g maps packs))))))"

section \<open>When a report is valid\<close>

definition only_errors :: "issue list \<Rightarrow> bool" where
  "only_errors is \<longleftrightarrow> (\<forall>i \<in> set is. vi_severity i = ''error'')"

definition no_errors :: "issue list \<Rightarrow> bool" where
  "no_errors is \<longleftrightarrow> (\<forall>i \<in> set is. vi_severity i \<noteq> ''error'')"

lemma no_errors_append [simp]: "no_errors (xs @ ys) \<longleftrightarrow> no_errors xs \<and> no_errors ys"
  by (auto simp: no_errors_def)

lemma no_errors_only: "only_errors is \<Longrightarrow> no_errors is \<longleftrightarrow> is = []"
  by (cases "is") (auto simp: no_errors_def only_errors_def)

lemma report_valid_iff: "report_valid r \<longleftrightarrow> no_errors (vr_issues r)"
  by (simp add: report_valid_def report_errors_def no_errors_def filter_empty_conv)

lemma only_errors_duplicate_documents: "only_errors (duplicate_documents seen es)"
  by (induction es arbitrary: seen) (auto simp: only_errors_def mk_issue_def split: option.split)

lemma only_errors_duplicate_ids: "only_errors (duplicate_ids kind seen is)"
  by (induction "is" arbitrary: seen) (auto simp: only_errors_def mk_issue_def)

lemma only_errors_load_each: "load_each yaml valid es = Inr (ms, is) \<Longrightarrow> only_errors is"
proof (induction es arbitrary: ms "is")
  case (Cons e es)
  show ?case
  proof (cases "load_each yaml valid es")
    case (Inl x)
    with Cons.prems show ?thesis by (auto split: sum.splits option.splits)
  next
    case (Inr p)
    obtain ms' is' where p: "p = (ms', is')" by (cases p)
    from Cons.IH [OF Inr [unfolded p]] Cons.prems Inr p show ?thesis
      by (auto simp: only_errors_def mk_issue_def split: sum.splits option.splits)
  qed
qed (simp add: only_errors_def)

lemma only_errors_load_models: "load_models yaml valid tr directory = Inr (ms, is) \<Longrightarrow> only_errors is"
  by (auto simp: load_models_def only_errors_load_each split: if_splits) (simp add: only_errors_def)

lemma warnings_no_errors [simp]:
  "no_errors (missing_owners docs)" "no_errors (dangling_references g)" "no_errors (legacy_issue p)"
  "no_errors (missing_references refs lookup src)"
  by (auto simp: no_errors_def missing_owners_def dangling_references_def legacy_issue_def missing_references_def
      mk_issue_def)

lemma reference_issues_no_errors [simp]: "no_errors (reference_issues lookup maps packs)"
proof -
  have "no_errors (missing_references refs lookup src)" for refs src by simp
  then show ?thesis by (fastforce simp: no_errors_def reference_issues_def)
qed

lemma duplicate_documents_Nil:
  "duplicate_documents seen es = [] \<longleftrightarrow> distinct (List.map re_id es) \<and> (\<forall>e \<in> set es. seen (re_id e) = None)"
proof (induction es arbitrary: seen)
  case (Cons e es)
  show ?case
    using Cons.IH [of "seen(re_id e \<mapsto> re_path e)"] by (cases "seen (re_id e)") (auto simp: image_iff fun_upd_def)
qed simp

lemma duplicate_ids_Nil: "duplicate_ids kind seen is = [] \<longleftrightarrow> distinct is \<and> set is \<inter> seen = {}"
  by (induction "is" arbitrary: seen) auto

lemma registry_ids_distinct:
  "distinct (List.map re_id (build_registry docs)) \<longleftrightarrow> distinct (List.map (md_id \<circ> doc_metadata) docs)"
proof -
  have "mset (List.map re_id (build_registry docs)) = mset (List.map (md_id \<circ> doc_metadata) docs)"
    by (simp add: build_registry_def entry_of_def Let_def multiset.map_comp comp_def)
  then show ?thesis by (rule mset_eq_imp_distinct_iff)
qed

lemma report_of_valid:
  assumes "only_errors mi" and "only_errors ki"
  shows "report_valid (report_of (legacy_issue p) docs g (maps, mi) (packs, ki))
    \<longleftrightarrow> mi = [] \<and> ki = [] \<and> distinct (List.map (md_id \<circ> doc_metadata) docs)
        \<and> distinct (List.map tm_id maps) \<and> distinct (List.map cp_id packs)"
  using assms
  by (auto simp: report_valid_iff report_of_def document_issues_def no_errors_only only_errors_duplicate_documents
      only_errors_duplicate_ids duplicate_documents_Nil duplicate_ids_Nil registry_ids_distinct)

lemma failed_report_invalid:
  "\<not> report_valid (failed_report (is @ [mk_issue ''error'' c w x]))" "\<not> report_valid (failed_report [mk_issue ''error'' c w x])"
  by (simp_all add: report_valid_iff failed_report_def no_errors_def mk_issue_def)

text \<open>C28. A report is valid exactly when the manifest and the documents load, no identifier is used by two
  documents, and every task map and context pack loads, without repeated identifiers: a missing owner,
  a dangling reference or a missing manifest never makes it invalid.\<close>

theorem valid_report_iff:
  assumes "validate_project yaml vman vdoc vmap vpack tr = Inr r"
  shows "report_valid r \<longleftrightarrow>
    (\<exists>m p docs maps packs. load_manifest yaml vman tr = Inr (m, p) \<and> discover_documents yaml vdoc tr m = Inr docs
       \<and> load_task_maps yaml vmap tr m = Inr (maps, []) \<and> load_context_packs yaml vpack tr m = Inr (packs, [])
       \<and> distinct (List.map (md_id \<circ> doc_metadata) docs)
       \<and> distinct (List.map tm_id maps) \<and> distinct (List.map cp_id packs))"
proof (cases "\<exists>m p docs. load_manifest yaml vman tr = Inr (m, p) \<and> discover_documents yaml vdoc tr m = Inr docs")
  case True
  then obtain m p docs where md: "load_manifest yaml vman tr = Inr (m, p)" "discover_documents yaml vdoc tr m = Inr docs"
    by blast
  with assms obtain g maps mi packs ki where l: "build_graph docs = Inr g"
    "load_task_maps yaml vmap tr m = Inr (maps, mi)" "load_context_packs yaml vpack tr m = Inr (packs, ki)"
    "r = report_of (legacy_issue p) docs g (maps, mi) (packs, ki)"
    by (auto simp: validate_project_def split: sum.splits)
  from l(2,3) have "only_errors mi" "only_errors ki"
    by (auto simp: load_task_maps_def load_context_packs_def dest: only_errors_load_models)
  with md l show ?thesis by (simp add: report_of_valid)
next
  case False
  with assms have "\<not> report_valid r"
    by (auto simp: validate_project_def failed_report_invalid split: sum.splits exn.splits)
  with False show ?thesis by blast
qed

definition sample_report :: "(string \<times> string) list \<Rightarrow> exn + validation_report" where
  "sample_report files = validate_project no_yaml (\<lambda>_. Inl []) (\<lambda>_. Inl []) (\<lambda>_. Inl []) (\<lambda>_. Inl []) (sample_tree files)"

lemma sample_loads:
  "load_manifest no_yaml (\<lambda>_. Inl []) (sample_tree [(''a-b.md'', ''# A''), (''a_b.md'', ''# B'')])
     = Inr (default_manifest [(''name'', ''p'')], None)"
  "discover_documents no_yaml (\<lambda>_. Inl []) (sample_tree [(''a-b.md'', ''# A''), (''a_b.md'', ''# B'')])
       (default_manifest [(''name'', ''p'')])
     = Inr [\<lparr>doc_path = [''p'', ''docs'', ''a-b.md''], doc_relative = ''docs/a-b.md'',
             doc_metadata = projr (legacy_metadata ''docs/a-b.md'' ''docs'' ''# A'' [] (default_manifest [])),
             doc_body = ''# A'', doc_front_matter = False\<rparr>,
            \<lparr>doc_path = [''p'', ''docs'', ''a_b.md''], doc_relative = ''docs/a_b.md'',
             doc_metadata = projr (legacy_metadata ''docs/a_b.md'' ''docs'' ''# B'' [] (default_manifest [])),
             doc_body = ''# B'', doc_front_matter = False\<rparr>]"
  "load_task_maps no_yaml (\<lambda>_. Inl []) (sample_tree [(''a-b.md'', ''# A''), (''a_b.md'', ''# B'')])
     (default_manifest [(''name'', ''p'')]) = Inr ([], [])"
  "load_context_packs no_yaml (\<lambda>_. Inl []) (sample_tree [(''a-b.md'', ''# A''), (''a_b.md'', ''# B'')])
     (default_manifest [(''name'', ''p'')]) = Inr ([], [])"
  by code_simp+

lemma sample_titles:
  "md_id (projr (legacy_metadata ''docs/a-b.md'' ''docs'' ''# A'' [] (default_manifest []))) = ''DOC-DOCS-A-B''"
  "md_id (projr (legacy_metadata ''docs/a_b.md'' ''docs'' ''# B'' [] (default_manifest []))) = ''DOC-DOCS-A-B''"
  "md_related (projr (legacy_metadata ''docs/a-b.md'' ''docs'' ''# A'' [] (default_manifest []))) = []"
  "md_related (projr (legacy_metadata ''docs/a_b.md'' ''docs'' ''# B'' [] (default_manifest []))) = []"
  "md_invariants (projr (legacy_metadata ''docs/a-b.md'' ''docs'' ''# A'' [] (default_manifest []))) = []"
  "md_invariants (projr (legacy_metadata ''docs/a_b.md'' ''docs'' ''# B'' [] (default_manifest []))) = []"
  by code_simp+

theorem valid_report_iff_witness:
  "\<exists>r. sample_report [(''a-b.md'', ''# A''), (''a_b.md'', ''# B'')] = Inr r \<and> \<not> report_valid r"
proof -
  obtain r where r: "sample_report [(''a-b.md'', ''# A''), (''a_b.md'', ''# B'')] = Inr r"
    by (cases "sample_report [(''a-b.md'', ''# A''), (''a_b.md'', ''# B'')]")
      (simp_all add: sample_report_def validate_project_def sample_loads build_graph_def edges_of_def sample_titles)
  moreover have "\<not> report_valid r"
    unfolding valid_report_iff [OF r [unfolded sample_report_def]]
    by (simp add: sample_loads sample_titles)
  ultimately show ?thesis by blast
qed

end
