(* ===== verification/ContextPlans.thy ===== *)
theory ContextPlans
  imports DocValidation
begin

text \<open>
  Planning which documents an agent reads for an intent, and which documents a change affects
  (\<open>evolution/context.py\<close>). The hash of the plan's identifier and Git's two listings are parameters; the
  factor 1.6 of a budget is exact.
\<close>

section \<open>Records\<close>

record context_budget =
  cb_name :: string
  cb_target :: int
  cb_max :: int

record context_item =
  ci_id :: string
  ci_path :: "string option"
  ci_reason :: string
  ci_tokens :: int
  ci_required :: bool

record context_plan =
  cx_id :: string
  cx_intent :: string
  cx_profile :: string
  cx_risk :: doc_risk
  cx_budget :: context_budget
  cx_estimated :: int
  cx_required :: "context_item list"
  cx_optional :: "context_item list"
  cx_excluded :: "string list"
  cx_levels :: "(string \<times> string list) list"
  cx_stop :: "string list"
  cx_explanations :: "(string \<times> string) list"

section \<open>Budgets\<close>

datatype budget_arg = NoBudget | Tokens int | Named string

definition DEFAULT_BUDGETS :: "(string \<times> int \<times> int) list" where
  "DEFAULT_BUDGETS = [(''small'', 8000, 12000), (''medium'', 20000, 32000), (''large'', 48000, 80000)]"

text \<open>The constructor of \<open>ContextBudget\<close> with its validators.\<close>

definition mk_budget :: "string \<Rightarrow> int \<Rightarrow> int \<Rightarrow> exn + context_budget" where
  "mk_budget name target maximum =
     (if target \<le> 0 \<or> maximum \<le> 0 then Inl (ValidationError ''Input should be greater than 0'')
      else if maximum < target
      then Inl (ValidationError ''max_tokens must be greater than or equal to target_tokens'')
      else Inr \<lparr>cb_name = name, cb_target = target, cb_max = maximum\<rparr>)"

definition budget_of_tokens :: "int \<Rightarrow> exn + context_budget" where
  "budget_of_tokens n =
     (if n \<le> 0 then Inl (ValueError ''context budget must be positive'')
      else mk_budget ''custom'' n (n * 8 div 5))"

definition budget_of_name :: "string \<Rightarrow> exn + context_budget" where
  "budget_of_name s =
     (if s \<noteq> [] \<and> list_all is_digit s then budget_of_tokens (the (unsigned_value s))
      else case map_of DEFAULT_BUDGETS s of
        None \<Rightarrow> Inl (ValueError (''unknown context budget '' @ quoted s))
      | Some (target, maximum) \<Rightarrow> mk_budget s target maximum)"

definition budget_for :: "budget_arg \<Rightarrow> string \<Rightarrow> exn + context_budget" where
  "budget_for b dflt =
     (case b of NoBudget \<Rightarrow> budget_of_name dflt | Tokens n \<Rightarrow> budget_of_tokens n | Named s \<Rightarrow> budget_of_name s)"

section \<open>Matching words\<close>

text \<open>\<open>re.findall("[a-z0-9][a-z0-9_-]+", s)\<close>: \<open>run\<close> is the reversed match in progress.\<close>

definition word_start :: "char \<Rightarrow> bool" where
  "word_start c \<longleftrightarrow> is_alnum c \<and> lower_char c = c"

definition word_part :: "char \<Rightarrow> bool" where
  "word_part c \<longleftrightarrow> word_start c \<or> c = CHR ''_'' \<or> c = CHR ''-''"

fun find_words :: "string \<Rightarrow> string \<Rightarrow> string list" where
  "find_words run [] = (if length run > 1 then [rev run] else [])"
| "find_words run (c # cs) =
     (if run = [] then (if word_start c then find_words [c] cs else find_words [] cs)
      else if word_part c then find_words (c # run) cs
      else (if length run > 1 then [rev run] else []) @ find_words [] cs)"

definition terms_of :: "string \<Rightarrow> string list" where
  "terms_of intent = remdups (filter (\<lambda>t. length t > 2) (find_words [] (lower intent)))"

text \<open>\<open>s.count(t)\<close> without overlaps, and the first \<open>n\<close> code points.\<close>

function count_sub :: "string \<Rightarrow> string \<Rightarrow> nat" where
  "count_sub t s =
     (if t = [] \<or> length s < length t then 0
      else if starts_with s t then Suc (count_sub t (drop (length t) s))
      else count_sub t (tl s))"
  by pat_completeness auto
termination
  by (relation "measure (\<lambda>(t, s). length s)") (auto simp: neq_Nil_conv)

declare count_sub.simps [simp del]

fun take_chars :: "nat \<Rightarrow> string \<Rightarrow> string" where
  "take_chars n [] = []"
| "take_chars n (c # cs) =
     (if 128 \<le> (of_char c :: nat) \<and> (of_char c :: nat) < 192 then c # take_chars n cs
      else case n of 0 \<Rightarrow> [] | Suc k \<Rightarrow> c # take_chars k cs)"

definition haystack :: "document \<Rightarrow> string" where
  "haystack d = lower (join '' '' [md_title (doc_metadata d), doc_relative d, join '' '' (md_tags (doc_metadata d)),
     take_chars 20000 (doc_body d)])"

definition score_document :: "document \<Rightarrow> string list \<Rightarrow> nat" where
  "score_document d terms = sum_list (List.map (\<lambda>t. count_sub t (haystack d)) terms)"

definition tokens_for_document :: "document \<Rightarrow> int" where
  "tokens_for_document d =
     (case md_estimated_tokens (doc_metadata d) of
        Some n \<Rightarrow> if n \<noteq> 0 then n else estimate_tokens (doc_body d)
      | None \<Rightarrow> estimate_tokens (doc_body d))"

definition find_task_map :: "task_map list \<Rightarrow> string \<Rightarrow> task_map option" where
  "find_task_map maps intent =
     (case find (\<lambda>t. lower (tm_intent t) = lower (strip intent)) maps of
        Some t \<Rightarrow> Some t
      | None \<Rightarrow>
          (case sort_key tm_id (filter (\<lambda>t. set (terms_of intent) \<inter> set (terms_of (tm_intent t)) \<noteq> {}) maps) of
             [] \<Rightarrow> None | t # _ \<Rightarrow> Some t))"

section \<open>Items\<close>

definition document_at :: "document list \<Rightarrow> string \<Rightarrow> document option" where
  "document_at docs relative = find (\<lambda>d. doc_relative d = relative) (rev docs)"

definition resolve_reference :: "string \<Rightarrow> (string \<Rightarrow> registry_entry option) \<Rightarrow> registry_entry option" where
  "resolve_reference reference lookup =
     (case lookup reference of
        Some e \<Rightarrow> Some e
      | None \<Rightarrow> lookup (dropWhile (\<lambda>c. c = CHR ''.'' \<or> c = CHR ''/'') reference))"

definition item_for_reference ::
  "document list \<Rightarrow> string \<Rightarrow> bool \<Rightarrow> string \<Rightarrow> exn + context_item" where
  "item_for_reference docs reason required reference =
     (case resolve_reference reference (registry_lookup (build_registry docs)) of
        None \<Rightarrow> Inr \<lparr>ci_id = reference, ci_path = None, ci_reason = reason @ ''; reference not indexed'',
                   ci_tokens = 0, ci_required = required\<rparr>
      | Some e \<Rightarrow>
          (case document_at docs (re_path e) of
             None \<Rightarrow> Inl (KeyError (re_path e))
           | Some d \<Rightarrow> Inr \<lparr>ci_id = re_id e, ci_path = Some (re_path e), ci_reason = reason,
                          ci_tokens = tokens_for_document d, ci_required = required\<rparr>))"

definition add_unique :: "context_item list \<Rightarrow> context_item \<Rightarrow> context_item list" where
  "add_unique items c = (if list_all (\<lambda>i. ci_id i \<noteq> ci_id c) items then items @ [c] else items)"

fun add_references ::
  "document list \<Rightarrow> string \<Rightarrow> bool \<Rightarrow> string list \<Rightarrow> context_item list \<Rightarrow> exn + context_item list" where
  "add_references docs reason required [] items = Inr items"
| "add_references docs reason required (r # rs) items =
     (case item_for_reference docs reason required r of
        Inl e \<Rightarrow> Inl e
      | Inr i \<Rightarrow> add_references docs reason required rs (add_unique items i))"

text \<open>The two L0 documents, read from the root when they are there.\<close>

definition L0_REFERENCES :: "(string \<times> string list \<times> string) list" where
  "L0_REFERENCES = [(''AGENTS.md'', [''AGENTS.md''], ''L0 project contract''),
     (''docs/ATLAS.md'', [''docs'', ''ATLAS.md''], ''L0 intent router'')]"

fun add_level0 ::
  "'z tree_scheme \<Rightarrow> (string \<times> string list \<times> string) list \<Rightarrow> context_item list \<Rightarrow> exn + context_item list" where
  "add_level0 tr [] items = Inr items"
| "add_level0 tr ((reference, parts, reason) # rs) items =
     (case entry_at tr (tr_root tr @ parts) of
        None \<Rightarrow> add_level0 tr rs items
      | Some (Text text) \<Rightarrow> add_level0 tr rs (add_unique items \<lparr>ci_id = reference, ci_path = Some reference,
            ci_reason = reason, ci_tokens = estimate_tokens text, ci_required = True\<rparr>)
      | Some (Unreadable why) \<Rightarrow> Inl (OSError why)
      | Some (NotUtf8 why) \<Rightarrow> Inl (ValueError why))"

definition lexical_order :: "document list \<Rightarrow> string list \<Rightarrow> document list" where
  "lexical_order docs terms = sort_key (\<lambda>d. (- int (score_document d terms), doc_relative d)) docs"

definition lexical_item :: "document \<Rightarrow> context_item" where
  "lexical_item d = \<lparr>ci_id = md_id (doc_metadata d), ci_path = Some (doc_relative d),
     ci_reason = ''lexical match for intent'', ci_tokens = tokens_for_document d, ci_required = False\<rparr>"

definition add_lexical :: "document list \<Rightarrow> string list \<Rightarrow> context_item list \<Rightarrow> context_item list \<Rightarrow> context_item list" where
  "add_lexical docs terms required optional =
     fold (\<lambda>d items. if score_document d terms = 0 then items
        else if md_id (doc_metadata d) \<notin> ci_id ` set required then add_unique items (lexical_item d) else items)
       (lexical_order docs terms) optional"

fun fill :: "int \<Rightarrow> context_item list \<Rightarrow> int \<Rightarrow> context_item list \<times> int" where
  "fill target [] sofar = ([], sofar)"
| "fill target (i # is) sofar =
     (if sofar + ci_tokens i > target then ([], sofar)
      else let (taken, t) = fill target is (sofar + ci_tokens i) in (i # taken, t))"

section \<open>The plan\<close>

definition sum_tokens :: "context_item list \<Rightarrow> int" where
  "sum_tokens is = sum_list (List.map ci_tokens is)"

definition is_level0 :: "context_item \<Rightarrow> bool" where
  "is_level0 i \<longleftrightarrow> ci_path i = Some ''AGENTS.md'' \<or> ci_path i = Some ''docs/ATLAS.md''"

definition plan_levels :: "task_map option \<Rightarrow> context_item list \<Rightarrow> context_item list \<Rightarrow> (string \<times> string list) list" where
  "plan_levels tm required optional =
     [(''L0'', List.map ci_id (filter is_level0 required)),
      (''L1'', case tm of None \<Rightarrow> [] | Some t \<Rightarrow> [tm_id t]),
      (''L2'', List.map ci_id (filter (\<lambda>i. \<not> is_level0 i) (required @ optional))),
      (''L3'', [])]"

definition choose_budget :: "budget_arg \<Rightarrow> context_pack option \<Rightarrow> project_manifest \<Rightarrow> exn + context_budget" where
  "choose_budget budget pack m =
     (case (budget, pack) of
        (NoBudget, Some p) \<Rightarrow>
          (case (map_of (cp_budget p) ''target_tokens'', map_of (cp_budget p) ''max_tokens'') of
             (Some target, Some maximum) \<Rightarrow> mk_budget (cp_id p) target maximum
           | _ \<Rightarrow> budget_for budget (mf_default_budget m))
      | _ \<Rightarrow> budget_for budget (mf_default_budget m))"

text \<open>The items of the task map and the pack, in the order they are added: required, then optional.\<close>

definition map_references ::
  "document list \<Rightarrow> task_map option \<Rightarrow> context_item list \<Rightarrow> exn + (context_item list \<times> context_item list)" where
  "map_references docs tm level0 =
     (case tm of
        None \<Rightarrow> Inr (level0, [])
      | Some t \<Rightarrow>
          (case add_references docs (''required by '' @ tm_id t) True (tm_required t) level0 of
             Inl e \<Rightarrow> Inl e
           | Inr req \<Rightarrow> map_sum id (Pair req)
               (add_references docs (''optional in '' @ tm_id t) False (tm_optional t) [])))"

definition pack_references ::
  "document list \<Rightarrow> context_pack option \<Rightarrow> context_item list \<times> context_item list
     \<Rightarrow> exn + (context_item list \<times> context_item list)" where
  "pack_references docs pack selected =
     (case pack of
        None \<Rightarrow> Inr selected
      | Some p \<Rightarrow>
          (case add_references docs (''included by '' @ cp_id p) True (cp_include p) (fst selected) of
             Inl e \<Rightarrow> Inl e
           | Inr req \<Rightarrow> map_sum id (Pair req)
               (add_references docs (''optional in '' @ cp_id p) False (cp_optional p) (snd selected))))"

definition referenced ::
  "document list \<Rightarrow> task_map option \<Rightarrow> context_pack option \<Rightarrow> context_item list
     \<Rightarrow> exn + (context_item list \<times> context_item list)" where
  "referenced docs tm pack level0 =
     (case map_references docs tm level0 of Inl e \<Rightarrow> Inl e | Inr selected \<Rightarrow> pack_references docs pack selected)"

definition assemble ::
  "(string \<Rightarrow> string) \<Rightarrow> string \<Rightarrow> string \<Rightarrow> context_budget \<Rightarrow> task_map option \<Rightarrow> context_pack option
     \<Rightarrow> context_item list \<Rightarrow> context_item list \<Rightarrow> context_plan" where
  "assemble sha intent profile b tm pack required candidates =
     (let required_tokens = sum_tokens required;
          (optional, sofar) = fill (cb_target b) candidates required_tokens;
          selected = join '','' (List.map ci_id (required @ optional))
      in \<lparr>cx_id = ''CTXPLAN-'' @ take 12 (sha (intent @ ''|'' @ profile @ ''|'' @ cb_name b @ ''|'' @ selected)),
          cx_intent = intent, cx_profile = profile,
          cx_risk = (case tm of None \<Rightarrow> RISK_LOW | Some t \<Rightarrow> tm_risk t), cx_budget = b,
          cx_estimated = sofar, cx_required = required, cx_optional = optional,
          cx_excluded = dedup ((case tm of None \<Rightarrow> [] | Some t \<Rightarrow> tm_usually_dont_touch t)
             @ (case pack of None \<Rightarrow> [] | Some p \<Rightarrow> cp_exclude p)),
          cx_levels = plan_levels tm required optional,
          cx_stop = [''contracts-located'', ''implementation-surface-known'', ''tests-known'']
             @ (if required_tokens > cb_max b then [''required-context-exceeds-budget''] else []),
          cx_explanations = dict_update [] (List.map (\<lambda>i. (ci_id i, ci_reason i)) (required @ optional))\<rparr>)"

definition plan_context ::
  "(string \<Rightarrow> string) \<Rightarrow> yaml_parser \<Rightarrow> project_manifest validator \<Rightarrow> doc_metadata validator \<Rightarrow> task_map validator
     \<Rightarrow> context_pack validator \<Rightarrow> 'z tree_scheme \<Rightarrow> string \<Rightarrow> budget_arg \<Rightarrow> string \<Rightarrow> exn + context_plan" where
  "plan_context sha yaml vman vdoc vmap vpack tr intent budget profile =
     (if strip intent = [] then Inl (ValueError ''context intent must not be empty'')
      else
       (case load_project_index yaml vman vdoc tr of Inl e \<Rightarrow> Inl e | Inr (m, docs, _, _) \<Rightarrow>
       (case load_task_maps yaml vmap tr m of Inl e \<Rightarrow> Inl e | Inr (maps, _) \<Rightarrow>
       (case load_context_packs yaml vpack tr m of Inl e \<Rightarrow> Inl e | Inr (packs, _) \<Rightarrow>
         let tm = find_task_map maps intent;
             pack = find (\<lambda>p. lower (cp_intent p) = lower intent) packs in
         (case add_level0 tr L0_REFERENCES [] of Inl e \<Rightarrow> Inl e | Inr level0 \<Rightarrow>
         (case referenced docs tm pack level0 of Inl e \<Rightarrow> Inl e | Inr (required, optional) \<Rightarrow>
         (case choose_budget budget pack m of Inl e \<Rightarrow> Inl e | Inr b \<Rightarrow>
           Inr (assemble sha intent profile b tm pack required
                  (add_lexical docs (terms_of intent) required optional)))))))))"

section \<open>Impact\<close>

record impact_item =
  im_path :: string
  im_reason :: string
  im_relation :: string

record impact_report =
  ir_changed :: "string list"
  ir_risk :: string
  ir_read :: "impact_item list"
  ir_possible :: "impact_item list"
  ir_warnings :: "string list"

definition mk_impact :: "string \<Rightarrow> string \<Rightarrow> string \<Rightarrow> impact_item" where
  "mk_impact path reason relation = \<lparr>im_path = path, im_reason = reason, im_relation = relation\<rparr>"

text \<open>Git's two listings; a command that fails counts as nothing.\<close>

definition changed_files :: "string option list \<Rightarrow> string list" where
  "changed_files outputs = sort (remdups (concat (List.map (\<lambda>out. case out of None \<Rightarrow> []
     | Some text \<Rightarrow> filter (\<lambda>l. l \<noteq> []) (List.map strip (splitlines text))) outputs)))"

type_synonym impacts = "((string \<times> string) \<times> impact_item) list"

definition entry_by_id :: "registry_entry list \<Rightarrow> string \<Rightarrow> registry_entry option" where
  "entry_by_id es i = find (\<lambda>e. re_id e = i) (rev es)"

definition add_neighbor :: "registry_entry list \<Rightarrow> string \<Rightarrow> graph_edge \<Rightarrow> impacts \<Rightarrow> impacts" where
  "add_neighbor es changed edge possible =
     (if ge_source edge = changed \<or> ge_target edge = changed
      then (case entry_by_id es (if ge_source edge = changed then ge_target edge else ge_source edge) of
          None \<Rightarrow> possible
        | Some n \<Rightarrow> AList.update (re_path n, ge_relation edge)
            (mk_impact (re_path n) (''graph relation: '' @ ge_relation edge) (ge_relation edge)) possible)
      else possible)"

definition mentions :: "string \<Rightarrow> document \<Rightarrow> bool" where
  "mentions changed d \<longleftrightarrow> contains (doc_body d) changed
     \<or> (let stem = lower (path_stem (parts_of changed)) in stem \<noteq> [] \<and> contains (lower (doc_body d)) stem)"

definition add_mention :: "string \<Rightarrow> document \<Rightarrow> impacts \<Rightarrow> impacts" where
  "add_mention changed d possible =
     (if mentions changed d
      then AList.update (doc_relative d, ''text'') (mk_impact (doc_relative d) (''mentions '' @ changed) ''text'') possible
      else possible)"

definition impact_of_path ::
  "document list \<Rightarrow> registry_entry list \<Rightarrow> knowledge_graph \<Rightarrow> string \<Rightarrow> impacts \<times> impacts \<Rightarrow> impacts \<times> impacts" where
  "impact_of_path docs es g changed = (\<lambda>(read, possible).
     let (read', possible') =
       (case find (\<lambda>e. re_path e = changed) (rev es) of
          None \<Rightarrow> (read, possible)
        | Some e \<Rightarrow>
            (let changed_id = re_id e; entry = the (entry_by_id es changed_id) in
             (AList.update (re_path entry, ''direct'') (mk_impact (re_path entry) ''changed document'' ''direct'') read,
              fold (add_neighbor es changed_id) (kg_edges g) possible)))
     in (read', fold (add_mention changed) docs possible'))"

definition impact_report_of ::
  "document list \<Rightarrow> registry_entry list \<Rightarrow> knowledge_graph \<Rightarrow> string list \<Rightarrow> impact_report" where
  "impact_report_of docs es g changed =
     (let (read, possible) = fold (impact_of_path docs es g) changed ([], []);
          possible' = fold (\<lambda>(k, _). AList.delete k) read possible
      in \<lparr>ir_changed = changed,
          ir_risk = (if length changed > 10 then ''high'' else if changed \<noteq> [] then ''medium'' else ''low''),
          ir_read = sort_key im_path (List.map snd read),
          ir_possible = sort_key im_path (List.map snd possible'),
          ir_warnings = (if changed = [] then [''No changed paths detected.''] else [])\<rparr>)"

definition analyze_impact ::
  "yaml_parser \<Rightarrow> project_manifest validator \<Rightarrow> doc_metadata validator \<Rightarrow> string option list \<Rightarrow> 'z tree_scheme
     \<Rightarrow> string list \<Rightarrow> exn + impact_report" where
  "analyze_impact yaml vman vdoc outputs tr paths =
     (case load_project_index yaml vman vdoc tr of Inl e \<Rightarrow> Inl e | Inr (_, docs, es, g) \<Rightarrow>
       Inr (impact_report_of docs es g (sort (remdups (if paths \<noteq> [] then paths else changed_files outputs)))))"

section \<open>What a plan holds\<close>

lemma fill_spec:
  "fill target is sofar = (taken, t) \<Longrightarrow>
     prefix taken is \<and> t = sofar + sum_tokens taken
     \<and> (taken = [] \<or> t \<le> target)
     \<and> (\<forall>i rest. is = taken @ i # rest \<longrightarrow> target < t + ci_tokens i)"
proof (induction "is" arbitrary: sofar taken t)
  case (Cons i "is")
  show ?case
  proof (cases "sofar + ci_tokens i > target")
    case True
    with Cons.prems show ?thesis by (simp add: sum_tokens_def)
  next
    case False
    obtain tk t' where f: "fill target is (sofar + ci_tokens i) = (tk, t')" by fastforce
    with Cons.prems False have r: "taken = i # tk" "t = t'" by simp_all
    from Cons.IH [OF f] False show ?thesis
      by (cases "tk = []") (auto simp: r sum_tokens_def)
  qed
qed (simp add: sum_tokens_def)

definition unique_ids :: "context_item list \<Rightarrow> bool" where
  "unique_ids is \<longleftrightarrow> distinct (List.map ci_id is)"

lemma add_unique_ids [intro]: "unique_ids is \<Longrightarrow> unique_ids (add_unique is c)"
  by (auto simp: unique_ids_def add_unique_def list_all_iff)

lemma add_unique_mono: "set is \<subseteq> set (add_unique is c)"
  by (auto simp: add_unique_def)

lemma add_unique_has: "\<exists>i \<in> set (add_unique is c). ci_id i = ci_id c"
  by (auto simp: add_unique_def list_all_iff)

text \<open>The item of a reference is among the selected, or another with the same identifier.\<close>

definition item_listed :: "document list \<Rightarrow> string \<Rightarrow> bool \<Rightarrow> context_item list \<Rightarrow> string \<Rightarrow> bool" where
  "item_listed docs reason req is r \<longleftrightarrow>
     (\<exists>c. item_for_reference docs reason req r = Inr c \<and> ci_id c \<in> ci_id ` set is)"

lemma item_listed_mono: "item_listed docs reason req is r \<Longrightarrow> set is \<subseteq> set is' \<Longrightarrow> item_listed docs reason req is' r"
  unfolding item_listed_def by (meson image_mono subsetD)

lemma add_references_spec:
  "add_references docs reason req rs is = Inr is' \<Longrightarrow>
     (unique_ids is \<longrightarrow> unique_ids is') \<and> set is \<subseteq> set is' \<and> list_all (item_listed docs reason req is') rs"
proof (induction rs arbitrary: "is")
  case (Cons r rs)
  then obtain c where c: "item_for_reference docs reason req r = Inr c"
    "add_references docs reason req rs (add_unique is c) = Inr is'"
    by (auto split: sum.splits)
  have "item_listed docs reason req (add_unique is c) r"
    using c(1) add_unique_has [of "is" c] unfolding item_listed_def by (metis image_eqI)
  with Cons.IH [OF c(2)] have "item_listed docs reason req is' r"
    by (meson item_listed_mono)
  with Cons.IH [OF c(2)] add_unique_mono [of "is" c] add_unique_ids [of "is" c] show ?case
    by simp blast
qed simp

lemma add_level0_ids: "add_level0 tr rs is = Inr is' \<Longrightarrow> unique_ids is \<Longrightarrow> unique_ids is'"
proof (induction rs arbitrary: "is")
  case (Cons r rs)
  then show ?case
    by (cases r) (auto split: option.splits text_file.splits)
qed simp

lemma add_lexical_ids: "unique_ids opt \<Longrightarrow> unique_ids (add_lexical docs terms req opt)"
proof -
  have "unique_ids opt \<Longrightarrow> unique_ids (fold (\<lambda>d items. if score_document d terms = 0 then items
        else if md_id (doc_metadata d) \<notin> ci_id ` set req then add_unique items (lexical_item d) else items) ds opt)" for ds
    by (induction ds arbitrary: opt) auto
  then show "unique_ids opt \<Longrightarrow> unique_ids (add_lexical docs terms req opt)"
    by (simp add: add_lexical_def)
qed

lemma unique_ids_Nil [simp]: "unique_ids []"
  by (simp add: unique_ids_def)

definition covers_required :: "document list \<Rightarrow> task_map option \<Rightarrow> context_item list \<Rightarrow> bool" where
  "covers_required docs tm req \<longleftrightarrow>
     (case tm of None \<Rightarrow> True | Some t \<Rightarrow> list_all (item_listed docs (''required by '' @ tm_id t) True req) (tm_required t))"

lemma map_references_spec:
  assumes "map_references docs tm level0 = Inr (req, opt)" and "unique_ids level0"
  shows "unique_ids req \<and> unique_ids opt \<and> set level0 \<subseteq> set req \<and> covers_required docs tm req"
proof (cases tm)
  case None
  with assms show ?thesis by (simp add: map_references_def covers_required_def)
next
  case (Some t)
  with assms(1) have r: "add_references docs (''required by '' @ tm_id t) True (tm_required t) level0 = Inr req"
    and o: "add_references docs (''optional in '' @ tm_id t) False (tm_optional t) [] = Inr opt"
    unfolding map_references_def by (auto simp: map_sum_Inr split: sum.splits)
  show ?thesis
    using add_references_spec [OF r] add_references_spec [OF o] assms(2)
    by (simp add: covers_required_def Some)
qed

lemma covers_required_mono: "covers_required docs tm req \<Longrightarrow> set req \<subseteq> set req' \<Longrightarrow> covers_required docs tm req'"
  by (auto simp: covers_required_def list_all_iff split: option.splits intro: item_listed_mono)

lemma pack_references_spec:
  assumes "pack_references docs pack (req, opt) = Inr (req', opt')" and "unique_ids req" and "unique_ids opt"
  shows "unique_ids req' \<and> unique_ids opt' \<and> set req \<subseteq> set req'"
  using assms
  by (auto simp: pack_references_def map_sum_Inr split: option.splits sum.splits dest!: add_references_spec)

lemma referenced_spec:
  assumes "referenced docs tm pack level0 = Inr (req, opt)" and "unique_ids level0"
  shows "unique_ids req \<and> unique_ids opt \<and> set level0 \<subseteq> set req \<and> covers_required docs tm req"
proof -
  obtain r1 o1 where m: "map_references docs tm level0 = Inr (r1, o1)" and p: "pack_references docs pack (r1, o1) = Inr (req, opt)"
    using assms(1) by (auto simp: referenced_def split: sum.splits)
  from map_references_spec [OF m assms(2)] pack_references_spec [OF p] show ?thesis
    by (blast intro: covers_required_mono)
qed

lemma budget_positive: "mk_budget n t x = Inr b \<Longrightarrow> 0 < cb_target b \<and> cb_target b \<le> cb_max b"
  by (auto simp: mk_budget_def split: if_splits)

lemma budget_for_positive: "budget_for a d = Inr b \<Longrightarrow> 0 < cb_target b \<and> cb_target b \<le> cb_max b"
  by (auto simp: budget_for_def budget_of_name_def budget_of_tokens_def dest!: budget_positive
      split: budget_arg.splits if_splits option.splits prod.splits)

lemma choose_budget_positive: "choose_budget a pack m = Inr b \<Longrightarrow> 0 < cb_target b \<and> cb_target b \<le> cb_max b"
  by (auto simp: choose_budget_def dest: budget_positive budget_for_positive split: budget_arg.splits option.splits)

lemma assemble_facts:
  fixes cp :: context_plan
  assumes "cp = assemble sha intent profile b tm pack required candidates"
  shows "cx_required cp = required" and "cx_budget cp = b"
    and "cx_estimated cp = sum_tokens required + sum_tokens (cx_optional cp)"
    and "cx_optional cp = [] \<or> cx_estimated cp \<le> cb_target b"
    and "prefix (cx_optional cp) candidates"
    and "\<And>i rest. candidates = cx_optional cp @ i # rest \<Longrightarrow> cb_target b < cx_estimated cp + ci_tokens i"
    and "''required-context-exceeds-budget'' \<in> set (cx_stop cp) \<longleftrightarrow> cb_max b < sum_tokens required"
proof -
  obtain opt t where f: "fill (cb_target b) candidates (sum_tokens required) = (opt, t)" by fastforce
  have o: "cx_optional cp = opt" "cx_estimated cp = t" "cx_required cp = required" "cx_budget cp = b"
    "cx_stop cp = [''contracts-located'', ''implementation-surface-known'', ''tests-known'']
             @ (if sum_tokens required > cb_max b then [''required-context-exceeds-budget''] else [])"
    by (simp_all add: assms assemble_def f Let_def)
  note s = fill_spec [OF f]
  show "cx_required cp = required" "cx_budget cp = b" by (fact o)+
  show "cx_estimated cp = sum_tokens required + sum_tokens (cx_optional cp)"
    "cx_optional cp = [] \<or> cx_estimated cp \<le> cb_target b" "prefix (cx_optional cp) candidates"
    using s by (auto simp: o)
  show "cb_target b < cx_estimated cp + ci_tokens i" if "candidates = cx_optional cp @ i # rest" for i rest
    using s that by (simp add: o)
  show "''required-context-exceeds-budget'' \<in> set (cx_stop cp) \<longleftrightarrow> cb_max b < sum_tokens required"
    by (simp add: o)
qed

text \<open>C30. A context plan fits its budget: what it estimates is the sum of its items, and unless only the
  required items are there it stays within the target, which is positive and at most the maximum; the
  optional items are a prefix of the candidates that cannot be longer; the required items, with unique
  identifiers, cover every document the chosen task map requires; and the plan says that the required
  context exceeds the budget exactly when it does.\<close>

theorem context_plan_fits:
  assumes "plan_context sha yaml vman vdoc vmap vpack tr intent budget profile = Inr cp"
  shows "cx_estimated cp = sum_tokens (cx_required cp) + sum_tokens (cx_optional cp)
    \<and> (cx_optional cp = [] \<or> cx_estimated cp \<le> cb_target (cx_budget cp))
    \<and> 0 < cb_target (cx_budget cp) \<and> cb_target (cx_budget cp) \<le> cb_max (cx_budget cp)
    \<and> distinct (List.map ci_id (cx_required cp)) \<and> distinct (List.map ci_id (cx_optional cp))
    \<and> (''required-context-exceeds-budget'' \<in> set (cx_stop cp) \<longleftrightarrow> cb_max (cx_budget cp) < sum_tokens (cx_required cp))
    \<and> (\<exists>m docs reg g maps mi candidates. load_project_index yaml vman vdoc tr = Inr (m, docs, reg, g)
         \<and> load_task_maps yaml vmap tr m = Inr (maps, mi)
         \<and> covers_required docs (find_task_map maps intent) (cx_required cp)
         \<and> prefix (cx_optional cp) candidates
         \<and> (\<forall>i rest. candidates = cx_optional cp @ i # rest \<longrightarrow> cb_target (cx_budget cp) < cx_estimated cp + ci_tokens i))"
proof -
  obtain m docs reg g maps mi packs ki level0 req opt b where
    l: "load_project_index yaml vman vdoc tr = Inr (m, docs, reg, g)" "load_task_maps yaml vmap tr m = Inr (maps, mi)"
    "add_level0 tr L0_REFERENCES [] = Inr level0"
    and r: "referenced docs (find_task_map maps intent) (find (\<lambda>p. lower (cp_intent p) = lower intent) packs) level0 = Inr (req, opt)"
    and b: "choose_budget budget (find (\<lambda>p. lower (cp_intent p) = lower intent) packs) m = Inr b"
    and cp: "cp = assemble sha intent profile b (find_task_map maps intent) (find (\<lambda>p. lower (cp_intent p) = lower intent) packs)
                req (add_lexical docs (terms_of intent) req opt)"
    using assms unfolding plan_context_def Let_def by (auto split: if_splits sum.splits)
  note a = assemble_facts [OF cp]
  note rs = referenced_spec [OF r add_level0_ids [OF l(3) unique_ids_Nil]]
  have "distinct (List.map ci_id (add_lexical docs (terms_of intent) req opt))"
    using add_lexical_ids rs unfolding unique_ids_def by blast
  then have "distinct (List.map ci_id (cx_optional cp))"
    using a(5) by (auto simp: prefix_def)
  moreover have "distinct (List.map ci_id req)" using rs unfolding unique_ids_def by blast
  moreover have "covers_required docs (find_task_map maps intent) req" using rs by blast
  ultimately show ?thesis
    using a choose_budget_positive [OF b] l(1,2) unfolding a(1,2)
    by (intro conjI exI [of _ m] exI [of _ docs] exI [of _ reg] exI [of _ g] exI [of _ maps] exI [of _ mi]
        exI [of _ "add_lexical docs (terms_of intent) req opt"]) auto
qed

definition sample_plan_of :: "string \<Rightarrow> budget_arg \<Rightarrow> exn + context_plan" where
  "sample_plan_of intent budget = plan_context (\<lambda>s. s) no_yaml (\<lambda>_. Inl []) (\<lambda>_. Inl []) (\<lambda>_. Inl []) (\<lambda>_. Inl [])
     (sample_tree [(''ATLAS.md'', ''# Atlas'')]) intent budget ''implementer''"

lemma sample_plan_exists: "\<not> isl (sample_plan_of ''go'' NoBudget)"
  by code_simp

theorem context_plan_fits_witness:
  "\<exists>cp. sample_plan_of ''go'' NoBudget = Inr cp
     \<and> cx_estimated cp = sum_tokens (cx_required cp) + sum_tokens (cx_optional cp)
     \<and> 0 < cb_target (cx_budget cp)"
proof -
  obtain cp where cp: "sample_plan_of ''go'' NoBudget = Inr cp"
    using sample_plan_exists by (cases "sample_plan_of ''go'' NoBudget") simp_all
  with context_plan_fits [OF cp [unfolded sample_plan_of_def]] show ?thesis by blast
qed

text \<open>A document may be selected twice, as required and as optional, and is then counted twice: the optional
  references of a task map are only compared with each other.\<close>

lemma add_single: "item_for_reference docs reason req r = Inr c \<Longrightarrow> add_references docs reason req [r] [] = Inr [c]"
  by (simp add: add_unique_def)

lemma counted_twice:
  assumes "item_for_reference docs (''required by '' @ tm_id t) True r = Inr i"
    and "item_for_reference docs (''optional in '' @ tm_id t) False r = Inr j"
    and "tm_required t = [r]" and "tm_optional t = [r]"
  shows "map_references docs (Some t) [] = Inr ([i], [j]) \<and> ci_id i = ci_id j"
proof
  show "map_references docs (Some t) [] = Inr ([i], [j])"
    by (simp only: map_references_def assms(3,4) add_single [OF assms(1)] add_single [OF assms(2)] option.case sum.case
        map_sum.simps)
  show "ci_id i = ci_id j"
    using assms(1,2) unfolding item_for_reference_def by (cases "resolve_reference r (registry_lookup (build_registry docs))")
      (auto split: option.splits)
qed

text \<open>Which task map is chosen does not depend on how well its words match, only on its identifier.\<close>

lemma task_map_by_identifier:
  assumes "find_task_map maps intent = Some t" and "\<forall>x \<in> set maps. lower (tm_intent x) \<noteq> lower (strip intent)"
    and "u \<in> set maps" and "set (terms_of intent) \<inter> set (terms_of (tm_intent u)) \<noteq> {}"
  shows "tm_id t \<le> tm_id u"
proof -
  let ?ms = "filter (\<lambda>t. set (terms_of intent) \<inter> set (terms_of (tm_intent t)) \<noteq> {}) maps"
  have "find (\<lambda>t. lower (tm_intent t) = lower (strip intent)) maps = None"
    using assms(2) by (simp add: find_None_iff)
  with assms(1) obtain rest where s: "sort_key tm_id ?ms = t # rest"
    by (auto simp: find_task_map_def split: list.splits)
  have "u \<in> set (sort_key tm_id ?ms)" using assms(3,4) by simp
  moreover have "sorted (List.map tm_id (sort_key tm_id ?ms))" by simp
  ultimately show ?thesis by (auto simp: s)
qed

section \<open>What a change affects\<close>

definition keyed :: "impacts \<Rightarrow> bool" where
  "keyed is \<longleftrightarrow> distinct (List.map fst is) \<and> (\<forall>(k, i) \<in> set is. k = (im_path i, im_relation i))"

lemma keyed_update: "keyed is \<Longrightarrow> keyed (AList.update (p, r) (mk_impact p why r) is)"
  using set_update_subset [of "(p, r)" "mk_impact p why r" "is"]
  by (auto simp: keyed_def mk_impact_def distinct_update)

lemma keyed_neighbor: "keyed is \<Longrightarrow> keyed (add_neighbor es c e is)"
  by (auto simp: add_neighbor_def keyed_update split: option.split)

lemma keyed_mention: "keyed is \<Longrightarrow> keyed (add_mention c d is)"
  by (simp add: add_mention_def keyed_update)

lemma keyed_fold: "(\<And>x is. keyed is \<Longrightarrow> keyed (f x is)) \<Longrightarrow> keyed is \<Longrightarrow> keyed (fold f xs is)"
  by (induction xs arbitrary: "is") auto

definition keys :: "impacts \<Rightarrow> (string \<times> string) set" where
  "keys is = fst ` set is"

lemma keys_update [simp]: "keys (AList.update k v is) = insert k (keys is)"
  by (simp add: keys_def dom_update)

definition mention_keys :: "document list \<Rightarrow> string \<Rightarrow> (string \<times> string) set" where
  "mention_keys docs c = (\<lambda>d. (doc_relative d, ''text'')) ` {d \<in> set docs. mentions c d}"

lemma keys_mentions: "keys (fold (add_mention c) docs is) = keys is \<union> mention_keys docs c"
  by (induction docs arbitrary: "is") (auto simp: mention_keys_def add_mention_def)

definition neighbor_keys :: "registry_entry list \<Rightarrow> string \<Rightarrow> graph_edge list \<Rightarrow> (string \<times> string) set" where
  "neighbor_keys es c ges = {(re_path n, ge_relation e) | n e. e \<in> set ges
     \<and> (ge_source e = c \<and> entry_by_id es (ge_target e) = Some n
        \<or> ge_source e \<noteq> c \<and> ge_target e = c \<and> entry_by_id es (ge_source e) = Some n)}"

lemma keys_neighbor: "keys (add_neighbor es c e is) = keys is \<union> neighbor_keys es c [e]"
  by (auto simp: add_neighbor_def neighbor_keys_def split: option.split)

lemma neighbor_keys_Cons: "neighbor_keys es c (e # ges) = neighbor_keys es c [e] \<union> neighbor_keys es c ges"
  unfolding neighbor_keys_def by auto

lemma keys_neighbors: "keys (fold (add_neighbor es c) ges is) = keys is \<union> neighbor_keys es c ges"
proof (induction ges arbitrary: "is")
  case (Cons e ges)
  then show ?case
    unfolding neighbor_keys_Cons [of es c e ges] by (simp add: keys_neighbor Un_assoc)
qed (simp add: neighbor_keys_def)

definition read_keys :: "registry_entry list \<Rightarrow> string \<Rightarrow> (string \<times> string) set" where
  "read_keys es c = (case find (\<lambda>e. re_path e = c) (rev es) of None \<Rightarrow> {}
     | Some e \<Rightarrow> {(re_path (the (entry_by_id es (re_id e))), ''direct'')})"

definition graph_keys :: "registry_entry list \<Rightarrow> knowledge_graph \<Rightarrow> string \<Rightarrow> (string \<times> string) set" where
  "graph_keys es g c = (case find (\<lambda>e. re_path e = c) (rev es) of None \<Rightarrow> {}
     | Some e \<Rightarrow> neighbor_keys es (re_id e) (kg_edges g))"

lemma impact_of_path_keys:
  "keyed (fst rp) \<Longrightarrow> keyed (snd rp) \<Longrightarrow>
     keyed (fst (impact_of_path docs es g c rp)) \<and> keyed (snd (impact_of_path docs es g c rp))
     \<and> keys (fst (impact_of_path docs es g c rp)) = keys (fst rp) \<union> read_keys es c
     \<and> keys (snd (impact_of_path docs es g c rp)) = keys (snd rp) \<union> graph_keys es g c \<union> mention_keys docs c"
  by (cases rp; cases "find (\<lambda>e. re_path e = c) (rev es)")
    (simp_all add: impact_of_path_def read_keys_def graph_keys_def keys_mentions keys_neighbors Let_def
      keyed_fold keyed_mention keyed_neighbor keyed_update)

lemma impacts_keys:
  "keyed (fst rp) \<Longrightarrow> keyed (snd rp) \<Longrightarrow>
     keyed (fst (fold (impact_of_path docs es g) cs rp)) \<and> keyed (snd (fold (impact_of_path docs es g) cs rp))
     \<and> keys (fst (fold (impact_of_path docs es g) cs rp)) = keys (fst rp) \<union> (\<Union>c \<in> set cs. read_keys es c)
     \<and> keys (snd (fold (impact_of_path docs es g) cs rp))
         = keys (snd rp) \<union> (\<Union>c \<in> set cs. graph_keys es g c \<union> mention_keys docs c)"
proof (induction cs arbitrary: rp)
  case (Cons c cs)
  note p = impact_of_path_keys [OF Cons.prems, of docs es g c]
  from Cons.IH [of "impact_of_path docs es g c rp"] p show ?case
    by (simp add: Un_assoc)
qed simp

lemma delete_absent: "k \<notin> keys is \<Longrightarrow> AList.delete k is = is"
  by (simp add: keys_def delete_id)

text \<open>The loop that drops the read paths from the possible updates drops nothing.\<close>

lemma pop_is_idle:
  "(\<And>k. k \<in> keys is \<Longrightarrow> snd k \<noteq> ''direct'') \<Longrightarrow> (\<And>k. k \<in> keys read \<Longrightarrow> snd k = ''direct'') \<Longrightarrow>
     fold (\<lambda>(k, _). AList.delete k) read is = is"
proof (induction read)
  case (Cons x read)
  obtain k v where x: "x = (k, v)" by (cases x)
  have "k \<notin> keys is"
    using Cons.prems(1) [of k] Cons.prems(2) [of k] x by (auto simp: keys_def)
  then have "fold (\<lambda>(k, _). AList.delete k) (x # read) is = fold (\<lambda>(k, _). AList.delete k) read is"
    by (simp add: x delete_absent)
  also have "\<dots> = is"
    using Cons.prems by (intro Cons.IH) (auto simp: keys_def)
  finally show ?case .
qed simp

lemma keyed_items:
  assumes "keyed is"
  shows "(\<exists>i \<in> set (List.map snd is). im_path i = p \<and> im_relation i = r) \<longleftrightarrow> (p, r) \<in> keys is"
    and "distinct (List.map (\<lambda>i. (im_path i, im_relation i)) (List.map snd is))"
proof -
  have k: "k = (im_path i, im_relation i)" if "(k, i) \<in> set is" for k i
    using assms that by (auto simp: keyed_def)
  show "(\<exists>i \<in> set (List.map snd is). im_path i = p \<and> im_relation i = r) \<longleftrightarrow> (p, r) \<in> keys is"
    by (force simp: keys_def dest: k)
  have eq: "List.map (\<lambda>i. (im_path i, im_relation i)) (List.map snd is) = List.map fst is"
    by (auto dest: k)
  show "distinct (List.map (\<lambda>i. (im_path i, im_relation i)) (List.map snd is))"
    unfolding eq using assms by (simp add: keyed_def)
qed

lemma find_unique:
  assumes "distinct (List.map f xs)"
  shows "find (\<lambda>x. f x = k) (rev xs) = Some y \<longleftrightarrow> y \<in> set xs \<and> f y = k"
proof
  assume y: "y \<in> set xs \<and> f y = k"
  then have "find (\<lambda>x. f x = k) (rev xs) \<noteq> None" by (auto simp: find_None_iff)
  then obtain z where z: "find (\<lambda>x. f x = k) (rev xs) = Some z" by blast
  then have "z \<in> set xs" "f z = k" by (auto dest: find_SomeD)
  with y assms have "z = y" by (metis distinct_map inj_onD)
  with z show "find (\<lambda>x. f x = k) (rev xs) = Some y" by simp
qed (auto dest: find_SomeD)

lemma registry_paths_distinct:
  "distinct (List.map re_path (build_registry docs)) \<longleftrightarrow> distinct (List.map doc_relative docs)"
proof -
  have "mset (List.map re_path (build_registry docs)) = mset (List.map doc_relative docs)"
    by (simp add: build_registry_def entry_of_def Let_def multiset.map_comp comp_def)
  then show ?thesis by (rule mset_eq_imp_distinct_iff)
qed

lemma entry_fields [simp]: "re_id (entry_of d) = md_id (doc_metadata d)" "re_path (entry_of d) = doc_relative d"
  by (simp_all add: entry_of_def Let_def)

text \<open>A relation of the graph between two documents.\<close>

definition related :: "knowledge_graph \<Rightarrow> document \<Rightarrow> document \<Rightarrow> string \<Rightarrow> bool" where
  "related g d n r \<longleftrightarrow> (\<exists>e \<in> set (kg_edges g). ge_relation e = r
     \<and> (ge_source e = md_id (doc_metadata d) \<and> ge_target e = md_id (doc_metadata n)
        \<or> ge_source e = md_id (doc_metadata n) \<and> ge_target e = md_id (doc_metadata d)))"

lemma distinct_map_sort: "distinct (List.map f (sort_key g xs)) \<longleftrightarrow> distinct (List.map f xs)"
  by (metis mset_eq_imp_distinct_iff mset_map mset_sort)

definition unique_documents :: "document list \<Rightarrow> bool" where
  "unique_documents docs \<longleftrightarrow> distinct (List.map (md_id \<circ> doc_metadata) docs) \<and> distinct (List.map doc_relative docs)"

lemma unique_documentsD:
  assumes "unique_documents docs" and "d \<in> set docs" and "d' \<in> set docs"
    and "md_id (doc_metadata d) = md_id (doc_metadata d') \<or> doc_relative d = doc_relative d'"
  shows "d' = d"
  using assms unfolding unique_documents_def by (metis comp_apply distinct_map inj_onD)

lemma entry_by_id_registry:
  "unique_documents docs \<Longrightarrow> entry_by_id (build_registry docs) i = Some n
     \<longleftrightarrow> (\<exists>d \<in> set docs. md_id (doc_metadata d) = i \<and> n = entry_of d)"
  using find_unique [of re_id "build_registry docs" i n]
  by (auto simp: entry_by_id_def registry_ids_distinct unique_documents_def)

lemma path_registry:
  "unique_documents docs \<Longrightarrow> find (\<lambda>e. re_path e = c) (rev (build_registry docs)) = Some n
     \<longleftrightarrow> (\<exists>d \<in> set docs. doc_relative d = c \<and> n = entry_of d)"
  using find_unique [of re_path "build_registry docs" c n]
  by (auto simp: registry_paths_distinct unique_documents_def)

lemma read_keys_registry:
  assumes "unique_documents docs"
  shows "read_keys (build_registry docs) c = (if c \<in> doc_relative ` set docs then {(c, ''direct'')} else {})"
proof (cases "find (\<lambda>e. re_path e = c) (rev (build_registry docs))")
  case None
  then have "c \<notin> doc_relative ` set docs" using path_registry [OF assms] by (metis image_iff option.distinct(1))
  with None show ?thesis by (simp add: read_keys_def)
next
  case (Some n)
  then obtain d where d: "d \<in> set docs" "doc_relative d = c" "n = entry_of d" using path_registry [OF assms] by blast
  then have "entry_by_id (build_registry docs) (re_id n) = Some n"
    unfolding entry_by_id_registry [OF assms] by auto
  with Some d show ?thesis by (auto simp: read_keys_def)
qed

lemma neighbor_keys_registry:
  assumes "unique_documents docs" and "d \<in> set docs"
  shows "(p, r) \<in> neighbor_keys (build_registry docs) (md_id (doc_metadata d)) (kg_edges g)
    \<longleftrightarrow> (\<exists>n \<in> set docs. doc_relative n = p \<and> related g d n r)"
    (is "?L \<longleftrightarrow> ?R")
proof
  assume ?L
  then obtain m e where e: "e \<in> set (kg_edges g)" "p = re_path m" "r = ge_relation e"
    and c: "ge_source e = md_id (doc_metadata d) \<and> entry_by_id (build_registry docs) (ge_target e) = Some m
        \<or> ge_target e = md_id (doc_metadata d) \<and> entry_by_id (build_registry docs) (ge_source e) = Some m"
    unfolding neighbor_keys_def by blast
  from c obtain n where n: "n \<in> set docs" "m = entry_of n"
    "ge_source e = md_id (doc_metadata d) \<and> ge_target e = md_id (doc_metadata n)
        \<or> ge_source e = md_id (doc_metadata n) \<and> ge_target e = md_id (doc_metadata d)"
    unfolding entry_by_id_registry [OF assms(1)] by metis
  with e have "related g d n r" unfolding related_def by blast
  moreover have "doc_relative n = p" by (simp add: e(2) n(2))
  ultimately show ?R using n(1) by blast
next
  assume ?R
  then obtain n e where n: "n \<in> set docs" "doc_relative n = p"
    and e: "e \<in> set (kg_edges g)" "ge_relation e = r" "ge_source e = md_id (doc_metadata d) \<and> ge_target e = md_id (doc_metadata n)
        \<or> ge_source e = md_id (doc_metadata n) \<and> ge_target e = md_id (doc_metadata d)"
    unfolding related_def by blast
  have "entry_by_id (build_registry docs) (md_id (doc_metadata n)) = Some (entry_of n)"
    unfolding entry_by_id_registry [OF assms(1)] using n(1) by blast
  with n e show ?L
    unfolding neighbor_keys_def by (intro CollectI exI [of _ "entry_of n"] exI [of _ e]) auto
qed

lemma graph_keys_registry:
  assumes "unique_documents docs"
  shows "(p, r) \<in> graph_keys (build_registry docs) g c
    \<longleftrightarrow> (\<exists>d \<in> set docs. \<exists>n \<in> set docs. doc_relative d = c \<and> doc_relative n = p \<and> related g d n r)"
proof (cases "find (\<lambda>e. re_path e = c) (rev (build_registry docs))")
  case None
  then have "\<forall>d \<in> set docs. doc_relative d \<noteq> c" using path_registry [OF assms] by (metis option.distinct(1))
  with None show ?thesis by (auto simp: graph_keys_def)
next
  case (Some m)
  then obtain d where d: "d \<in> set docs" "doc_relative d = c" "m = entry_of d" using path_registry [OF assms] by blast
  have only: "d' = d" if "d' \<in> set docs" "doc_relative d' = c" for d'
    using that d unique_documentsD [OF assms d(1)] by metis
  have "(p, r) \<in> graph_keys (build_registry docs) g c \<longleftrightarrow> (\<exists>n \<in> set docs. doc_relative n = p \<and> related g d n r)"
    by (simp add: graph_keys_def Some d(3) neighbor_keys_registry [OF assms d(1)])
  also have "\<dots> \<longleftrightarrow> (\<exists>d \<in> set docs. \<exists>n \<in> set docs. doc_relative d = c \<and> doc_relative n = p \<and> related g d n r)"
    using d(1,2) by (auto dest: only)
  finally show ?thesis .
qed

text \<open>With unique identifiers and paths, the impact report names as changed exactly the documents among
  the changed paths, and as possible updates exactly the documents related in the graph to a changed
  one, under that relation, and those whose text mentions a changed path; each once per relation, in
  order of path. A document can be on both lists.\<close>

theorem impact_complete:
  assumes "build_graph docs = Inr g" and "unique_documents docs"
    and "report = impact_report_of docs (build_registry docs) g changed"
  shows "im_path ` set (ir_read report) = set changed \<inter> doc_relative ` set docs
    \<and> (\<forall>p r. (\<exists>i \<in> set (ir_possible report). im_path i = p \<and> im_relation i = r) \<longleftrightarrow>
          r = ''text'' \<and> (\<exists>d \<in> set docs. \<exists>c \<in> set changed. doc_relative d = p \<and> mentions c d)
        \<or> (\<exists>d \<in> set docs. \<exists>n \<in> set docs. doc_relative d \<in> set changed \<and> doc_relative n = p \<and> related g d n r))
    \<and> sorted (List.map im_path (ir_possible report)) \<and> sorted (List.map im_path (ir_read report))
    \<and> distinct (List.map (\<lambda>i. (im_path i, im_relation i)) (ir_possible report))"
proof -
  let ?es = "build_registry docs"
  obtain rd po where f: "fold (impact_of_path docs ?es g) changed ([], []) = (rd, po)" by fastforce
  have "keyed []" by (simp add: keyed_def)
  with impacts_keys [of "([], [])" docs ?es g changed]
  have k: "keyed rd" "keyed po" "keys rd = (\<Union>c \<in> set changed. read_keys ?es c)"
    "keys po = (\<Union>c \<in> set changed. graph_keys ?es g c \<union> mention_keys docs c)"
    by (simp_all add: f) (simp_all add: keys_def)
  have rd: "(p, r) \<in> keys rd \<longleftrightarrow> r = ''direct'' \<and> p \<in> set changed \<inter> doc_relative ` set docs" for p r
    unfolding k(3) read_keys_registry [OF assms(2)] by auto
  have po: "(p, r) \<in> keys po \<longleftrightarrow>
          r = ''text'' \<and> (\<exists>d \<in> set docs. \<exists>c \<in> set changed. doc_relative d = p \<and> mentions c d)
        \<or> (\<exists>d \<in> set docs. \<exists>n \<in> set docs. doc_relative d \<in> set changed \<and> doc_relative n = p \<and> related g d n r)" for p r
    unfolding k(4) UN_iff Un_iff graph_keys_registry [OF assms(2)] mention_keys_def by blast
  have "r \<noteq> ''direct''" if "related g d n r" for d n r
  proof -
    from that assms(1) obtain e d' where "e \<in> set (edges_of d')" "ge_relation e = r"
      unfolding related_def by (auto simp: build_graph_def unique_edges_facts split: if_splits)
    then show ?thesis by (auto simp: edges_of_iff)
  qed
  then have "snd k \<noteq> ''direct''" if "k \<in> keys po" for k
    using that po [of "fst k" "snd k"] by auto
  moreover have "snd k = ''direct''" if "k \<in> keys rd" for k
    using that rd [of "fst k" "snd k"] by simp
  ultimately have idle: "fold (\<lambda>(k, _). AList.delete k) rd po = po" by (rule pop_is_idle)
  have r: "ir_read report = sort_key im_path (List.map snd rd)" "ir_possible report = sort_key im_path (List.map snd po)"
    by (simp_all add: assms(3) impact_report_of_def f idle)
  have changes: "im_path ` set (ir_read report) = set changed \<inter> doc_relative ` set docs"
  proof (rule set_eqI)
    fix p
    have "p \<in> im_path ` set (ir_read report) \<longleftrightarrow> (\<exists>r. \<exists>i \<in> set (List.map snd rd). im_path i = p \<and> im_relation i = r)"
      unfolding r set_sort by blast
    then show "p \<in> im_path ` set (ir_read report) \<longleftrightarrow> p \<in> set changed \<inter> doc_relative ` set docs"
      unfolding keyed_items(1) [OF k(1)] rd by blast
  qed
  have updates: "(\<exists>i \<in> set (ir_possible report). im_path i = p \<and> im_relation i = r) \<longleftrightarrow>
          r = ''text'' \<and> (\<exists>d \<in> set docs. \<exists>c \<in> set changed. doc_relative d = p \<and> mentions c d)
        \<or> (\<exists>d \<in> set docs. \<exists>n \<in> set docs. doc_relative d \<in> set changed \<and> doc_relative n = p \<and> related g d n r)" for p r
    unfolding r set_sort keyed_items(1) [OF k(2)] by (rule po)
  have once: "distinct (List.map (\<lambda>i. (im_path i, im_relation i)) (ir_possible report))"
    using keyed_items(2) [OF k(2)] unfolding r distinct_map_sort .
  show ?thesis
    by (intro conjI allI changes updates once) (simp_all add: r)
qed

definition sample_pair :: "document list" where
  "sample_pair = [sample_document ''A'' V_PUBLIC [], sample_document ''B'' V_PUBLIC [''A'']]"

theorem impact_complete_witness:
  "\<exists>g. build_graph sample_pair = Inr g
     \<and> im_path ` set (ir_read (impact_report_of sample_pair (build_registry sample_pair) g [''docs/A.md''])) = {''docs/A.md''}
     \<and> (\<exists>i \<in> set (ir_possible (impact_report_of sample_pair (build_registry sample_pair) g [''docs/A.md''])).
           im_path i = ''docs/B.md'' \<and> im_relation i = ''related_to'')"
proof -
  obtain g where g: "build_graph sample_pair = Inr g" and ges: "kg_edges g = unique_edges sample_pair"
    by (simp add: sample_pair_def build_graph_def edges_of_def sample_document_def sample_metadata_def)
  have u: "unique_documents sample_pair"
    by (simp add: unique_documents_def sample_pair_def sample_document_def sample_metadata_def)
  have "related g (sample_document ''A'' V_PUBLIC []) (sample_document ''B'' V_PUBLIC [''A'']) ''related_to''"
    unfolding related_def ges unique_edges_facts sample_pair_def
    by (simp add: edges_of_def sample_document_def sample_metadata_def)
  then have r: "\<exists>d \<in> set sample_pair. \<exists>n \<in> set sample_pair. doc_relative d \<in> set [''docs/A.md'']
      \<and> doc_relative n = ''docs/B.md'' \<and> related g d n ''related_to''"
    by (intro bexI [of _ "sample_document ''A'' V_PUBLIC []"] bexI [of _ "sample_document ''B'' V_PUBLIC [''A'']"])
      (simp_all add: sample_pair_def, simp_all add: sample_document_def)
  note c = impact_complete [OF g u refl, of "[''docs/A.md'']"]
  have "set [''docs/A.md''] \<inter> doc_relative ` set sample_pair = {''docs/A.md''}"
    by (simp add: sample_pair_def sample_document_def)
  note d = c [THEN conjunct1, unfolded this]
  have "\<exists>i \<in> set (ir_possible (impact_report_of sample_pair (build_registry sample_pair) g [''docs/A.md''])).
           im_path i = ''docs/B.md'' \<and> im_relation i = ''related_to''"
    using r by (subst c [THEN conjunct2, THEN conjunct1, rule_format]) (rule disjI2)
  with d g show ?thesis by (intro exI conjI)
qed

end
