(* ===== verification/Intelligence.thy ===== *)
theory Intelligence
  imports Documents
begin

text \<open>
  The cost and debt ledgers and the project summary (\<open>evolution/intelligence.py\<close>). A ledger is the text
  of its file, one record per line; \<open>enc\<close> and \<open>dec\<close> write and read one record (JSON and Pydantic). Costs
  are exact rationals.
\<close>

section \<open>Records\<close>

record token_usage =
  tu_input :: int
  tu_output :: int
  tu_cached :: int
  tu_avoided :: int

record cost_range =
  cr_min :: rat
  cr_max :: rat

definition mk_cost_range :: "rat \<Rightarrow> rat \<Rightarrow> exn + cost_range" where
  "mk_cost_range lo hi =
     (if lo < 0 \<or> hi < 0 then Inl (ValidationError ''Input should be greater than or equal to 0'')
      else if hi < lo then Inl (ValidationError ''max must be greater than or equal to min'')
      else Inr \<lparr>cr_min = lo, cr_max = hi\<rparr>)"

record task_cost =
  tc_task_id :: string
  tc_title :: string
  tc_task_type :: string
  tc_components :: "string list"
  tc_release :: "string option"
  tc_started :: "string option"
  tc_finished :: "string option"
  tc_estimate :: "cost_range option"
  tc_tokens :: token_usage
  tc_observed_cost :: "rat option"
  tc_cost_source :: string
  tc_billing_mode :: string
  tc_confidence :: string

datatype debt_status = DEBT_OPEN | DEBT_IN_PROGRESS | DEBT_CLOSED

record debt_record =
  db_id :: string
  db_introduced_by :: "string option"
  db_component :: string
  db_reason :: string
  db_severity :: doc_risk
  db_remediation :: "cost_range option"
  db_status :: debt_status
  db_owner :: "string option"

record project_summary =
  ps_project :: string
  ps_period :: string
  ps_tasks_completed :: nat
  ps_tokens :: token_usage
  ps_estimated :: "cost_range option"
  ps_observed :: "rat option"
  ps_coverage :: "rat option"
  ps_open_debt :: nat
  ps_by_component :: "(string \<times> rat) list"

section \<open>The ledgers\<close>

record ledgers =
  lg_costs :: "string option"
  lg_debts :: "string option"
  lg_summary :: "string option"

definition append_line :: "string \<Rightarrow> string option \<Rightarrow> string option" where
  "append_line l f = Some ((case f of None \<Rightarrow> [] | Some t \<Rightarrow> t) @ l @ newline)"

definition append_cost :: "(task_cost \<Rightarrow> string) \<Rightarrow> task_cost \<Rightarrow> 'z ledgers_scheme \<Rightarrow> 'z ledgers_scheme" where
  "append_cost enc r s = s\<lparr>lg_costs := append_line (enc r) (lg_costs s)\<rparr>"

definition append_debt :: "(debt_record \<Rightarrow> string) \<Rightarrow> debt_record \<Rightarrow> 'z ledgers_scheme \<Rightarrow> 'z ledgers_scheme" where
  "append_debt enc r s = s\<lparr>lg_debts := append_line (enc r) (lg_debts s)\<rparr>"

fun read_lines :: "(string \<Rightarrow> string + 'r) \<Rightarrow> string \<Rightarrow> nat \<Rightarrow> string list \<Rightarrow> exn + 'r list" where
  "read_lines dec path n [] = Inr []"
| "read_lines dec path n (l # ls) =
     (if strip l = [] then read_lines dec path (Suc n) ls
      else case dec l of
        Inl why \<Rightarrow> Inl (ValueError (path @ '':'' @ nat_str n @ '': invalid intelligence record: '' @ why))
      | Inr r \<Rightarrow> map_sum id (Cons r) (read_lines dec path (Suc n) ls))"

definition read_jsonl :: "(string \<Rightarrow> string + 'r) \<Rightarrow> string \<Rightarrow> string option \<Rightarrow> exn + 'r list" where
  "read_jsonl dec path f =
     (case f of None \<Rightarrow> Inr [] | Some t \<Rightarrow> read_lines dec path 1 (splitlines t))"

section \<open>The summary\<close>

definition latest :: "task_cost list \<Rightarrow> (string \<times> task_cost) list" where
  "latest rs = fold (\<lambda>r d. AList.update (tc_task_id r) r d) rs []"

definition sum_tokens_of :: "task_cost list \<Rightarrow> token_usage" where
  "sum_tokens_of rs =
     \<lparr>tu_input = sum_list (List.map (\<lambda>r. tu_input (tc_tokens r)) rs),
      tu_output = sum_list (List.map (\<lambda>r. tu_output (tc_tokens r)) rs),
      tu_cached = sum_list (List.map (\<lambda>r. tu_cached (tc_tokens r)) rs),
      tu_avoided = sum_list (List.map (\<lambda>r. tu_avoided (tc_tokens r)) rs)\<rparr>"

definition add_share :: "rat \<Rightarrow> string \<Rightarrow> (string \<times> rat) list \<Rightarrow> (string \<times> rat) list" where
  "add_share share c d = AList.update c ((case map_of d c of None \<Rightarrow> 0 | Some v \<Rightarrow> v) + share) d"

definition add_costs :: "task_cost \<Rightarrow> (string \<times> rat) list \<Rightarrow> (string \<times> rat) list" where
  "add_costs r d =
     (case tc_observed_cost r of
        None \<Rightarrow> d
      | Some cost \<Rightarrow>
          if tc_components r = [] then d
          else fold (add_share (cost / of_nat (length (tc_components r)))) (tc_components r) d)"

definition component_costs :: "task_cost list \<Rightarrow> (string \<times> rat) list" where
  "component_costs rs = fold add_costs rs []"

text \<open>\<open>round(v, 6)\<close>: ties to even.\<close>

definition round6 :: "rat \<Rightarrow> rat" where
  "round6 v =
     (let y = v * 1000000; f = floor y; d = y - of_int f
      in of_int (if d < 1 / 2 \<or> d = 1 / 2 \<and> even f then f else f + 1) / 1000000)"

definition sum_rats :: "rat list \<Rightarrow> rat" where
  "sum_rats xs = sum_list xs"

definition summary_of ::
  "string \<Rightarrow> document list \<Rightarrow> debt_record list \<Rightarrow> task_cost list \<Rightarrow> exn + project_summary" where
  "summary_of project docs debts records =
     (let selected = List.map snd (latest records);
          observed = List.map_filter tc_observed_cost selected;
          estimated = List.map_filter tc_estimate selected;
          versioned = length (filter doc_front_matter docs)
      in map_sum id (\<lambda>estimate.
           \<lparr>ps_project = project, ps_period = ''all-time'', ps_tasks_completed = length selected,
            ps_tokens = sum_tokens_of selected, ps_estimated = estimate,
            ps_observed = (if observed = [] then None else Some (sum_rats observed)),
            ps_coverage = (if docs = [] then None else Some (of_nat versioned / of_nat (length docs))),
            ps_open_debt = length (filter (\<lambda>d. db_status d \<noteq> DEBT_CLOSED) debts),
            ps_by_component = List.map (\<lambda>(k, v). (k, round6 v)) (sort_key fst (component_costs selected))\<rparr>)
         (if estimated = [] then Inr None
          else map_sum id Some (mk_cost_range (sum_rats (List.map cr_min estimated)) (sum_rats (List.map cr_max estimated)))))"

definition build_summary ::
  "(string \<Rightarrow> string + task_cost) \<Rightarrow> (string \<Rightarrow> string + debt_record) \<Rightarrow> yaml_parser \<Rightarrow> doc_metadata validator
     \<Rightarrow> project_manifest \<Rightarrow> 'y tree_scheme \<Rightarrow> 'z ledgers_scheme \<Rightarrow> exn + project_summary" where
  "build_summary dec_cost dec_debt yaml vdoc m tr s =
     (case read_jsonl dec_cost ''ledger.jsonl'' (lg_costs s) of Inl e \<Rightarrow> Inl e | Inr records \<Rightarrow>
     (case discover_documents yaml vdoc tr m of Inl e \<Rightarrow> Inl e | Inr docs \<Rightarrow>
     (case read_jsonl dec_debt ''debt.jsonl'' (lg_debts s) of Inl e \<Rightarrow> Inl e | Inr debts \<Rightarrow>
       summary_of (case map_of (mf_project m) ''name'' of Some n \<Rightarrow> n
                     | None \<Rightarrow> if tr_root tr = [] then [] else last (tr_root tr)) docs debts records)))"

definition write_summary :: "(project_summary \<Rightarrow> string) \<Rightarrow> project_summary \<Rightarrow> 'z ledgers_scheme \<Rightarrow> 'z ledgers_scheme" where
  "write_summary enc p s = s\<lparr>lg_summary := Some (enc p @ newline)\<rparr>"

text \<open>\<open>fmt2\<close> and \<open>pct\<close> are the formats \<open>.2f\<close> and \<open>.0%\<close>.\<close>

definition format_summary :: "(rat \<Rightarrow> string) \<Rightarrow> (rat \<Rightarrow> string) \<Rightarrow> project_summary \<Rightarrow> string" where
  "format_summary fmt2 pct p =
     (let estimated = (case ps_estimated p of None \<Rightarrow> ''unknown''
            | Some r \<Rightarrow> ''US$ '' @ fmt2 (cr_min r) @ [CHR 0xE2, CHR 0x80, CHR 0x93] @ fmt2 (cr_max r));
          observed = (case ps_observed p of None \<Rightarrow> ''unknown'' | Some c \<Rightarrow> ''US$ '' @ fmt2 c);
          coverage = (case ps_coverage p of None \<Rightarrow> ''unknown'' | Some c \<Rightarrow> pct c)
      in join newline
         [''Project: '' @ ps_project p, ''Tasks completed: '' @ nat_str (ps_tasks_completed p),
          ''Tokens: '' @ int_str (tu_input (ps_tokens p)) @ '' input / '' @ int_str (tu_output (ps_tokens p))
            @ '' output / '' @ int_str (tu_cached (ps_tokens p)) @ '' cached'',
          ''Observed API cost: '' @ observed, ''Estimated total cost: '' @ estimated,
          ''Documentation metadata coverage: '' @ coverage, ''Open technical debt: '' @ nat_str (ps_open_debt p)])"

section \<open>The ledger keeps every record, the summary the last of each task\<close>

lemma read_encoded:
  assumes "\<And>r. r \<in> set rs \<Longrightarrow> dec (enc r) = Inr r \<and> line_text (enc r)"
  shows "read_lines dec path n (List.map enc rs) = Inr rs"
  using assms by (induction rs arbitrary: n) (simp_all add: line_text_def)

lemma append_costs:
  "lg_costs (fold (append_cost enc) rs s)
     = (if rs = [] then lg_costs s
        else Some ((case lg_costs s of None \<Rightarrow> [] | Some t \<Rightarrow> t) @ text_of_lines (List.map enc rs)))"
  by (induction rs arbitrary: s) (simp_all add: append_cost_def append_line_def text_of_lines_def)

lemma latest_map: "map_of (latest rs) i = find (\<lambda>r. tc_task_id r = i) (rev rs)"
  by (induction rs rule: rev_induct) (auto simp: latest_def update_conv')

lemma latest_distinct: "distinct (List.map fst (latest rs))"
  by (induction rs rule: rev_induct) (auto simp: latest_def distinct_update)

lemma latest_keys: "fst ` set (latest rs) = tc_task_id ` set rs"
  by (induction rs rule: rev_induct) (auto simp: latest_def dom_update)

lemma add_share_sum: "distinct (List.map fst d) \<Longrightarrow>
    sum_list (List.map snd (add_share x c d)) = sum_list (List.map snd d) + x \<and> distinct (List.map fst (add_share x c d))"
proof
  assume d: "distinct (List.map fst d)"
  have "sum_list (List.map snd (AList.update c (v + x) d)) = sum_list (List.map snd d) + x"
    if "v = (case map_of d c of None \<Rightarrow> 0 | Some v \<Rightarrow> v)" for v
    using d that by (induction d) (auto split: option.splits)
  then show "sum_list (List.map snd (add_share x c d)) = sum_list (List.map snd d) + x"
    by (simp add: add_share_def)
  show "distinct (List.map fst (add_share x c d))"
    using d by (simp add: add_share_def distinct_update)
qed

lemma add_shares_sum: "distinct (List.map fst d) \<Longrightarrow>
    sum_list (List.map snd (fold (add_share x) cs d)) = sum_list (List.map snd d) + of_nat (length cs) * x
    \<and> distinct (List.map fst (fold (add_share x) cs d))"
proof (induction cs arbitrary: d)
  case (Cons c cs)
  from Cons.IH [of "add_share x c d"] add_share_sum [OF Cons.prems, of x c] show ?case
    by (simp add: algebra_simps)
qed simp

definition split_cost :: "task_cost \<Rightarrow> rat" where
  "split_cost r = (if tc_components r = [] then 0 else case tc_observed_cost r of None \<Rightarrow> 0 | Some c \<Rightarrow> c)"

lemma component_costs_sum: "sum_list (List.map snd (component_costs rs)) = sum_list (List.map split_cost rs)"
proof -
  have "distinct (List.map fst d) \<Longrightarrow>
      sum_list (List.map snd (fold add_costs rs d)) = sum_list (List.map snd d) + sum_list (List.map split_cost rs)" for d
  proof (induction rs arbitrary: d)
    case (Cons r rs)
    have "sum_list (List.map snd (add_costs r d)) = sum_list (List.map snd d) + split_cost r
        \<and> distinct (List.map fst (add_costs r d))"
      using Cons.prems add_shares_sum [OF Cons.prems]
      by (auto simp: add_costs_def split_cost_def split: option.split)
    with Cons.IH [of "add_costs r d"] show ?case by (simp add: algebra_simps)
  qed simp
  from this [of "[]"] show ?thesis by (simp add: component_costs_def)
qed

lemma sum_latest:
  "sum_list (List.map (f \<circ> snd) (latest rs)) = (\<Sum>i \<in> tc_task_id ` set rs. f (the (find (\<lambda>r. tc_task_id r = i) (rev rs))))"
    for f :: "task_cost \<Rightarrow> 'a::comm_monoid_add"
proof -
  have "f (snd p) = f (the (find (\<lambda>r. tc_task_id r = fst p) (rev rs)))" if "p \<in> set (latest rs)" for p
  proof -
    have "map_of (latest rs) (fst p) = Some (snd p)"
      using that latest_distinct by simp
    then show ?thesis by (simp add: latest_map)
  qed
  then have "sum_list (List.map (f \<circ> snd) (latest rs))
      = sum_list (List.map (\<lambda>i. f (the (find (\<lambda>r. tc_task_id r = i) (rev rs)))) (List.map fst (latest rs)))"
    by (simp add: comp_def cong: map_cong)
  also have "\<dots> = (\<Sum>i \<in> set (List.map fst (latest rs)). f (the (find (\<lambda>r. tc_task_id r = i) (rev rs))))"
    by (rule sum_list_distinct_conv_sum_set [OF latest_distinct])
  finally show ?thesis by (simp add: latest_keys)
qed

definition last_record :: "task_cost list \<Rightarrow> string \<Rightarrow> task_cost" where
  "last_record rs i = the (find (\<lambda>r. tc_task_id r = i) (rev rs))"

lemma round6_error: "\<bar>round6 v - v\<bar> \<le> 1 / 2000000"
proof -
  define y where "y = v * 1000000"
  define d where "d = y - of_int (floor y)"
  have d: "0 \<le> d" "d < 1" unfolding d_def by linarith+
  have v: "v = (of_int (floor y) + d) / 1000000" by (simp add: d_def y_def)
  have r: "round6 v = of_int (if d < 1 / 2 \<or> d = 1 / 2 \<and> even (floor y) then floor y else floor y + 1) / 1000000"
    by (simp add: round6_def Let_def d_def y_def)
  show ?thesis
  proof (cases "d < 1 / 2 \<or> d = 1 / 2 \<and> even (floor y)")
    case True
    with r have "round6 v = of_int (floor y) / 1000000" "d \<le> 1 / 2" by auto
    moreover from this(1) v have "round6 v - v = - (d / 1000000)"
      by (simp add: add_divide_distrib)
    ultimately show ?thesis using d by simp
  next
    case False
    with r have "round6 v = of_int (floor y + 1) / 1000000" "1 / 2 \<le> d" by auto
    moreover from this(1) v have "round6 v - v = (1 - d) / 1000000"
      by (simp add: add_divide_distrib diff_divide_distrib)
    ultimately show ?thesis using d by simp
  qed
qed

lemma round6_sum:
  "\<bar>sum_list (List.map (round6 \<circ> snd) d) - sum_list (List.map snd d)\<bar> \<le> of_nat (length d) / (2000000 :: rat)"
proof (induction d)
  case (Cons p d)
  have "\<bar>(round6 (snd p) - snd p) + (sum_list (List.map (round6 \<circ> snd) d) - sum_list (List.map snd d))\<bar>
      \<le> 1 / 2000000 + of_nat (length d) / (2000000 :: rat)"
    using round6_error [of "snd p"] Cons.IH by (intro order_trans [OF abs_triangle_ineq] add_mono)
  then show ?case by (simp add: algebra_simps add_divide_distrib comp_def)
qed simp

lemma sum_list_sort_key: "sum_list (List.map f (sort_key g xs)) = sum_list (List.map f xs)"
  for f :: "'a \<Rightarrow> 'b::comm_monoid_add"
  by (metis mset_map mset_sort sum_mset_sum_list)

text \<open>The ledger is append-only: the records appended to a fresh one are read back, all and in order.
  The summary counts every task once, with the last record appended for it: as many tasks as there are
  identifiers, the sum of their tokens, of their observed costs, and component costs that add up to the
  observed costs of the tasks that name components, up to the rounding of each to six digits.\<close>

theorem summary_counts_last_records:
  assumes "\<And>r. r \<in> set rs \<Longrightarrow> dec (enc r) = Inr r \<and> line_text (enc r)" and "lg_costs s = None"
    and "build_summary dec dec_debt yaml vdoc m tr (fold (append_cost enc) rs s) = Inr p"
  shows "read_jsonl dec path (lg_costs (fold (append_cost enc) rs s)) = Inr rs
    \<and> ps_tasks_completed p = card (tc_task_id ` set rs)
    \<and> tu_input (ps_tokens p) = (\<Sum>i \<in> tc_task_id ` set rs. tu_input (tc_tokens (last_record rs i)))
    \<and> tu_output (ps_tokens p) = (\<Sum>i \<in> tc_task_id ` set rs. tu_output (tc_tokens (last_record rs i)))
    \<and> (case ps_observed p of None \<Rightarrow> \<forall>i \<in> tc_task_id ` set rs. tc_observed_cost (last_record rs i) = None
        | Some c \<Rightarrow> c = (\<Sum>i \<in> tc_task_id ` set rs. case tc_observed_cost (last_record rs i) of None \<Rightarrow> 0 | Some x \<Rightarrow> x))
    \<and> \<bar>sum_list (List.map snd (ps_by_component p)) - (\<Sum>i \<in> tc_task_id ` set rs. split_cost (last_record rs i))\<bar>
        \<le> of_nat (length (ps_by_component p)) / 2000000"
proof -
  have read: "read_jsonl dec q (lg_costs (fold (append_cost enc) rs s)) = Inr rs" for q
  proof (cases "rs = []")
    case False
    have "list_all line_text (List.map enc rs)" using assms(1) by (simp add: list_all_iff)
    then show ?thesis
      using False by (simp add: append_costs assms(2) read_jsonl_def splitlines_text read_encoded [OF assms(1)])
  qed (simp add: read_jsonl_def assms(2))
  let ?sel = "List.map snd (latest rs)"
  obtain name docs debts where p: "summary_of name docs debts rs = Inr p"
    using assms(3) by (auto simp: build_summary_def read split: sum.splits)
  then have tasks: "ps_tasks_completed p = length ?sel" and tokens: "ps_tokens p = sum_tokens_of ?sel"
    and obs: "ps_observed p = (if List.map_filter tc_observed_cost ?sel = [] then None
      else Some (sum_rats (List.map_filter tc_observed_cost ?sel)))"
    and comps: "ps_by_component p = List.map (\<lambda>(k, v). (k, round6 v)) (sort_key fst (component_costs ?sel))"
    by (auto simp: summary_of_def Let_def map_sum_Inr)
  note sums = sum_latest [of _ rs, folded last_record_def]
  have card: "length ?sel = card (tc_task_id ` set rs)"
    using latest_keys [of rs] distinct_card [OF latest_distinct [of rs]] by simp
  have inp: "tu_input (ps_tokens p) = (\<Sum>i \<in> tc_task_id ` set rs. tu_input (tc_tokens (last_record rs i)))"
    using sums [of "\<lambda>r. tu_input (tc_tokens r)"] by (simp add: tokens sum_tokens_of_def comp_def)
  have outp: "tu_output (ps_tokens p) = (\<Sum>i \<in> tc_task_id ` set rs. tu_output (tc_tokens (last_record rs i)))"
    using sums [of "\<lambda>r. tu_output (tc_tokens r)"] by (simp add: tokens sum_tokens_of_def comp_def)
  have members: "set ?sel = last_record rs ` tc_task_id ` set rs"
  proof -
    have "List.map snd (latest rs) = List.map (last_record rs) (List.map fst (latest rs))"
      by (auto simp: last_record_def latest_map [symmetric] latest_distinct)
    then show ?thesis by (metis image_set latest_keys set_map)
  qed
  have total: "sum_rats (List.map_filter tc_observed_cost xs) = sum_list (List.map (\<lambda>r. case tc_observed_cost r of None \<Rightarrow> 0 | Some x \<Rightarrow> x) xs)"
    for xs :: "task_cost list"
    by (induction xs) (simp_all add: sum_rats_def map_filter_simps split: option.split)
  have none: "List.map_filter tc_observed_cost xs = [] \<longleftrightarrow> (\<forall>r \<in> set xs. tc_observed_cost r = None)" for xs :: "task_cost list"
    by (induction xs) (simp_all add: map_filter_simps split: option.split)
  have cost: "case ps_observed p of None \<Rightarrow> \<forall>i \<in> tc_task_id ` set rs. tc_observed_cost (last_record rs i) = None
        | Some c \<Rightarrow> c = (\<Sum>i \<in> tc_task_id ` set rs. case tc_observed_cost (last_record rs i) of None \<Rightarrow> 0 | Some x \<Rightarrow> x)"
    using sums [of "\<lambda>r. case tc_observed_cost r of None \<Rightarrow> 0 | Some x \<Rightarrow> x"]
    unfolding obs none members total by (simp add: comp_def)
  have "sum_list (List.map snd (ps_by_component p)) = sum_list (List.map (round6 \<circ> snd) (component_costs ?sel))"
    unfolding comps by (simp add: comp_def case_prod_unfold sum_list_sort_key)
  moreover have "sum_list (List.map snd (component_costs ?sel)) = (\<Sum>i \<in> tc_task_id ` set rs. split_cost (last_record rs i))"
    using sums [of split_cost] unfolding component_costs_sum by (simp add: comp_def)
  ultimately have "\<bar>sum_list (List.map snd (ps_by_component p)) - (\<Sum>i \<in> tc_task_id ` set rs. split_cost (last_record rs i))\<bar>
        \<le> of_nat (length (ps_by_component p)) / 2000000"
    using round6_sum [of "component_costs ?sel"] by (simp add: comps)
  then show ?thesis
    using read tasks card inp outp cost by simp
qed

definition sample_cost :: "string \<Rightarrow> int \<Rightarrow> rat \<Rightarrow> task_cost" where
  "sample_cost title tokens cost = \<lparr>tc_task_id = ''T'', tc_title = title, tc_task_type = ''unknown'',
     tc_components = [''api'', ''ui''], tc_release = None, tc_started = None, tc_finished = None, tc_estimate = None,
     tc_tokens = \<lparr>tu_input = tokens, tu_output = 0, tu_cached = 0, tu_avoided = 0\<rparr>,
     tc_observed_cost = Some cost, tc_cost_source = ''unknown'', tc_billing_mode = ''api'', tc_confidence = ''low''\<rparr>"

lemma sample_cost_fields: "tu_input (tc_tokens (sample_cost t n c)) = n" "tc_observed_cost (sample_cost t n c) = Some c"
  by (simp_all add: sample_cost_def)

definition sample_dec :: "string \<Rightarrow> string + task_cost" where
  "sample_dec s = Inr (if s = ''first'' then sample_cost ''first'' 5 1 else sample_cost ''last'' 7 3)"

lemma sample_lines: "line_text ''first''" "line_text ''last''"
  by code_simp+

lemma sample_no_docs: "discover_documents no_yaml (\<lambda>_. Inl []) (sample_tree []) (default_manifest []) = Inr []"
  by code_simp

theorem summary_counts_last_records_witness:
  "\<exists>p. build_summary sample_dec (\<lambda>_. Inl []) no_yaml (\<lambda>_. Inl []) (default_manifest []) (sample_tree [])
       (fold (append_cost tc_title) [sample_cost ''first'' 5 1, sample_cost ''last'' 7 3]
          \<lparr>lg_costs = None, lg_debts = None, lg_summary = None\<rparr>) = Inr p
     \<and> ps_tasks_completed p = 1 \<and> tu_input (ps_tokens p) = 7 \<and> ps_observed p = Some 3"
proof -
  let ?rs = "[sample_cost ''first'' 5 1, sample_cost ''last'' 7 3]"
  let ?empty = "\<lparr>lg_costs = None, lg_debts = None, lg_summary = None\<rparr>"
  let ?s = "fold (append_cost tc_title) ?rs ?empty"
  have ok: "sample_dec (tc_title r) = Inr r \<and> line_text (tc_title r)" if "r \<in> set ?rs" for r
    using that sample_lines by (auto simp: sample_dec_def sample_cost_def)
  have keep: "lg_debts ?s = None" by (simp add: append_cost_def)
  have read: "read_jsonl sample_dec ''ledger.jsonl'' (lg_costs ?s) = Inr ?rs"
  proof -
    have "list_all line_text (List.map tc_title ?rs)" using sample_lines by (simp add: sample_cost_def)
    from splitlines_text [OF this] show ?thesis
      unfolding append_costs by (simp only: read_jsonl_def) (simp add: read_encoded [of ?rs sample_dec tc_title, OF ok, simplified])
  qed
  obtain p where p: "build_summary sample_dec (\<lambda>_. Inl []) no_yaml (\<lambda>_. Inl []) (default_manifest []) (sample_tree []) ?s = Inr p"
    unfolding build_summary_def read sample_no_docs keep
    by (simp add: read_jsonl_def summary_of_def Let_def map_filter_simps latest_def sample_cost_def)
  have ids: "tc_task_id ` set ?rs = {''T''}" by (simp add: sample_cost_def)
  have l: "last_record ?rs ''T'' = sample_cost ''last'' 7 3" by (simp add: last_record_def sample_cost_def)
  have empty: "lg_costs ?empty = None" by simp
  note s = summary_counts_last_records [OF ok empty p, unfolded ids]
  from s [THEN conjunct2, THEN conjunct1] have "ps_tasks_completed p = 1" by simp
  moreover from s [THEN conjunct2, THEN conjunct2, THEN conjunct1] have "tu_input (ps_tokens p) = 7"
    by (simp add: l sample_cost_fields)
  moreover from s [THEN conjunct2, THEN conjunct2, THEN conjunct2, THEN conjunct2, THEN conjunct1]
  have "ps_observed p = Some 3"
    by (cases "ps_observed p") (simp_all add: l sample_cost_fields)
  ultimately have "ps_tasks_completed p = 1 \<and> tu_input (ps_tokens p) = 7 \<and> ps_observed p = Some 3" by blast
  with p show ?thesis by blast
qed

end
