(* ===== verification/Settings.thy ===== *)
theory Settings
  imports ConfigLayers
begin

text \<open>
  The source-aware settings (\<open>settings.py\<close>): what each setting is worth and where that comes from, and
  writing or resetting them in the user's file or in the project's. The state is the machine: files,
  environment, and which files can be written. A write replaces the whole file, or raises and leaves
  it. \<open>to_float\<close> is Python's \<open>float\<close> of a string (no setting of kind \<open>number\<close> has a variable).
\<close>

datatype config_source = DEFAULT | PROJECT | USER | ENVIRONMENT

datatype config_scope = USER_SCOPE | PROJECT_SCOPE

fun scope_str :: "config_scope \<Rightarrow> string" where
  "scope_str USER_SCOPE = ''user''"
| "scope_str PROJECT_SCOPE = ''project''"

record setting_spec =
  sp_key :: string
  sp_default :: json
  sp_scope :: config_scope
  sp_restart :: bool
  sp_applies_to :: string
  sp_description :: string
  sp_kind :: string

definition spec :: "string \<Rightarrow> json \<Rightarrow> config_scope \<Rightarrow> bool \<Rightarrow> string \<Rightarrow> string \<Rightarrow> string \<Rightarrow> setting_spec" where
  "spec k d sc r a ds kind = \<lparr>sp_key = k, sp_default = d, sp_scope = sc, sp_restart = r, sp_applies_to = a,
     sp_description = ds, sp_kind = kind\<rparr>"

definition SETTING_SPECS :: "setting_spec list" where
  "SETTING_SPECS = [
     spec ''autonomy_mode'' (JStr ''agentic'') PROJECT_SCOPE True ''new plans and runs''
       ''Default autonomy policy.'' ''select'',
     spec ''planning_requires_human'' (JBool True) PROJECT_SCOPE False ''new plans''
       ''Require approval before a plan is locked.'' ''boolean'',
     spec ''max_parallel_tasks'' (JInt 4) PROJECT_SCOPE False ''new runs'' ''Maximum concurrent tasks.'' ''integer'',
     spec ''max_retries_per_task'' (JInt 3) PROJECT_SCOPE False ''new plans and runs''
       ''Retries allowed for each task.'' ''integer'',
     spec ''max_fallback_attempts'' (JInt 2) PROJECT_SCOPE False ''new runs''
       ''Fallback models allowed for a failed task.'' ''integer'',
     spec ''max_tokens_per_run'' (JInt 1000000) PROJECT_SCOPE False ''new runs''
       ''Reported token ceiling; zero disables this dimension.'' ''integer'',
     spec ''max_cost_per_run_usd'' (JFloat 10) PROJECT_SCOPE False ''new runs''
       ''Reported cost ceiling; zero disables this dimension.'' ''number'',
     spec ''isolate_mutating_tasks'' (JBool True) PROJECT_SCOPE True ''new runs''
       ''Use isolated worktrees for mutating tasks.'' ''boolean'',
     spec ''worktree_strategy'' (JStr ''per-task'') PROJECT_SCOPE True ''new runs''
       ''How mutating tasks receive worktrees.'' ''select'',
     spec ''command_code_timeout_seconds'' (JInt 600) USER_SCOPE False ''new runs'' ''Command Code timeout.'' ''integer'',
     spec ''command_code_max_turns'' (JInt 50) USER_SCOPE False ''new runs'' ''Maximum Command Code turns.'' ''integer'',
     spec ''mcp_enabled'' (JBool False) PROJECT_SCOPE True ''new runs''
       ''Forward declared MCP servers to agents.'' ''boolean'',
     spec ''mcp_servers'' (JList []) PROJECT_SCOPE True ''new runs'' ''Optional MCP server allowlist.'' ''list'',
     spec ''log_level'' (JStr ''INFO'') USER_SCOPE True ''backend restart'' ''Backend log level.'' ''select'',
     spec ''artifact_retention_days'' (JInt 30) USER_SCOPE False ''future cleanup''
       ''Retention for generated artifacts.'' ''integer'',
     spec ''transcript_retention_days'' (JInt 90) USER_SCOPE False ''future cleanup''
       ''Retention for transcripts.'' ''integer'']"

definition ENVIRONMENT_FIELDS :: "(string \<times> string) list" where
  "ENVIRONMENT_FIELDS = [(''max_parallel_tasks'', ''ATLAS_FLOW_MAX_PARALLEL''),
     (''max_retries_per_task'', ''ATLAS_FLOW_MAX_RETRIES''), (''log_level'', ''ATLAS_FLOW_LOG_LEVEL''),
     (''autonomy_mode'', ''ATLAS_FLOW_AUTONOMY''), (''state_dir'', ''ATLAS_FLOW_STATE_DIR'')]"

text \<open>Where a project setting lives: the file, the section in it if any, the field.\<close>

definition PROJECT_FILES :: "(string \<times> string \<times> string option \<times> string) list" where
  "PROJECT_FILES = [
     (''autonomy_mode'', ''autonomy-policy.yaml'', Some ''project_policy'', ''current''),
     (''isolate_mutating_tasks'', ''orchestrator.yaml'', Some ''execution'', ''isolate_mutating_tasks''),
     (''worktree_strategy'', ''orchestrator.yaml'', Some ''execution'', ''worktree_strategy''),
     (''max_retries_per_task'', ''fallbacks.yaml'', Some ''quality'', ''max_cross_model_attempts''),
     (''mcp_enabled'', ''mcp-servers.yaml'', None, ''enabled''),
     (''planning_requires_human'', ''settings.yaml'', None, ''planning_requires_human''),
     (''max_parallel_tasks'', ''settings.yaml'', None, ''max_parallel_tasks''),
     (''max_fallback_attempts'', ''settings.yaml'', None, ''max_fallback_attempts''),
     (''max_tokens_per_run'', ''settings.yaml'', None, ''max_tokens_per_run''),
     (''max_cost_per_run_usd'', ''settings.yaml'', None, ''max_cost_per_run_usd''),
     (''mcp_servers'', ''settings.yaml'', None, ''mcp_servers'')]"

definition keys_of_scope :: "config_scope \<Rightarrow> string list" where
  "keys_of_scope sc = List.map sp_key (filter (\<lambda>x. sp_scope x = sc) SETTING_SPECS)"

record setting_view =
  sv_key :: string
  sv_value :: json
  sv_default :: json
  sv_source :: config_source
  sv_scope :: config_scope
  sv_restart_required :: bool
  sv_applies_to :: string
  sv_description :: string
  sv_kind :: string
  sv_environment_variable :: "string option"

record settings_machine = machine +
  writable :: "string \<Rightarrow> bool"

type_synonym ('z, 'a) settings_act = "('z settings_machine_scheme, exn, 'a) act"

definition lift_result :: "exn + 'a \<Rightarrow> ('s, exn, 'a) act" where
  "lift_result r s = (r, s)"

section \<open>Files\<close>

definition read_yaml :: "yamls \<Rightarrow> string \<Rightarrow> exn + dict" where
  "read_yaml fs path =
     (case fs path of
        None \<Rightarrow> Inr []
      | Some (Broken why) \<Rightarrow> Inl (SettingsError (''Could not read settings file '' @ path @ '': '' @ why))
      | Some (Doc v) \<Rightarrow> Inr (case v of JObj d \<Rightarrow> d | _ \<Rightarrow> []))"

definition atomic_yaml_write :: "string \<Rightarrow> dict \<Rightarrow> ('z, unit) settings_act" where
  "atomic_yaml_write path data s =
     (if writable s path then (Inr (), s\<lparr>yaml_files := (yaml_files s)(path \<mapsto> Doc (JObj data))\<rparr>)
      else (Inl (SettingsError (''Could not write settings file '' @ path)), s))"

definition override_in :: "dict \<Rightarrow> string option \<Rightarrow> string \<Rightarrow> json option" where
  "override_in data section field =
     (case section of None \<Rightarrow> map_of data field | Some sec \<Rightarrow> map_of (sub_mapping sec data) field)"

fun read_overrides ::
  "yamls \<Rightarrow> string \<Rightarrow> (string \<times> string \<times> string option \<times> string) list \<Rightarrow> exn + (string \<times> json) list" where
  "read_overrides fs base [] = Inr []"
| "read_overrides fs base ((key, file, section, field) # rest) =
     (case read_yaml fs (orchestration base file) of Inl e \<Rightarrow> Inl e | Inr data \<Rightarrow>
     (case read_overrides fs base rest of Inl e \<Rightarrow> Inl e | Inr others \<Rightarrow>
       Inr (case override_in data section field of None \<Rightarrow> others | Some v \<Rightarrow> (key, v) # others)))"

definition read_project_overrides :: "yamls \<Rightarrow> string \<Rightarrow> exn + (string \<times> json) list" where
  "read_project_overrides fs base = read_overrides fs base PROJECT_FILES"

section \<open>Values\<close>

definition convert :: "(string \<Rightarrow> exn + rat) \<Rightarrow> string \<Rightarrow> string \<Rightarrow> exn + json" where
  "convert to_float v kind =
     (if kind = ''boolean'' then Inr (JBool (lower v \<in> {''1'', ''true'', ''yes'', ''on''}))
      else if kind = ''integer'' then map_sum id JInt (py_int v)
      else if kind = ''number'' then map_sum id JFloat (to_float v)
      else Inr (JStr v))"

fun is_int :: "json \<Rightarrow> bool" where
  "is_int (JInt i) = (0 \<le> i)"
| "is_int v = False"

fun is_number :: "json \<Rightarrow> bool" where
  "is_number (JInt i) = (0 \<le> i)"
| "is_number (JFloat r) = (0 \<le> r)"
| "is_number v = False"

definition valid_for :: "string \<Rightarrow> json \<Rightarrow> bool" where
  "valid_for kind v \<longleftrightarrow>
     (kind = ''boolean'' \<longrightarrow> (case v of JBool _ \<Rightarrow> True | _ \<Rightarrow> False))
   \<and> (kind = ''integer'' \<longrightarrow> is_int v) \<and> (kind = ''number'' \<longrightarrow> is_number v)
   \<and> (kind = ''list'' \<longrightarrow> (case v of JList _ \<Rightarrow> True | _ \<Rightarrow> False))
   \<and> (kind \<in> {''text'', ''select''} \<longrightarrow> (case v of JStr _ \<Rightarrow> True | _ \<Rightarrow> False))"

definition validate_value :: "string \<Rightarrow> string \<Rightarrow> json \<Rightarrow> exn + unit" where
  "validate_value kind key v =
     (if valid_for kind v then Inr ()
      else Inl (SettingsError (key @
        (if kind = ''boolean'' then '' must be boolean''
         else if kind = ''integer'' then '' must be a non-negative integer''
         else if kind = ''number'' then '' must be a non-negative number''
         else if kind = ''list'' then '' must be a list'' else '' must be text''))))"

section \<open>Loading\<close>

definition layered ::
  "(string \<Rightarrow> exn + rat) \<Rightarrow> dict \<Rightarrow> (string \<times> json) list \<Rightarrow> dict \<Rightarrow> (string \<Rightarrow> string option) \<Rightarrow> setting_spec
     \<Rightarrow> exn + json \<times> config_source" where
  "layered to_float config project user env sp =
     (let base = (case map_of config (sp_key sp) of Some v \<Rightarrow> v | None \<Rightarrow> JNull, DEFAULT);
          p = (case map_of project (sp_key sp) of Some v \<Rightarrow> (v, PROJECT) | None \<Rightarrow> base);
          u = (case map_of user (sp_key sp) of Some v \<Rightarrow> (v, USER) | None \<Rightarrow> p)
      in case map_of ENVIRONMENT_FIELDS (sp_key sp) of
           None \<Rightarrow> Inr u
         | Some var \<Rightarrow> (case env var of
               None \<Rightarrow> Inr u
             | Some text \<Rightarrow> map_sum id (\<lambda>v. (v, ENVIRONMENT)) (convert to_float text (sp_kind sp))))"

definition view_of :: "setting_spec \<Rightarrow> json \<times> config_source \<Rightarrow> setting_view" where
  "view_of sp vs = \<lparr>sv_key = sp_key sp, sv_value = fst vs, sv_default = sp_default sp, sv_source = snd vs,
     sv_scope = sp_scope sp, sv_restart_required = sp_restart sp, sv_applies_to = sp_applies_to sp,
     sv_description = sp_description sp, sv_kind = sp_kind sp,
     sv_environment_variable = map_of ENVIRONMENT_FIELDS (sp_key sp)\<rparr>"

fun views_of ::
  "(setting_spec \<Rightarrow> exn + json \<times> config_source) \<Rightarrow> setting_spec list \<Rightarrow> exn + setting_view list" where
  "views_of f [] = Inr []"
| "views_of f (sp # sps) =
     (case f sp of Inl e \<Rightarrow> Inl e | Inr vs \<Rightarrow>
     (case views_of f sps of Inl e \<Rightarrow> Inl e | Inr views \<Rightarrow> Inr (view_of sp vs # views)))"

definition settings_of ::
  "(json \<Rightarrow> string) \<Rightarrow> (string \<Rightarrow> exn + rat) \<Rightarrow> 'z machine_scheme \<Rightarrow> string \<Rightarrow> exn + setting_view list" where
  "settings_of repr to_float m base =
     (case load_config repr m base of Inl e \<Rightarrow> Inl e | Inr config \<Rightarrow>
     (case read_yaml (yaml_files m) (user_file m) of Inl e \<Rightarrow> Inl e | Inr user \<Rightarrow>
     (case read_project_overrides (yaml_files m) base of Inl e \<Rightarrow> Inl e | Inr project \<Rightarrow>
       views_of (layered to_float config project user (environ m)) SETTING_SPECS)))"

definition load_settings ::
  "(json \<Rightarrow> string) \<Rightarrow> (string \<Rightarrow> exn + rat) \<Rightarrow> string \<Rightarrow> ('z, setting_view list) settings_act" where
  "load_settings repr to_float base s = (settings_of repr to_float s base, s)"

definition view_at :: "string \<Rightarrow> setting_view list \<Rightarrow> setting_view option" where
  "view_at key views = find (\<lambda>v. sv_key v = key) views"

section \<open>Writing\<close>

fun check_patch :: "setting_view list \<Rightarrow> (string \<times> json) list \<Rightarrow> exn + unit" where
  "check_patch views [] = Inr ()"
| "check_patch views ((key, v) # rest) =
     (case view_at key views of
        None \<Rightarrow> Inl (KeyError key)
      | Some view \<Rightarrow>
          if sv_source view = ENVIRONMENT
          then Inl (SettingsError (key @ '' is controlled by ''
                 @ (case sv_environment_variable view of None \<Rightarrow> ''None'' | Some x \<Rightarrow> x)
                 @ ''; change that environment variable instead''))
          else (case validate_value (sv_kind view) key v of
                  Inl e \<Rightarrow> Inl e | Inr _ \<Rightarrow> check_patch views rest))"

text \<open>\<open>grouped\<close>: the files to write, in order of first use, with their new contents.\<close>

definition put_field :: "string \<Rightarrow> dict \<Rightarrow> string option \<Rightarrow> string \<Rightarrow> json \<Rightarrow> exn + dict" where
  "put_field relative data section field v =
     (case section of
        None \<Rightarrow> Inr (AList.update field v data)
      | Some sec \<Rightarrow>
          (case (case map_of data sec of None \<Rightarrow> JObj [] | Some t \<Rightarrow> t) of
             JObj e \<Rightarrow> Inr (AList.update sec (JObj (AList.update field v e)) data)
           | _ \<Rightarrow> Inl (SettingsError (''Cannot update malformed settings file: '' @ relative))))"

fun group_patch ::
  "yamls \<Rightarrow> string \<Rightarrow> (string \<times> json) list \<Rightarrow> (string \<times> dict) list \<Rightarrow> exn + (string \<times> dict) list" where
  "group_patch fs base [] grouped = Inr grouped"
| "group_patch fs base ((key, v) # rest) grouped =
     (case map_of PROJECT_FILES key of
        None \<Rightarrow> Inl (KeyError key)
      | Some (file, section, field) \<Rightarrow>
          let path = orchestration base file
          in case (case map_of grouped path of Some d \<Rightarrow> Inr d | None \<Rightarrow> read_yaml fs path) of
               Inl e \<Rightarrow> Inl e
             | Inr data \<Rightarrow> (case put_field (''.ai/orchestration/'' @ file) data section field v of
                   Inl e \<Rightarrow> Inl e
                 | Inr data' \<Rightarrow> group_patch fs base rest (AList.update path data' grouped)))"

definition apply_project_patch :: "string \<Rightarrow> (string \<times> json) list \<Rightarrow> ('z, unit) settings_act" where
  "apply_project_patch base patch =
     bindE (\<lambda>s. (group_patch (yaml_files s) base patch [], s)) (\<lambda>grouped.
     bindE (forE grouped (\<lambda>(path, data). atomic_yaml_write path data)) (\<lambda>_. ret ()))"

definition refused_keys :: "config_scope \<Rightarrow> string list \<Rightarrow> string list" where
  "refused_keys sc keys = sort (remdups (filter (\<lambda>k. k \<notin> set (keys_of_scope sc)) keys))"

definition apply_settings ::
  "(json \<Rightarrow> string) \<Rightarrow> (string \<Rightarrow> exn + rat) \<Rightarrow> string \<Rightarrow> (string \<times> json) list \<Rightarrow> config_scope
     \<Rightarrow> ('z, setting_view list) settings_act" where
  "apply_settings repr to_float base patch sc =
     bindE (load_settings repr to_float base) (\<lambda>current.
       if patch = [] then ret current
       else let invalid = refused_keys sc (List.map fst patch)
       in if invalid \<noteq> []
          then throw (SettingsError (''Settings cannot be written in '' @ scope_str sc @ '': '' @ join '', '' invalid))
          else bindE (lift_result (check_patch current patch)) (\<lambda>_.
               bindE (case sc of
                   USER_SCOPE \<Rightarrow>
                     bindE (\<lambda>s. (read_yaml (yaml_files s) (user_file s), s)) (\<lambda>data.
                     bindE (gets user_file) (\<lambda>path.
                       atomic_yaml_write path (dict_update data patch)))
                 | PROJECT_SCOPE \<Rightarrow> apply_project_patch base patch) (\<lambda>_.
               load_settings repr to_float base)))"

definition del_keys :: "string list \<Rightarrow> dict \<Rightarrow> dict" where
  "del_keys keys d = filter (\<lambda>(k, _). k \<notin> set keys) d"

definition remove_project_override :: "string \<Rightarrow> string \<Rightarrow> ('z, unit) settings_act" where
  "remove_project_override base key =
     (case map_of PROJECT_FILES key of
        None \<Rightarrow> throw (KeyError key)
      | Some (file, section, field) \<Rightarrow>
          let path = orchestration base file
          in bindE (\<lambda>s. (read_yaml (yaml_files s) path, s)) (\<lambda>data.
             atomic_yaml_write path
               (case section of
                  None \<Rightarrow> del_keys [field] data
                | Some sec \<Rightarrow> (case map_of data sec of
                      Some (JObj e) \<Rightarrow> AList.update sec (JObj (del_keys [field] e)) data
                    | _ \<Rightarrow> data))))"

definition reset_settings ::
  "(json \<Rightarrow> string) \<Rightarrow> (string \<Rightarrow> exn + rat) \<Rightarrow> string \<Rightarrow> string list \<Rightarrow> config_scope
     \<Rightarrow> ('z, setting_view list) settings_act" where
  "reset_settings repr to_float base keys sc =
     (let invalid = refused_keys sc keys
      in if invalid \<noteq> []
         then throw (SettingsError (''Settings cannot be reset in '' @ scope_str sc @ '': '' @ join '', '' invalid))
         else bindE (case sc of
             USER_SCOPE \<Rightarrow>
               bindE (\<lambda>s. (read_yaml (yaml_files s) (user_file s), s)) (\<lambda>data.
               bindE (gets user_file) (\<lambda>path.
                 atomic_yaml_write path (del_keys keys data)))
           | PROJECT_SCOPE \<Rightarrow> bindE (forE keys (remove_project_override base)) (\<lambda>_. ret ())) (\<lambda>_.
         load_settings repr to_float base))"

section \<open>The settings shown are the configuration used\<close>

lemma load_mapping_read: "load_mapping fs p = Inr d \<Longrightarrow> read_yaml fs p = Inr d"
  by (auto simp: load_mapping_def read_yaml_def safe_load_def split: option.splits sum.splits yaml_file.splits)

lemma views_of_get:
  assumes "views_of f sps = Inr views" and "distinct (List.map sp_key sps)" and "sp \<in> set sps"
  shows "\<exists>vs. f sp = Inr vs \<and> view_at (sp_key sp) views = Some (view_of sp vs)"
  using assms
proof (induction sps arbitrary: views)
  case (Cons x sps)
  then show ?case
    by (auto simp: view_at_def view_of_def split: sum.splits)
qed simp

lemma read_overrides_get:
  assumes "read_overrides fs base l = Inr out" and "distinct (List.map fst l)"
  shows "map_of out k = (case map_of l k of None \<Rightarrow> None
     | Some (file, section, field) \<Rightarrow>
         (case read_yaml fs (orchestration base file) of Inr d \<Rightarrow> override_in d section field | Inl _ \<Rightarrow> None))
   \<and> fst ` set out \<subseteq> fst ` set l"
  using assms
proof (induction fs base l arbitrary: out rule: read_overrides.induct)
  case (2 fs base key fl sec fd rest)
  then obtain data others where d: "read_yaml fs (orchestration base fl) = Inr data"
    and m: "read_overrides fs base rest = Inr others"
    and out: "out = (case override_in data sec fd of None \<Rightarrow> others | Some v \<Rightarrow> (key, v) # others)"
    by (auto split: sum.splits)
  have "map_of others key = None"
    using "2.IH" [OF d m] "2.prems"(2) by (auto simp: map_of_eq_None_iff)
  then show ?case
    using "2.IH" [OF d m] "2.prems"(2) d by (auto simp: out split: option.splits)
qed simp

lemma specs_distinct: "distinct (List.map sp_key SETTING_SPECS)"
  by (simp add: SETTING_SPECS_def spec_def)

lemma project_files_distinct: "distinct (List.map fst PROJECT_FILES)"
  by (simp add: PROJECT_FILES_def)

lemma project_keys: "List.map fst PROJECT_FILES = [''autonomy_mode'', ''isolate_mutating_tasks'',
    ''worktree_strategy'', ''max_retries_per_task'', ''mcp_enabled''] @ settings_known"
  by (simp add: PROJECT_FILES_def settings_known_def)

text \<open>What the project declares for a setting: the value in its file.\<close>

definition project_value :: "yamls \<Rightarrow> string \<Rightarrow> string \<Rightarrow> json option" where
  "project_value fs base key =
     (case map_of PROJECT_FILES key of
        None \<Rightarrow> None
      | Some (file, section, field) \<Rightarrow>
          (case read_yaml fs (orchestration base file) of Inr d \<Rightarrow> override_in d section field | Inl _ \<Rightarrow> None))"

lemma overrides_get:
  "read_project_overrides fs base = Inr out \<Longrightarrow> map_of out k = project_value fs base k"
  using read_overrides_get [OF _ project_files_distinct]
  by (simp add: read_project_overrides_def project_value_def)

lemma distinct_four:
  assumes "distinct (List.map f A)" "distinct (List.map f B)" "distinct (List.map f C)" "distinct (List.map f D)"
    and "f ` set A \<subseteq> SA" "f ` set B \<subseteq> SB" "f ` set C \<subseteq> SC" "f ` set D \<subseteq> SD"
    and "SA \<inter> (SB \<union> (SC \<union> SD)) = {}" "SB \<inter> (SC \<union> SD) = {}" "SC \<inter> SD = {}"
  shows "distinct (List.map f (A @ B @ C @ D))" and "f ` set (A @ B @ C @ D) \<subseteq> SA \<union> (SB \<union> (SC \<union> SD))"
proof -
  have "f ` set A \<inter> (f ` set B \<union> (f ` set C \<union> f ` set D)) \<subseteq> SA \<inter> (SB \<union> (SC \<union> SD))"
    "f ` set B \<inter> (f ` set C \<union> f ` set D) \<subseteq> SB \<inter> (SC \<union> SD)" "f ` set C \<inter> f ` set D \<subseteq> SC \<inter> SD"
    by (intro Int_mono Un_mono assms)+
  with assms(1-4,9-) show "distinct (List.map f (A @ B @ C @ D))"
    unfolding map_append distinct_append set_append set_map by simp
  show "f ` set (A @ B @ C @ D) \<subseteq> SA \<union> (SB \<union> (SC \<union> SD))"
    unfolding set_append image_Un by (intro Un_mono assms)
qed

lemma project_config_get:
  assumes "load_project_config fs base = Inr out"
  shows "distinct (List.map fst out)
    \<and> map_of out k = (if k = ''mcp_enabled'' \<or> k = ''autonomy_mode'' \<and> project_value fs base k = Some JNull
                      then None else project_value fs base k)"
proof -
  from assms obtain auto orch fall sett where
    files: "load_mapping fs (orchestration base ''autonomy-policy.yaml'') = Inr auto"
      "load_mapping fs (orchestration base ''orchestrator.yaml'') = Inr orch"
      "load_mapping fs (orchestration base ''fallbacks.yaml'') = Inr fall"
      "load_mapping fs (orchestration base ''settings.yaml'') = Inr sett"
    and out: "out = (case map_of (sub_mapping ''project_policy'' auto) ''current'' of
            None \<Rightarrow> [] | Some v \<Rightarrow> if v = JNull then [] else [(''autonomy_mode'', v)])
         @ pick [''isolate_mutating_tasks'', ''worktree_strategy''] (sub_mapping ''execution'' orch)
         @ (case map_of (sub_mapping ''quality'' fall) ''max_cross_model_attempts'' of
              None \<Rightarrow> [] | Some v \<Rightarrow> [(''max_retries_per_task'', v)])
         @ pick settings_known sett"
    by (auto simp: load_project_config_def split: sum.splits)
  note reads = files [THEN load_mapping_read]
  define A where "A = (case map_of (sub_mapping ''project_policy'' auto) ''current'' of
      None \<Rightarrow> [] | Some v \<Rightarrow> if v = JNull then [] else [(''autonomy_mode'', v)])"
  define B where "B = pick [''isolate_mutating_tasks'', ''worktree_strategy''] (sub_mapping ''execution'' orch)"
  define C where "C = (case map_of (sub_mapping ''quality'' fall) ''max_cross_model_attempts'' of
      None \<Rightarrow> [] | Some v \<Rightarrow> [(''max_retries_per_task'', v)])"
  define D where "D = pick settings_known sett"
  have parts: "distinct (List.map fst A)" "distinct (List.map fst B)" "distinct (List.map fst C)"
    "distinct (List.map fst D)"
    by (auto simp: A_def B_def C_def D_def settings_known_def intro!: pick_distinct split: option.split)
  have sub: "fst ` set A \<subseteq> {''autonomy_mode''}" "fst ` set B \<subseteq> {''isolate_mutating_tasks'', ''worktree_strategy''}"
    "fst ` set C \<subseteq> {''max_retries_per_task''}" "fst ` set D \<subseteq> set settings_known"
  proof -
    show "fst ` set A \<subseteq> {''autonomy_mode''}" "fst ` set C \<subseteq> {''max_retries_per_task''}"
      unfolding A_def C_def by auto
    show "fst ` set B \<subseteq> {''isolate_mutating_tasks'', ''worktree_strategy''}" "fst ` set D \<subseteq> set settings_known"
      unfolding B_def D_def
      using pick_keys [of "[''isolate_mutating_tasks'', ''worktree_strategy'']" "sub_mapping ''execution'' orch"]
        pick_keys [of settings_known sett] by simp_all
  qed
  have out': "out = A @ B @ C @ D"
    unfolding out A_def B_def C_def D_def ..
  have "distinct (List.map fst out)"
    unfolding out' using parts sub by (rule distinct_four(1)) (simp_all add: settings_known_def)
  have keys: "fst ` set out \<subseteq> set (List.map fst PROJECT_FILES)"
  proof -
    note four = distinct_four(2) [OF parts sub]
    show ?thesis
      unfolding out' by (rule order_trans, rule four) (simp_all add: settings_known_def PROJECT_FILES_def)
  qed
  have "map_of A k = (if k = ''autonomy_mode'' then (case map_of (sub_mapping ''project_policy'' auto) ''current'' of
      None \<Rightarrow> None | Some v \<Rightarrow> if v = JNull then None else Some v) else None)"
    by (simp add: A_def split: option.split)
  moreover have "map_of C k = (if k = ''max_retries_per_task''
      then map_of (sub_mapping ''quality'' fall) ''max_cross_model_attempts'' else None)"
    by (simp add: C_def split: option.split)
  moreover have "map_of B k = (if k \<in> {''isolate_mutating_tasks'', ''worktree_strategy''}
      then map_of (sub_mapping ''execution'' orch) k else None)"
    by (simp add: B_def pick_get)
  moreover have "map_of D k = (if k \<in> set settings_known then map_of sett k else None)"
    by (simp add: D_def pick_get)
  moreover have "map_of out k = (case map_of A k of Some v \<Rightarrow> Some v | None \<Rightarrow> (case map_of B k of Some v \<Rightarrow> Some v
      | None \<Rightarrow> (case map_of C k of Some v \<Rightarrow> Some v | None \<Rightarrow> map_of D k)))"
    unfolding out' by (simp add: map_add_def split: option.split)
  ultimately have get: "map_of out k =
      (case (if k = ''autonomy_mode'' then (case map_of (sub_mapping ''project_policy'' auto) ''current'' of
               None \<Rightarrow> None | Some v \<Rightarrow> if v = JNull then None else Some v) else None) of Some v \<Rightarrow> Some v | None \<Rightarrow>
      (case (if k \<in> {''isolate_mutating_tasks'', ''worktree_strategy''}
             then map_of (sub_mapping ''execution'' orch) k else None) of Some v \<Rightarrow> Some v | None \<Rightarrow>
      (case (if k = ''max_retries_per_task'' then map_of (sub_mapping ''quality'' fall) ''max_cross_model_attempts''
             else None) of Some v \<Rightarrow> Some v | None \<Rightarrow>
       (if k \<in> set settings_known then map_of sett k else None))))"
    by (simp only:)
  note \<open>distinct (List.map fst out)\<close>
  moreover have "map_of out k = (if k = ''mcp_enabled'' \<or> k = ''autonomy_mode'' \<and> project_value fs base k = Some JNull
                      then None else project_value fs base k)"
  proof (cases "k \<in> set (List.map fst PROJECT_FILES)")
    case False
    with keys have "k \<notin> fst ` set out" by auto
    moreover from False have "project_value fs base k = None"
      by (simp add: project_value_def map_of_eq_None_iff [THEN iffD2])
    ultimately show ?thesis by (metis map_of_eq_None_iff)
  next
    case True
    then consider "k = ''autonomy_mode''" | "k = ''isolate_mutating_tasks''" | "k = ''worktree_strategy''"
      | "k = ''max_retries_per_task''" | "k = ''mcp_enabled''" | "k \<in> set settings_known"
      unfolding project_keys set_append list.set Un_iff insert_iff empty_iff simp_thms
      by (elim disjE) (erule that)+
    then show ?thesis
    proof cases
      case 6
      then have "project_value fs base k = map_of sett k" and "k \<noteq> ''mcp_enabled''" and "k \<noteq> ''autonomy_mode''"
        and "map_of (pick [''isolate_mutating_tasks'', ''worktree_strategy''] (sub_mapping ''execution'' orch)) k = None"
        and "k \<noteq> ''max_retries_per_task''"
        by (auto simp: project_value_def PROJECT_FILES_def reads override_in_def pick_get settings_known_def)
      moreover have "k \<notin> {''isolate_mutating_tasks'', ''worktree_strategy''}"
        using 6 by (auto simp: settings_known_def)
      ultimately show ?thesis
        using 6 unfolding get by simp
    qed (unfold get, simp_all add: PROJECT_FILES_def project_value_def reads override_in_def settings_known_def
        split: option.split)
  qed
  ultimately show ?thesis ..
qed

definition default_keys :: "string list" where
  "default_keys = List.map fst (default_attrs [] [])"

lemma default_keys: "List.map fst (default_attrs base pid) = default_keys"
  by (simp add: default_attrs_def default_keys_def)

lemma specs_in_defaults: "list_all (\<lambda>sp. sp_key sp \<in> set default_keys) SETTING_SPECS"
  by code_simp

lemma default_has_specs: "sp \<in> set SETTING_SPECS \<Longrightarrow> sp_key sp \<in> fst ` set (default_attrs base pid)"
  using specs_in_defaults by (metis default_keys list.pred_set list.set_map)

lemma apply_env_ints:
  "apply_env env l attrs = Inr out \<Longrightarrow> (var, a, True) \<in> set l \<Longrightarrow> env var = Some t \<Longrightarrow> \<exists>i. py_int t = Inr i"
  by (induction env l attrs rule: apply_env.induct) (auto split: option.splits sum.splits if_splits)

definition spec_env_ok :: "setting_spec \<Rightarrow> bool" where
  "spec_env_ok sp \<longleftrightarrow>
     (case map_of ENVIRONMENT_FIELDS (sp_key sp) of
        None \<Rightarrow> find (\<lambda>(_, a, _). a = sp_key sp) env_map = None
      | Some var \<Rightarrow> (if sp_kind sp = ''integer'' then find (\<lambda>(_, a, _). a = sp_key sp) env_map = Some (var, sp_key sp, True)
                  else sp_kind sp = ''select'' \<and> find (\<lambda>(_, a, _). a = sp_key sp) env_map = Some (var, sp_key sp, False)))"

lemma specs_env_ok: "list_all spec_env_ok SETTING_SPECS"
  by code_simp

lemma env_agrees:
  assumes "sp \<in> set SETTING_SPECS" and "apply_env env env_map attrs = Inr out"
  shows "(case map_of ENVIRONMENT_FIELDS (sp_key sp) of None \<Rightarrow> None
            | Some var \<Rightarrow> map_option (\<lambda>t. projr (convert to_float t (sp_kind sp))) (env var))
       = env_value env env_map (sp_key sp)"
proof -
  have ok: "spec_env_ok sp"
    using specs_env_ok assms(1) by (simp add: list_all_iff)
  show ?thesis
  proof (cases "map_of ENVIRONMENT_FIELDS (sp_key sp)")
    case None
    with ok show ?thesis by (simp add: spec_env_ok_def env_value_def)
  next
    case (Some var)
    show ?thesis
    proof (cases "sp_kind sp = ''integer''")
      case True
      with ok Some have f: "find (\<lambda>(_, a, _). a = sp_key sp) env_map = Some (var, sp_key sp, True)"
        by (simp add: spec_env_ok_def)
      then have "(var, sp_key sp, True) \<in> set env_map"
        by (rule find_SomeD [THEN conjunct2])
      from apply_env_ints [OF assms(2) this] show ?thesis
        by (cases "env var") (auto simp: Some f True env_value_def convert_def)
    next
      case False
      with ok Some show ?thesis
        by (simp add: spec_env_ok_def env_value_def convert_def split: option.split)
    qed
  qed
qed

definition user_values :: "'z machine_scheme \<Rightarrow> dict" where
  "user_values m = (case read_yaml (yaml_files m) (user_file m) of Inr d \<Rightarrow> d | Inl _ \<Rightarrow> [])"

lemma specs_not_agent: "list_all (\<lambda>sp. sp_key sp \<noteq> ''acp_agent_command'') SETTING_SPECS"
  by code_simp

lemma config_value:
  assumes "load_config repr m base = Inr cfg" and "sp \<in> set SETTING_SPECS" and "distinct (List.map fst (user_values m))"
  shows "\<exists>pid project attrs out. load_project_config (yaml_files m) base = Inr project
    \<and> apply_env (environ m) env_map attrs = Inr out
    \<and> map_of cfg (sp_key sp) =
       (case env_value (environ m) env_map (sp_key sp) of Some v \<Rightarrow> Some v | None \<Rightarrow>
       (case map_of (user_values m) (sp_key sp) of Some v \<Rightarrow> Some v | None \<Rightarrow>
       (case map_of project (sp_key sp) of Some v \<Rightarrow> Some v | None \<Rightarrow> map_of (default_attrs base pid) (sp_key sp))))"
proof -
  from assms(1) obtain pid project a1 user a2 where
    p: "load_project_config (yaml_files m) base = Inr project"
    and a1: "apply_override project (default_attrs base pid) = Inr a1"
    and u: "load_user_config m = Inr user" and a2: "apply_override user a1 = Inr a2"
    and e: "apply_env_overrides (environ m) a2 = Inr cfg"
    by (auto simp: load_config_def split: sum.splits)
  have uv: "user = user_values m"
    using load_mapping_read [OF u [unfolded load_user_config_def]] by (simp add: user_values_def)
  from e obtain out where out: "apply_env (environ m) env_map a2 = Inr out"
    and cfg: "map_of cfg (sp_key sp) = map_of out (sp_key sp)"
    using specs_not_agent assms(2)
    by (auto simp: apply_env_overrides_def list_all_iff update_conv' split: sum.splits option.splits)
  have "distinct (List.map (\<lambda>(_, a, _). a) env_map)"
    by (simp add: env_map_def)
  note env = apply_env_get [OF out this, of "sp_key sp"]
  have pd: "distinct (List.map fst project)"
    using project_config_get [OF p] by simp
  note s1 = apply_override_get [OF a1 pd default_has_specs [OF assms(2)]]
  note s2 = apply_override_get [OF a2 assms(3) [folded uv] conjunct2 [OF s1]]
  have "map_of cfg (sp_key sp) =
       (case env_value (environ m) env_map (sp_key sp) of Some v \<Rightarrow> Some v | None \<Rightarrow>
       (case map_of (user_values m) (sp_key sp) of Some v \<Rightarrow> Some v | None \<Rightarrow>
       (case map_of project (sp_key sp) of Some v \<Rightarrow> Some v | None \<Rightarrow> map_of (default_attrs base pid) (sp_key sp))))"
    unfolding cfg env conjunct1 [OF s2] conjunct1 [OF s1] uv ..
  with p out show ?thesis by blast
qed

lemma view_value:
  assumes "settings_of repr to_float m base = Inr views" and "load_config repr m base = Inr cfg"
    and "sp \<in> set SETTING_SPECS"
  shows "\<exists>project vs. read_project_overrides (yaml_files m) base = Inr project
    \<and> layered to_float cfg project (user_values m) (environ m) sp = Inr vs
    \<and> view_at (sp_key sp) views = Some (view_of sp vs)"
proof -
  from assms(1,2) obtain project where p: "read_project_overrides (yaml_files m) base = Inr project"
    and v: "views_of (layered to_float cfg project (user_values m) (environ m)) SETTING_SPECS = Inr views"
    by (auto simp: settings_of_def user_values_def split: sum.splits)
  from views_of_get [OF v specs_distinct assms(3)] p show ?thesis by blast
qed

definition overridden :: "'z machine_scheme \<Rightarrow> string \<Rightarrow> bool" where
  "overridden m k \<longleftrightarrow> map_of (user_values m) k \<noteq> None
     \<or> (case map_of ENVIRONMENT_FIELDS k of None \<Rightarrow> False | Some var \<Rightarrow> environ m var \<noteq> None)"

text \<open>C17. Two separately written precedence chains agree: what the settings document shows for a key is
  the value the configuration holds, whatever the files and the environment say. The exceptions are
  spelled out: the MCP switch of the project is shown but never read by the configuration, and so is
  a null autonomy mode.\<close>

theorem settings_agree_with_config:
  assumes "load_config repr m base = Inr cfg" and "settings_of repr to_float m base = Inr views"
    and "sp \<in> set SETTING_SPECS" and "distinct (List.map fst (user_values m))"
  shows "\<exists>view v. view_at (sp_key sp) views = Some view \<and> map_of cfg (sp_key sp) = Some v
    \<and> (overridden m (sp_key sp) \<or> sp_key sp \<noteq> ''mcp_enabled''
          \<and> \<not> (sp_key sp = ''autonomy_mode'' \<and> project_value (yaml_files m) base (sp_key sp) = Some JNull)
         \<longrightarrow> sv_value view = v)
    \<and> (sp_key sp = ''mcp_enabled'' \<and> \<not> overridden m (sp_key sp)
         \<longrightarrow> v = JBool False
           \<and> sv_value view = (case project_value (yaml_files m) base (sp_key sp) of Some x \<Rightarrow> x | None \<Rightarrow> v))"
proof -
  let ?k = "sp_key sp"
  obtain pid pc attrs out where pc: "load_project_config (yaml_files m) base = Inr pc"
    and out: "apply_env (environ m) env_map attrs = Inr out"
    and cfg: "map_of cfg ?k =
       (case env_value (environ m) env_map ?k of Some v \<Rightarrow> Some v | None \<Rightarrow>
       (case map_of (user_values m) ?k of Some v \<Rightarrow> Some v | None \<Rightarrow>
       (case map_of pc ?k of Some v \<Rightarrow> Some v | None \<Rightarrow> map_of (default_attrs base pid) ?k)))"
    using config_value [OF assms(1,3,4)] by blast
  obtain project vs where po: "read_project_overrides (yaml_files m) base = Inr project"
    and l: "layered to_float cfg project (user_values m) (environ m) sp = Inr vs"
    and view: "view_at ?k views = Some (view_of sp vs)"
    using view_value [OF assms(2,1,3)] by blast
  note pv = conjunct2 [OF project_config_get [OF pc, of ?k]]
  note ov = overrides_get [OF po, of ?k]
  note ea = env_agrees [OF assms(3) out, of to_float, symmetric]
  obtain d where d: "map_of (default_attrs base pid) ?k = Some d"
    using default_has_specs [OF assms(3), of base pid] by (metis map_of_eq_None_iff not_None_eq)
  have dm: "?k = ''mcp_enabled'' \<Longrightarrow> d = JBool False"
    using d by (simp add: default_attrs_def)
  have env: "environ m var = Some t \<Longrightarrow> map_of ENVIRONMENT_FIELDS ?k = Some var \<Longrightarrow>
      map_of cfg ?k = Some (fst vs)" for var t
    using l unfolding cfg ea by (cases "convert to_float t (sp_kind sp)") (auto simp: layered_def Let_def)
  show ?thesis
  proof (cases "\<exists>var t. map_of ENVIRONMENT_FIELDS ?k = Some var \<and> environ m var = Some t")
    case True
    moreover from True have "?k \<noteq> ''mcp_enabled''"
      by (auto simp: ENVIRONMENT_FIELDS_def)
    ultimately show ?thesis
      using env view by (auto simp: view_of_def)
  next
    case False
    then have none: "env_value (environ m) env_map ?k = None"
      and ln: "vs = (case map_of (user_values m) ?k of Some v \<Rightarrow> (v, USER) | None \<Rightarrow>
            (case project_value (yaml_files m) base ?k of Some v \<Rightarrow> (v, PROJECT)
             | None \<Rightarrow> (case map_of cfg ?k of Some v \<Rightarrow> v | None \<Rightarrow> JNull, DEFAULT)))"
      using l unfolding ea by (auto simp: layered_def Let_def ov split: option.splits)
    have o: "overridden m ?k \<longleftrightarrow> map_of (user_values m) ?k \<noteq> None"
      using False by (auto simp: overridden_def split: option.split)
    have val: "sv_value (view_of sp vs) = fst vs"
      by (simp add: view_of_def)
    show ?thesis
    proof (cases "map_of (user_values m) ?k")
      case (Some u)
      then have "map_of cfg ?k = Some u" and "fst vs = u"
        by (simp_all add: cfg none ln)
      with Some view val show ?thesis
        by (intro exI [of _ "view_of sp vs"] exI [of _ u]) (simp add: o)
    next
      case None
      note nou = this
      show ?thesis
      proof (cases "map_of pc ?k")
        case (Some x)
        then have "project_value (yaml_files m) base ?k = Some x" and "?k \<noteq> ''mcp_enabled''"
          using pv by (auto split: if_splits)
        moreover from this Some nou have "map_of cfg ?k = Some x" and "fst vs = x"
          by (simp_all add: cfg none ln)
        ultimately show ?thesis
          using view val by (intro exI [of _ "view_of sp vs"] exI [of _ x]) simp
      next
        case None
        with nou have c: "map_of cfg ?k = Some d"
          by (simp add: cfg none d)
        with nou have v: "fst vs = (case project_value (yaml_files m) base ?k of Some x \<Rightarrow> x | None \<Rightarrow> d)"
          by (simp add: ln split: option.split)
        have "?k = ''mcp_enabled'' \<or> ?k = ''autonomy_mode'' \<and> project_value (yaml_files m) base ?k = Some JNull
            \<or> project_value (yaml_files m) base ?k = None"
          using pv None by (auto split: if_splits)
        then show ?thesis
          using view val c v nou o dm by (intro exI [of _ "view_of sp vs"] exI [of _ d]) auto
      qed
    qed
  qed
qed

definition demo_files :: yamls where
  "demo_files = map_of [(''/p/.ai/orchestration/settings.yaml'', Doc (JObj [(''max_parallel_tasks'', JInt 8)])),
     (''/p/.ai/orchestration/mcp-servers.yaml'', Doc (JObj [(''enabled'', JBool True)])),
     (''/h/.atlas-flow.yaml'', Doc (JObj [(''command_code_max_turns'', JInt 9)]))]"

definition demo_machine :: settings_machine where
  "demo_machine = \<lparr>home = ''/h'', environ = map_of [(''ATLAS_FLOW_MAX_RETRIES'', ''7'')],
     yaml_files = demo_files, writable = (\<lambda>_. True)\<rparr>"

definition no_text :: "json \<Rightarrow> string" where
  "no_text v = []"

definition no_float :: "string \<Rightarrow> exn + rat" where
  "no_float s = Inl (ValueError [])"

lemma demo_loads:
  "case load_config no_text demo_machine ''/p'' of Inl _ \<Rightarrow> False
     | Inr cfg \<Rightarrow> map_of cfg ''max_parallel_tasks'' = Some (JInt 8)"
  "case settings_of no_text no_float demo_machine ''/p'' of Inl _ \<Rightarrow> False | Inr views \<Rightarrow> length views = 16"
  by code_simp+

theorem settings_agree_with_config_witness:
  "\<exists>cfg views view. load_config no_text demo_machine ''/p'' = Inr cfg
     \<and> settings_of no_text no_float demo_machine ''/p'' = Inr views
     \<and> view_at ''max_parallel_tasks'' views = Some view \<and> sv_value view = JInt 8
     \<and> map_of cfg ''max_parallel_tasks'' = Some (JInt 8)"
proof -
  obtain cfg where cfg: "load_config no_text demo_machine ''/p'' = Inr cfg"
    and v: "map_of cfg ''max_parallel_tasks'' = Some (JInt 8)"
    using demo_loads(1) by (auto split: sum.splits)
  obtain views where views: "settings_of no_text no_float demo_machine ''/p'' = Inr views"
    using demo_loads(2) by (auto split: sum.splits)
  let ?sp = "spec ''max_parallel_tasks'' (JInt 4) PROJECT_SCOPE False ''new runs'' ''Maximum concurrent tasks.'' ''integer''"
  have mem: "?sp \<in> set SETTING_SPECS"
    by (simp add: SETTING_SPECS_def)
  have "distinct (List.map fst (user_values demo_machine))"
    by code_simp
  from settings_agree_with_config [OF cfg views mem this] v have
    "\<exists>view. view_at ''max_parallel_tasks'' views = Some view \<and> sv_value view = JInt 8"
    by (auto simp: spec_def)
  with cfg views v show ?thesis by blast
qed

section \<open>Saving and resetting\<close>

lemma sub_mapping_update:
  "sub_mapping sec (AList.update s (JObj e) d) = (if sec = s then e else sub_mapping sec d)"
  by (simp add: sub_mapping_def update_conv')

text \<open>Two settings of the same file are both in a section of it or both at its top.\<close>

definition same_level :: "string option \<Rightarrow> string option \<Rightarrow> bool" where
  "same_level a b \<longleftrightarrow> (a = None) = (b = None)"

lemma put_field_get:
  assumes "put_field rel data sect field v = Inr data'" and "same_level sect sect'"
  shows "override_in data' sect' field' =
     (if (sect', field') = (sect, field) then Some v else override_in data sect' field')"
proof (cases sect)
  case None
  with assms show ?thesis
    by (auto simp: put_field_def override_in_def same_level_def update_conv')
next
  case (Some sec)
  then obtain sec' where s': "sect' = Some sec'" using assms(2) by (auto simp: same_level_def)
  from Some assms(1) obtain e where e: "data' = AList.update sec (JObj (AList.update field v e)) data"
    and old: "e = sub_mapping sec data"
    by (auto simp: put_field_def sub_mapping_def split: option.splits json.splits)
  show ?thesis
    by (auto simp: Some s' override_in_def e sub_mapping_update update_conv' old)
qed

text \<open>The files with the grouped contents in place.\<close>

definition overlay :: "(string \<times> dict) list \<Rightarrow> yamls \<Rightarrow> yamls" where
  "overlay grouped fs = (\<lambda>p. case map_of grouped p of Some d \<Rightarrow> Some (Doc (JObj d)) | None \<Rightarrow> fs p)"

lemma overlay_Nil [simp]: "overlay [] fs = fs"
  by (simp add: overlay_def)

lemma overlay_read:
  "read_yaml (overlay grouped fs) p = (case map_of grouped p of Some d \<Rightarrow> Inr d | None \<Rightarrow> read_yaml fs p)"
  by (auto simp: overlay_def read_yaml_def split: option.split)

lemma orchestration_eq [simp]: "orchestration base a = orchestration base b \<longleftrightarrow> a = b"
  by (simp add: orchestration_def)

lemma same_file_same_level:
  "map_of PROJECT_FILES k = Some (file, s, f) \<Longrightarrow> map_of PROJECT_FILES k' = Some (file, s', f') \<Longrightarrow>
     same_level s s' \<and> ((s', f') = (s, f) \<longrightarrow> k' = k)"
proof -
  have "list_all (\<lambda>(k, file, s, f). list_all (\<lambda>(k', file', s', f').
      file = file' \<longrightarrow> same_level s s' \<and> ((s', f') = (s, f) \<longrightarrow> k' = k)) PROJECT_FILES) PROJECT_FILES"
    by code_simp
  then show "map_of PROJECT_FILES k = Some (file, s, f) \<Longrightarrow> map_of PROJECT_FILES k' = Some (file, s', f') \<Longrightarrow>
     same_level s s' \<and> ((s', f') = (s, f) \<longrightarrow> k' = k)"
    by (fastforce simp: list_all_iff dest!: map_of_SomeD)
qed

lemma project_value_at:
  "map_of PROJECT_FILES k = Some (file, sect, field) \<Longrightarrow>
     project_value fs base k =
       (case read_yaml fs (orchestration base file) of Inr d \<Rightarrow> override_in d sect field | Inl _ \<Rightarrow> None)"
  by (simp add: project_value_def)

lemma project_value_step:
  assumes "map_of PROJECT_FILES key = Some (file, sect, field)"
    and "read_yaml (overlay grouped fs) (orchestration base file) = Inr data"
    and "put_field rel data sect field v = Inr data'"
  shows "project_value (overlay (AList.update (orchestration base file) data' grouped) fs) base k
    = (if k = key then Some v else project_value (overlay grouped fs) base k)"
proof (cases "map_of PROJECT_FILES k")
  case None
  with assms(1) show ?thesis by (auto simp: project_value_def)
next
  case (Some x)
  then obtain fl' s' f' where k: "map_of PROJECT_FILES k = Some (fl', s', f')" by (cases x) auto
  show ?thesis
  proof (cases "fl' = file")
    case True
    have level: "same_level sect s'" and id: "(s', f') = (sect, field) \<Longrightarrow> k = key"
      using same_file_same_level [OF assms(1) k [unfolded True]] by auto
    show ?thesis
      using id assms(1,2) k put_field_get [OF assms(3) level, of f']
      by (auto simp: project_value_at [OF k] True overlay_read update_conv' split: option.splits)
  next
    case False
    with assms(1) k show ?thesis
      by (auto simp: project_value_at [OF k] overlay_read update_conv')
  qed
qed

lemma group_patch_get:
  assumes "group_patch fs base patch grouped = Inr out" and "distinct (List.map fst patch)"
    and "distinct (List.map fst grouped)"
  shows "project_value (overlay out fs) base k =
      (case map_of patch k of Some v \<Rightarrow> Some v | None \<Rightarrow> project_value (overlay grouped fs) base k)
    \<and> distinct (List.map fst out)
    \<and> fst ` set out \<subseteq> fst ` set grouped \<union> (\<lambda>(_, file, _). orchestration base file) ` set PROJECT_FILES"
  using assms
proof (induction fs base patch grouped rule: group_patch.induct)
  case (2 fs base key v rest grouped)
  from "2.prems"(1) obtain fl sect field where k: "map_of PROJECT_FILES key = Some (fl, sect, field)"
    by (auto split: option.splits)
  let ?p = "orchestration base fl"
  have src: "(case map_of grouped ?p of Some d \<Rightarrow> Inr d | None \<Rightarrow> read_yaml fs ?p) = read_yaml (overlay grouped fs) ?p"
    by (simp add: overlay_read)
  from "2.prems"(1) k obtain data data' where d: "read_yaml (overlay grouped fs) ?p = Inr data"
    and d': "put_field (''.ai/orchestration/'' @ fl) data sect field v = Inr data'"
    and rest: "group_patch fs base rest (AList.update ?p data' grouped) = Inr out"
    by (auto simp: Let_def src split: sum.splits)
  have dist: "distinct (List.map fst rest)" "distinct (List.map fst (AList.update ?p data' grouped))"
    using "2.prems"(2,3) by (simp_all add: distinct_update)
  note IH = "2.IH" [OF k refl refl refl _ d' rest dist]
  have ih: "project_value (overlay out fs) base k =
      (case map_of rest k of Some v \<Rightarrow> Some v | None \<Rightarrow> project_value (overlay (AList.update ?p data' grouped) fs) base k)
    \<and> distinct (List.map fst out)
    \<and> fst ` set out \<subseteq> fst ` set (AList.update ?p data' grouped)
        \<union> (\<lambda>(_, file, _). orchestration base file) ` set PROJECT_FILES"
    by (rule IH) (simp add: src d)
  define S where "S = (\<lambda>(_, file, _). orchestration base file) ` set PROJECT_FILES"
  have "?p \<in> S"
    unfolding S_def by (rule image_eqI [OF _ map_of_SomeD [OF k]]) simp
  moreover have "fst ` set out \<subseteq> fst ` set (AList.update ?p data' grouped) \<union> S"
    using ih unfolding S_def by (elim conjE)
  ultimately have files: "fst ` set out \<subseteq> fst ` set grouped \<union> S"
    by (simp add: dom_update insert_absorb)
  have n: "map_of rest key = None"
    using "2.prems"(2) by (simp add: map_of_eq_None_iff)
  have "project_value (overlay out fs) base k = (case map_of ((key, v) # rest) k of Some v \<Rightarrow> Some v
      | None \<Rightarrow> project_value (overlay grouped fs) base k)"
    using ih project_value_step [OF k d d', of k] n by (cases "k = key") (simp_all cong: option.case_cong)
  with ih files show ?case unfolding S_def by simp
qed simp

lemma write_okD:
  "atomic_yaml_write p d s = (Inr u, s') \<Longrightarrow> s' = s\<lparr>yaml_files := (yaml_files s)(p \<mapsto> Doc (JObj d))\<rparr>"
  by (simp add: atomic_yaml_write_def split: if_splits)

lemma forE_writes:
  assumes "forE grouped (\<lambda>(path, data). atomic_yaml_write path data) s = (Inr us, s')"
    and "distinct (List.map fst grouped)"
  shows "s' = s\<lparr>yaml_files := overlay grouped (yaml_files s)\<rparr>"
  using assms
proof (induction grouped arbitrary: s us)
  case Nil
  then show ?case by (simp add: ret_def overlay_def)
next
  case (Cons g grouped)
  obtain p d where g: "g = (p, d)" by (cases g)
  let ?s = "s\<lparr>yaml_files := (yaml_files s)(p \<mapsto> Doc (JObj d))\<rparr>"
  from Cons.prems(1) obtain us' where rest: "forE grouped (\<lambda>(path, data). atomic_yaml_write path data) ?s = (Inr us', s')"
    by (auto simp: g ret_def elim!: bindE_OkE dest!: write_okD)
  have "p \<notin> fst ` set grouped" using Cons.prems(2) by (simp add: g)
  then have "map_of grouped p = None"
    by (simp add: map_of_eq_None_iff)
  then have "overlay grouped ((yaml_files s)(p \<mapsto> Doc (JObj d))) = overlay (g # grouped) (yaml_files s)"
    by (auto simp: overlay_def g fun_eq_iff split: option.split)
  with Cons.IH [OF rest] Cons.prems(2) show ?case by (simp add: fun_upd_def)
qed

lemma check_patchD:
  "check_patch views patch = Inr () \<Longrightarrow> (k, v) \<in> set patch \<Longrightarrow>
     \<exists>view. view_at k views = Some view \<and> sv_source view \<noteq> ENVIRONMENT \<and> valid_for (sv_kind view) v"
  by (induction views patch rule: check_patch.induct)
    (auto simp: validate_value_def split: option.splits if_splits sum.splits)

lemma not_refused: "refused_keys sc keys = [] \<Longrightarrow> k \<in> set keys \<Longrightarrow> k \<in> set (keys_of_scope sc)"
  unfolding refused_keys_def by (drule arg_cong [where f = set]) auto

lemma apply_projectD:
  assumes "apply_settings repr to_float base patch PROJECT_SCOPE s = (Inr views, s')" and "patch \<noteq> []"
  shows "\<exists>cur grouped us. settings_of repr to_float s base = Inr cur \<and> refused_keys PROJECT_SCOPE (List.map fst patch) = []
    \<and> check_patch cur patch = Inr () \<and> group_patch (yaml_files s) base patch [] = Inr grouped
    \<and> forE grouped (\<lambda>(path, data). atomic_yaml_write path data) s = (Inr us, s')
    \<and> settings_of repr to_float s' base = Inr views"
proof -
  from assms obtain cur where cur: "settings_of repr to_float s base = Inr cur"
    and r: "refused_keys PROJECT_SCOPE (List.map fst patch) = []" and c: "check_patch cur patch = Inr ()"
    and a: "apply_project_patch base patch s = (Inr (), s')"
    and l: "settings_of repr to_float s' base = Inr views"
    by (auto simp: apply_settings_def load_settings_def lift_result_def Let_def throw_def elim!: bindE_OkE
        split: if_splits)
  from a obtain grouped us where "group_patch (yaml_files s) base patch [] = Inr grouped"
    and "forE grouped (\<lambda>(path, data). atomic_yaml_write path data) s = (Inr us, s')"
    by (auto simp: apply_project_patch_def ret_def elim!: bindE_OkE)
  with cur r c l show ?thesis by blast
qed

definition project_paths :: "string \<Rightarrow> string set" where
  "project_paths base = (\<lambda>(_, file, _). orchestration base file) ` set PROJECT_FILES"


lemma overlay_other: "p \<notin> fst ` set grouped \<Longrightarrow> overlay grouped fs p = fs p"
  by (simp add: overlay_def map_of_eq_None_iff [THEN iffD2])


lemma saved_settings_frame:
  assumes "apply_settings repr to_float base patch PROJECT_SCOPE s = (Inr views, s')"
    and "patch \<noteq> []" and "distinct (List.map fst patch)"
  shows "project_value (yaml_files s') base k =
        (case map_of patch k of Some v \<Rightarrow> Some v | None \<Rightarrow> project_value (yaml_files s) base k)"
    and "p \<notin> project_paths base \<Longrightarrow> yaml_files s' p = yaml_files s p"
    and "home s' = home s \<and> environ s' = environ s"
proof -
  obtain cur grouped us where g: "group_patch (yaml_files s) base patch [] = Inr grouped"
    and w: "forE grouped (\<lambda>(path, data). atomic_yaml_write path data) s = (Inr us, s')"
    using apply_projectD [OF assms(1,2)] by (elim exE conjE) (rule that)
  note get = group_patch_get [OF g assms(3)]
  have s': "s' = s\<lparr>yaml_files := overlay grouped (yaml_files s)\<rparr>"
    using forE_writes [OF w] get by simp
  show "project_value (yaml_files s') base k =
      (case map_of patch k of Some v \<Rightarrow> Some v | None \<Rightarrow> project_value (yaml_files s) base k)"
    using get [of k] unfolding overlay_Nil by (simp add: s')
  show "p \<notin> project_paths base \<Longrightarrow> yaml_files s' p = yaml_files s p"
    using get by (auto simp: s' project_paths_def intro!: overlay_other)
  show "home s' = home s \<and> environ s' = environ s"
    by (simp add: s')
qed




section \<open>Refusals write nothing\<close>

text \<open>C19. A patch with a key of another scope or none, a value of the wrong type, or a key the
  environment controls is refused as a whole, before anything is written.\<close>

theorem refused_save_changes_nothing:
  assumes "settings_of repr to_float s base = Inr cur"
    and "refused_keys sc (List.map fst patch) \<noteq> []
      \<or> (\<exists>(k, v) \<in> set patch. \<exists>view. view_at k cur = Some view
            \<and> (sv_source view = ENVIRONMENT \<or> \<not> valid_for (sv_kind view) v))"
  shows "\<exists>e. apply_settings repr to_float base patch sc s = (Inl e, s)"
proof -
  have ne: "patch \<noteq> []"
    using assms(2) by (auto simp: refused_keys_def)
  show ?thesis
  proof (cases "refused_keys sc (List.map fst patch) = []")
    case True
    with assms(2) obtain k v view where kv: "(k, v) \<in> set patch" "view_at k cur = Some view"
      "sv_source view = ENVIRONMENT \<or> \<not> valid_for (sv_kind view) v" by auto
    then have "check_patch cur patch \<noteq> Inr ()"
      using check_patchD [of cur patch k v] by auto
    then obtain e where "check_patch cur patch = Inl e"
      by (cases "check_patch cur patch") auto
    with True ne assms(1) show ?thesis
      by (simp add: apply_settings_def load_settings_def bindE_def lift_result_def Let_def)
  next
    case False
    with ne assms(1) show ?thesis
      by (simp add: apply_settings_def load_settings_def bindE_def throw_def Let_def)
  qed
qed

theorem refused_save_changes_nothing_witness:
  "\<exists>e. apply_settings no_text no_float ''/p'' [(''max_parallel_tasks'', JInt 2), (''log_level'', JStr ''INFO'')]
     PROJECT_SCOPE demo_machine = (Inl e, demo_machine)"
proof -
  obtain cur where cur: "settings_of no_text no_float demo_machine ''/p'' = Inr cur"
    using demo_loads(2) by (auto split: sum.splits)
  have "refused_keys PROJECT_SCOPE
      (List.map fst [(''max_parallel_tasks'', JInt 2), (''log_level'', JStr ''INFO'')]) \<noteq> []"
    by code_simp
  with refused_save_changes_nothing [OF cur] show ?thesis by blast
qed

text \<open>A patch over two files is not one write: when the second file cannot be written, the first stays
  changed although the save has failed.\<close>

lemma save_not_atomic:
  "case apply_settings no_text no_float ''/p'' [(''max_parallel_tasks'', JInt 2), (''worktree_strategy'', JStr ''shared'')]
      PROJECT_SCOPE (demo_machine\<lparr>writable := (\<lambda>p. p \<noteq> ''/p/.ai/orchestration/orchestrator.yaml'')\<rparr>) of
     (Inr _, _) \<Rightarrow> False
   | (Inl _, s') \<Rightarrow> project_value (yaml_files s') ''/p'' ''max_parallel_tasks'' = Some (JInt 2)"
  by code_simp

section \<open>Resetting\<close>

lemma del_keys_get: "map_of (del_keys ks d) k = (if k \<in> set ks then None else map_of d k)"
  by (induction d) (auto simp: del_keys_def)

lemma removed_get:
  assumes "remove_project_override base key s = (Inr u, s')" and "map_of PROJECT_FILES key \<noteq> None"
  shows "project_value (yaml_files s') base k = (if k = key then None else project_value (yaml_files s) base k)
    \<and> home s' = home s \<and> environ s' = environ s \<and> writable s' = writable s
    \<and> (\<forall>p. p \<notin> project_paths base \<longrightarrow> yaml_files s' p = yaml_files s p)"
proof -
  obtain fl sect field where key: "map_of PROJECT_FILES key = Some (fl, sect, field)"
    using assms(2) by auto
  let ?p = "orchestration base fl"
  let ?d' = "\<lambda>data. case sect of None \<Rightarrow> del_keys [field] data
      | Some sec \<Rightarrow> (case map_of data sec of Some (JObj e) \<Rightarrow> AList.update sec (JObj (del_keys [field] e)) data | _ \<Rightarrow> data)"
  from assms(1) obtain data where d: "read_yaml (yaml_files s) ?p = Inr data"
    and s': "s' = s\<lparr>yaml_files := (yaml_files s)(?p \<mapsto> Doc (JObj (?d' data)))\<rparr>"
    by (auto simp: remove_project_override_def key Let_def elim!: bindE_OkE dest!: write_okD)
  have in_p: "?p \<in> project_paths base"
    unfolding project_paths_def by (rule image_eqI [OF _ map_of_SomeD [OF key]]) simp
  have new: "override_in (?d' data) sect' field' = (if (sect', field') = (sect, field) then None
      else override_in data sect' field')" if "same_level sect sect'" for sect' field'
    using that
    by (cases sect; cases sect')
      (auto simp: same_level_def override_in_def del_keys_get sub_mapping_def update_conv'
        split: option.splits json.splits)
  have read': "read_yaml (yaml_files s') ?p = Inr (?d' data)"
    by (simp add: s' read_yaml_def)
  have "project_value (yaml_files s') base k = (if k = key then None else project_value (yaml_files s) base k)"
  proof (cases "map_of PROJECT_FILES k")
    case None
    with key show ?thesis by (auto simp: project_value_def)
  next
    case (Some x)
    then obtain fl' sc' fd' where k: "map_of PROJECT_FILES k = Some (fl', sc', fd')" by (cases x) auto
    show ?thesis
    proof (cases "fl' = fl")
      case True
      have level: "same_level sect sc'" and id: "(sc', fd') = (sect, field) \<Longrightarrow> k = key"
        using same_file_same_level [OF key k [unfolded True]] by auto
      have "(sc', fd') = (sect, field) \<longleftrightarrow> k = key"
        using id k key by auto
      then show ?thesis
        unfolding project_value_at [OF k] True read' d using new [OF level, of fd'] by simp
    next
      case False
      with key k have "k \<noteq> key" by auto
      with False show ?thesis
        unfolding project_value_at [OF k] by (simp add: s' read_yaml_def)
    qed
  qed
  with in_p show ?thesis by (auto simp: s')
qed

lemma removed_all:
  assumes "forE keys (remove_project_override base) s = (Inr us, s')"
    and "\<And>k. k \<in> set keys \<Longrightarrow> map_of PROJECT_FILES k \<noteq> None"
  shows "project_value (yaml_files s') base k = (if k \<in> set keys then None else project_value (yaml_files s) base k)
    \<and> (\<forall>p. p \<notin> project_paths base \<longrightarrow> yaml_files s' p = yaml_files s p)"
  using assms
proof (induction keys arbitrary: s us)
  case (Cons key keys)
  from Cons.prems(1) obtain u s1 us' where r: "remove_project_override base key s = (Inr u, s1)"
    and rest: "forE keys (remove_project_override base) s1 = (Inr us', s')"
    by (auto simp: ret_def elim!: bindE_OkE)
  have "map_of PROJECT_FILES key \<noteq> None" using Cons.prems(2) by simp
  note one = removed_get [OF r this]
  have IH: "project_value (yaml_files s') base k = (if k \<in> set keys then None else project_value (yaml_files s1) base k)
    \<and> (\<forall>p. p \<notin> project_paths base \<longrightarrow> yaml_files s' p = yaml_files s1 p)"
    by (rule Cons.IH [OF rest]) (simp add: Cons.prems(2))
  with one [of k] show ?case by (cases "k = key") auto
qed (simp add: ret_def)

lemma project_scope_files: "list_all (\<lambda>k. map_of PROJECT_FILES k \<noteq> None) (keys_of_scope PROJECT_SCOPE)"
  by code_simp

text \<open>A reset takes the project's value out of its file for every key it is given and leaves every
  other project setting as it was; saving a key and then resetting it brings back the settings of
  before, if the project had not set the key.\<close>

theorem reset_removes_overrides:
  assumes "reset_settings repr to_float base keys PROJECT_SCOPE s = (Inr views, s')"
  shows "(\<forall>k. project_value (yaml_files s') base k =
        (if k \<in> set keys then None else project_value (yaml_files s) base k))
    \<and> (\<forall>p. p \<notin> project_paths base \<longrightarrow> yaml_files s' p = yaml_files s p)
    \<and> (\<forall>patch views0 s0. apply_settings repr to_float base patch PROJECT_SCOPE s0 = (Inr views0, s)
          \<and> patch \<noteq> [] \<and> distinct (List.map fst patch) \<and> set keys = fst ` set patch
          \<and> (\<forall>k \<in> set keys. project_value (yaml_files s0) base k = None)
         \<longrightarrow> (\<forall>k. project_value (yaml_files s') base k = project_value (yaml_files s0) base k))"
proof -
  from assms have r: "refused_keys PROJECT_SCOPE keys = []"
    by (auto simp: reset_settings_def Let_def throw_def split: if_splits)
  have files: "map_of PROJECT_FILES k \<noteq> None" if "k \<in> set keys" for k
    using not_refused [OF r that] project_scope_files by (simp add: list_all_iff)
  from assms r obtain us where "forE keys (remove_project_override base) s = (Inr us, s')"
    by (auto simp: reset_settings_def Let_def ret_def load_settings_def elim!: bindE_OkE)
  note gone = removed_all [OF this files]
  have restored: "project_value (yaml_files s') base k = project_value (yaml_files s0) base k"
    if a: "apply_settings repr to_float base patch PROJECT_SCOPE s0 = (Inr views0, s)" "patch \<noteq> []"
        "distinct (List.map fst patch)" and k: "set keys = fst ` set patch"
      and none: "\<forall>k \<in> set keys. project_value (yaml_files s0) base k = None" for patch views0 s0 k
  proof (cases "k \<in> set keys")
    case True
    with gone none show ?thesis by simp
  next
    case False
    with k have "map_of patch k = None" by (simp add: map_of_eq_None_iff)
    with False gone [of k] saved_settings_frame(1) [OF a, of k] show ?thesis by simp
  qed
  show ?thesis
  proof (intro conjI allI impI)
    show "project_value (yaml_files s') base k = (if k \<in> set keys then None else project_value (yaml_files s) base k)" for k
      using gone [of k] by simp
    show "yaml_files s' p = yaml_files s p" if "p \<notin> project_paths base" for p
      using gone that by simp
  qed (elim conjE, rule restored)
qed

theorem reset_removes_overrides_witness:
  "\<exists>views s'. reset_settings no_text no_float ''/p'' [''max_parallel_tasks''] PROJECT_SCOPE demo_machine = (Inr views, s')
     \<and> project_value (yaml_files s') ''/p'' ''max_parallel_tasks'' = None
     \<and> project_value (yaml_files s') ''/p'' ''mcp_enabled'' = Some (JBool True)"
proof -
  have "case reset_settings no_text no_float ''/p'' [''max_parallel_tasks''] PROJECT_SCOPE demo_machine of
      (Inl _, _) \<Rightarrow> False | (Inr _, _) \<Rightarrow> True"
    by code_simp
  then obtain views s' where
    r: "reset_settings no_text no_float ''/p'' [''max_parallel_tasks''] PROJECT_SCOPE demo_machine = (Inr views, s')"
    by (auto split: prod.splits sum.splits)
  have "project_value (yaml_files demo_machine) ''/p'' ''mcp_enabled'' = Some (JBool True)"
    by code_simp
  with reset_removes_overrides [OF r] r show ?thesis by auto
qed

end
