(* ===== verification/JsonViews.thy ===== *)
theory JsonViews
  imports Prelude
begin

text \<open>JSON for optional values and for lists of strings, shared by the command line and the routes.\<close>

definition opt_str :: "string option \<Rightarrow> json" where
  "opt_str v = (case v of None \<Rightarrow> JNull | Some s \<Rightarrow> JStr s)"

definition opt_num :: "rat option \<Rightarrow> json" where
  "opt_num v = (case v of None \<Rightarrow> JNull | Some r \<Rightarrow> JFloat r)"

definition strs :: "string list \<Rightarrow> json" where
  "strs ss = JList (List.map JStr ss)"

end
