(* ===== verification/CommandLine.thy ===== *)
theory CommandLine
  imports DocSite DocValidation ContextPlans Intelligence Settings JsonViews
begin

text \<open>
  The command line of the project tools (\<open>cli.py\<close>): what each command reads, writes and prints, its exit
  code, and the scaffold of \<open>init\<close>. The parsed arguments are a value; what is printed is a list of lines
  and JSON values. Reading files and parsing are as in the evolution theories.
\<close>

section \<open>Arguments, surroundings, state\<close>

record cost_args =
  ca_task_id :: string
  ca_title :: string
  ca_task_type :: string
  ca_components :: "string list"
  ca_release :: "string option"
  ca_estimate_min :: "rat option"
  ca_estimate_max :: "rat option"
  ca_observed_cost :: "rat option"
  ca_cost_source :: string
  ca_billing_mode :: string
  ca_confidence :: string
  ca_input :: int
  ca_output :: int
  ca_cached :: int
  ca_avoided :: int

datatype command =
    Validate bool
  | Impact "string list" bool
  | Context string "string option" string
  | Graph bool
  | DocsValidate
  | DocsFreshness
  | DocsCoverage
  | DocsBuild string "string list option"
  | CostTask cost_args
  | CostProject bool
  | IntelligenceSummary bool
  | Init "string option"

text \<open>The libraries and the world the commands read: parsers and validators, JSON printers (\<open>ce_pretty\<close>
  indented with sorted keys, \<open>ce_line\<close> on one line), number formats, Git's output, the date.\<close>

record cli_env =
  ce_tree :: tree
  ce_yaml :: yaml_parser
  ce_manifest :: "project_manifest validator"
  ce_metadata :: "doc_metadata validator"
  ce_task_map :: "task_map validator"
  ce_context_pack :: "context_pack validator"
  ce_git :: "string option list"
  ce_today :: int
  ce_now :: string
  ce_sha :: "string \<Rightarrow> string"
  ce_repr :: "json \<Rightarrow> string"
  ce_dumps :: "json \<Rightarrow> string"
  ce_pretty :: "json \<Rightarrow> string"
  ce_line :: "json \<Rightarrow> string"
  ce_loads :: "string \<Rightarrow> exn + json"
  ce_yaml_dump :: "json \<Rightarrow> string"
  ce_cost :: "string \<Rightarrow> string + task_cost"
  ce_debt :: "string \<Rightarrow> string + debt_record"
  ce_fmt2 :: "rat \<Rightarrow> string"
  ce_percent :: "rat \<Rightarrow> string"
  ce_float :: "rat \<Rightarrow> string"

datatype printed = PLine string | PJson json

record cli_world = disk +
  cw_ledgers :: ledgers
  cw_stdout :: "printed list"
  cw_stderr :: "string list"

type_synonym 'a cli_act = "(cli_world, exn, 'a) act"

definition print_lines :: "string list \<Rightarrow> unit cli_act" where
  "print_lines ls = modify (\<lambda>w. w\<lparr>cw_stdout := cw_stdout w @ List.map PLine ls\<rparr>)"

definition json_dump :: "json \<Rightarrow> unit cli_act" where
  "json_dump v = modify (\<lambda>w. w\<lparr>cw_stdout := cw_stdout w @ [PJson v]\<rparr>)"

text \<open>\<open>if args.json: ... else: ...\<close>.\<close>

definition emit :: "bool \<Rightarrow> json \<Rightarrow> string list \<Rightarrow> unit cli_act" where
  "emit as_json payload ls = (if as_json then json_dump payload else print_lines ls)"

section \<open>What is printed\<close>

definition report_dict :: "validation_report \<Rightarrow> dict" where
  "report_dict r = [(''valid'', JBool (report_valid r)), (''documents'', JInt (int (vr_documents r))),
     (''task_maps'', JInt (int (vr_task_maps r))), (''context_packs'', JInt (int (vr_context_packs r))),
     (''issues'', JList (List.map (\<lambda>i. JObj [(''severity'', JStr (vi_severity i)), (''code'', JStr (vi_code i)),
        (''message'', JStr (vi_message i)), (''path'', opt_str (vi_path i))]) (vr_issues r)))]"

definition impact_item_json :: "impact_item \<Rightarrow> json" where
  "impact_item_json i = JObj [(''path'', JStr (im_path i)), (''reason'', JStr (im_reason i)), (''relation'', JStr (im_relation i))]"

definition impact_dict :: "impact_report \<Rightarrow> dict" where
  "impact_dict r = [(''changed'', strs (ir_changed r)), (''risk'', JStr (ir_risk r)),
     (''read'', JList (List.map impact_item_json (ir_read r))),
     (''possible_updates'', JList (List.map impact_item_json (ir_possible r))), (''warnings'', strs (ir_warnings r))]"

fun risk_name :: "doc_risk \<Rightarrow> string" where
  "risk_name RISK_LOW = ''low''"
| "risk_name RISK_MEDIUM = ''medium''"
| "risk_name RISK_HIGH = ''high''"
| "risk_name RISK_CRITICAL = ''critical''"

fun authority_name :: "authority \<Rightarrow> string" where
  "authority_name CANONICAL = ''canonical''"
| "authority_name DERIVED = ''derived''"
| "authority_name INFORMATIVE = ''informative''"

text \<open>\<open>model_dump\<close> of a context plan, the graph, the registry, a cost record and the summary.\<close>

definition item_json :: "context_item \<Rightarrow> json" where
  "item_json i = JObj [(''id'', JStr (ci_id i)), (''path'', opt_str (ci_path i)), (''reason'', JStr (ci_reason i)),
     (''estimated_tokens'', JInt (ci_tokens i)), (''required'', JBool (ci_required i))]"

definition plan_json :: "context_plan \<Rightarrow> json" where
  "plan_json p = JObj [(''schema_version'', JInt 1), (''id'', JStr (cx_id p)), (''intent'', JStr (cx_intent p)),
     (''profile'', JStr (cx_profile p)), (''risk'', JStr (risk_name (cx_risk p))),
     (''budget'', JObj [(''name'', JStr (cb_name (cx_budget p))), (''target_tokens'', JInt (cb_target (cx_budget p))),
        (''max_tokens'', JInt (cb_max (cx_budget p)))]),
     (''estimated_tokens'', JInt (cx_estimated p)), (''required'', JList (List.map item_json (cx_required p))),
     (''optional'', JList (List.map item_json (cx_optional p))), (''excluded'', strs (cx_excluded p)),
     (''levels'', JObj (List.map (\<lambda>(k, v). (k, strs v)) (cx_levels p))), (''stop_condition'', strs (cx_stop p)),
     (''explanations'', JObj (List.map (\<lambda>(k, v). (k, JStr v)) (cx_explanations p)))]"

definition graph_dict :: "knowledge_graph \<Rightarrow> dict" where
  "graph_dict g = [(''schema_version'', JInt 1),
     (''nodes'', JList (List.map (\<lambda>n. JObj [(''id'', JStr (gn_id n)), (''type'', JStr (gn_type n)), (''path'', opt_str (gn_path n)),
        (''title'', opt_str (gn_title n)), (''visibility'', opt_str (map_option visibility_str (gn_visibility n)))]) (kg_nodes g))),
     (''edges'', JList (List.map (\<lambda>e. JObj [(''source'', JStr (ge_source e)), (''relation'', JStr (ge_relation e)),
        (''target'', JStr (ge_target e))]) (kg_edges g)))]"

definition entry_json :: "registry_entry \<Rightarrow> json" where
  "entry_json e = JObj [(''schema_version'', JInt 1), (''id'', JStr (re_id e)), (''path'', JStr (re_path e)), (''title'', JStr (re_title e)),
     (''section'', JStr (re_section e)), (''category'', opt_str (re_category e)), (''visibility'', JStr (visibility_str (re_visibility e))),
     (''authority'', JStr (authority_name (re_authority e))), (''status'', JStr (doc_status_str (re_status e))),
     (''estimated_tokens'', JInt (re_tokens e)), (''tags'', strs (re_tags e))]"

definition registry_json :: "registry_entry list \<Rightarrow> json" where
  "registry_json es = JObj [(''schema_version'', JInt 1), (''entries'', JList (List.map entry_json es))]"

definition range_json :: "cost_range option \<Rightarrow> json" where
  "range_json v = (case v of None \<Rightarrow> JNull | Some r \<Rightarrow> JObj [(''min'', JFloat (cr_min r)), (''max'', JFloat (cr_max r))])"

definition usage_json :: "token_usage \<Rightarrow> json" where
  "usage_json u = JObj [(''input'', JInt (tu_input u)), (''output'', JInt (tu_output u)), (''cached'', JInt (tu_cached u)),
     (''avoided_estimate'', JInt (tu_avoided u))]"

definition cost_json :: "task_cost \<Rightarrow> json" where
  "cost_json r = JObj [(''schema_version'', JInt 1), (''task_id'', JStr (tc_task_id r)), (''title'', JStr (tc_title r)),
     (''task_type'', JStr (tc_task_type r)), (''components'', strs (tc_components r)), (''release'', opt_str (tc_release r)),
     (''date_started'', opt_str (tc_started r)), (''date_finished'', opt_str (tc_finished r)), (''complexity'', JStr ''unknown''),
     (''risk'', JStr ''unknown''), (''estimate'', range_json (tc_estimate r)), (''observed_tokens'', usage_json (tc_tokens r)),
     (''observed_cost_usd'', opt_num (tc_observed_cost r)), (''cost_source'', JStr (tc_cost_source r)),
     (''billing_mode'', JStr (tc_billing_mode r)), (''confidence'', JStr (tc_confidence r)), (''changes'', JObj []), (''result'', JObj []),
     (''maintenance_cost_score'', JNull)]"

definition summary_dict :: "project_summary \<Rightarrow> dict" where
  "summary_dict p = [(''schema_version'', JInt 1), (''project'', JStr (ps_project p)), (''period'', JStr (ps_period p)),
     (''tasks_completed'', JInt (int (ps_tasks_completed p))), (''tokens'', usage_json (ps_tokens p)),
     (''estimated_total_usd'', range_json (ps_estimated p)), (''observed_api_usd'', opt_num (ps_observed p)),
     (''documentation_coverage'', opt_num (ps_coverage p)), (''technical_debt_open_items'', JInt (int (ps_open_debt p))),
     (''cost_by_component'', JObj (List.map (\<lambda>(k, v). (k, JFloat v)) (ps_by_component p)))]"

definition coverage_json :: "doc_coverage \<Rightarrow> json" where
  "coverage_json c = JObj [(''documents'', JInt (cov_documents c)), (''versioned'', JInt (cov_versioned c)),
     (''coverage'', opt_num (cov_ratio c)),
     (''by_section'', JObj (List.map (\<lambda>(s, t, v). (s, JObj [(''total'', JInt t), (''versioned'', JInt v)])) (cov_sections c)))]"

definition issue_line :: "issue \<Rightarrow> string" where
  "issue_line i = upper (vi_severity i) @ '' '' @ vi_code i @ '': '' @ vi_message i"

definition item_line :: "string \<Rightarrow> string \<Rightarrow> string" where
  "item_line p reason = ''- '' @ p @ '' '' @ emdash @ '' '' @ reason"

definition or_none :: "string list \<Rightarrow> string" where
  "or_none ss = (if ss \<noteq> [] then join '', '' ss else ''none'')"

definition context_item_line :: "context_item \<Rightarrow> string" where
  "context_item_line i =
     item_line (case ci_path i of Some (c # p) \<Rightarrow> c # p | _ \<Rightarrow> ci_id i) (ci_reason i)"

definition format_context_plan :: "context_plan \<Rightarrow> string" where
  "format_context_plan p = join newline
     ([''Intent: '' @ cx_intent p, ''Risk: '' @ upper (risk_name (cx_risk p)),
       ''Budget: '' @ int_str (cb_target (cx_budget p)) @ '' target / '' @ int_str (cb_max (cx_budget p)) @ '' max'',
       ''Estimated context: '' @ int_str (cx_estimated p) @ '' tokens (heuristic)'', [], ''Required:'']
      @ List.map context_item_line (cx_required p) @ [''Optional:''] @ List.map context_item_line (cx_optional p)
      @ [''Excluded: '' @ or_none (cx_excluded p), ''Stop condition: '' @ join '', '' (cx_stop p)])"

definition pad13 :: "string \<Rightarrow> string" where
  "pad13 s = s @ replicate (13 - length s) (CHR '' '')"

section \<open>Writing the projections\<close>

fun write_all :: "(string list \<times> string) list \<Rightarrow> 'z disk_scheme \<Rightarrow> 'z disk_scheme" where
  "write_all [] dk = dk"
| "write_all ((p, t) # ps) dk = write_all ps (write_text p t (make_dirs (butlast p) dk))"

definition index_files :: "cli_env \<Rightarrow> exn + (string list \<times> string) list" where
  "index_files env = write_project_index (\<lambda>es. ce_pretty env (registry_json es)) (\<lambda>g. ce_pretty env (JObj (graph_dict g)))
     (ce_yaml env) (ce_manifest env) (ce_metadata env) (ce_tree env)"

definition write_index :: "cli_env \<Rightarrow> string list cli_act" where
  "write_index env = bindE (lift_result (index_files env)) (\<lambda>fs.
     bindE (modify (write_all fs)) (\<lambda>_. ret (List.map (\<lambda>f. path_text (fst f)) fs)))"

definition with_written :: "dict \<Rightarrow> string list \<Rightarrow> json" where
  "with_written d written = JObj (if written \<noteq> [] then d @ [(''written'', strs written)] else d)"

section \<open>The commands\<close>

definition the_report :: "cli_env \<Rightarrow> exn + validation_report" where
  "the_report env = validate_project (ce_yaml env) (ce_manifest env) (ce_metadata env) (ce_task_map env) (ce_context_pack env) (ce_tree env)"

definition pass_fail :: "validation_report \<Rightarrow> string" where
  "pass_fail r = (if report_valid r then ''PASS'' else ''FAIL'')"

definition exit_of :: "validation_report \<Rightarrow> nat" where
  "exit_of r = (if report_valid r then 0 else 1)"

definition run_validate :: "cli_env \<Rightarrow> bool \<Rightarrow> bool \<Rightarrow> nat cli_act" where
  "run_validate env as_json write =
     bindE (lift_result (the_report env)) (\<lambda>r.
     bindE (if write \<and> report_valid r then write_index env else ret []) (\<lambda>written.
     bindE (emit as_json (with_written (report_dict r) written)
       ([''Atlas validation: '' @ pass_fail r,
         ''Documents: '' @ nat_str (vr_documents r) @ ''; task maps: '' @ nat_str (vr_task_maps r) @ '';'',
         ''Context packs: '' @ nat_str (vr_context_packs r)] @ List.map issue_line (vr_issues r)
        @ (if written \<noteq> [] then [''Written projections: '' @ join '', '' written] else []))) (\<lambda>_.
     ret (exit_of r))))"

definition run_docs_validate :: "cli_env \<Rightarrow> bool \<Rightarrow> nat cli_act" where
  "run_docs_validate env as_json =
     bindE (lift_result (the_report env)) (\<lambda>r.
     bindE (emit as_json (JObj (report_dict r))
       ((''Documentation validation: '' @ pass_fail r) # List.map issue_line (vr_issues r))) (\<lambda>_.
     ret (exit_of r)))"

definition run_impact :: "cli_env \<Rightarrow> bool \<Rightarrow> string list \<Rightarrow> bool \<Rightarrow> nat cli_act" where
  "run_impact env as_json paths changed =
     bindE (lift_result (analyze_impact (ce_yaml env) (ce_manifest env) (ce_metadata env) (ce_git env) (ce_tree env)
       (if changed then [] else paths))) (\<lambda>r.
     bindE (emit as_json (JObj (impact_dict r))
       ([''Impact risk: '' @ upper (ir_risk r), ''Read:''] @ List.map (\<lambda>i. item_line (im_path i) (im_reason i)) (ir_read r)
        @ [''Possible updates:''] @ List.map (\<lambda>i. item_line (im_path i) (im_reason i)) (ir_possible r))) (\<lambda>_. ret 0))"

definition run_context :: "cli_env \<Rightarrow> bool \<Rightarrow> string \<Rightarrow> string option \<Rightarrow> string \<Rightarrow> nat cli_act" where
  "run_context env as_json intent budget profile =
     bindE (lift_result (plan_context (ce_sha env) (ce_yaml env) (ce_manifest env) (ce_metadata env) (ce_task_map env)
       (ce_context_pack env) (ce_tree env) intent (case budget of None \<Rightarrow> NoBudget | Some b \<Rightarrow> Named b) profile)) (\<lambda>p.
     bindE (emit as_json (plan_json p) [format_context_plan p]) (\<lambda>_. ret 0))"

definition run_graph :: "cli_env \<Rightarrow> bool \<Rightarrow> bool \<Rightarrow> nat cli_act" where
  "run_graph env as_json write =
     bindE (lift_result (load_project_index (ce_yaml env) (ce_manifest env) (ce_metadata env) (ce_tree env))) (\<lambda>(_, _, _, g).
     bindE (if write then write_index env else ret []) (\<lambda>written.
     bindE (emit as_json (with_written (graph_dict g) written)
       ((''Nodes: '' @ nat_str (length (kg_nodes g)) @ ''; edges: '' @ nat_str (length (kg_edges g)))
        # List.map (\<lambda>e. ''- '' @ ge_source e @ '' -['' @ ge_relation e @ '']-> '' @ ge_target e) (kg_edges g))) (\<lambda>_. ret 0)))"

definition run_freshness :: "cli_env \<Rightarrow> bool \<Rightarrow> nat cli_act" where
  "run_freshness env as_json =
     bindE (lift_result (freshness_report (ce_yaml env) (ce_manifest env) (ce_metadata env) (ce_tree env) (ce_today env))) (\<lambda>rows.
     bindE (emit as_json
       (JList (List.map (\<lambda>(i, p, s). JObj [(''id'', JStr i), (''path'', JStr p), (''status'', JStr s)]) rows))
       (List.map (\<lambda>(i, p, s). pad13 s @ '' '' @ p) rows)) (\<lambda>_. ret 0))"

definition run_coverage :: "cli_env \<Rightarrow> bool \<Rightarrow> nat cli_act" where
  "run_coverage env as_json =
     bindE (lift_result (documentation_coverage (ce_yaml env) (ce_manifest env) (ce_metadata env) (ce_tree env))) (\<lambda>c.
     bindE (emit as_json (coverage_json c)
       ((''Documentation metadata coverage: '' @ (case cov_ratio c of None \<Rightarrow> ''None'' | Some r \<Rightarrow> ce_float env r))
        # List.map (\<lambda>(s, t, v). ''- '' @ s @ '': '' @ int_str v @ ''/'' @ int_str t) (cov_sections c))) (\<lambda>_. ret 0))"

definition build_on_world :: "cli_env \<Rightarrow> string \<Rightarrow> string list option \<Rightarrow> site_result cli_act" where
  "build_on_world env v target w =
     (case build_site (ce_repr env) (ce_dumps env) (ce_loads env) (ce_yaml env) (ce_manifest env) (ce_metadata env) (ce_tree env) target v w of
        Inl e \<Rightarrow> (Inl e, w)
      | Inr (result, w') \<Rightarrow> (Inr result, w'))"

definition run_build :: "cli_env \<Rightarrow> bool \<Rightarrow> string \<Rightarrow> string list option \<Rightarrow> nat cli_act" where
  "run_build env as_json v target =
     bindE (build_on_world env v target) (\<lambda>r.
     bindE (emit as_json
       (JObj [(''output'', JStr (path_text (sr_output r))), (''visibility'', JStr (sr_visibility r)), (''pages'', strs (sr_pages r))])
       [''Documentation site built at '' @ path_text (sr_output r) @ '' ('' @ nat_str (length (sr_pages r)) @ '' generated files)''])
     (\<lambda>_. ret 0))"

section \<open>Costs\<close>

text \<open>The constructor of \<open>IntelligenceStore\<close>: the manifest and the directory of the ledgers.\<close>

definition open_store :: "cli_env \<Rightarrow> exn + (project_manifest \<times> string list)" where
  "open_store env =
     (case load_manifest (ce_yaml env) (ce_manifest env) (ce_tree env) of Inl e \<Rightarrow> Inl e | Inr (m, _) \<Rightarrow>
        map_sum id (\<lambda>p. (m, p @ [''intelligence''])) (resolve_project_path (ce_tree env) (mf_data_root m) ''data_root''))"

definition estimate_of :: "cost_args \<Rightarrow> exn + cost_range option" where
  "estimate_of a =
     (case (ca_estimate_min a, ca_estimate_max a) of
        (Some lo, Some hi) \<Rightarrow> map_sum id Some (mk_cost_range lo hi)
      | (None, None) \<Rightarrow> Inr None
      | _ \<Rightarrow> Inl (ValueError ''--estimate-min and --estimate-max must be supplied together''))"

definition mk_usage :: "int \<Rightarrow> int \<Rightarrow> int \<Rightarrow> int \<Rightarrow> exn + token_usage" where
  "mk_usage i out c a =
     (if i < 0 \<or> out < 0 \<or> c < 0 \<or> a < 0 then Inl (ValidationError ''Input should be greater than or equal to 0'')
      else Inr \<lparr>tu_input = i, tu_output = out, tu_cached = c, tu_avoided = a\<rparr>)"

definition cost_record :: "cost_args \<Rightarrow> string \<Rightarrow> exn + task_cost" where
  "cost_record a now =
     (case estimate_of a of Inl e \<Rightarrow> Inl e | Inr estimate \<Rightarrow>
     (case mk_usage (ca_input a) (ca_output a) (ca_cached a) (ca_avoided a) of Inl e \<Rightarrow> Inl e | Inr usage \<Rightarrow>
       if ca_task_id a = [] \<or> ca_title a = [] then Inl (ValidationError ''String should have at least 1 character'')
       else if (case ca_observed_cost a of Some c \<Rightarrow> c < 0 | None \<Rightarrow> False)
       then Inl (ValidationError ''Input should be greater than or equal to 0'')
       else Inr \<lparr>tc_task_id = ca_task_id a, tc_title = ca_title a, tc_task_type = ca_task_type a, tc_components = ca_components a,
              tc_release = ca_release a, tc_started = None, tc_finished = Some now, tc_estimate = estimate, tc_tokens = usage,
              tc_observed_cost = ca_observed_cost a, tc_cost_source = ca_cost_source a, tc_billing_mode = ca_billing_mode a,
              tc_confidence = ca_confidence a\<rparr>))"

definition run_cost_task :: "cli_env \<Rightarrow> bool \<Rightarrow> cost_args \<Rightarrow> nat cli_act" where
  "run_cost_task env as_json a =
     bindE (lift_result (open_store env)) (\<lambda>(_, dir).
     bindE (lift_result (cost_record a (ce_now env))) (\<lambda>r.
     bindE (modify (\<lambda>w. w\<lparr>cw_ledgers := append_cost (\<lambda>r. ce_line env (cost_json r)) r (cw_ledgers w)\<rparr>)) (\<lambda>_.
     let ledger = path_text (dir @ [''ledger.jsonl''])
     in bindE (emit as_json (JObj [(''record'', cost_json r), (''ledger'', JStr ledger)])
          [''Cost recorded for '' @ tc_task_id r @ '': '' @ ledger]) (\<lambda>_. ret 0))))"

text \<open>\<open>cost project\<close> and \<open>intelligence summary\<close>; only the first prints where the summary was written.\<close>

definition run_summary :: "cli_env \<Rightarrow> bool \<Rightarrow> bool \<Rightarrow> bool \<Rightarrow> nat cli_act" where
  "run_summary env as_json write shows_path =
     bindE (lift_result (open_store env)) (\<lambda>(m, dir).
     bindE (gets cw_ledgers) (\<lambda>lg.
     bindE (lift_result (build_summary (ce_cost env) (ce_debt env) (ce_yaml env) (ce_metadata env) m (ce_tree env) lg)) (\<lambda>s.
     bindE (if write then modify (\<lambda>w. w\<lparr>cw_ledgers := write_summary (\<lambda>s. ce_pretty env (JObj (summary_dict s))) s (cw_ledgers w)\<rparr>)
            else ret ()) (\<lambda>_.
     let target = path_text (dir @ [''project-summary.json''])
     in bindE (emit as_json (JObj (summary_dict s @ (if write then [(''summary_path'', JStr target)] else [])))
          (format_summary (ce_fmt2 env) (ce_percent env) s
           # (if write \<and> shows_path then [''Summary written to '' @ target] else []))) (\<lambda>_. ret 0)))))"

section \<open>The scaffold of init\<close>

definition mkdir_parents :: "string list \<Rightarrow> unit cli_act" where
  "mkdir_parents p w =
     (if list_ex (is_file w) (prefixes p) then (Inl (OSError ''Not a directory''), w) else (Inr (), make_dirs p w))"

definition init_manifest :: "string \<Rightarrow> json" where
  "init_manifest name = JObj [(''schema_version'', JInt 2),
     (''project'', JObj [(''name'', JStr name), (''version'', JStr ''0.1.0'')]),
     (''atlas'', JObj [(''docs_root'', JStr ''docs''), (''data_root'', JStr ''.atlas'')]),
     (''documentation'', JObj [(''title'', JStr (name @ '' Documentation'')), (''default_visibility'', JStr ''internal'')]),
     (''publishing'', JObj [(''public'', JList []), (''internal'', JList []), (''private'', JList [])]),
     (''intelligence'', JObj [(''enabled'', JBool True), (''dashboard'', JBool True)]),
     (''context'', JObj [(''default_budget'', JStr ''medium'')])]"

definition INIT_DIRS :: "string list list" where
  "INIT_DIRS = [[''docs'', ''_meta'', ''task-maps''], [''docs'', ''_meta'', ''context-packs''], [''docs'', ''_meta'', ''summaries'']]"

definition STARTER_DOCS :: "(string \<times> string) list" where
  "STARTER_DOCS =
    [(''docs/USER_ATLAS.md'', text_of_lines [''# User Atlas'', [], ''Start with the user documentation.'']),
     (''docs/DEVELOPER_ATLAS.md'', text_of_lines [''# Developer Atlas'', [], ''Start with contributor documentation.'']),
     (''docs/AGENT_ATLAS.md'', text_of_lines [''# Agent Atlas'', [], ''Start with the project contract and task maps.'']),
     (''docs/_meta/TOKEN_ECONOMY.md'',
      text_of_lines [''# Token Economy'', [], ''Use minimum sufficient context and record estimation method.''])]"

text \<open>One file of the scaffold: skipped where something exists, else written below its directories.\<close>

definition create_file :: "string list \<Rightarrow> string \<times> string \<Rightarrow> string list cli_act" where
  "create_file base f = (case f of (relative, content) \<Rightarrow>
     let p = base @ parts_of relative
     in bindE (gets (\<lambda>w. is_file w p \<or> is_dir w p)) (\<lambda>there.
        if there then ret []
        else bindE (mkdir_parents (butlast p)) (\<lambda>_. bindE (modify (write_text p content)) (\<lambda>_. ret [relative]))))"

definition init_name :: "string list \<Rightarrow> string option \<Rightarrow> string" where
  "init_name base name = (case name of Some (c # s) \<Rightarrow> c # s | _ \<Rightarrow> if base = [] then [] else last base)"

definition handle_init :: "(json \<Rightarrow> string) \<Rightarrow> string list \<Rightarrow> string option \<Rightarrow> string list cli_act" where
  "handle_init dump base name =
     bindE (create_file base (''atlas.config.yaml'', dump (init_manifest (init_name base name)))) (\<lambda>first.
     bindE (forE INIT_DIRS (\<lambda>d. mkdir_parents (base @ d))) (\<lambda>_.
     bindE (forE STARTER_DOCS (create_file base)) (\<lambda>rest. ret (first @ concat rest))))"

definition run_init :: "cli_env \<Rightarrow> bool \<Rightarrow> string option \<Rightarrow> nat cli_act" where
  "run_init env as_json name =
     (let base = tr_root (ce_tree env)
      in bindE (handle_init (ce_yaml_dump env) base name) (\<lambda>created.
         bindE (emit as_json (JObj [(''root'', JStr (path_text base)), (''created'', strs created)])
           ((''Atlas v2 scaffold: '' @ nat_str (length created) @ '' files created'') # List.map (\<lambda>p. ''- '' @ p) created)) (\<lambda>_. ret 0)))"

section \<open>Dispatch and exit codes\<close>

fun run_command :: "cli_env \<Rightarrow> bool \<Rightarrow> command \<Rightarrow> nat cli_act" where
  "run_command env as_json (Validate write) = run_validate env as_json write"
| "run_command env as_json (Impact paths changed) = run_impact env as_json paths changed"
| "run_command env as_json (Context intent budget profile) = run_context env as_json intent budget profile"
| "run_command env as_json (Graph write) = run_graph env as_json write"
| "run_command env as_json DocsValidate = run_docs_validate env as_json"
| "run_command env as_json DocsFreshness = run_freshness env as_json"
| "run_command env as_json DocsCoverage = run_coverage env as_json"
| "run_command env as_json (DocsBuild v target) = run_build env as_json v target"
| "run_command env as_json (CostTask a) = run_cost_task env as_json a"
| "run_command env as_json (CostProject write) = run_summary env as_json write True"
| "run_command env as_json (IntelligenceSummary write) = run_summary env as_json write False"
| "run_command env as_json (Init name) = run_init env as_json name"

text \<open>\<open>except (DocumentParseError, OSError, ValueError)\<close>, with the subclasses of the latter two.\<close>

fun cli_caught :: "exn \<Rightarrow> string option" where
  "cli_caught (DocumentParseError why) = Some why"
| "cli_caught (OSError why) = Some why"
| "cli_caught (FileNotFound why) = Some why"
| "cli_caught (ValueError why) = Some why"
| "cli_caught (ValidationError why) = Some why"
| "cli_caught (JSONDecodeError why) = Some why"
| "cli_caught e = None"

definition main :: "cli_env \<Rightarrow> bool \<Rightarrow> command \<Rightarrow> nat cli_act" where
  "main env as_json c =
     try_except (run_command env as_json c) (\<lambda>e. case cli_caught e of
        None \<Rightarrow> throw e
      | Some why \<Rightarrow> bindE (modify (\<lambda>w. w\<lparr>cw_stderr := cw_stderr w @ [''atlas: '' @ why]\<rparr>)) (\<lambda>_. ret 2))"

section \<open>What a command can change\<close>

definition same_files :: "cli_world \<Rightarrow> cli_world \<Rightarrow> bool" where
  "same_files w w' \<longleftrightarrow> dk_files w' = dk_files w \<and> dk_dirs w' = dk_dirs w \<and> cw_ledgers w' = cw_ledgers w"

text \<open>An action that changes no file; one that changes none when it raises; one that never raises.\<close>

definition quiet :: "'a cli_act \<Rightarrow> bool" where
  "quiet m \<longleftrightarrow> (\<forall>w. same_files w (snd (m w)))"


definition certain :: "'a cli_act \<Rightarrow> bool" where
  "certain m \<longleftrightarrow> (\<forall>w. \<not> isl (fst (m w)))"

named_theorems effects \<open>which actions change no file, or none when they raise\<close>

lemma same_refl [simp]: "same_files w w"
  by (simp add: same_files_def)

lemma same_trans: "same_files a b \<Longrightarrow> same_files b c \<Longrightarrow> same_files a c"
  by (simp add: same_files_def)

lemma quiet_bind [effects]: "quiet m \<Longrightarrow> (\<And>x. quiet (f x)) \<Longrightarrow> quiet (bindE m f)"
  unfolding quiet_def bindE_def by (auto split: prod.split sum.split) (metis same_trans snd_conv)+



lemma certain_bind [effects]: "certain m \<Longrightarrow> (\<And>x. certain (f x)) \<Longrightarrow> certain (bindE m f)"
  unfolding certain_def bindE_def by (auto split: prod.splits sum.splits) (metis fst_conv isl_def)+



lemma quiet_basic [effects]:
  "quiet (lift_result r)" "quiet (ret x)" "quiet (gets g)" "quiet (emit j v ls)" "quiet (throw e)"
  by (simp_all add: quiet_def lift_result_def act_defs emit_def print_lines_def json_dump_def same_files_def split: sum.split)

lemma certain_basic [effects]: "certain (ret x)" "certain (gets g)" "certain (modify h)" "certain (emit j v ls)"
  by (simp_all add: certain_def act_defs emit_def print_lines_def json_dump_def)











lemma lift_result_Ok: "lift_result r s = (Inr x, s') \<longleftrightarrow> r = Inr x \<and> s' = s"
  by (auto simp: lift_result_def act_defs split: sum.split)

lemma emit_ok: "\<exists>w'. emit j v ls w = (Inr (), w')"
  by (simp add: emit_def print_lines_def json_dump_def act_defs)

lemma emit_same: "emit j v ls w = (r, w') \<Longrightarrow> same_files w w'"
  using quiet_basic(4) [of j v ls] by (auto simp: quiet_def dest: spec [of _ w])








section \<open>The scaffold never overwrites\<close>

definition there :: "string list \<Rightarrow> string \<times> string \<Rightarrow> cli_world \<Rightarrow> bool" where
  "there base f w \<longleftrightarrow> is_file w (base @ parts_of (fst f)) \<or> is_dir w (base @ parts_of (fst f))"

text \<open>From \<open>w\<close> to \<open>w'\<close> exactly the files \<open>cr\<close> are added, where nothing was.\<close>

definition adds_files :: "string list \<Rightarrow> (string \<times> string) list \<Rightarrow> cli_world \<Rightarrow> cli_world \<Rightarrow> bool" where
  "adds_files base cr w w' \<longleftrightarrow>
     dk_files w' = dk_files w @ List.map (\<lambda>f. (base @ parts_of (fst f), snd f)) cr
     \<and> set (dk_dirs w) \<subseteq> set (dk_dirs w') \<and> (\<forall>f \<in> set cr. \<not> there base f w)"

lemma adds_refl: "adds_files base [] w w"
  by (simp add: adds_files_def)

lemma adds_there: "adds_files base cr w w' \<Longrightarrow> there base f w \<or> f \<in> set cr \<Longrightarrow> there base f w'"
  by (auto simp: adds_files_def there_def is_file_def is_dir_def image_Un image_image)

lemma adds_trans: "adds_files base a u v \<Longrightarrow> adds_files base b v w \<Longrightarrow> adds_files base (a @ b) u w"
  unfolding adds_files_def by (auto simp: there_def is_file_def is_dir_def)

lemma update_new: "k \<notin> fst ` set xs \<Longrightarrow> AList.update k v xs = xs @ [(k, v)]"
  by (induction xs) auto

lemma mkdir_adds: "mkdir_parents p w = (r, w') \<Longrightarrow> adds_files base [] w w' \<and> (r = Inr () \<longrightarrow> set (prefixes p) \<subseteq> set (dk_dirs w') \<and> \<not> list_ex (is_file w) (prefixes p))"
  by (auto simp: mkdir_parents_def adds_files_def make_dirs_def split: if_splits)

lemma create_adds:
  assumes "create_file base f w = (r, w')"
  shows "\<exists>cr. set cr \<subseteq> {f} \<and> adds_files base cr w w' \<and> (\<forall>x. r = Inr x \<longrightarrow> x = List.map fst cr \<and> there base f w')"
proof (cases "there base f w")
  case True
  with assms have "r = Inr [] \<and> w' = w" by (cases f) (auto simp: create_file_def there_def act_defs Let_def)
  with True show ?thesis by (intro exI [of _ "[]"]) (simp add: adds_refl)
next
  case False
  obtain n c where f: "f = (n, c)" by (cases f)
  let ?p = "base @ parts_of n"
  from False f assms have run: "bindE (mkdir_parents (butlast ?p)) (\<lambda>_. bindE (modify (write_text ?p c)) (\<lambda>_. ret [n])) w = (r, w')"
    by (simp add: create_file_def there_def gets_def bindE_def Let_def)
  show ?thesis
  proof (cases "list_ex (is_file w) (prefixes (butlast ?p))")
    case True
    with run have "(\<exists>e. r = Inl e) \<and> w' = w" by (auto simp: mkdir_parents_def bindE_def)
    then show ?thesis by (intro exI [of _ "[]"]) (auto simp: adds_refl)
  next
    case clear: False
    with run have r: "r = Inr [n]" "w' = write_text ?p c (make_dirs (butlast ?p) w)"
      by (auto simp: mkdir_parents_def act_defs)
    moreover have "?p \<notin> fst ` set (dk_files w)" using False f by (simp add: there_def is_file_def)
    ultimately have "adds_files base [f] w w'"
      using False f by (simp add: adds_files_def write_text_def make_dirs_def update_new)
    with r f adds_there [of base "[f]" w w' f] show ?thesis by (intro exI [of _ "[f]"]) simp
  qed
qed

lemma create_all_adds:
  assumes "forE fs (create_file base) w = (r, w')"
  shows "\<exists>cr. set cr \<subseteq> set fs \<and> adds_files base cr w w' \<and> (\<forall>x. r = Inr x \<longrightarrow> concat x = List.map fst cr \<and> (\<forall>f \<in> set fs. there base f w'))"
  using assms
proof (induction fs arbitrary: w r w')
  case Nil
  then show ?case by (intro exI [of _ "[]"]) (auto simp: ret_def adds_refl)
next
  case (Cons f fs)
  obtain r1 w1 where one: "create_file base f w = (r1, w1)" by fastforce
  from create_adds [OF one] obtain a where a: "set a \<subseteq> {f}" "adds_files base a w w1"
    "\<forall>x. r1 = Inr x \<longrightarrow> x = List.map fst a \<and> there base f w1" by blast
  show ?case
  proof (cases r1)
    case (Inl e)
    with one Cons.prems have "r = Inl e" "w' = w1" by (auto simp: bindE_def)
    with a show ?thesis by (intro exI [of _ a]) auto
  next
    case (Inr x)
    obtain r2 w2 where two: "forE fs (create_file base) w1 = (r2, w2)" by fastforce
    from Cons.IH [OF two] obtain b where b: "set b \<subseteq> set fs" "adds_files base b w1 w2"
      "\<forall>y. r2 = Inr y \<longrightarrow> concat y = List.map fst b \<and> (\<forall>f \<in> set fs. there base f w2)" by blast
    have "w' = w2 \<and> (\<forall>y. r = Inr y \<longrightarrow> (\<exists>z. r2 = Inr z \<and> y = x # z))"
      using one two Inr Cons.prems by (auto simp: bindE_def ret_def split: sum.splits)
    with a b Inr adds_trans [OF a(2) b(2)] adds_there [OF b(2), of f] show ?thesis
      by (intro exI [of _ "a @ b"]) auto
  qed
qed

lemma mkdirs_adds:
  assumes "forE ds (\<lambda>d. mkdir_parents (base @ d)) w = (r, w')"
  shows "adds_files b' [] w w' \<and> dk_files w' = dk_files w
    \<and> (\<forall>x. r = Inr x \<longrightarrow> (\<forall>d \<in> set ds. set (prefixes (base @ d)) \<subseteq> set (dk_dirs w') \<and> \<not> list_ex (is_file w) (prefixes (base @ d))))"
  using assms
proof (induction ds arbitrary: w r w')
  case Nil
  then show ?case by (auto simp: ret_def adds_refl)
next
  case (Cons d ds)
  show ?case
  proof (cases "list_ex (is_file w) (prefixes (base @ d))")
    case True
    with Cons.prems show ?thesis by (auto simp: bindE_def mkdir_parents_def adds_refl)
  next
    case False
    let ?v = "make_dirs (base @ d) w"
    obtain r2 w2 where two: "forE ds (\<lambda>d. mkdir_parents (base @ d)) ?v = (r2, w2)" by fastforce
    from False have "mkdir_parents (base @ d) w = (Inr (), ?v)" by (simp add: mkdir_parents_def)
    with two Cons.prems have w: "w' = w2" "\<forall>x. r = Inr x \<longrightarrow> (\<exists>z. r2 = Inr z)"
      by (auto simp: bindE_def ret_def split: sum.splits)
    have kept: "is_file ?v = is_file w" by (rule ext) (simp add: is_file_def make_dirs_def)
    from Cons.IH [OF two] w False show ?thesis
      by (auto simp: kept adds_files_def) (auto simp: make_dirs_def subset_eq)
  qed
qed

definition init_files :: "(json \<Rightarrow> string) \<Rightarrow> string list \<Rightarrow> string option \<Rightarrow> (string \<times> string) list" where
  "init_files dump base name = (''atlas.config.yaml'', dump (init_manifest (init_name base name))) # STARTER_DOCS"

lemma create_there: "there base f w \<Longrightarrow> create_file base f w = (Inr [], w)"
  by (cases f) (auto simp: create_file_def there_def act_defs Let_def)

lemma create_all_there: "\<forall>f \<in> set fs. there base f w \<Longrightarrow> forE fs (create_file base) w = (Inr (List.map (\<lambda>_. []) fs), w)"
  by (induction fs) (simp_all add: create_there bindE_def ret_def)

lemma union_known: "set xs \<subseteq> set ys \<Longrightarrow> List.union xs ys = ys"
  by (induction xs arbitrary: ys) (auto simp: List.union_def List.insert_def)

lemma mkdirs_known:
  "\<forall>d \<in> set ds. set (prefixes (base @ d)) \<subseteq> set (dk_dirs w) \<and> \<not> list_ex (is_file w) (prefixes (base @ d)) \<Longrightarrow>
   \<exists>us. forE ds (\<lambda>d. mkdir_parents (base @ d)) w = (Inr us, w)"
  by (induction ds) (auto simp: bindE_def ret_def mkdir_parents_def make_dirs_def union_known)

lemma docs_not_dirs: "list_all (\<lambda>f. list_all (\<lambda>d. \<not> prefix (parts_of (fst f)) d) INIT_DIRS) STARTER_DOCS"
  by code_simp

text \<open>C34. \<open>init\<close>, however it ends, changes no existing file and adds only files of the scaffold, where nothing was; when
  it succeeds it reports exactly those, every file of the scaffold exists, and a second \<open>init\<close>
  creates nothing and changes nothing.\<close>

theorem init_never_overwrites:
  assumes "handle_init dump base name w = (r, w')"
  shows "\<exists>created. set created \<subseteq> set (init_files dump base name)
    \<and> dk_files w' = dk_files w @ List.map (\<lambda>f. (base @ parts_of (fst f), snd f)) created
    \<and> (\<forall>f \<in> set created. \<not> there base f w)
    \<and> (\<forall>x. r = Inr x \<longrightarrow> x = List.map fst created \<and> (\<forall>f \<in> set (init_files dump base name). there base f w')
         \<and> handle_init dump base name w' = (Inr [], w'))"
proof -
  let ?m = "(''atlas.config.yaml'', dump (init_manifest (init_name base name)))"
  obtain r1 w1 where one: "create_file base ?m w = (r1, w1)" by fastforce
  from create_adds [OF one] obtain a where a: "set a \<subseteq> {?m}" "adds_files base a w w1"
    "\<forall>x. r1 = Inr x \<longrightarrow> x = List.map fst a \<and> there base ?m w1" by blast
  obtain r2 w2 where two: "forE INIT_DIRS (\<lambda>d. mkdir_parents (base @ d)) w1 = (r2, w2)" by fastforce
  note m = mkdirs_adds [OF two, of base]
  obtain r3 w3 where three: "forE STARTER_DOCS (create_file base) w2 = (r3, w3)" by fastforce
  from create_all_adds [OF three] obtain b where b: "set b \<subseteq> set STARTER_DOCS" "adds_files base b w2 w3"
    "\<forall>x. r3 = Inr x \<longrightarrow> concat x = List.map fst b \<and> (\<forall>f \<in> set STARTER_DOCS. there base f w3)" by blast
  have sub: "set a \<subseteq> set (init_files dump base name)" "set b \<subseteq> set (init_files dump base name)"
    using a(1) b(1) by (auto simp: init_files_def)
  from m have m1: "adds_files base [] w1 w2" by blast
  note aw = adds_trans [OF a(2) m1, simplified]
  show ?thesis
  proof (cases r1)
    case (Inl e)
    with one assms have "r = Inl e" "w' = w1" by (auto simp: handle_init_def bindE_def)
    with a sub show ?thesis by (intro exI [of _ a]) (auto simp: adds_files_def)
  next
    case x1: (Inr x1)
    show ?thesis
    proof (cases r2)
      case (Inl e)
      with one two x1 assms have "r = Inl e" "w' = w2" by (auto simp: handle_init_def bindE_def)
      with aw sub show ?thesis by (intro exI [of _ a]) (auto simp: adds_files_def)
    next
      case x2: (Inr x2)
      have w: "w' = w3" "r = (case r3 of Inl e \<Rightarrow> Inl e | Inr x \<Rightarrow> Inr (x1 @ concat x))"
        using one two three x1 x2 assms by (auto simp: handle_init_def bindE_def ret_def split: sum.splits)
      note all = adds_trans [OF aw b(2)]
      have again: "handle_init dump base name w3 = (Inr [], w3)" if "r3 = Inr x3" for x3
      proof -
        have "there base ?m w3" using a(3) x1 adds_there [OF m1] adds_there [OF b(2)] by blast
        moreover have "\<forall>f \<in> set STARTER_DOCS. there base f w3" using b(3) that by blast
        moreover have "set (prefixes (base @ d)) \<subseteq> set (dk_dirs w3) \<and> \<not> list_ex (is_file w3) (prefixes (base @ d))"
          if d: "d \<in> set INIT_DIRS" for d
        proof -
          have "is_file w2 = is_file w1" using m by (auto simp: is_file_def fun_eq_iff)
          with m x2 d have "set (prefixes (base @ d)) \<subseteq> set (dk_dirs w2)" "\<not> list_ex (is_file w2) (prefixes (base @ d))"
            by auto
          moreover have "\<not> prefix (base @ parts_of (fst f)) (base @ d)" if "f \<in> set b" for f
            using docs_not_dirs b(1) that d by (auto simp: list_all_iff)
          ultimately show ?thesis using b(2) by (auto simp: adds_files_def list_ex_iff is_file_def)
        qed
        ultimately show ?thesis
          using mkdirs_known [of INIT_DIRS base w3] create_all_there [of STARTER_DOCS base w3]
          by (auto simp: handle_init_def create_there bindE_def ret_def concat_map_singleton)
      qed
      have "\<forall>x. r = Inr x \<longrightarrow> x = List.map fst (a @ b) \<and> (\<forall>f \<in> set (init_files dump base name). there base f w3)
          \<and> handle_init dump base name w3 = (Inr [], w3)"
        using w(2) a(3) x1 b(3) again adds_there [OF m1, of ?m] adds_there [OF b(2), of ?m]
        by (auto simp: init_files_def split: sum.splits)
      with all sub w(1) show ?thesis by (intro exI [of _ "a @ b"]) (auto simp: adds_files_def)
    qed
  qed
qed

section \<open>Samples\<close>


definition sample_world :: cli_world where
  "sample_world = \<lparr>dk_files = [([''demo'', ''docs'', ''USER_ATLAS.md''], ''mine'')],
     dk_dirs = [[], [''demo''], [''demo'', ''docs'']],
     cw_ledgers = \<lparr>lg_costs = None, lg_debts = None, lg_summary = None\<rparr>, cw_stdout = [], cw_stderr = []\<rparr>"



definition sample_init :: "(exn + string list) \<times> cli_world" where
  "sample_init = handle_init (\<lambda>_. ''manifest'') [''demo''] None sample_world"

lemma sample_init_ok: "\<not> isl (fst sample_init) \<and> length (projr (fst sample_init)) = 4"
  by code_simp

theorem init_never_overwrites_witness:
  "\<exists>created w'. sample_init = (Inr created, w') \<and> length created = 4
     \<and> handle_init (\<lambda>_. ''manifest'') [''demo''] None w' = (Inr [], w')"
proof -
  obtain r w' where i: "sample_init = (r, w')" by fastforce
  from sample_init_ok [unfolded i] obtain x where "r = Inr x" "length x = 4" by (cases r) auto
  with init_never_overwrites [OF i [unfolded sample_init_def]] i show ?thesis by auto
qed

text \<open>An overflowing review interval is not among the errors that are caught.\<close>

lemma freshness_escapes:
  "freshness_report (ce_yaml env) (ce_manifest env) (ce_metadata env) (ce_tree env) (ce_today env) = Inl (OverflowError why) \<Longrightarrow>
   main env j DocsFreshness w = (Inl (OverflowError why), w)"
  by (simp add: main_def run_freshness_def lift_result_def try_except_def bindE_def throw_def)

text \<open>A cost that is recorded is the last line of the ledger, and nothing else changes.\<close>

lemma cost_appends:
  assumes "main env j (CostTask a) w = (Inr 0, w')"
  shows "\<exists>r. cost_record a (ce_now env) = Inr r \<and> dk_files w' = dk_files w
    \<and> cw_ledgers w' = append_cost (\<lambda>r. ce_line env (cost_json r)) r (cw_ledgers w)"
proof -
  from assms have "run_cost_task env j a w = (Inr 0, w')"
    by (auto simp: main_def try_except_def act_defs split: prod.splits sum.splits option.splits)
  then show ?thesis
    by (auto simp: run_cost_task_def lift_result_Ok modify_def ret_def Let_def same_files_def elim!: bindE_OkE dest!: emit_same)
qed

end
