(* ===== verification/Manifests.thy ===== *)
theory Manifests
  imports Documents
begin

text \<open>
  The project's manifests (\<open>goals/models.py\<close>, \<open>goals/loader.py\<close>, \<open>bootstrap.py\<close>): the declared shapes and
  what validation makes of a loaded mapping, loading every manifest and Goal into a context, and the
  cache of contexts. A project's disk is a list of files by their path from the root, each with its
  text and its modification time; parsing YAML, and reading an integer out of a string where a model
  declares one, are parameters.
\<close>

section \<open>Declared shapes\<close>

text \<open>The field types of the models. A model is its fields in order: a name, the keys its value is looked
  up under, the type, and the default when the field has one.\<close>

datatype ftype =
    FStr
  | FInt
  | FAny
  | FList ftype
  | FDict ftype
  | FModel "(string \<times> string list \<times> ftype \<times> json option) list"

fun first_key :: "string list \<Rightarrow> dict \<Rightarrow> json option" where
  "first_key [] d = None"
| "first_key (k # ks) d = (case map_of d k of Some v \<Rightarrow> Some v | None \<Rightarrow> first_key ks d)"

lemma ftype_measure [termination_simp]:
  "(nm, ks, t, dflt) \<in> set fs \<Longrightarrow> size t < Suc (size_list (size_prod (\<lambda>_. 0) (size_prod (\<lambda>_. 0) (size_prod size (\<lambda>_. 0)))) fs)"
  by (induction fs) auto

text \<open>\<open>model_validate\<close>: the validated value, or nothing where a \<open>ValidationError\<close> is raised. Strings are not
  coerced; an integer may come as a Boolean, an integral float or a string that reads as one. A default
  stands as declared.\<close>

function coerce :: "(string \<Rightarrow> int option) \<Rightarrow> ftype \<Rightarrow> json \<Rightarrow> json option" where
  "coerce rd FStr v = (case v of JStr s \<Rightarrow> Some v | _ \<Rightarrow> None)"
| "coerce rd FInt v = (case v of
     JInt i \<Rightarrow> Some v
   | JBool b \<Rightarrow> Some (JInt (if b then 1 else 0))
   | JFloat r \<Rightarrow> if r = of_int (floor r) then Some (JInt (floor r)) else None
   | JStr s \<Rightarrow> map_option JInt (rd s)
   | _ \<Rightarrow> None)"
| "coerce rd FAny v = Some v"
| "coerce rd (FList t) v = (case v of JList xs \<Rightarrow> map_option JList (those (List.map (coerce rd t) xs)) | _ \<Rightarrow> None)"
| "coerce rd (FDict t) v = (case v of
     JObj d \<Rightarrow> map_option JObj (those (List.map (\<lambda>(k, w). map_option (Pair k) (coerce rd t w)) d)) | _ \<Rightarrow> None)"
| "coerce rd (FModel fs) v = (case v of
     JObj d \<Rightarrow> map_option JObj (those (List.map (\<lambda>(nm, ks, t, dflt).
       map_option (Pair nm) (case first_key ks d of Some w \<Rightarrow> coerce rd t w | None \<Rightarrow> dflt)) fs)) | _ \<Rightarrow> None)"
  by pat_completeness auto
termination
  by (relation "measure (\<lambda>(_, t, _). size t)") (auto simp: ftype_measure)

definition field :: "string \<Rightarrow> ftype \<Rightarrow> string \<times> string list \<times> ftype \<times> json option" where
  "field nm t = (nm, [nm], t, None)"

definition field_or :: "string \<Rightarrow> ftype \<Rightarrow> json \<Rightarrow> string \<times> string list \<times> ftype \<times> json option" where
  "field_or nm t dflt = (nm, [nm], t, Some dflt)"

definition strings_or_empty :: "string \<Rightarrow> string \<times> string list \<times> ftype \<times> json option" where
  "strings_or_empty nm = field_or nm (FList FStr) (JList [])"

definition GoalGates :: ftype where
  "GoalGates = FModel [field ''build'' FStr, field ''tests'' FStr, field ''review'' FStr, field ''documentation'' FStr]"

definition Goal :: ftype where
  "Goal = FModel [field ''id'' FStr, field ''phase'' FStr, field ''title'' FStr, field ''state'' FStr, field ''objective'' FStr,
     strings_or_empty ''constraints'', strings_or_empty ''non_goals'', strings_or_empty ''dependencies'',
     strings_or_empty ''acceptance'', field ''gates'' GoalGates, field_or ''evidence'' (FList FAny) (JList []),
     strings_or_empty ''history'']"

definition ProjectProfile :: ftype where
  "ProjectProfile = FModel [field ''id'' FStr, (''types'', [''type'', ''types''], FList FStr, Some (JList [])),
     strings_or_empty ''languages'', strings_or_empty ''technologies'', strings_or_empty ''features'',
     field_or ''risk'' (FDict FStr) (JObj [])]"

definition AgentManifest :: ftype where
  "AgentManifest = FModel [field ''agents'' (FList FStr), field ''selection_basis'' (FList FStr)]"

definition SkillManifest :: ftype where
  "SkillManifest = FModel [field ''skills'' (FList FStr)]"

definition RecipeManifest :: ftype where
  "RecipeManifest = FModel [field ''recipes'' (FList FStr)]"

definition ModelPolicyEntry :: ftype where
  "ModelPolicyEntry = FModel [field ''key'' FStr, field ''provider'' FStr, field ''command_code_id'' FStr,
     field ''priority'' FStr, field ''availability'' FStr]"

definition ModelPolicy :: ftype where
  "ModelPolicy = FModel [field ''version'' FInt, field ''development_harness'' FStr, field ''runtime_discovery'' (FDict FAny),
     field ''roster'' (FList ModelPolicyEntry), field ''principles'' (FList FStr)]"

definition AutonomyPolicy :: ftype where
  "AutonomyPolicy = FModel [field ''default'' FStr, field ''modes'' (FDict FAny), field ''project_policy'' (FDict FAny)]"

definition OrchestratorConfig :: ftype where
  "OrchestratorConfig = FModel [field ''development'' (FDict FAny), field ''product'' (FDict FAny),
     field ''protocols'' (FDict FAny), field ''execution'' (FDict FAny)]"

definition FallbackConfig :: ftype where
  "FallbackConfig = FModel [field ''availability'' FStr, field ''quality'' (FDict FAny), field ''confidence'' (FDict FAny),
     field ''human_escalation'' (FList FStr)]"

definition FrameworkInfo :: ftype where
  "FrameworkInfo = FModel [field ''name'' FStr, field ''version'' FStr, field ''entrypoint'' FStr]"

text \<open>Attributes of a validated model.\<close>

definition str_attr :: "string \<Rightarrow> json \<Rightarrow> string" where
  "str_attr k m = (case m of JObj d \<Rightarrow> (case map_of d k of Some (JStr s) \<Rightarrow> s | _ \<Rightarrow> []) | _ \<Rightarrow> [])"

definition strs_attr :: "string \<Rightarrow> json \<Rightarrow> string list" where
  "strs_attr k m = (case m of
     JObj d \<Rightarrow> (case map_of d k of Some (JList xs) \<Rightarrow> List.map (\<lambda>v. case v of JStr s \<Rightarrow> s | _ \<Rightarrow> []) xs | _ \<Rightarrow> [])
   | _ \<Rightarrow> [])"

section \<open>The disk\<close>

type_synonym rel_path = "string list"

record project_disk =
  pd_dirs :: "(rel_path \<times> int) list"
  pd_files :: "(rel_path \<times> text_file \<times> int) list"

definition has_file :: "'z project_disk_scheme \<Rightarrow> rel_path \<Rightarrow> bool" where
  "has_file d p \<longleftrightarrow> map_of (pd_files d) p \<noteq> None"

definition has_dir :: "'z project_disk_scheme \<Rightarrow> rel_path \<Rightarrow> bool" where
  "has_dir d p \<longleftrightarrow> map_of (pd_dirs d) p \<noteq> None"

text \<open>A path as it is written, and \<open>directory.rglob("*.yaml")\<close>, sorted.\<close>

definition show_path :: "rel_path \<Rightarrow> string" where
  "show_path p = join ''/'' p"

definition yaml_under :: "rel_path \<Rightarrow> 'z project_disk_scheme \<Rightarrow> rel_path list" where
  "yaml_under dir d = sort (remdups (filter (\<lambda>p. starts_with p dir \<and> p \<noteq> dir \<and> ends_with (last p) ''.yaml'')
     (List.map fst (pd_files d) @ List.map fst (pd_dirs d))))"

section \<open>Loading\<close>

definition yaml_load :: "yaml_parser \<Rightarrow> 'z project_disk_scheme \<Rightarrow> rel_path \<Rightarrow> exn + dict" where
  "yaml_load yaml d p =
     (case map_of (pd_files d) p of
        None \<Rightarrow> Inl (AtlasLoadError (''Manifest not found: '' @ show_path p))
      | Some (Text t, _) \<Rightarrow>
          (case yaml t of
             Inl (YAMLError why) \<Rightarrow> Inl (AtlasLoadError (''Invalid YAML in '' @ show_path p @ '': '' @ why))
           | Inl e \<Rightarrow> Inl e
           | Inr (JObj m) \<Rightarrow> Inr m
           | Inr v \<Rightarrow> Inl (AtlasLoadError (''Expected mapping in '' @ show_path p)))
      | Some (Unreadable why, _) \<Rightarrow> Inl (OSError why)
      | Some (NotUtf8 why, _) \<Rightarrow> Inl (ValueError why))"

definition validate :: "(string \<Rightarrow> int option) \<Rightarrow> ftype \<Rightarrow> json \<Rightarrow> exn + json" where
  "validate rd t v = (case coerce rd t v of None \<Rightarrow> Inl (ValidationError ''validation error'') | Some w \<Rightarrow> Inr w)"

definition load_validated :: "yaml_parser \<Rightarrow> (string \<Rightarrow> int option) \<Rightarrow> ftype \<Rightarrow> rel_path \<Rightarrow> 'z project_disk_scheme \<Rightarrow> exn + json" where
  "load_validated yaml rd t p d =
     (case yaml_load yaml d p of Inl e \<Rightarrow> Inl e | Inr raw \<Rightarrow> validate rd t (JObj raw))"

definition load_project_profile :: "yaml_parser \<Rightarrow> (string \<Rightarrow> int option) \<Rightarrow> 'z project_disk_scheme \<Rightarrow> exn + json" where
  "load_project_profile yaml rd d =
     (case yaml_load yaml d [''.ai'', ''context'', ''project-profile.yaml''] of
        Inl e \<Rightarrow> Inl e
      | Inr raw \<Rightarrow> (case map_of raw ''project'' of None \<Rightarrow> Inl (KeyError ''project'') | Some v \<Rightarrow> validate rd ProjectProfile v))"

record phase =
  ph_id :: string
  ph_goals :: "json list"

text \<open>\<open>phases.setdefault(goal.phase, ...)\<close> and the append.\<close>

fun add_goal :: "json \<Rightarrow> phase list \<Rightarrow> phase list" where
  "add_goal g [] = [\<lparr>ph_id = str_attr ''phase'' g, ph_goals = [g]\<rparr>]"
| "add_goal g (p # ps) =
     (if ph_id p = str_attr ''phase'' g then p\<lparr>ph_goals := ph_goals p @ [g]\<rparr> # ps else p # add_goal g ps)"

fun load_goal_files ::
  "yaml_parser \<Rightarrow> (string \<Rightarrow> int option) \<Rightarrow> 'z project_disk_scheme \<Rightarrow> rel_path list \<Rightarrow> phase list \<Rightarrow> exn + phase list" where
  "load_goal_files yaml rd d [] ps = Inr ps"
| "load_goal_files yaml rd d (p # rest) ps =
     (case load_validated yaml rd Goal p d of Inl e \<Rightarrow> Inl e | Inr g \<Rightarrow> load_goal_files yaml rd d rest (add_goal g ps))"

definition goals_dir :: rel_path where
  "goals_dir = [''.ai'', ''goals'']"

definition load_goals :: "yaml_parser \<Rightarrow> (string \<Rightarrow> int option) \<Rightarrow> 'z project_disk_scheme \<Rightarrow> exn + phase list" where
  "load_goals yaml rd d =
     (if \<not> has_dir d goals_dir then Inl (AtlasLoadError (''Goals directory not found: '' @ show_path goals_dir))
      else map_sum id (sort_key ph_id) (load_goal_files yaml rd d (yaml_under goals_dir d) []))"

record atlas_context =
  ctx_project :: json
  ctx_phases :: "phase list"
  ctx_agents :: json
  ctx_skills :: json
  ctx_recipes :: json
  ctx_model_policy :: json
  ctx_autonomy_policy :: json
  ctx_orchestrator :: json
  ctx_fallbacks :: json

definition resolve_fresh :: "yaml_parser \<Rightarrow> (string \<Rightarrow> int option) \<Rightarrow> 'z project_disk_scheme \<Rightarrow> exn + atlas_context" where
  "resolve_fresh yaml rd d =
     (case load_project_profile yaml rd d of Inl e \<Rightarrow> Inl e | Inr project \<Rightarrow>
     (case load_goals yaml rd d of Inl e \<Rightarrow> Inl e | Inr phases \<Rightarrow>
     (case load_validated yaml rd AgentManifest [''.ai'', ''agents'', ''manifest.yaml''] d of Inl e \<Rightarrow> Inl e | Inr agents \<Rightarrow>
     (case load_validated yaml rd SkillManifest [''.ai'', ''skills'', ''manifest.yaml''] d of Inl e \<Rightarrow> Inl e | Inr skills \<Rightarrow>
     (case load_validated yaml rd RecipeManifest [''.ai'', ''recipes'', ''manifest.yaml''] d of Inl e \<Rightarrow> Inl e | Inr recipes \<Rightarrow>
     (case load_validated yaml rd ModelPolicy [''.ai'', ''orchestration'', ''model-policy.yaml''] d of Inl e \<Rightarrow> Inl e | Inr policy \<Rightarrow>
     (case load_validated yaml rd AutonomyPolicy [''.ai'', ''orchestration'', ''autonomy-policy.yaml''] d of Inl e \<Rightarrow> Inl e | Inr autonomy \<Rightarrow>
     (case load_validated yaml rd OrchestratorConfig [''.ai'', ''orchestration'', ''orchestrator.yaml''] d of Inl e \<Rightarrow> Inl e | Inr orchestrator \<Rightarrow>
     (case load_validated yaml rd FallbackConfig [''.ai'', ''orchestration'', ''fallbacks.yaml''] d of Inl e \<Rightarrow> Inl e | Inr fallbacks \<Rightarrow>
       Inr \<lparr>ctx_project = project, ctx_phases = phases, ctx_agents = agents, ctx_skills = skills, ctx_recipes = recipes,
         ctx_model_policy = policy, ctx_autonomy_policy = autonomy, ctx_orchestrator = orchestrator,
         ctx_fallbacks = fallbacks\<rparr>)))))))))"

section \<open>The cache\<close>

definition fixed_manifests :: "rel_path list" where
  "fixed_manifests = [[''.ai'', ''context'', ''project-profile.yaml''], [''.ai'', ''agents'', ''manifest.yaml''],
     [''.ai'', ''skills'', ''manifest.yaml''], [''.ai'', ''recipes'', ''manifest.yaml''],
     [''.ai'', ''orchestration'', ''model-policy.yaml''], [''.ai'', ''orchestration'', ''autonomy-policy.yaml''],
     [''.ai'', ''orchestration'', ''orchestrator.yaml''], [''.ai'', ''orchestration'', ''fallbacks.yaml'']]"

definition manifest_paths :: "'z project_disk_scheme \<Rightarrow> rel_path list" where
  "manifest_paths d = fixed_manifests @ (if has_dir d goals_dir then yaml_under goals_dir d else [])"

type_synonym disk_signature = "(rel_path \<times> int) list"

text \<open>\<open>path.stat().st_mtime_ns\<close>, -1 where there is nothing to stat.\<close>

definition mtime :: "'z project_disk_scheme \<Rightarrow> rel_path \<Rightarrow> int" where
  "mtime d p = (case map_of (pd_files d) p of Some (_, t) \<Rightarrow> t
     | None \<Rightarrow> (case map_of (pd_dirs d) p of Some t \<Rightarrow> t | None \<Rightarrow> - 1))"

definition signature :: "'z project_disk_scheme \<Rightarrow> disk_signature" where
  "signature d = List.map (\<lambda>p. (p, mtime d p)) (manifest_paths d)"

text \<open>\<open>resolve_project\<close> with the cache of this root; an error leaves the cache as it was. Between taking the
  signature and reading the files the disk may change, so each has its own disk.\<close>

type_synonym context_cache = "(disk_signature \<times> atlas_context) option"

definition resolve_project ::
  "yaml_parser \<Rightarrow> (string \<Rightarrow> int option) \<Rightarrow> bool \<Rightarrow> 'z project_disk_scheme \<Rightarrow> 'z project_disk_scheme
     \<Rightarrow> context_cache \<Rightarrow> (exn + atlas_context) \<times> context_cache" where
  "resolve_project yaml rd use_cache stat_disk disk cache =
     (if \<not> use_cache then (resolve_fresh yaml rd disk, cache)
      else case cache of
        Some (sig, ctx) \<Rightarrow>
          if sig = signature stat_disk then (Inr ctx, cache)
          else (case resolve_fresh yaml rd disk of
              Inl e \<Rightarrow> (Inl e, cache)
            | Inr ctx' \<Rightarrow> (Inr ctx', Some (signature stat_disk, ctx')))
      | None \<Rightarrow>
          (case resolve_fresh yaml rd disk of
              Inl e \<Rightarrow> (Inl e, cache)
            | Inr ctx' \<Rightarrow> (Inr ctx', Some (signature stat_disk, ctx'))))"

section \<open>Compatibility\<close>

definition load_framework_manifest :: "yaml_parser \<Rightarrow> 'z project_disk_scheme \<Rightarrow> exn + dict" where
  "load_framework_manifest yaml d =
     (case map_of (pd_files d) [''PROJECT_MANIFEST.yaml''] of
        None \<Rightarrow> Inl (FileNotFound ''PROJECT_MANIFEST.yaml not found'')
      | Some (Text t, _) \<Rightarrow>
          (case yaml t of
             Inl e \<Rightarrow> Inl e
           | Inr (JObj m) \<Rightarrow> Inr m
           | Inr v \<Rightarrow> Inl (ValueError ''Invalid PROJECT_MANIFEST.yaml''))
      | Some (Unreadable why, _) \<Rightarrow> Inl (OSError why)
      | Some (NotUtf8 why, _) \<Rightarrow> Inl (ValueError why))"

definition detect_framework :: "yaml_parser \<Rightarrow> (string \<Rightarrow> int option) \<Rightarrow> 'z project_disk_scheme \<Rightarrow> exn + json" where
  "detect_framework yaml rd d =
     (case load_framework_manifest yaml d of
        Inl e \<Rightarrow> Inl e
      | Inr m \<Rightarrow> (case map_of m ''framework'' of
            Some (JObj raw) \<Rightarrow> validate rd FrameworkInfo (JObj raw)
          | _ \<Rightarrow> Inl (ValueError ''PROJECT_MANIFEST.yaml missing framework section'')))"

text \<open>\<open>FileNotFoundError\<close> and \<open>ValueError\<close>, which a validation error is.\<close>

fun unreadable_framework :: "exn \<Rightarrow> bool" where
  "unreadable_framework (FileNotFound why) = True"
| "unreadable_framework (ValueError why) = True"
| "unreadable_framework (ValidationError why) = True"
| "unreadable_framework e = False"

definition validate_compatibility :: "yaml_parser \<Rightarrow> (string \<Rightarrow> int option) \<Rightarrow> 'z project_disk_scheme \<Rightarrow> exn + unit" where
  "validate_compatibility yaml rd d =
     (case detect_framework yaml rd d of
        Inl e \<Rightarrow> Inl (if unreadable_framework e then AtlasLoadError ''Cannot read framework version for project'' else e)
      | Inr fw \<Rightarrow>
          if str_attr ''name'' fw \<noteq> ''project-atlas-framework''
          then Inl (AtlasLoadError (''Expected project-atlas-framework, got '' @ str_attr ''name'' fw))
          else (case split_on (CHR ''.'') (str_attr ''version'' fw) of
              major # minor # _ \<Rightarrow>
                (case py_int major of Inl e \<Rightarrow> Inl e | Inr a \<Rightarrow>
                (case py_int minor of Inl e \<Rightarrow> Inl e | Inr b \<Rightarrow>
                   if (a, b) \<noteq> (0, 1)
                   then Inl (AtlasLoadError (''Unsupported framework version '' @ str_attr ''version'' fw))
                   else Inr ()))
            | _ \<Rightarrow> Inl (ValueError ''not enough values to unpack'')))"

section \<open>What validation gives\<close>

text \<open>A value of a declared type, and a shape whose defaults and names are sound.\<close>

function conforms :: "ftype \<Rightarrow> json \<Rightarrow> bool" where
  "conforms FStr v = (case v of JStr s \<Rightarrow> True | _ \<Rightarrow> False)"
| "conforms FInt v = (case v of JInt i \<Rightarrow> True | _ \<Rightarrow> False)"
| "conforms FAny v = True"
| "conforms (FList t) v = (case v of JList xs \<Rightarrow> list_all (conforms t) xs | _ \<Rightarrow> False)"
| "conforms (FDict t) v = (case v of JObj d \<Rightarrow> list_all (\<lambda>(k, w). conforms t w) d | _ \<Rightarrow> False)"
| "conforms (FModel fs) v = (case v of
     JObj d \<Rightarrow> list_all2 (\<lambda>(nm, ks, t, dflt) (k, w). k = nm \<and> conforms t w) fs d | _ \<Rightarrow> False)"
  by pat_completeness auto
termination
  by (relation "measure (\<lambda>(t, _). size t)") (auto simp: ftype_measure)

function shape_ok :: "ftype \<Rightarrow> bool" where
  "shape_ok FStr = True"
| "shape_ok FInt = True"
| "shape_ok FAny = True"
| "shape_ok (FList t) = shape_ok t"
| "shape_ok (FDict t) = shape_ok t"
| "shape_ok (FModel fs) = (distinct (List.map fst fs) \<and> list_all (\<lambda>(nm, ks, t, dflt).
     shape_ok t \<and> nm \<in> set ks \<and> list_all (\<lambda>k. k = nm \<or> k \<notin> set (List.map fst fs)) ks
     \<and> (case dflt of None \<Rightarrow> True | Some v \<Rightarrow> conforms t v)) fs)"
  by pat_completeness auto
termination
  by (relation "measure size") (auto simp: ftype_measure)

lemma those_map:
  "those (List.map f xs) = Some ys \<longleftrightarrow> list_all2 (\<lambda>x y. f x = Some y) xs ys"
proof (induction xs arbitrary: ys)
  case (Cons x xs)
  show ?case by (cases ys) (auto simp: Cons split: option.splits)
qed auto

lemma coerce_conforms: "coerce rd t v = Some w \<Longrightarrow> shape_ok t \<Longrightarrow> conforms t w"
proof (induction rd t v arbitrary: w rule: coerce.induct)
  case (4 rd t v)
  from 4(2) obtain xs ys where v: "v = JList xs" and w: "w = JList ys" and a: "list_all2 (\<lambda>x y. coerce rd t x = Some y) xs ys"
    by (auto simp: those_map split: json.splits)
  have "\<forall>y \<in> set ys. conforms t y"
    
  proof
    fix y assume "y \<in> set ys"
    then obtain i where i: "i < length ys" "y = ys ! i" by (auto simp: in_set_conv_nth)
    from list_all2_lengthD [OF a] i have l: "i < length xs" by simp
    from list_all2_nthD [OF a l] i have c: "coerce rd t (xs ! i) = Some y" by simp
    show "conforms t y" by (rule 4(1) [OF v nth_mem [OF l] c]) (use 4(3) in simp)
  qed
  then show ?case by (simp add: w list_all_iff)
next
  case (5 rd t v)
  from 5(2) obtain d e where v: "v = JObj d" and w: "w = JObj e"
    and a: "list_all2 (\<lambda>x y. (case x of (k, u) \<Rightarrow> map_option (Pair k) (coerce rd t u)) = Some y) d e"
    by (auto simp: those_map split: json.splits)
  have "\<forall>y \<in> set e. conforms t (snd y)"
  proof
    fix y assume "y \<in> set e"
    then obtain i where i: "i < length e" "y = e ! i" by (auto simp: in_set_conv_nth)
    obtain k u where ku: "d ! i = (k, u)" by fastforce
    from list_all2_lengthD [OF a] i have l: "i < length d" by simp
    from list_all2_nthD [OF a l] i ku have c: "coerce rd t u = Some (snd y)" by (cases "e ! i") auto
    from nth_mem [OF l] ku have m: "(k, u) \<in> set d" by simp
    show "conforms t (snd y)" by (rule 5(1) [OF v m refl c]) (use 5(3) in simp)
  qed
  then show ?case by (auto simp: w list_all_iff)
next
  case (6 rd fs v)
  from 6(2) obtain d e where v: "v = JObj d" and w: "w = JObj e"
    and a: "list_all2 (\<lambda>x y. (case x of (nm, ks, t, dflt) \<Rightarrow>
       map_option (Pair nm) (case first_key ks d of Some u \<Rightarrow> coerce rd t u | None \<Rightarrow> dflt)) = Some y) fs e"
    by (auto simp: those_map split: json.splits)
  have "list_all2 (\<lambda>(nm, ks, t, dflt) (k, u). k = nm \<and> conforms t u) fs e"
    unfolding list_all2_conv_all_nth
  proof (intro conjI allI impI)
    show "length fs = length e" using a by (rule list_all2_lengthD)
    fix i assume i: "i < length fs"
    obtain nm ks t dflt where f: "fs ! i = (nm, ks, t, dflt)" by (cases "fs ! i") auto
    obtain k u where ku: "e ! i = (k, u)" by fastforce
    from i f have m: "(nm, ks, t, dflt) \<in> set fs" by (metis nth_mem)
    from list_all2_nthD [OF a i] have c: "k = nm \<and> (case first_key ks d of Some u' \<Rightarrow> coerce rd t u' | None \<Rightarrow> dflt) = Some u"
      by (auto simp: f ku)
    from 6(3) m have sh: "shape_ok t" "\<And>x. dflt = Some x \<Longrightarrow> conforms t x" by (auto simp: list_all_iff)
    have "conforms t u"
    proof (cases "first_key ks d")
      case None
      then show ?thesis using c sh(2) by simp
    next
      case (Some u')
      with c have cc: "coerce rd t u' = Some u" by simp
      show ?thesis by (rule 6(1) [OF v m refl refl refl Some cc sh(1)])
    qed
    with c show "(\<lambda>(nm, ks, t, dflt) (k, u). k = nm \<and> conforms t u) (fs ! i) (e ! i)"
      by (simp add: f ku)
  qed
  then show ?case by (simp add: w)
qed (auto split: json.splits if_splits)

text \<open>Validating what validation gave changes nothing: a context can be dumped and read back.\<close>

lemma first_key_own:
  assumes "nm \<in> set ks" and "\<forall>k \<in> set ks. k = nm \<or> map_of d k = None" and "map_of d nm = Some v"
  shows "first_key ks d = Some v"
  using assms by (induction ks) (auto split: option.split)

lemma conforms_coerce: "conforms t v \<Longrightarrow> shape_ok t \<Longrightarrow> coerce rd t v = Some v"
proof (induction t v rule: conforms.induct)
  case (4 t v)
  from 4(2) obtain xs where v: "v = JList xs" and a: "\<forall>x \<in> set xs. conforms t x" by (auto simp: list_all_iff split: json.splits)
  have "those (List.map (coerce rd t) xs) = Some xs"
    unfolding those_map list_all2_conv_all_nth using 4(1)[OF v] 4(3) a by auto
  then show ?case by (simp add: v)
next
  case (5 t v)
  from 5(2) obtain d where v: "v = JObj d" and a: "\<forall>x \<in> set d. conforms t (snd x)"
    by (auto simp: list_all_iff split_beta split: json.splits)
  have "those (List.map (\<lambda>(k, w). map_option (Pair k) (coerce rd t w)) d) = Some d"
    unfolding those_map list_all2_conv_all_nth
  proof (intro conjI allI impI refl)
    fix i assume i: "i < length d"
    obtain k u where ku: "d ! i = (k, u)" by fastforce
    with i have m: "(k, u) \<in> set d" by (metis nth_mem)
    with a have "conforms t u" by force
    from 5(1) [OF v m refl this] 5(3) show "(case d ! i of (k, w) \<Rightarrow> map_option (Pair k) (coerce rd t w)) = Some (d ! i)"
      by (simp add: ku)
  qed
  then show ?case by (simp add: v)
next
  case (6 fs v)
  from 6(2) obtain d where v: "v = JObj d" and a: "list_all2 (\<lambda>(nm, ks, t, dflt) (k, w). k = nm \<and> conforms t w) fs d"
    by (auto split: json.splits)
  have names: "List.map fst d = List.map fst fs"
    using list_all2_lengthD [OF a] list_all2_nthD [OF a]
    by (intro nth_equalityI) (auto simp: split_beta)
  have "those (List.map (\<lambda>(nm, ks, t, dflt).
       map_option (Pair nm) (case first_key ks d of Some w \<Rightarrow> coerce rd t w | None \<Rightarrow> dflt)) fs) = Some d"
    unfolding those_map list_all2_conv_all_nth
  proof (intro conjI allI impI)
    show "length fs = length d" using a by (rule list_all2_lengthD)
    fix i assume i: "i < length fs"
    obtain nm ks t dflt where f: "fs ! i = (nm, ks, t, dflt)" by (cases "fs ! i") auto
    obtain k u where ku: "d ! i = (k, u)" by fastforce
    from i f have m: "(nm, ks, t, dflt) \<in> set fs" by (metis nth_mem)
    from i ku list_all2_lengthD [OF a] have md: "(k, u) \<in> set d" by (metis nth_mem)
    from list_all2_nthD [OF a i] have c: "k = nm" "conforms t u" by (auto simp: f ku)
    have "(\<lambda>(nm, ks, t, dflt). shape_ok t \<and> nm \<in> set ks \<and> (\<forall>k \<in> set ks. k = nm \<or> k \<notin> set (List.map fst fs))
        \<and> (case dflt of None \<Rightarrow> True | Some v \<Rightarrow> conforms t v)) (nm, ks, t, dflt)"
      using 6(3) m unfolding shape_ok.simps list_all_iff by (elim conjE) (erule (1) bspec)
    then have sh: "shape_ok t" "nm \<in> set ks" "\<forall>k \<in> set ks. k = nm \<or> k \<notin> set (List.map fst fs)"
      by blast+
    from 6(3) have dist: "distinct (List.map fst fs)" by simp
    have "map_of d nm = Some u" using md c(1) dist names by (simp add: map_of_is_SomeI)
    moreover have "\<forall>k \<in> set ks. k = nm \<or> map_of d k = None"
      using sh(3) unfolding names [symmetric] map_of_eq_None_iff by simp
    ultimately have "first_key ks d = Some u" using sh(2) by (intro first_key_own)
    with 6(1) [OF v m md refl refl refl c(2) sh(1)] c
    show "(case fs ! i of (nm, ks, t, dflt) \<Rightarrow>
        map_option (Pair nm) (case first_key ks d of Some w \<Rightarrow> coerce rd t w | None \<Rightarrow> dflt)) = Some (d ! i)"
      by (simp add: f ku)
  qed
  then show ?case by (simp add: v)
qed (auto split: json.splits)

definition model_shapes :: "ftype list" where
  "model_shapes = [Goal, ProjectProfile, AgentManifest, SkillManifest, RecipeManifest, ModelPolicy, AutonomyPolicy,
     OrchestratorConfig, FallbackConfig, FrameworkInfo]"

lemma models_sound: "\<forall>t \<in> set model_shapes. shape_ok t"
  by code_simp

section \<open>A resolved context\<close>

lemma validate_typed:
  assumes "validate rd t v = Inr w" and "t \<in> set model_shapes"
  shows "conforms t w \<and> validate rd t w = Inr w"
proof -
  have ok: "shape_ok t" using models_sound assms(2) by blast
  from assms(1) have "coerce rd t v = Some w" by (auto simp: validate_def split: option.splits)
  from coerce_conforms [OF this ok] have "conforms t w" .
  with conforms_coerce [OF this ok] show ?thesis by (simp add: validate_def)
qed

lemma load_validated_typed:
  "load_validated yaml rd t p d = Inr w \<Longrightarrow> t \<in> set model_shapes \<Longrightarrow> conforms t w \<and> validate rd t w = Inr w"
  using validate_typed [of rd t _ w] by (auto simp: load_validated_def split: sum.splits)

text \<open>The phase holds exactly the Goals that name it, in order, and at least one.\<close>

definition holds_goals :: "json list \<Rightarrow> phase \<Rightarrow> bool" where
  "holds_goals gs p \<longleftrightarrow> ph_id p \<in> str_attr ''phase'' ` set gs \<and> ph_goals p = filter (\<lambda>x. str_attr ''phase'' x = ph_id p) gs"

lemma holds_other: "holds_goals gs p \<Longrightarrow> ph_id p \<noteq> str_attr ''phase'' g \<Longrightarrow> holds_goals (gs @ [g]) p"
  by (simp add: holds_goals_def)

lemma holds_more: "holds_goals gs p \<Longrightarrow> ph_id p = str_attr ''phase'' g \<Longrightarrow> holds_goals (gs @ [g]) (p\<lparr>ph_goals := ph_goals p @ [g]\<rparr>)"
  by (simp add: holds_goals_def)

lemma holds_new:
  "str_attr ''phase'' g \<notin> str_attr ''phase'' ` set gs \<Longrightarrow> holds_goals (gs @ [g]) \<lparr>ph_id = str_attr ''phase'' g, ph_goals = [g]\<rparr>"
  by (auto simp: holds_goals_def filter_empty_conv) (metis imageI)

lemma add_goal_ids: "ph_id ` set (add_goal g ps) = insert (str_attr ''phase'' g) (ph_id ` set ps)"
  by (induction ps) auto

lemma add_goal_distinct: "distinct (List.map ph_id ps) \<Longrightarrow> distinct (List.map ph_id (add_goal g ps))"
  by (induction ps) (auto simp: add_goal_ids image_iff)

lemma add_goal_holds:
  assumes "distinct (List.map ph_id ps)" and "\<forall>p \<in> set ps. holds_goals gs p"
    and "str_attr ''phase'' g \<in> str_attr ''phase'' ` set gs \<longrightarrow> str_attr ''phase'' g \<in> ph_id ` set ps"
  shows "\<forall>p \<in> set (add_goal g ps). holds_goals (gs @ [g]) p"
  using assms
proof (induction ps)
  case Nil
  then show ?case by (simp add: holds_new)
next
  case (Cons q qs)
  show ?case
  proof (cases "ph_id q = str_attr ''phase'' g")
    case True
    have "ph_id q \<notin> ph_id ` set qs" using Cons.prems(1) by simp
    with True have "ph_id p \<noteq> str_attr ''phase'' g" if "p \<in> set qs" for p using that by (metis imageI)
    with True Cons.prems(2) show ?thesis by (simp add: holds_more holds_other)
  next
    case False
    with Cons.prems have "\<forall>p \<in> set (add_goal g qs). holds_goals (gs @ [g]) p" by (intro Cons.IH) auto
    with False Cons.prems(2) show ?thesis by (simp add: holds_other)
  qed
qed

lemma load_goal_files_phases:
  assumes "load_goal_files yaml rd d files ps = Inr out"
    and "distinct (List.map ph_id ps)" and "\<forall>p \<in> set ps. holds_goals gs0 p"
    and "ph_id ` set ps = str_attr ''phase'' ` set gs0"
  shows "\<exists>gs. list_all2 (\<lambda>f g. load_validated yaml rd Goal f d = Inr g) files gs
    \<and> distinct (List.map ph_id out) \<and> ph_id ` set out = str_attr ''phase'' ` set (gs0 @ gs)
    \<and> (\<forall>p \<in> set out. holds_goals (gs0 @ gs) p)"
  using assms
proof (induction files arbitrary: ps gs0)
  case Nil
  then show ?case by (intro exI [of _ "[]"]) simp
next
  case (Cons f files)
  from Cons.prems(1) obtain g where g: "load_validated yaml rd Goal f d = Inr g"
    and rest: "load_goal_files yaml rd d files (add_goal g ps) = Inr out"
    by (auto split: sum.splits)
  have holds: "\<forall>p \<in> set (add_goal g ps). holds_goals (gs0 @ [g]) p"
    by (rule add_goal_holds [OF Cons.prems(2,3)]) (simp add: Cons.prems(4))
  have ids: "ph_id ` set (add_goal g ps) = str_attr ''phase'' ` set (gs0 @ [g])" using Cons.prems(4) by (simp add: add_goal_ids)
  from Cons.IH [OF rest add_goal_distinct [OF Cons.prems(2)] holds ids] obtain gs where
    gs: "list_all2 (\<lambda>f g. load_validated yaml rd Goal f d = Inr g) files gs"
    "distinct (List.map ph_id out)" "ph_id ` set out = str_attr ''phase'' ` set ((gs0 @ [g]) @ gs)"
    "\<forall>p \<in> set out. holds_goals ((gs0 @ [g]) @ gs) p"
    by (elim exE conjE) (rule that)
  note gs' = gs [unfolded append.assoc append_Cons append_Nil]
  show ?case
    by (intro exI [of _ "g # gs"] conjI) (simp add: g gs'(1), rule gs'(2), rule gs'(3), rule gs'(4))
qed

text \<open>C25. A project that loads: each phase holds exactly the Goals of the files that name it, in the
  files' order, phases come in order of their identifiers and none twice, and every part of the context
  has its declared type, so that validating it once more changes nothing.\<close>

theorem context_typed:
  assumes "resolve_fresh yaml rd d = Inr ctx"
  shows "sorted (List.map ph_id (ctx_phases ctx)) \<and> distinct (List.map ph_id (ctx_phases ctx))
    \<and> (\<exists>gs. list_all2 (\<lambda>f g. load_validated yaml rd Goal f d = Inr g) (yaml_under goals_dir d) gs
         \<and> ph_id ` set (ctx_phases ctx) = str_attr ''phase'' ` set gs
         \<and> (\<forall>p \<in> set (ctx_phases ctx). ph_goals p = filter (\<lambda>g. str_attr ''phase'' g = ph_id p) gs
              \<and> (\<forall>g \<in> set (ph_goals p). conforms Goal g \<and> validate rd Goal g = Inr g)))
    \<and> (\<forall>(t, m) \<in> set [(ProjectProfile, ctx_project ctx), (AgentManifest, ctx_agents ctx), (SkillManifest, ctx_skills ctx),
          (RecipeManifest, ctx_recipes ctx), (ModelPolicy, ctx_model_policy ctx), (AutonomyPolicy, ctx_autonomy_policy ctx),
          (OrchestratorConfig, ctx_orchestrator ctx), (FallbackConfig, ctx_fallbacks ctx)].
          conforms t m \<and> validate rd t m = Inr m)"
proof -
  from assms obtain project phases agents skills recipes policy autonomy orchestrator fallbacks where
    p: "load_project_profile yaml rd d = Inr project" and ph: "load_goals yaml rd d = Inr phases"
    and loaded: "load_validated yaml rd AgentManifest [''.ai'', ''agents'', ''manifest.yaml''] d = Inr agents"
      "load_validated yaml rd SkillManifest [''.ai'', ''skills'', ''manifest.yaml''] d = Inr skills"
      "load_validated yaml rd RecipeManifest [''.ai'', ''recipes'', ''manifest.yaml''] d = Inr recipes"
      "load_validated yaml rd ModelPolicy [''.ai'', ''orchestration'', ''model-policy.yaml''] d = Inr policy"
      "load_validated yaml rd AutonomyPolicy [''.ai'', ''orchestration'', ''autonomy-policy.yaml''] d = Inr autonomy"
      "load_validated yaml rd OrchestratorConfig [''.ai'', ''orchestration'', ''orchestrator.yaml''] d = Inr orchestrator"
      "load_validated yaml rd FallbackConfig [''.ai'', ''orchestration'', ''fallbacks.yaml''] d = Inr fallbacks"
    and ctx: "ctx = \<lparr>ctx_project = project, ctx_phases = phases, ctx_agents = agents, ctx_skills = skills, ctx_recipes = recipes,
         ctx_model_policy = policy, ctx_autonomy_policy = autonomy, ctx_orchestrator = orchestrator, ctx_fallbacks = fallbacks\<rparr>"
    unfolding resolve_fresh_def by (auto split: sum.splits)
  from p have "conforms ProjectProfile project \<and> validate rd ProjectProfile project = Inr project"
    by (auto simp: load_project_profile_def model_shapes_def split: sum.splits option.splits intro!: validate_typed [of rd, simplified])
  moreover note loaded [THEN load_validated_typed, unfolded model_shapes_def, simplified]
  moreover from ph obtain out where out: "load_goal_files yaml rd d (yaml_under goals_dir d) [] = Inr out" and s: "phases = sort_key ph_id out"
    by (auto simp: load_goals_def map_sum_Inr split: if_splits)
  from load_goal_files_phases [OF out, of "[]"] obtain gs where
    gs: "list_all2 (\<lambda>f g. load_validated yaml rd Goal f d = Inr g) (yaml_under goals_dir d) gs"
      "distinct (List.map ph_id out)" "ph_id ` set out = str_attr ''phase'' ` set gs"
      "\<forall>p \<in> set out. holds_goals gs p" by auto
  have typed: "conforms Goal g \<and> validate rd Goal g = Inr g" if "g \<in> set gs" for g
  proof -
    from that obtain i where "i < length gs" "g = gs ! i" by (auto simp: in_set_conv_nth)
    with gs(1) have "load_validated yaml rd Goal (yaml_under goals_dir d ! i) d = Inr g" by (auto simp: list_all2_conv_all_nth)
    from load_validated_typed [OF this] show ?thesis by (simp add: model_shapes_def)
  qed
  moreover have "distinct (List.map ph_id phases)" using gs(2) by (simp add: s distinct_map)
  ultimately show ?thesis
    using gs(1,3,4) by (auto simp: ctx s holds_goals_def intro!: exI [of _ gs])
qed

section \<open>The cache\<close>









section \<open>A sample project\<close>

definition texts :: "string list \<Rightarrow> json" where
  "texts xs = JList (List.map JStr xs)"

definition sample_goal :: "string \<Rightarrow> string \<Rightarrow> json" where
  "sample_goal i ph = JObj [(''id'', JStr i), (''phase'', JStr ph), (''title'', JStr ''t''), (''state'', JStr ''READY''),
     (''objective'', JStr ''o''), (''gates'', JObj [(''build'', JStr ''required''), (''tests'', JStr ''required''),
        (''review'', JStr ''optional''), (''documentation'', JStr ''optional'')])]"

definition sample_manifests :: "(rel_path \<times> string \<times> json) list" where
  "sample_manifests =
     [([''.ai'', ''context'', ''project-profile.yaml''], ''profile'',
         JObj [(''project'', JObj [(''id'', JStr ''p''), (''type'', texts [''python''])])]),
      ([''.ai'', ''agents'', ''manifest.yaml''], ''agents'', JObj [(''agents'', texts [''a'']), (''selection_basis'', texts [])]),
      ([''.ai'', ''skills'', ''manifest.yaml''], ''skills'', JObj [(''skills'', texts [])]),
      ([''.ai'', ''recipes'', ''manifest.yaml''], ''recipes'', JObj [(''recipes'', texts [])]),
      ([''.ai'', ''orchestration'', ''model-policy.yaml''], ''models'', JObj [(''version'', JInt 1),
         (''development_harness'', JStr ''h''), (''runtime_discovery'', JObj []), (''roster'', JList []), (''principles'', texts [])]),
      ([''.ai'', ''orchestration'', ''autonomy-policy.yaml''], ''autonomy'',
         JObj [(''default'', JStr ''agentic''), (''modes'', JObj []), (''project_policy'', JObj [])]),
      ([''.ai'', ''orchestration'', ''orchestrator.yaml''], ''orchestrator'',
         JObj [(''development'', JObj []), (''product'', JObj []), (''protocols'', JObj []), (''execution'', JObj [])]),
      ([''.ai'', ''orchestration'', ''fallbacks.yaml''], ''fallbacks'',
         JObj [(''availability'', JStr ''a''), (''quality'', JObj []), (''confidence'', JObj []), (''human_escalation'', texts [])])]"

definition sample_goal_files :: "(rel_path \<times> string \<times> json) list" where
  "sample_goal_files =
     [([''.ai'', ''goals'', ''b.yaml''], ''b'', sample_goal ''G2'' ''P1''), ([''.ai'', ''goals'', ''a.yaml''], ''a'', sample_goal ''G1'' ''P2''),
      ([''.ai'', ''goals'', ''c.yaml''], ''c'', sample_goal ''G3'' ''P1'')]"

definition sample_yaml :: yaml_parser where
  "sample_yaml t = (case map_of (List.map snd (sample_manifests @ sample_goal_files)) t of
     Some v \<Rightarrow> Inr v | None \<Rightarrow> Inl (YAMLError ''unexpected text''))"

definition sample_project :: "bool \<Rightarrow> (rel_path \<times> string \<times> json) list \<Rightarrow> int \<Rightarrow> project_disk" where
  "sample_project goals files t =
     \<lparr>pd_dirs = (if goals then [(goals_dir, 0)] else []), pd_files = List.map (\<lambda>(p, s, v). (p, Text s, t)) files\<rparr>"

lemma sample_resolves:
  "map_sum id (\<lambda>ctx. List.map (\<lambda>p. (ph_id p, List.map (str_attr ''id'') (ph_goals p))) (ctx_phases ctx))
     (resolve_fresh sample_yaml (\<lambda>_. None) (sample_project True (sample_manifests @ sample_goal_files) 1))
   = Inr [(''P1'', [''G2'', ''G3'']), (''P2'', [''G1''])]"
  by code_simp

theorem context_typed_witness:
  "\<exists>ctx. resolve_fresh sample_yaml (\<lambda>_. None) (sample_project True (sample_manifests @ sample_goal_files) 1) = Inr ctx
     \<and> List.map ph_id (ctx_phases ctx) = [''P1'', ''P2''] \<and> conforms ProjectProfile (ctx_project ctx)"
proof -
  obtain ctx where ctx: "resolve_fresh sample_yaml (\<lambda>_. None) (sample_project True (sample_manifests @ sample_goal_files) 1) = Inr ctx"
    and ph: "List.map (\<lambda>p. (ph_id p, List.map (str_attr ''id'') (ph_goals p))) (ctx_phases ctx) = [(''P1'', [''G2'', ''G3'']), (''P2'', [''G1''])]"
    using sample_resolves by (auto simp: map_sum_Inr)
  from ph have "List.map fst (List.map (\<lambda>p. (ph_id p, List.map (str_attr ''id'') (ph_goals p))) (ctx_phases ctx)) = [''P1'', ''P2'']"
    by (simp only: list.map fst_conv)
  then have "List.map ph_id (ctx_phases ctx) = [''P1'', ''P2'']" by (simp add: comp_def)
  with ctx context_typed [OF ctx] show ?thesis by simp
qed








text \<open>The empty directory of the Goals is not part of the signature: once it is removed, the cache still
  serves the context where a fresh load refuses the project.\<close>

lemma removed_goals_directory_served:
  "let old = sample_project True sample_manifests 1; new = sample_project False sample_manifests 1;
       (r, cache) = resolve_project sample_yaml (\<lambda>_. None) True old old None
   in (case fst (resolve_project sample_yaml (\<lambda>_. None) True new new cache) of Inr ctx \<Rightarrow> True | Inl e \<Rightarrow> False)
      \<and> resolve_fresh sample_yaml (\<lambda>_. None) new = Inl (AtlasLoadError (''Goals directory not found: '' @ show_path goals_dir))"
  by code_simp

text \<open>A version that is not two numbers escapes \<open>validate_compatibility\<close> as a plain \<open>ValueError\<close>.\<close>

lemma bare_version_escapes:
  "validate_compatibility (\<lambda>_. Inr (JObj [(''framework'', JObj [(''name'', JStr ''project-atlas-framework''),
       (''version'', JStr ''1''), (''entrypoint'', JStr ''e'')])])) (\<lambda>_. None)
     \<lparr>pd_dirs = [], pd_files = [([''PROJECT_MANIFEST.yaml''], Text [], 0)]\<rparr>
   = Inl (ValueError ''not enough values to unpack'')"
  by code_simp

end
