(* ===== verification/ContextEngine.thy ===== *)
theory ContextEngine
  imports Manifests
begin

text \<open>
  The context pack of a Goal (\<open>context/engine.py\<close>): its definition, the documents and modules linked to it, the
  decisions and the tests of the project. A Goal's identifier is taken as a plain file name.
\<close>

section \<open>Packs\<close>

record pack_entry =
  pe_path :: rel_path
  pe_kind :: string
  pe_relevance :: rat
  pe_summary :: string

record pack =
  pk_goal_id :: string
  pk_task_id :: string
  pk_docs :: "pack_entry list"
  pk_code :: "pack_entry list"
  pk_tests :: "pack_entry list"
  pk_decisions :: "pack_entry list"
  pk_forbidden :: "string list"
  pk_commands :: "string list"
  pk_size_hint :: int
  pk_omissions :: "string list"

definition entry_count :: "pack \<Rightarrow> nat" where
  "entry_count p = length (pk_docs p) + length (pk_code p) + length (pk_tests p) + length (pk_decisions p)"

definition is_within_budget :: "pack \<Rightarrow> int \<Rightarrow> bool" where
  "is_within_budget p budget \<longleftrightarrow> pk_size_hint p \<le> budget"

definition mk_entry :: "string \<Rightarrow> rat \<Rightarrow> (rel_path \<Rightarrow> string) \<Rightarrow> rel_path \<Rightarrow> pack_entry" where
  "mk_entry kind relevance summary p = \<lparr>pe_path = p, pe_kind = kind, pe_relevance = relevance, pe_summary = summary p\<rparr>"

section \<open>What a Goal is linked to\<close>

definition ATLAS_LINKS :: "(string \<times> rel_path list) list" where
  "ATLAS_LINKS =
    [(''P01-G01'', [[''docs'', ''01-architecture'', ''DOMAIN_MODEL.md''],
       [''docs'', ''03-implementation'', ''PROJECT_ATLAS_INTEGRATION.md'']]),
     (''P02-G01'', [[''docs'', ''01-architecture'', ''CHAT_DISCUSS_MODE.md''],
       [''docs'', ''01-architecture'', ''DECISION_LEDGER.md'']]),
     (''P03-G01'', [[''docs'', ''01-architecture'', ''EXECUTION_ENGINE.md''],
       [''docs'', ''01-architecture'', ''PERSISTENCE.md''],
       [''docs'', ''01-architecture'', ''EVENT_MODEL.md''],
       [''docs'', ''01-architecture'', ''RECOVERY.md'']]),
     (''P04-G01'', [[''docs'', ''01-architecture'', ''ATLAS_HARNESS.md''],
       [''docs'', ''01-architecture'', ''ACP_INTEGRATION.md'']]),
     (''P05-G01'', [[''docs'', ''01-architecture'', ''PLANNER_DAG.md''],
       [''docs'', ''01-architecture'', ''GIT_WORKTREES.md'']]),
     (''P08-G01'', [[''docs'', ''01-architecture'', ''MODEL_ROUTER.md''],
       [''docs'', ''01-architecture'', ''WORKFORCE_RESOLVER.md'']])]"

definition CODE_LINKS :: "(string \<times> rel_path list) list" where
  "CODE_LINKS =
    [(''P01-G01'', [[''backend'', ''atlas_flow'', ''goals'']]),
     (''P02-G01'', [[''backend'', ''atlas_flow'', ''discuss'']]),
     (''P03-G01'', [[''backend'', ''atlas_flow'', ''execution'']]),
     (''P04-G01'', [[''backend'', ''atlas_flow'', ''harness'']]),
     (''P05-G01'', [[''backend'', ''atlas_flow'', ''planner'']]),
     (''P06-G01'', [[''apps'', ''desktop'', ''src'']]),
     (''P07-G01'', [[''backend'', ''atlas_flow'', ''verification'']]),
     (''P08-G01'', [[''backend'', ''atlas_flow'', ''routing''],
       [''backend'', ''atlas_flow'', ''workforce'']]),
     (''P09-G01'', [[''backend'', ''atlas_flow'', ''security''],
       [''backend'', ''atlas_flow'', ''execution'', ''faults.py'']])]"

definition links_of :: "(string \<times> rel_path list) list \<Rightarrow> string \<Rightarrow> rel_path list" where
  "links_of table goal_id = (case map_of table goal_id of None \<Rightarrow> [] | Some ps \<Rightarrow> ps)"

definition atlas_links_for_goal :: "'z project_disk_scheme \<Rightarrow> string \<Rightarrow> pack_entry list" where
  "atlas_links_for_goal d goal_id =
     List.map (mk_entry ''doc'' (9/10) (\<lambda>_. [])) (filter (has_file d) (links_of ATLAS_LINKS goal_id))"

definition code_for_goal :: "string \<Rightarrow> rel_path list" where
  "code_for_goal goal_id = links_of CODE_LINKS goal_id"

text \<open>\<open>glob\<close> in a directory and \<open>rglob\<close> below it, for a name that starts and ends as given; both see directories too.\<close>

definition all_paths :: "'z project_disk_scheme \<Rightarrow> rel_path list" where
  "all_paths d = remdups (List.map fst (pd_files d) @ List.map fst (pd_dirs d))"

definition named_like :: "string \<Rightarrow> string \<Rightarrow> rel_path \<Rightarrow> bool" where
  "named_like start ending p \<longleftrightarrow> starts_with (last p) start \<and> ends_with (last p) ending"

definition glob_in :: "rel_path \<Rightarrow> string \<Rightarrow> string \<Rightarrow> 'z project_disk_scheme \<Rightarrow> rel_path list" where
  "glob_in dir start ending d =
     sort (filter (\<lambda>p. p \<noteq> [] \<and> butlast p = dir \<and> named_like start ending p) (all_paths d))"

definition rglob_in :: "rel_path \<Rightarrow> string \<Rightarrow> string \<Rightarrow> 'z project_disk_scheme \<Rightarrow> rel_path list" where
  "rglob_in dir start ending d =
     sort (filter (\<lambda>p. starts_with p dir \<and> p \<noteq> dir \<and> named_like start ending p) (all_paths d))"

definition VALIDATION_COMMANDS :: "string list" where
  "VALIDATION_COMMANDS =
    [''uv run --project backend ruff check .'',
     ''uv run --project backend mypy'',
     ''uv run --project backend pytest tests/unit/ -q'',
     ''uv run --project backend python scripts/validate_docs.py'',
     ''uv run --project backend python scripts/validate_goals.py'']"

definition goal_file :: "string \<Rightarrow> rel_path" where
  "goal_file goal_id = goals_dir @ [take 3 goal_id, goal_id @ ''.yaml'']"

definition adrs_dir :: rel_path where
  "adrs_dir = [''docs'', ''07-decisions'']"

definition tests_dir :: rel_path where
  "tests_dir = [''tests'']"

definition build_for_goal :: "'z project_disk_scheme \<Rightarrow> string \<Rightarrow> pack" where
  "build_for_goal d goal_id =
     (let docs = (if has_file d (goal_file goal_id)
                  then [mk_entry ''goal'' 1 (\<lambda>_. ''Goal definition for '' @ goal_id) (goal_file goal_id)] else [])
                 @ atlas_links_for_goal d goal_id;
          decisions = (if has_dir d adrs_dir
                       then List.map (mk_entry ''decision'' (8/10) (\<lambda>p. take (length (last p) - 3) (last p))) (glob_in adrs_dir ''ADR-'' ''.md'' d)
                       else []);
          code = List.map (mk_entry ''code'' (7/10) (\<lambda>_. [])) (filter (has_file d) (code_for_goal goal_id));
          tests = (if has_dir d tests_dir
                   then List.map (mk_entry ''test'' (5/10) (\<lambda>_. [])) (rglob_in tests_dir ''test_'' ''.py'' d) else []);
          p = \<lparr>pk_goal_id = goal_id, pk_task_id = [], pk_docs = docs, pk_code = code, pk_tests = tests, pk_decisions = decisions,
               pk_forbidden = [], pk_commands = VALIDATION_COMMANDS, pk_size_hint = 0, pk_omissions = []\<rparr>
      in p\<lparr>pk_size_hint := int (entry_count p) * 2000\<rparr>)"

section \<open>What a pack holds\<close>

lemma glob_paths: "p \<in> set (glob_in dir a b d) \<union> set (rglob_in dir a b d) \<Longrightarrow> has_file d p \<or> has_dir d p"
  by (auto simp: glob_in_def rglob_in_def all_paths_def has_file_def has_dir_def map_of_eq_None_iff)

text \<open>Every entry of a pack is in the project, the tests and decisions each once and in order, and the size is 2000 for
  each entry.\<close>

lemma pack_entries_exist:
  "let p = build_for_goal d goal_id
   in (\<forall>e \<in> set (pk_docs p @ pk_code p @ pk_tests p @ pk_decisions p). has_file d (pe_path e) \<or> has_dir d (pe_path e))
    \<and> (\<forall>e \<in> set (pk_docs p @ pk_code p). has_file d (pe_path e))
    \<and> distinct (List.map pe_path (pk_tests p)) \<and> sorted (List.map pe_path (pk_tests p))
    \<and> pk_size_hint p = 2000 * int (entry_count p)
    \<and> (is_within_budget p 100000 \<longleftrightarrow> entry_count p \<le> 50)"
proof -
  let ?p = "build_for_goal d goal_id"
  have path [simp]: "pe_path (mk_entry k r s q) = q" for k r s q by (simp add: mk_entry_def)
  have comp [simp]: "pe_path \<circ> mk_entry k r s = id" for k r s by (rule ext) simp
  have files: "\<forall>e \<in> set (pk_docs ?p @ pk_code ?p). has_file d (pe_path e)"
    by (auto simp: build_for_goal_def Let_def atlas_links_for_goal_def)
  have "\<forall>e \<in> set (pk_tests ?p @ pk_decisions ?p). \<exists>dir a b. pe_path e \<in> set (glob_in dir a b d) \<union> set (rglob_in dir a b d)"
    by (auto simp: build_for_goal_def Let_def) blast+
  then have found: "\<forall>e \<in> set (pk_tests ?p @ pk_decisions ?p). has_file d (pe_path e) \<or> has_dir d (pe_path e)"
    using glob_paths by blast
  have tests: "distinct (List.map pe_path (pk_tests ?p)) \<and> sorted (List.map pe_path (pk_tests ?p))"
    by (simp add: build_for_goal_def Let_def rglob_in_def all_paths_def)
  have size: "pk_size_hint ?p = 2000 * int (entry_count ?p)"
    by (simp add: build_for_goal_def Let_def entry_count_def)
  have "is_within_budget ?p 100000 \<longleftrightarrow> entry_count ?p \<le> 50"
    unfolding is_within_budget_def size by linarith
  then show ?thesis unfolding Let_def using files found tests size by auto
qed

text \<open>The modules linked to a Goal are directories, all but one, and a directory is dropped: only the last Goal can have a
  code entry.\<close>

lemma only_module_linked: "list_all (\<lambda>(k, ps). k = ''P09-G01'' \<or> list_all (\<lambda>p. \<not> ends_with (last p) ''.py'') ps) CODE_LINKS"
  by code_simp

lemma code_links_dropped:
  assumes "\<forall>p \<in> set (code_for_goal goal_id). has_file d p \<longrightarrow> ends_with (last p) ''.py''"
    and "pk_code (build_for_goal d goal_id) \<noteq> []"
  shows "goal_id = ''P09-G01''"
proof -
  from assms(2) obtain p where "p \<in> set (code_for_goal goal_id)" "has_file d p"
    by (auto simp: build_for_goal_def Let_def filter_empty_conv)
  with assms(1) obtain ps where "(goal_id, ps) \<in> set CODE_LINKS" "p \<in> set ps" "ends_with (last p) ''.py''"
    by (cases "map_of CODE_LINKS goal_id") (auto simp: code_for_goal_def links_of_def dest: map_of_SomeD)
  with only_module_linked show ?thesis by (fastforce simp: list_all_iff)
qed

end
