(* ===== verification/McpServers.thy ===== *)
theory McpServers
  imports Settings
begin

text \<open>
  Which MCP servers an agent may see (\<open>mcp/registry.py\<close>). The registry is built from the project's
  \<open>mcp-servers.yaml\<close>, here the value the file loads to; \<open>env\<close> is the process's environment and
  \<open>repr\<close> Python's text of a float or container.
\<close>

definition PLANNING_ROLES :: "string list" where
  "PLANNING_ROLES = [''goal-planner'', ''chief-architect'', ''repo-explorer'']"

record mcp_server =
  mcp_name :: string
  mcp_command :: string
  mcp_args :: "string list"
  mcp_env :: "(string \<times> string) list"
  mcp_read_only :: bool
  mcp_roles :: "string list"

definition serves :: "mcp_server \<Rightarrow> string \<Rightarrow> bool" where
  "serves m role \<longleftrightarrow> mcp_roles m = [] \<or> role \<in> set (mcp_roles m)"

definition to_acp :: "mcp_server \<Rightarrow> json" where
  "to_acp m = JObj [(''name'', JStr (mcp_name m)), (''command'', JStr (mcp_command m)),
     (''args'', JList (List.map JStr (mcp_args m))),
     (''env'', JList (List.map (\<lambda>(k, v). JObj [(''name'', JStr k), (''value'', JStr v)]) (sort_key fst (mcp_env m))))]"

record mcp_registry =
  reg_servers :: "mcp_server list"
  reg_skipped :: "(string \<times> string) list"
  reg_enabled :: bool

definition empty_registry :: "bool \<Rightarrow> mcp_registry" where
  "empty_registry enabled = \<lparr>reg_servers = [], reg_skipped = [], reg_enabled = enabled\<rparr>"

text \<open>\<open>entry.get(k, d)\<close>, \<open>x or []\<close>, and iterating over what a file holds.\<close>

definition get_or :: "string \<Rightarrow> json \<Rightarrow> dict \<Rightarrow> json" where
  "get_or k d entry = (case map_of entry k of Some v \<Rightarrow> v | None \<Rightarrow> d)"

definition or_empty :: "json \<Rightarrow> json" where
  "or_empty v = (if truthy v then v else JList [])"

fun iter_json :: "json \<Rightarrow> exn + json list" where
  "iter_json (JList xs) = Inr xs"
| "iter_json (JStr s) = Inr (List.map (\<lambda>c. JStr [c]) s)"
| "iter_json (JObj d) = Inr (List.map (\<lambda>(k, _). JStr k) d)"
| "iter_json v = Inl (TypeError ''object is not iterable'')"

text \<open>\<open>_resolve_env\<close>: the left side is the reason an \<open>_EnvProblem\<close> gives.\<close>

fun resolve_entries ::
  "(json \<Rightarrow> string) \<Rightarrow> (string \<Rightarrow> string option) \<Rightarrow> json list \<Rightarrow> (string \<times> string) list
     \<Rightarrow> string + (string \<times> string) list" where
  "resolve_entries repr env [] resolved = Inr resolved"
| "resolve_entries repr env (JObj entry # rest) resolved =
     (let name = strip (py_str repr (get_or ''name'' (JStr []) entry))
      in if name = [] then Inl ''an env entry is missing its name''
         else if map_of entry ''value'' \<noteq> None
         then Inl (''env '' @ quoted name @ '' declares a literal value; use from_env so the secret stays out of the repository'')
         else let source = strip (py_str repr (get_or ''from_env'' (JStr []) entry))
         in if source = [] then Inl (''env '' @ quoted name @ '' declares no from_env source'')
            else (case env source of
                    None \<Rightarrow> Inl (''environment variable '' @ source @ '' is not set'')
                  | Some val \<Rightarrow> resolve_entries repr env rest (AList.update name val resolved)))"
| "resolve_entries repr env (v # rest) resolved = Inl (quoted ''env'' @ '' must be a list of {name, from_env} entries'')"

definition resolve_env ::
  "(json \<Rightarrow> string) \<Rightarrow> (string \<Rightarrow> string option) \<Rightarrow> json \<Rightarrow> string + (string \<times> string) list" where
  "resolve_env repr env declared =
     (case declared of
        JList entries \<Rightarrow> resolve_entries repr env entries []
      | _ \<Rightarrow> Inl (quoted ''env'' @ '' must be a list of {name, from_env} entries''))"

definition skip :: "string \<Rightarrow> string \<Rightarrow> mcp_registry \<Rightarrow> mcp_registry" where
  "skip name why r = r\<lparr>reg_skipped := AList.update name why (reg_skipped r)\<rparr>"

definition texts_of :: "(json \<Rightarrow> string) \<Rightarrow> json \<Rightarrow> exn + string list" where
  "texts_of repr v = map_sum id (List.map (py_str repr)) (iter_json (or_empty v))"

definition add_server ::
  "(json \<Rightarrow> string) \<Rightarrow> (string \<Rightarrow> string option) \<Rightarrow> json list \<Rightarrow> string \<Rightarrow> dict \<Rightarrow> mcp_registry \<Rightarrow> exn + mcp_registry" where
  "add_server repr env wanted path entry r =
     (let name = strip (py_str repr (get_or ''name'' (JStr []) entry))
      in if name = [] then Inl (McpConfigError (path @ '': a server is missing its name''))
         else if wanted \<noteq> [] \<and> JStr name \<notin> set wanted
         then Inr (skip name ''not in the configured server allowlist'' r)
         else let command = strip (py_str repr (get_or ''command'' (JStr []) entry))
         in if command = [] then Inr (skip name ''no command declared'' r)
         else (case resolve_env repr env (or_empty (get_or ''env'' JNull entry)) of
             Inl why \<Rightarrow> Inr (skip name why r)
           | Inr resolved \<Rightarrow>
               (case texts_of repr (get_or ''args'' JNull entry) of Inl e \<Rightarrow> Inl e | Inr args \<Rightarrow>
               (case texts_of repr (get_or ''roles'' JNull entry) of Inl e \<Rightarrow> Inl e | Inr roles \<Rightarrow>
                 Inr (r\<lparr>reg_servers := reg_servers r @ [\<lparr>mcp_name = name, mcp_command = command,
                        mcp_args = args, mcp_env = resolved,
                        mcp_read_only = truthy (get_or ''read_only'' (JBool False) entry),
                        mcp_roles = roles\<rparr>]\<rparr>)))))"

fun read_servers ::
  "(json \<Rightarrow> string) \<Rightarrow> (string \<Rightarrow> string option) \<Rightarrow> json list \<Rightarrow> string \<Rightarrow> json list \<Rightarrow> mcp_registry
     \<Rightarrow> exn + mcp_registry" where
  "read_servers repr env wanted path [] r = Inr r"
| "read_servers repr env wanted path (JObj entry # rest) r =
     (case add_server repr env wanted path entry r of
        Inl e \<Rightarrow> Inl e
      | Inr r' \<Rightarrow> read_servers repr env wanted path rest r')"
| "read_servers repr env wanted path (v # rest) r =
     Inl (McpConfigError (path @ '': each server must be a mapping''))"

fun hashable :: "json \<Rightarrow> bool" where
  "hashable (JList xs) = False"
| "hashable (JObj d) = False"
| "hashable v = True"

definition from_file ::
  "(json \<Rightarrow> string) \<Rightarrow> (string \<Rightarrow> string option) \<Rightarrow> string \<Rightarrow> yaml_file option \<Rightarrow> bool \<Rightarrow> json list
     \<Rightarrow> exn + mcp_registry" where
  "from_file repr env path content enabled allowlist =
     (if \<not> enabled then Inr (empty_registry False)
      else case content of
        None \<Rightarrow> Inr (empty_registry True)
      | Some f \<Rightarrow> (case safe_load f of
          Inl e \<Rightarrow> Inl e
        | Inr JNull \<Rightarrow> Inr (empty_registry True)
        | Inr (JObj raw) \<Rightarrow>
            if map_of raw ''enabled'' = Some (JBool False) then Inr (empty_registry False)
            else (case or_empty (get_or ''servers'' JNull raw) of
                JList declared \<Rightarrow>
                  if \<not> list_all hashable allowlist then Inl (TypeError ''unhashable type'')
                  else read_servers repr env allowlist path declared (empty_registry True)
              | _ \<Rightarrow> Inl (McpConfigError (path @ '': '' @ quoted ''servers'' @ '' must be a list'')))
        | Inr _ \<Rightarrow> Inl (McpConfigError (path @ '' must contain a mapping''))))"

text \<open>\<open>load\<close>; the configuration is the attribute dictionary.\<close>

definition load_registry :: "(json \<Rightarrow> string) \<Rightarrow> 'z machine_scheme \<Rightarrow> string \<Rightarrow> dict \<Rightarrow> exn + mcp_registry" where
  "load_registry repr m base cfg =
     (let path = orchestration base ''mcp-servers.yaml''
      in case iter_json (get_or ''mcp_servers'' (JList []) cfg) of
           Inl e \<Rightarrow> Inl e
         | Inr allowlist \<Rightarrow> from_file repr (environ m) path (yaml_files m path)
             (truthy (get_or ''mcp_enabled'' (JBool False) cfg)) allowlist)"

text \<open>\<open>inspect_mcp\<close> of the settings document.\<close>

definition inspect_mcp :: "(json \<Rightarrow> string) \<Rightarrow> 'z machine_scheme \<Rightarrow> string \<Rightarrow> dict \<Rightarrow> exn + json" where
  "inspect_mcp repr m base cfg = map_sum id (\<lambda>r. JObj [
     (''enabled'', JBool (reg_enabled r)),
     (''servers'', JList (List.map (\<lambda>x. JObj [(''name'', JStr (mcp_name x)), (''command'', JStr (mcp_command x)),
        (''args'', JList (List.map JStr (mcp_args x))), (''readOnly'', JBool (mcp_read_only x)),
        (''roles'', JList (List.map JStr (mcp_roles x)))]) (reg_servers r))),
     (''skipped'', JObj (List.map (\<lambda>(n, why). (n, JStr why)) (reg_skipped r)))])
   (load_registry repr m base cfg)"

definition for_role :: "mcp_registry \<Rightarrow> string \<Rightarrow> mcp_server list" where
  "for_role r role =
     (let allowed = filter (\<lambda>m. serves m role) (reg_servers r)
      in if role \<in> set PLANNING_ROLES then filter mcp_read_only allowed else allowed)"

definition acp_servers :: "mcp_registry \<Rightarrow> string \<Rightarrow> json list" where
  "acp_servers r role = List.map to_acp (for_role r role)"

definition explain_mcp :: "mcp_registry \<Rightarrow> string \<Rightarrow> string" where
  "explain_mcp r role =
     (if \<not> reg_enabled r then ''MCP forwarding is disabled''
      else let granted = List.map mcp_name (for_role r role)
      in join ''; '' ((''forwarded: '' @ (if granted \<noteq> [] then join '', '' granted else ''none''))
           # (if reg_skipped r = [] then []
              else [''skipped: '' @ join '', '' (List.map (\<lambda>(n, why). n @ '' ('' @ why @ '')'') (sort_key fst (reg_skipped r)))])))"

section \<open>The boundary\<close>




















text \<open>The project's switch in \<open>mcp-servers.yaml\<close> never turns forwarding on: the configuration keeps its
  default, and the registry built from it is disabled.\<close>

lemma project_switch_ignored:
  "case load_config no_text demo_machine ''/p'' of Inl _ \<Rightarrow> False
   | Inr cfg \<Rightarrow> load_registry no_text demo_machine ''/p'' cfg = Inr (empty_registry False)
       \<and> project_value (yaml_files demo_machine) ''/p'' ''mcp_enabled'' = Some (JBool True)"
  by code_simp

end
