(* ===== verification/AcpEvents.thy ===== *)
theory AcpEvents
  imports McpServers
begin

text \<open>
  Normalizing what an agent narrates (\<open>acp/events.py\<close>). An update is the JSON object of a
  \<open>session/update\<close> notification; \<open>repr\<close> is Python's text of a float or container and \<open>redact\<close> stands
  for \<open>SecurityGuard.redact_secrets\<close>.
\<close>

datatype update_kind = U_MESSAGE | U_THOUGHT | U_TERMINAL | U_FILE | U_TOOL | U_PLAN

fun update_kind_str :: "update_kind \<Rightarrow> string" where
  "update_kind_str U_MESSAGE = ''message''"
| "update_kind_str U_THOUGHT = ''thought''"
| "update_kind_str U_TERMINAL = ''terminal''"
| "update_kind_str U_FILE = ''file''"
| "update_kind_str U_TOOL = ''tool''"
| "update_kind_str U_PLAN = ''plan''"

fun event_name :: "update_kind \<Rightarrow> string" where
  "event_name U_MESSAGE = ''atlas.agent.message''"
| "event_name U_THOUGHT = ''atlas.agent.thought''"
| "event_name U_TERMINAL = ''atlas.terminal.output''"
| "event_name U_FILE = ''atlas.file.changed''"
| "event_name U_TOOL = ''atlas.tool.call''"
| "event_name U_PLAN = ''atlas.plan.updated''"

definition EXECUTE_KINDS :: "string list" where
  "EXECUTE_KINDS = [''execute'', ''terminal'', ''shell'']"

definition EDIT_KINDS :: "string list" where
  "EDIT_KINDS = [''edit'', ''write'', ''create'', ''delete'', ''move'']"

record normalized_update =
  nu_kind :: update_kind
  nu_text :: string
  nu_paths :: "string list"
  nu_tool :: string
  nu_status :: string
  nu_raw :: dict

definition payload :: "normalized_update \<Rightarrow> json" where
  "payload u = JObj [(''kind'', JStr (update_kind_str (nu_kind u))), (''text'', JStr (nu_text u)),
     (''paths'', JList (List.map JStr (nu_paths u))), (''tool'', JStr (nu_tool u)), (''status'', JStr (nu_status u))]"

section \<open>Text of a content block\<close>

text \<open>\<open>d.get(k)\<close>, and \<open>str(d.get(k, ""))\<close>.\<close>

definition get :: "string \<Rightarrow> dict \<Rightarrow> json" where
  "get k d = get_or k JNull d"

definition get_str :: "(json \<Rightarrow> string) \<Rightarrow> string \<Rightarrow> dict \<Rightarrow> string" where
  "get_str repr k d = py_str repr (get_or k (JStr []) d)"

lemma map_of_size: "map_of d k = Some v \<Longrightarrow> size v < Suc (size_list (size_prod (\<lambda>_. 0) size) d)"
  by (induction d) (auto split: if_splits)

function content_text :: "(json \<Rightarrow> string) \<Rightarrow> json \<Rightarrow> string" where
  "content_text repr (JStr s) = s"
| "content_text repr (JList xs) = concat (List.map (content_text repr) xs)"
| "content_text repr (JObj d) =
     (if (get ''type'' d = JNull \<or> get ''type'' d = JStr ''text'') \<and> map_of d ''text'' \<noteq> None
      then get_str repr ''text'' d
      else if map_of d ''output'' \<noteq> None then get_str repr ''output'' d
      else case map_of d ''content'' of None \<Rightarrow> [] | Some v \<Rightarrow> content_text repr v)"
| "content_text repr JNull = []"
| "content_text repr (JBool b) = []"
| "content_text repr (JInt i) = []"
| "content_text repr (JFloat r) = []"
  by pat_completeness auto
termination
  by (relation "measure (size \<circ> snd)") (auto simp: less_Suc_eq_le size_list_estimation' dest: map_of_size)

section \<open>Classification\<close>

definition is_diff :: "json \<Rightarrow> bool" where
  "is_diff block = (case block of JObj d \<Rightarrow> get ''type'' d = JStr ''diff'' | _ \<Rightarrow> False)"

definition named_path :: "(json \<Rightarrow> string) \<Rightarrow> json \<Rightarrow> string option" where
  "named_path repr v = (case v of
     JObj d \<Rightarrow> if truthy (get ''path'' d) then Some (py_str repr (get ''path'' d)) else None
   | _ \<Rightarrow> None)"

text \<open>\<open>list(dict.fromkeys(found))\<close>.\<close>

definition from_keys :: "'a list \<Rightarrow> 'a list" where
  "from_keys xs = rev (remdups (rev xs))"

definition update_paths :: "(json \<Rightarrow> string) \<Rightarrow> dict \<Rightarrow> json list \<Rightarrow> string list" where
  "update_paths repr update dblocks =
     from_keys ((case get ''locations'' update of JList ls \<Rightarrow> List.map_filter (named_path repr) ls | _ \<Rightarrow> [])
       @ List.map_filter (named_path repr) dblocks)"

definition diff_summary :: "json list \<Rightarrow> string" where
  "diff_summary dblocks = (if dblocks = [] then [] else nat_str (length dblocks) @ '' file diff(s)'')"

definition plan_entry :: "(json \<Rightarrow> string) \<Rightarrow> json \<Rightarrow> string option" where
  "plan_entry repr v = (case v of
     JObj d \<Rightarrow> if truthy (get ''content'' d) then Some (get_str repr ''content'' d) else None
   | _ \<Rightarrow> None)"

definition plan_summary :: "(json \<Rightarrow> string) \<Rightarrow> json \<Rightarrow> string" where
  "plan_summary repr entries =
     (case entries of JList es \<Rightarrow> join ''; '' (List.map_filter (plan_entry repr) es) | _ \<Rightarrow> [])"

definition terminal_block :: "(json \<Rightarrow> string) \<Rightarrow> json \<Rightarrow> string" where
  "terminal_block repr v = (case v of
     JObj d \<Rightarrow> if get ''type'' d = JStr ''terminal'' then content_text repr (get ''content'' d) else []
   | _ \<Rightarrow> [])"

definition normalize_tool_call :: "(json \<Rightarrow> string) \<Rightarrow> dict \<Rightarrow> normalized_update option" where
  "normalize_tool_call repr update =
     (let kind = lower (get_str repr ''kind'' update);
          title = (if get_str repr ''title'' update \<noteq> [] then get_str repr ''title'' update
                   else get_str repr ''toolCallId'' update);
          status = get_str repr ''status'' update;
          blocks = (case get ''content'' update of JList bs \<Rightarrow> bs | _ \<Rightarrow> []);
          terminal = concat (List.map (terminal_block repr) blocks);
          dblocks = filter is_diff blocks;
          paths = update_paths repr update dblocks
      in if kind \<in> set EXECUTE_KINDS \<or> terminal \<noteq> []
         then Some \<lparr>nu_kind = U_TERMINAL,
                nu_text = (if terminal \<noteq> [] then terminal else content_text repr (get ''rawOutput'' update)),
                nu_paths = [], nu_tool = title, nu_status = status, nu_raw = update\<rparr>
         else if kind \<in> set EDIT_KINDS \<or> dblocks \<noteq> []
         then Some \<lparr>nu_kind = U_FILE, nu_text = diff_summary dblocks, nu_paths = paths, nu_tool = title,
                nu_status = status, nu_raw = update\<rparr>
         else if title = [] then None
         else Some \<lparr>nu_kind = U_TOOL, nu_text = [], nu_paths = paths, nu_tool = title, nu_status = status, nu_raw = update\<rparr>)"

definition text_update :: "update_kind \<Rightarrow> string \<Rightarrow> dict \<Rightarrow> normalized_update" where
  "text_update kind text update =
     \<lparr>nu_kind = kind, nu_text = text, nu_paths = [], nu_tool = [], nu_status = [], nu_raw = update\<rparr>"

definition classify :: "(json \<Rightarrow> string) \<Rightarrow> dict \<Rightarrow> normalized_update option" where
  "classify repr update =
     (let s = get_str repr ''sessionUpdate'' update; text = content_text repr (get ''content'' update) in
      if s \<in> {''agent_message_chunk'', ''user_message_chunk''}
      then (if text \<noteq> [] then Some (text_update U_MESSAGE text update) else None)
      else if s = ''agent_thought_chunk''
      then (if text \<noteq> [] then Some (text_update U_THOUGHT text update) else None)
      else if s = ''plan'' then Some (text_update U_PLAN (plan_summary repr (get ''entries'' update)) update)
      else if s \<in> {''tool_call'', ''tool_call_update''} then normalize_tool_call repr update
      else None)"

definition normalize_update ::
  "(json \<Rightarrow> string) \<Rightarrow> (string \<Rightarrow> string) \<Rightarrow> dict \<Rightarrow> normalized_update option" where
  "normalize_update repr redact update =
     map_option (\<lambda>e. if nu_text e \<noteq> [] then e\<lparr>nu_text := redact (nu_text e)\<rparr> else e) (classify repr update)"

section \<open>Facts\<close>

lemma normalized_text_redacted:
  "normalize_update repr redact update = Some e \<Longrightarrow> nu_text e = [] \<or> nu_text e \<in> range redact"
proof -
  assume "normalize_update repr redact update = Some e"
  then obtain e0 where e: "e = (if nu_text e0 \<noteq> [] then e0\<lparr>nu_text := redact (nu_text e0)\<rparr> else e0)"
    by (auto simp: normalize_update_def)
  show ?thesis by (cases "nu_text e0 = []") (simp_all add: e)
qed

lemma from_keys_set [simp]: "set (from_keys xs) = set xs" "distinct (from_keys xs)"
  by (simp_all add: from_keys_def)

text \<open>The title of a tool call is published as it came, next to the redacted text.\<close>

lemma tool_title_not_redacted:
  "map_option (\<lambda>e. (nu_text e, nu_tool e))
     (normalize_update (\<lambda>_. []) (\<lambda>_. ''[redacted]'')
        [(''sessionUpdate'', JStr ''tool_call''), (''kind'', JStr ''execute''),
         (''title'', JStr ''curl -H token''), (''rawOutput'', JStr ''token'')])
   = Some (''[redacted]'', ''curl -H token'')"
  by (simp add: normalize_update_def classify_def normalize_tool_call_def get_def get_str_def get_or_def
      EXECUTE_KINDS_def lower_def lower_char_def Let_def option.map_comp comp_def
      del: map_option_eq_Some)

end
