(* ===== verification/EventSocket.thy ===== *)
theory EventSocket
  imports AcpEvents Persistence JsonViews
begin

text \<open>
  The event socket (\<open>api/websocket.py\<close>): which sessions are connected, sending to one and to all, and the
  handler of one socket. A socket is a number; the world says whether the next send works, from how many
  there were. The steps of different handlers interleave: a trace is a list of them.
\<close>

section \<open>The connection manager\<close>

record sockets =
  connections :: "(string \<times> nat) list"
  delivered :: "(nat \<times> json) list"
  sends :: nat
  send_works :: "nat \<Rightarrow> bool"
  stamps :: "nat \<Rightarrow> string"
  stamped :: nat

type_synonym 'a socket_act = "(sockets, exn, 'a) act"

definition connect_session :: "string \<Rightarrow> nat \<Rightarrow> unit socket_act" where
  "connect_session i ws = modify (\<lambda>s. s\<lparr>connections := AList.update i ws (connections s)\<rparr>)"

definition disconnect :: "string \<Rightarrow> unit socket_act" where
  "disconnect i = modify (\<lambda>s. s\<lparr>connections := AList.delete i (connections s)\<rparr>)"

definition is_connected :: "string \<Rightarrow> sockets \<Rightarrow> bool" where
  "is_connected i s \<longleftrightarrow> map_of (connections s) i \<noteq> None"

definition session_count :: "sockets \<Rightarrow> nat" where
  "session_count s = length (connections s)"

definition envelope :: "string \<Rightarrow> json \<Rightarrow> json socket_act" where
  "envelope event_type body s =
     (Inr (JObj [(''type'', JStr event_type), (''timestamp'', JStr (stamps s (stamped s))), (''payload'', body)]),
      s\<lparr>stamped := Suc (stamped s)\<rparr>)"

definition send_json :: "nat \<Rightarrow> json \<Rightarrow> unit socket_act" where
  "send_json ws message s =
     (if send_works s (sends s) then (Inr (), s\<lparr>sends := Suc (sends s), delivered := delivered s @ [(ws, message)]\<rparr>)
      else (Inl (RuntimeError ''socket closed''), s\<lparr>sends := Suc (sends s)\<rparr>))"

definition send_or_drop :: "string \<Rightarrow> nat \<Rightarrow> json \<Rightarrow> unit socket_act" where
  "send_or_drop i ws message = try_except (send_json ws message) (\<lambda>_. disconnect i)"

definition send_event :: "string \<Rightarrow> string \<Rightarrow> json \<Rightarrow> unit socket_act" where
  "send_event i event_type body =
     bindE (gets (\<lambda>s. map_of (connections s) i)) (\<lambda>ws. case ws of
        None \<Rightarrow> ret ()
      | Some w \<Rightarrow> try_except (bindE (envelope event_type body) (send_json w)) (\<lambda>_. disconnect i))"

definition broadcast :: "string \<Rightarrow> json \<Rightarrow> unit socket_act" where
  "broadcast event_type body =
     bindE (envelope event_type body) (\<lambda>message.
     bindE (gets connections) (\<lambda>open_now.
     bindE (forE open_now (\<lambda>(i, ws). send_or_drop i ws message)) (\<lambda>_. ret ())))"

section \<open>What is published\<close>

text \<open>The event's own payload comes last, so its keys win.\<close>

definition domain_event_body :: "domain_event \<Rightarrow> json" where
  "domain_event_body e = JObj (dict_update
     [(''event_id'', JStr (e_id e)), (''run_id'', opt_str (e_run_id e)), (''project_id'', JStr (e_project_id e))] (e_payload e))"

definition broadcast_domain_event :: "domain_event \<Rightarrow> unit socket_act" where
  "broadcast_domain_event e = broadcast (event_type_str (e_type e)) (domain_event_body e)"

definition agent_event_body :: "string \<Rightarrow> normalized_update \<Rightarrow> json" where
  "agent_event_body task_id u =
     (case payload u of JObj d \<Rightarrow> JObj (dict_update [(''task_id'', JStr task_id)] d) | v \<Rightarrow> v)"

definition broadcast_agent_event :: "string \<Rightarrow> normalized_update \<Rightarrow> unit socket_act" where
  "broadcast_agent_event task_id u = broadcast (event_name (nu_kind u)) (agent_event_body task_id u)"

section \<open>The handler of a socket\<close>

definition handle_text :: "(string \<Rightarrow> exn + json) \<Rightarrow> string \<Rightarrow> string \<Rightarrow> unit socket_act" where
  "handle_text loads i raw =
     (case loads raw of
        Inl e \<Rightarrow> throw e
      | Inr (JObj m) \<Rightarrow>
          (let kind = get_or ''kind'' (JStr ''message'') m
           in if kind = JStr ''message''
              then send_event i ''atlas.discuss.message'' (JObj [(''content'', get_or ''content'' (JStr []) m), (''role'', JStr ''user'')])
              else if kind = JStr ''decision_propose''
              then send_event i ''atlas.decision.proposed'' (get_or ''data'' (JObj []) m)
              else ret ())
      | Inr _ \<Rightarrow> throw (AttributeError ''get''))"

text \<open>One received text: whether the handler goes on. Malformed JSON is answered and ends it; any other
  exception ends it too, and is passed on.\<close>

definition receive :: "(string \<Rightarrow> exn + json) \<Rightarrow> string \<Rightarrow> string \<Rightarrow> bool socket_act" where
  "receive loads i raw =
     try_except (bindE (handle_text loads i raw) (\<lambda>_. ret True))
       (\<lambda>e. case e of
          JSONDecodeError _ \<Rightarrow>
            bindE (send_event i ''atlas.error'' (JObj [(''reason'', JStr ''malformed message'')])) (\<lambda>_. bindE (disconnect i) (\<lambda>_. ret False))
        | _ \<Rightarrow> throw e)"

fun receive_all :: "(string \<Rightarrow> exn + json) \<Rightarrow> string \<Rightarrow> string list \<Rightarrow> unit socket_act" where
  "receive_all loads i [] = disconnect i"
| "receive_all loads i (raw # rest) =
     bindE (receive loads i raw) (\<lambda>goes_on. if goes_on then receive_all loads i rest else ret ())"

text \<open>\<open>ag_ui_socket\<close> on its own: the texts the client sends before it goes away.\<close>

definition ag_ui_socket :: "(string \<Rightarrow> exn + json) \<Rightarrow> nat \<Rightarrow> string \<Rightarrow> string list \<Rightarrow> unit socket_act" where
  "ag_ui_socket loads ws i incoming = bindE (connect_session i ws) (\<lambda>_. receive_all loads i incoming)"

section \<open>Broadcasting\<close>

lemma delete_filter: "AList.delete k xs = filter (\<lambda>x. fst x \<noteq> k) xs"
  by (induction xs) auto

text \<open>\<open>todo\<close> is what is left of the snapshot; before it stand the sessions that were reached.\<close>

lemma broadcast_loop:
  assumes "distinct (List.map fst (kept @ todo))" and "connections s = kept @ todo"
  shows "\<exists>us. forE todo (\<lambda>(i, ws). send_or_drop i ws message) s = (Inr us,
      s\<lparr>connections := kept @ nths todo {k. send_works s (sends s + k)},
        delivered := delivered s @ List.map (\<lambda>c. (snd c, message)) (nths todo {k. send_works s (sends s + k)}),
        sends := sends s + length todo\<rparr>)"
  using assms
proof (induction todo arbitrary: s kept)
  case Nil
  then show ?case by (simp add: ret_def)
next
  case (Cons c todo)
  obtain i ws where c: "c = (i, ws)" by fastforce
  show ?case
  proof (cases "send_works s (sends s)")
    case True
    let ?s = "s\<lparr>sends := Suc (sends s), delivered := delivered s @ [(ws, message)]\<rparr>"
    from Cons.IH [of "kept @ [c]" ?s] Cons.prems obtain us where
      "forE todo (\<lambda>(i, ws). send_or_drop i ws message) ?s = (Inr us,
        ?s\<lparr>connections := (kept @ [c]) @ nths todo {k. send_works s (Suc (sends s) + k)},
          delivered := delivered ?s @ List.map (\<lambda>c. (snd c, message)) (nths todo {k. send_works s (Suc (sends s) + k)}),
          sends := Suc (sends s) + length todo\<rparr>)" by auto
    moreover have "send_or_drop i ws message s = (Inr (), ?s)"
      using True by (simp add: send_or_drop_def send_json_def try_except_def)
    ultimately show ?thesis using True c by (simp add: bindE_def ret_def nths_Cons)
  next
    case False
    let ?s = "s\<lparr>sends := Suc (sends s), connections := kept @ todo\<rparr>"
    have "\<forall>x \<in> set (kept @ todo). fst x \<noteq> i" using Cons.prems(1) by (auto simp: c image_iff)
    then have drop: "AList.delete i (connections s) = kept @ todo"
      using Cons.prems(2) by (simp add: c delete_filter filter_id_conv)
    from Cons.IH [of kept ?s] Cons.prems obtain us where
      "forE todo (\<lambda>(i, ws). send_or_drop i ws message) ?s = (Inr us,
        ?s\<lparr>connections := kept @ nths todo {k. send_works s (Suc (sends s) + k)},
          delivered := delivered s @ List.map (\<lambda>c. (snd c, message)) (nths todo {k. send_works s (Suc (sends s) + k)}),
          sends := Suc (sends s) + length todo\<rparr>)" by auto
    moreover have "send_or_drop i ws message s = (Inr (), ?s)"
      using False drop by (simp add: send_or_drop_def send_json_def disconnect_def modify_def try_except_def)
    ultimately show ?thesis using False c by (simp add: bindE_def ret_def nths_Cons)
  qed
qed

text \<open>C40. A broadcast never fails. Every session connected when it starts is tried once, in order: the sessions whose
  send works receive exactly this one message on their own socket and stay connected, the others are dropped,
  and nothing else is sent or changed. Sessions have distinct identifiers, as in every reachable state.\<close>

theorem broadcast_reaches_live:
  assumes "distinct (List.map fst (connections s))"
  shows "let live = nths (connections s) {k. send_works s (sends s + k)};
      message = JObj [(''type'', JStr event_type), (''timestamp'', JStr (stamps s (stamped s))), (''payload'', body)]
    in broadcast event_type body s = (Inr (), s\<lparr>connections := live, delivered := delivered s @ List.map (\<lambda>c. (snd c, message)) live,
         sends := sends s + length (connections s), stamped := Suc (stamped s)\<rparr>)"
proof -
  let ?s = "s\<lparr>stamped := Suc (stamped s)\<rparr>"
  let ?m = "JObj [(''type'', JStr event_type), (''timestamp'', JStr (stamps s (stamped s))), (''payload'', body)]"
  from broadcast_loop [of "[]" "connections s" ?s ?m] assms obtain us where
    "forE (connections s) (\<lambda>(i, ws). send_or_drop i ws ?m) ?s = (Inr us,
      ?s\<lparr>connections := nths (connections s) {k. send_works s (sends s + k)},
        delivered := delivered s @ List.map (\<lambda>c. (snd c, ?m)) (nths (connections s) {k. send_works s (sends s + k)}),
        sends := sends s + length (connections s)\<rparr>)" by auto
  then show ?thesis
    by (simp add: broadcast_def envelope_def bindE_def gets_def ret_def Let_def)
qed

section \<open>Traces\<close>

text \<open>Steps of handlers and publishers, in the order in which they run.\<close>

datatype socket_step = Connected string nat | Received string string | Gone string | Published string json

fun socket_effect :: "(string \<Rightarrow> exn + json) \<Rightarrow> socket_step \<Rightarrow> sockets \<Rightarrow> sockets" where
  "socket_effect loads (Connected i ws) s = snd (connect_session i ws s)"
| "socket_effect loads (Received i raw) s = snd (receive loads i raw s)"
| "socket_effect loads (Gone i) s = snd (disconnect i s)"
| "socket_effect loads (Published event_type body) s = snd (broadcast event_type body s)"

definition keyed :: "sockets \<Rightarrow> bool" where
  "keyed s \<longleftrightarrow> distinct (List.map fst (connections s))"

lemma keyed_send_json: "preserves keyed (send_json ws m)"
  by (simp add: preserves_def keyed_def send_json_def)

lemma keyed_envelope: "preserves keyed (envelope event_type body)"
  by (simp add: preserves_def keyed_def envelope_def)

lemma keyed_connect: "preserves keyed (connect_session i ws)"
  by (simp add: preserves_def keyed_def connect_session_def modify_def distinct_update)

lemma keyed_disconnect: "preserves keyed (disconnect i)"
  by (simp add: preserves_def keyed_def disconnect_def modify_def distinct_delete)

lemmas keyed_steps = keyed_send_json keyed_envelope keyed_connect keyed_disconnect

lemma keyed_send_event: "preserves keyed (send_event i event_type body)"
  unfolding send_event_def by (intro pres keyed_steps | simp split: option.split)+

lemma keyed_broadcast: "preserves keyed (broadcast event_type body)"
  unfolding broadcast_def send_or_drop_def by (intro pres keyed_steps | simp)+

lemma keyed_handle_text: "preserves keyed (handle_text loads i raw)"
proof (cases "loads raw")
  case (Inr v)
  then show ?thesis
    by (cases v) (simp_all add: handle_text_def Let_def keyed_send_event pres_throw pres_ret)
qed (simp add: handle_text_def pres_throw)

lemma keyed_receive: "preserves keyed (receive loads i raw)"
  unfolding receive_def
proof (intro pres_try pres_bindE keyed_handle_text pres_ret)
  show "preserves keyed (case e of
      JSONDecodeError _ \<Rightarrow> bindE (send_event i ''atlas.error'' (JObj [(''reason'', JStr ''malformed message'')]))
        (\<lambda>_. bindE (disconnect i) (\<lambda>_. ret False))
    | _ \<Rightarrow> throw e)" for e
    by (cases e) (simp_all add: pres_throw pres_bindE keyed_send_event keyed_disconnect pres_ret)
qed

lemma sessions_stay_keyed:
  assumes "keyed s"
  shows "keyed (fold (socket_effect loads) steps s)"
proof -
  have "keyed (socket_effect loads x t)" if "keyed t" for x t
    using preservesD [OF keyed_connect that] preservesD [OF keyed_disconnect that] preservesD [OF keyed_broadcast that]
      preservesD [OF keyed_receive that] by (cases x) simp_all
  then show ?thesis using assms by (induction steps arbitrary: s) simp_all
qed

definition no_sockets :: "(nat \<Rightarrow> bool) \<Rightarrow> sockets" where
  "no_sockets works = \<lparr>connections = [], delivered = [], sends = 0, send_works = works, stamps = nat_str, stamped = 0\<rparr>"

definition never_json :: "string \<Rightarrow> exn + json" where
  "never_json raw = Inl (JSONDecodeError ''Expecting value'')"

theorem broadcast_reaches_live_witness:
  "let s = fold (socket_effect never_json) [Connected ''a'' 1, Connected ''b'' 2] (no_sockets (\<lambda>k. k \<noteq> 0))
   in connections (snd (broadcast ''atlas.run'' JNull s)) = [(''b'', 2)] \<and> List.map fst (delivered (snd (broadcast ''atlas.run'' JNull s))) = [2]"
proof -
  let ?s = "fold (socket_effect never_json) [Connected ''a'' 1, Connected ''b'' 2] (no_sockets (\<lambda>k. k \<noteq> 0))"
  have "distinct (List.map fst (connections ?s))"
    by (simp add: no_sockets_def connect_session_def modify_def)
  moreover have "connections ?s = [(''a'', 1), (''b'', 2)]" "sends ?s = 0" "send_works ?s = (\<lambda>k. k \<noteq> 0)" "delivered ?s = []"
    by (simp_all add: no_sockets_def connect_session_def modify_def)
  ultimately show ?thesis
    using broadcast_reaches_live [of ?s "''atlas.run''" JNull] by (simp add: Let_def nths_Cons)
qed

text \<open>A client that reconnects before the end of its old socket is noticed is dropped with it: the old handler
  removes the session, not its own socket, and no broadcast reaches the new one.\<close>

lemma reconnected_session_dropped:
  "\<not> is_connected i (fold (socket_effect loads) [Connected i 1, Connected i 2, Gone i] s)"
  by (simp add: is_connected_def connect_session_def disconnect_def modify_def delete_conv update_conv)

text \<open>An event's own payload may replace the run it is reported for.\<close>

lemma payload_replaces_run:
  "e_payload e = [(''run_id'', JStr ''other'')] \<Longrightarrow>
     \<exists>d. domain_event_body e = JObj d \<and> map_of d ''run_id'' = Some (JStr ''other'')"
  by (simp add: domain_event_body_def dict_update_def)

text \<open>A text that is JSON but not an object ends the handler with an error nothing catches, and the session
  stays listed.\<close>

lemma number_ends_handler:
  assumes "loads raw = Inr (JInt 1)"
  shows "\<exists>s'. ag_ui_socket loads ws i [raw] s = (Inl (AttributeError ''get''), s') \<and> is_connected i s'"
  using assms
  by (simp add: ag_ui_socket_def connect_session_def modify_def bindE_def receive_def handle_text_def try_except_def throw_def
      is_connected_def update_conv)

end
