(* ===== verification/Budget.thy ===== *)
theory Budget
  imports Config
begin

text \<open>
  The budget ledger (\<open>execution/budget.py\<close>): usage read from a runner's evidence, the caps derived from
  the configuration, reserving an attempt and recording what it spent. Costs are exact rationals
  (Python's are floats), and a cost a runner reports is a finite decimal numeral.

  Because attempts are long awaits, the ledger is used by several tasks at once: \<open>budget_step\<close> is any
  interleaving of their reservations and records, and the cap is proved of all of them.
\<close>

section \<open>Reading numbers\<close>

definition digit_val :: "char \<Rightarrow> nat" where
  "digit_val c = of_char c - 48"

definition digits_val :: "string \<Rightarrow> nat" where
  "digits_val ds = foldl (\<lambda>n c. 10 * n + digit_val c) 0 ds"

text \<open>A run of digits, possibly grouped by single underscores, as \<open>int\<close> and \<open>float\<close> accept it.\<close>

definition parse_digits :: "string \<Rightarrow> nat option" where
  "parse_digits s =
     (let groups = split_on (CHR ''_'') s
      in if list_all (\<lambda>g. g \<noteq> [] \<and> list_all is_digit g) groups then Some (digits_val (concat groups))
         else None)"

fun split_sign :: "string \<Rightarrow> bool \<times> string" where
  "split_sign [] = (False, [])"
| "split_sign (c # cs) =
     (if c = CHR ''-'' then (True, cs) else if c = CHR ''+'' then (False, cs) else (False, c # cs))"

definition parse_int :: "string \<Rightarrow> int option" where
  "parse_int s =
     (case split_sign (strip s) of (neg, ds) \<Rightarrow>
        map_option (\<lambda>n. if neg then - int n else int n) (parse_digits ds))"

text \<open>\<open>digits [. digits] [e exponent]\<close>, with digits on at least one side of the point.\<close>

definition parse_mantissa :: "string \<Rightarrow> rat option" where
  "parse_mantissa s =
     (case split_on (CHR ''.'') s of
        [a] \<Rightarrow> map_option of_nat (parse_digits a)
      | [a, b] \<Rightarrow>
          (if a = [] \<and> b = [] then None
           else case (if a = [] then Some 0 else parse_digits a, if b = [] then Some 0 else parse_digits b) of
             (Some m, Some n) \<Rightarrow>
               Some (of_nat m + of_nat n / 10 ^ length (filter (\<lambda>c. c \<noteq> CHR ''_'') b))
           | _ \<Rightarrow> None)
      | _ \<Rightarrow> None)"

definition parse_float :: "string \<Rightarrow> rat option" where
  "parse_float s =
     (case split_sign (strip s) of (neg, ds) \<Rightarrow>
        (case (case split_on (CHR ''e'') (lower ds) of
                 [m] \<Rightarrow> parse_mantissa m
               | [m, e] \<Rightarrow> (case (parse_mantissa m, case split_sign e of (en, ed) \<Rightarrow>
                     map_option (\<lambda>n. (en, n)) (parse_digits ed)) of
                   (Some x, Some (en, n)) \<Rightarrow> Some (if en then x / 10 ^ n else x * 10 ^ n)
                 | _ \<Rightarrow> None)
               | _ \<Rightarrow> None) of
           None \<Rightarrow> None
         | Some x \<Rightarrow> Some (if neg then - x else x)))"

section \<open>Usage\<close>

record usage =
  u_tokens :: int
  u_cost_usd :: rat
  u_reported :: bool

text \<open>\<open>ev\<close> is the evidence dictionary of a runner result; a missing key gives the text \<open>None\<close>, which
  is no number.\<close>

definition usage_of :: "(string \<times> string) list \<Rightarrow> usage" where
  "usage_of ev =
     (let tokens = (case map_of ev ''tokens'' of None \<Rightarrow> None | Some v \<Rightarrow> parse_int v);
          cost = (case map_of ev ''cost_usd'' of None \<Rightarrow> None | Some v \<Rightarrow> parse_float v)
      in \<lparr>u_tokens = (case tokens of None \<Rightarrow> 0 | Some n \<Rightarrow> n),
          u_cost_usd = (case cost of None \<Rightarrow> 0 | Some c \<Rightarrow> c),
          u_reported = (tokens \<noteq> None \<or> cost \<noteq> None)\<rparr>)"

section \<open>The ledger\<close>

datatype budget_kind = ATTEMPTS | TOKENS | COST

fun budget_kind_str :: "budget_kind \<Rightarrow> string" where
  "budget_kind_str ATTEMPTS = ''attempts''"
| "budget_kind_str TOKENS = ''tokens''"
| "budget_kind_str COST = ''cost''"

record ledger =
  max_attempts :: int
  max_tokens :: int
  max_cost_usd :: rat
  l_attempts :: int
  l_tokens :: int
  l_cost_usd :: rat
  unmeasured_attempts :: int
  exceeded :: "string list"

definition ledger_from_config :: "config \<Rightarrow> nat \<Rightarrow> ledger" where
  "ledger_from_config c task_count =
     \<lparr>max_attempts = int (max 1 task_count) * (1 + max 0 (max_retries_per_task c)),
      max_tokens = max_tokens_per_run c, max_cost_usd = max_cost_per_run_usd c,
      l_attempts = 0, l_tokens = 0, l_cost_usd = 0, unmeasured_attempts = 0, exceeded = []\<rparr>"

definition has_unmeasured_spend :: "ledger \<Rightarrow> bool" where
  "has_unmeasured_spend l \<longleftrightarrow> unmeasured_attempts l > 0"

definition remaining_attempts :: "ledger \<Rightarrow> int" where
  "remaining_attempts l = max 0 (max_attempts l - l_attempts l)"

definition check_can_start_attempt :: "ledger \<Rightarrow> exn + unit" where
  "check_can_start_attempt l =
     (if l_attempts l \<ge> max_attempts l
      then Inl (BudgetExceeded ''attempts'' (of_int (l_attempts l)) (of_int (max_attempts l)))
      else if max_tokens l \<noteq> 0 \<and> l_tokens l \<ge> max_tokens l
      then Inl (BudgetExceeded ''tokens'' (of_int (l_tokens l)) (of_int (max_tokens l)))
      else if max_cost_usd l \<noteq> 0 \<and> l_cost_usd l \<ge> max_cost_usd l
      then Inl (BudgetExceeded ''cost'' (l_cost_usd l) (max_cost_usd l))
      else Inr ())"

definition reserve_attempt :: "ledger \<Rightarrow> exn + ledger" where
  "reserve_attempt l =
     (case check_can_start_attempt l of Inl e \<Rightarrow> Inl e | Inr _ \<Rightarrow> Inr (l\<lparr>l_attempts := l_attempts l + 1\<rparr>))"

definition record_usage :: "usage \<Rightarrow> ledger \<Rightarrow> ledger" where
  "record_usage u l =
     (if \<not> u_reported u then l\<lparr>unmeasured_attempts := unmeasured_attempts l + 1\<rparr>
      else l\<lparr>l_tokens := l_tokens l + u_tokens u, l_cost_usd := l_cost_usd l + u_cost_usd u\<rparr>)"

definition would_exceed :: "ledger \<Rightarrow> budget_kind option" where
  "would_exceed l =
     (if l_attempts l \<ge> max_attempts l then Some ATTEMPTS
      else if max_tokens l \<noteq> 0 \<and> l_tokens l \<ge> max_tokens l then Some TOKENS
      else if max_cost_usd l \<noteq> 0 \<and> l_cost_usd l \<ge> max_cost_usd l then Some COST
      else None)"

section \<open>Interleaved use\<close>

text \<open>The ledger, how many attempts are in flight and how many have been started.\<close>

type_synonym budget_state = "ledger \<times> nat \<times> nat"

inductive budget_step :: "budget_state \<Rightarrow> budget_state \<Rightarrow> bool" where
  reserve: "reserve_attempt l = Inr l' \<Longrightarrow> budget_step (l, flying, started) (l', Suc flying, Suc started)"
| refuse: "reserve_attempt l = Inl e \<Longrightarrow> budget_step (l, flying, started) (l, flying, started)"
| record_spend: "budget_step (l, Suc flying, started) (record_usage u l, flying, started)"
| abandon: "budget_step (l, Suc flying, started) (l, flying, started)"

inductive_simps budget_step_iff: "budget_step (l, f, n) st"

definition within_cap :: "ledger \<Rightarrow> budget_state \<Rightarrow> bool" where
  "within_cap l0 st \<longleftrightarrow> (case st of (l, flying, started) \<Rightarrow>
     max_attempts l = max_attempts l0 \<and> max_tokens l = max_tokens l0 \<and> max_cost_usd l = max_cost_usd l0
     \<and> l_attempts l = l_attempts l0 + int started \<and> flying \<le> started
     \<and> (started = 0 \<or> l_attempts l \<le> max_attempts l0)
     \<and> unmeasured_attempts l \<le> unmeasured_attempts l0 + int (started - flying))"

lemma reserve_Inr:
  "reserve_attempt l = Inr l' \<longleftrightarrow> would_exceed l = None \<and> l' = l\<lparr>l_attempts := l_attempts l + 1\<rparr>"
  by (auto simp: reserve_attempt_def check_can_start_attempt_def would_exceed_def)

lemma reserve_below: "reserve_attempt l = Inr l' \<Longrightarrow> l_attempts l < max_attempts l"
  by (auto simp: reserve_Inr would_exceed_def split: if_splits)

lemma within_cap_step: "budget_step st st' \<Longrightarrow> within_cap l0 st \<Longrightarrow> within_cap l0 st'"
proof (induction rule: budget_step.induct)
  case (reserve l l' flying started)
  then show ?case using reserve_below [OF reserve(1)] by (auto simp: reserve_Inr within_cap_def)
next
  case (record_spend l flying started u)
  then show ?case by (auto simp: within_cap_def record_usage_def)
qed (auto simp: within_cap_def)

lemma within_cap_reach: "budget_step\<^sup>*\<^sup>* st st' \<Longrightarrow> within_cap l0 st \<Longrightarrow> within_cap l0 st'"
  by (induction rule: rtranclp_induct) (auto intro: within_cap_step)

section \<open>Properties\<close>

text \<open>C9. Whatever tasks run side by side, and however their reservations and records interleave, the
  number of attempts started under a fresh ledger never exceeds its cap.\<close>

theorem attempts_never_exceed_cap:
  assumes "budget_step\<^sup>*\<^sup>* (ledger_from_config c n, 0, 0) (l, flying, started)"
  shows "int started \<le> int (max 1 n) * (1 + max 0 (max_retries_per_task c))
     \<and> l_attempts l = int started \<and> flying \<le> started
     \<and> unmeasured_attempts l \<le> int started"
proof -
  let ?l0 = "ledger_from_config c n"
  have "within_cap ?l0 (?l0, 0, 0)" by (simp add: within_cap_def)
  from within_cap_reach [OF assms this] have w: "within_cap ?l0 (l, flying, started)" .
  have "0 \<le> int (max 1 n) * (1 + max 0 (max_retries_per_task c))" by simp
  with w show ?thesis by (auto simp: within_cap_def ledger_from_config_def)
qed

definition tight_config :: config where
  "tight_config = (default_config ''/p'' ''p'' (\<lambda>r. r))\<lparr>max_retries_per_task := 0\<rparr>"

theorem attempts_never_exceed_cap_witness:
  "\<exists>l. budget_step\<^sup>*\<^sup>* (ledger_from_config tight_config 1, 0, 0) (l, 1, 1) \<and> l_attempts l = 1
     \<and> (1 :: int) \<le> int (max 1 1) * (1 + max 0 (max_retries_per_task tight_config))"
proof -
  let ?l0 = "ledger_from_config tight_config 1"
  let ?l1 = "?l0\<lparr>l_attempts := 1\<rparr>"
  have "reserve_attempt ?l0 = Inr ?l1"
    by (simp add: reserve_Inr would_exceed_def ledger_from_config_def tight_config_def default_config_def)
  then have "budget_step\<^sup>*\<^sup>* (?l0, 0, 0) (?l1, 1, 1)"
    using budget_step.reserve [of ?l0 ?l1 0 0] by auto
  with attempts_never_exceed_cap [OF this] show ?thesis by auto
qed

text \<open>\<open>would_exceed\<close> names a limit exactly when an attempt would be refused, and it is the limit
  the refusal names.\<close>

theorem would_exceed_iff_refused:
  "case would_exceed l of
     None \<Rightarrow> check_can_start_attempt l = Inr () \<and> reserve_attempt l = Inr (l\<lparr>l_attempts := l_attempts l + 1\<rparr>)
   | Some k \<Rightarrow> \<exists>spent lim. reserve_attempt l = Inl (BudgetExceeded (budget_kind_str k) spent lim)
       \<and> spent \<ge> lim"
  by (auto simp: would_exceed_def reserve_attempt_def check_can_start_attempt_def split: option.splits)

end
