(* ===== verification/CancelFaults.thy ===== *)
theory CancelFaults
  imports Models
begin

text \<open>
  The cancellation registry (\<open>execution/cancellation.py\<close>) and the fault injector
  (\<open>execution/faults.py\<close>). Both are dictionaries kept in memory. Of the injector everything is modelled
  but \<open>timeout_guard\<close>, whose injected timeout is a local coroutine that is never awaited.
\<close>

section \<open>Cancellation requests\<close>

type_synonym registry = "(string \<times> string) list"

definition request :: "string \<Rightarrow> string \<Rightarrow> registry \<Rightarrow> registry" where
  "request run_id reason reg =
     (if map_of reg run_id = None then reg @ [(run_id, reason)] else reg)"

definition is_requested :: "registry \<Rightarrow> string \<Rightarrow> bool" where
  "is_requested reg run_id \<longleftrightarrow> map_of reg run_id \<noteq> None"

definition reason_of :: "registry \<Rightarrow> string \<Rightarrow> string" where
  "reason_of reg run_id = (case map_of reg run_id of None \<Rightarrow> [] | Some r \<Rightarrow> r)"

definition clear_request :: "string \<Rightarrow> registry \<Rightarrow> registry" where
  "clear_request run_id reg = filter (\<lambda>(i, _). i \<noteq> run_id) reg"

definition pending_requests :: "registry \<Rightarrow> string list" where
  "pending_requests reg = sort (List.map fst reg)"

lemma map_of_clear: "map_of (clear_request i reg) j = (if j = i then None else map_of reg j)"
  unfolding clear_request_def by (induction reg) auto

lemma map_of_request:
  "map_of (request i r reg) j = (if j = i \<and> map_of reg i = None then Some r else map_of reg j)"
  by (auto simp: request_def map_add_def split: option.splits)

text \<open>The first reason given for stopping a run is the one that stays until the request is
  cleared, whatever else is requested or cleared in between; clearing forgets it, so the run can be
  asked again.\<close>

theorem first_reason_stays:
  "reason_of (request i r2 (request i r1 (clear_request i reg))) i = r1
   \<and> (i \<noteq> j \<longrightarrow> reason_of (clear_request j (request j r3 (request i r1 (clear_request i reg)))) i = r1)
   \<and> \<not> is_requested (clear_request i (request i r1 reg)) i"
  by (simp add: reason_of_def is_requested_def map_of_request map_of_clear)

theorem first_reason_stays_witness:
  "reason_of (clear_request ''b'' (request ''b'' ''z'' (request ''a'' ''x'' []))) ''a'' = ''x''"
proof -
  have "clear_request ''a'' [] = []" by (simp add: clear_request_def)
  then show ?thesis using first_reason_stays [of "''a''" "''y''" "''x''" "[]" "''b''" "''z''"] by simp
qed

section \<open>Fault injection\<close>

datatype fault_kind =
    PROCESS_KILL | TIMEOUT | RATE_LIMIT | MALFORMED_OUTPUT | GIT_CONFLICT | SQLITE_CONTENTION
  | CANCELLATION_DURING_WRITE | STALE_GOAL_REVISION | DISCONNECT

record fault_point =
  fp_kind :: fault_kind
  fp_target :: string
  fp_trigger_count :: int
  fp_enabled :: bool
  fp_count :: int

definition should_trigger :: "fault_point \<Rightarrow> bool \<times> fault_point" where
  "should_trigger fp =
     (if \<not> fp_enabled fp then (False, fp)
      else if fp_trigger_count fp = 0 then (True, fp)
      else let fp' = fp\<lparr>fp_count := fp_count fp + 1\<rparr>
           in (fp_count fp' = fp_trigger_count fp', fp'))"

record injector =
  inj_points :: "(string \<times> fault_point list) list"
  inj_triggered :: "(string \<times> fault_kind \<times> string) list"

definition register_fault :: "string \<Rightarrow> fault_point \<Rightarrow> injector \<Rightarrow> injector" where
  "register_fault scope fp fi =
     fi\<lparr>inj_points := AList.update scope
        ((case map_of (inj_points fi) scope of None \<Rightarrow> [] | Some l \<Rightarrow> l) @ [fp]) (inj_points fi)\<rparr>"

text \<open>The loop over the points of a scope: \<open>and\<close> evaluates \<open>should_trigger\<close> (which counts) only for the
  points of the right kind, and the loop stops at the first that fires.\<close>

fun inject_loop :: "fault_kind \<Rightarrow> fault_point list \<Rightarrow> string option \<times> fault_point list" where
  "inject_loop k [] = (None, [])"
| "inject_loop k (fp # fps) =
     (if fp_kind fp = k
      then (case should_trigger fp of
              (True, fp') \<Rightarrow> (Some (fp_target fp'), fp' # fps)
            | (False, fp') \<Rightarrow> (case inject_loop k fps of (r, fps') \<Rightarrow> (r, fp' # fps')))
      else (case inject_loop k fps of (r, fps') \<Rightarrow> (r, fp # fps')))"

definition inject :: "string \<Rightarrow> fault_kind \<Rightarrow> injector \<Rightarrow> bool \<times> injector" where
  "inject scope k fi =
     (case map_of (inj_points fi) scope of
        None \<Rightarrow> (False, fi)
      | Some fps \<Rightarrow>
          (case inject_loop k fps of (r, fps') \<Rightarrow>
             (let fi' = fi\<lparr>inj_points := AList.update scope fps' (inj_points fi)\<rparr>
              in case r of
                   None \<Rightarrow> (False, fi')
                 | Some target \<Rightarrow>
                     (True, fi'\<lparr>inj_triggered := inj_triggered fi' @ [(scope, k, target)]\<rparr>))))"

definition triggered_count :: "fault_kind option \<Rightarrow> injector \<Rightarrow> nat" where
  "triggered_count kind fi =
     (case kind of None \<Rightarrow> length (inj_triggered fi)
      | Some k \<Rightarrow> length (filter (\<lambda>(_, k', _). k' = k) (inj_triggered fi)))"

definition reset_injector :: "injector \<Rightarrow> injector" where
  "reset_injector fi = fi\<lparr>inj_points := [], inj_triggered := []\<rparr>"

text \<open>The answers of \<open>n\<close> checks in a row.\<close>

primrec check_times :: "nat \<Rightarrow> fault_point \<Rightarrow> bool list" where
  "check_times 0 fp = []"
| "check_times (Suc n) fp = (case should_trigger fp of (b, fp') \<Rightarrow> b # check_times n fp')"

lemma check_times_counted:
  "fp_enabled fp \<Longrightarrow> fp_trigger_count fp \<noteq> 0 \<Longrightarrow> i < n \<Longrightarrow>
   check_times n fp ! i \<longleftrightarrow> fp_count fp + int i + 1 = fp_trigger_count fp"
proof (induction n arbitrary: fp i)
  case (Suc n)
  let ?fp = "fp\<lparr>fp_count := fp_count fp + 1\<rparr>"
  have "check_times (Suc n) fp = (fp_count fp + 1 = fp_trigger_count fp) # check_times n ?fp"
    using Suc.prems by (simp add: should_trigger_def)
  then show ?case
    using Suc.IH [of ?fp "i - 1"] Suc.prems by (cases i) auto
qed simp

text \<open>A fault point with a positive trigger count fires at exactly that check and at no other; with
  count zero it fires at every check; disabled it never fires and counts nothing.\<close>

theorem fault_fires_once:
  assumes "i < n"
  shows "(fp_enabled fp \<and> fp_count fp = 0 \<and> fp_trigger_count fp > 0 \<longrightarrow>
            (check_times n fp ! i \<longleftrightarrow> int (Suc i) = fp_trigger_count fp))
     \<and> (fp_enabled fp \<and> fp_trigger_count fp = 0 \<longrightarrow> check_times n fp ! i)
     \<and> (\<not> fp_enabled fp \<longrightarrow> \<not> check_times n fp ! i \<and> snd (should_trigger fp) = fp)"
proof -
  have "fp_enabled fp \<Longrightarrow> fp_trigger_count fp = 0 \<Longrightarrow> check_times m fp = replicate m True" for m
    by (induction m) (simp_all add: should_trigger_def)
  moreover have "\<not> fp_enabled fp \<Longrightarrow> check_times m fp = replicate m False" for m
    by (induction m) (simp_all add: should_trigger_def)
  ultimately show ?thesis
    using check_times_counted [of fp i n] assms by (auto simp: should_trigger_def)
qed

theorem fault_fires_once_witness:
  "\<not> check_times 3 \<lparr>fp_kind = TIMEOUT, fp_target = ''t'', fp_trigger_count = 2, fp_enabled = True, fp_count = 0\<rparr> ! 0
   \<and> check_times 3 \<lparr>fp_kind = TIMEOUT, fp_target = ''t'', fp_trigger_count = 2, fp_enabled = True, fp_count = 0\<rparr> ! 1"
  using fault_fires_once [of 0 3 "\<lparr>fp_kind = TIMEOUT, fp_target = ''t'', fp_trigger_count = 2, fp_enabled = True, fp_count = 0\<rparr>"]
    fault_fires_once [of 1 3 "\<lparr>fp_kind = TIMEOUT, fp_target = ''t'', fp_trigger_count = 2, fp_enabled = True, fp_count = 0\<rparr>"]
  by simp

end
