(* ===== verification/GoalRunner.thy ===== *)
theory GoalRunner
  imports Commands Budget CancelFaults
begin

text \<open>
  End-to-end execution of a plan (\<open>execution/goal_runner.py\<close>): materialising the tasks, the loop over
  ready batches, one task from isolation to integration, the fallback over models, the review of
  high-risk work, and the gates a project declares. The state adds the budget ledger, the cancellation
  requests (with \<open>arrivals\<close>, the requests that reach the process between two polls) and the latencies
  measured. A batch given to \<open>asyncio.gather\<close> is run in list order, each task to its end; what
  interleaving can do to the ledger is the subject of \<open>Budget\<close>.

  The loop over batches need not end by its syntax, so it takes fuel; \<open>execute_goal\<close> gives it one more
  than the number of tasks of the run, and it is proved that this is always enough.
\<close>

record goal_db = shell_db +
  budget :: ledger
  requested :: registry
  arrivals :: "nat \<Rightarrow> (string \<times> string) list"
  polls :: nat
  latency :: "nat \<Rightarrow> rat"
  meters :: nat

type_synonym ('z, 'a) goal_act = "('z goal_db_scheme, exn, 'a) act"

text \<open>The fields of a \<open>GoalRunner\<close>. The routing store and the cancellation registry may be missing;
  \<open>gn_format_g\<close> is the \<open>%g\<close> rendering of a number and \<open>gn_set_order\<close> the iteration order of a set.\<close>

record goal_runner =
  gn_config :: config
  gn_harness :: harness
  gn_worktrees :: "manager option"
  gn_routing_store :: bool
  gn_cancellation :: bool
  gn_commands :: gate_commands
  gn_redact :: "string \<Rightarrow> string"
  gn_format_g :: "rat \<Rightarrow> string"
  gn_set_order :: "string list \<Rightarrow> string list"

record task_outcome =
  to_task_id :: string
  to_objective :: string
  to_succeeded :: bool
  to_model_key :: string
  to_provider :: string
  to_attempt_id :: string
  to_fallback_attempts :: nat
  to_budget_stopped :: bool
  to_cancelled :: bool
  to_reviewer_model_key :: string
  to_review_verdict :: string
  to_worktree :: "worktree option"
  to_integration :: "integration_result option"
  to_error :: string

definition mk_outcome :: "task \<Rightarrow> task_outcome" where
  "mk_outcome t = \<lparr>to_task_id = t_id t, to_objective = t_objective t, to_succeeded = False,
     to_model_key = [], to_provider = [], to_attempt_id = [], to_fallback_attempts = 0,
     to_budget_stopped = False, to_cancelled = False, to_reviewer_model_key = [],
     to_review_verdict = [], to_worktree = None, to_integration = None, to_error = []\<rparr>"

definition needs_human :: "task_outcome \<Rightarrow> bool" where
  "needs_human o' \<longleftrightarrow> (case to_integration o' of None \<Rightarrow> False | Some i \<Rightarrow> has_conflicts i)"

record goal_run_report =
  gp_run :: run
  gp_outcomes :: "task_outcome list"
  gp_blocked :: "string list"
  gp_budget :: "ledger option"
  gp_gates :: "gate_outcome list"

definition report_succeeded :: "goal_run_report \<Rightarrow> bool" where
  "report_succeeded rep \<longleftrightarrow> gp_outcomes rep \<noteq> [] \<and> list_all to_succeeded (gp_outcomes rep)"

definition report_conflicts :: "goal_run_report \<Rightarrow> task_outcome list" where
  "report_conflicts rep = filter needs_human (gp_outcomes rep)"

definition stopped_by_budget :: "goal_run_report \<Rightarrow> bool" where
  "stopped_by_budget rep \<longleftrightarrow> list_ex to_budget_stopped (gp_outcomes rep)"

definition report_cancelled :: "goal_run_report \<Rightarrow> bool" where
  "report_cancelled rep \<longleftrightarrow> r_state (gp_run rep) = R_CANCELLED"

section \<open>Prompts and candidates\<close>

definition role_for :: "task_node \<Rightarrow> string" where
  "role_for n = (case n_capabilities n of [] \<Rightarrow> ''core-implementer'' | c # _ \<Rightarrow> c)"

definition is_high_risk :: "task_node \<Rightarrow> bool" where
  "is_high_risk n \<longleftrightarrow> risk_str (n_risk n) = risk_str HIGH"

definition review_prompt :: "task_node \<Rightarrow> worktree option \<Rightarrow> string" where
  "review_prompt n w = join newline
     ([''Review the change made for this task. Reject it if it is incorrect, unsafe, or reaches outside its write scope.'',
       ''Objective: '' @ n_objective n]
      @ (if n_write_scope n \<noteq> [] then [''Write scope: '' @ join '', '' (n_write_scope n)] else [])
      @ (case w of None \<Rightarrow> [] | Some w \<Rightarrow> [''Worktree: '' @ w_path w, ''Branch: '' @ w_branch w]))"

definition prompt_for :: "task_node \<Rightarrow> string" where
  "prompt_for n = join newline
     ([n_objective n]
      @ (if n_write_scope n \<noteq> [] then [''Write scope: '' @ join '', '' (n_write_scope n)] else [])
      @ (if n_gates n \<noteq> [] then [''Required gates: '' @ join '', '' (n_gates n)] else []))"

definition fallback_candidates :: "string list \<Rightarrow> route_decision \<Rightarrow> model_entry option list" where
  "fallback_candidates av d =
     (let reachable = filter (is_reachable av) (rd_candidates d);
          ordered = (case rd_selected d of None \<Rightarrow> reachable
                     | Some sel \<Rightarrow> sel # filter (\<lambda>c. m_key c \<noteq> m_key sel) reachable)
      in if ordered \<noteq> [] then List.map Some ordered else [None])"

definition budget_message :: "(rat \<Rightarrow> string) \<Rightarrow> exn \<Rightarrow> string" where
  "budget_message fmt e =
     (case e of BudgetExceeded kind spent cap \<Rightarrow>
        ''Budget exceeded: '' @ kind @ '' spent '' @ fmt spent @ '' of '' @ fmt cap @ '' allowed''
      | _ \<Rightarrow> [])"

definition worktree_manager_for :: "config \<Rightarrow> string \<Rightarrow> manager" where
  "worktree_manager_for c repo =
     \<lparr>repo_root = repo, wt_base = (if worktree_base c \<noteq> [] then worktree_base c else state_path c)\<rparr>"

section \<open>Materialising a plan\<close>

fun lookup_ids :: "(string \<times> task) list \<Rightarrow> string list \<Rightarrow> exn + string list" where
  "lookup_ids ts [] = Inr []"
| "lookup_ids ts (d # ds) =
     (case map_of ts d of
        None \<Rightarrow> Inl (KeyError d)
      | Some t \<Rightarrow> (case lookup_ids ts ds of Inl e \<Rightarrow> Inl e | Inr is \<Rightarrow> Inr (t_id t # is)))"

fun link_dependencies :: "task_node list \<Rightarrow> (string \<times> task) list \<Rightarrow> exn + (string \<times> task) list" where
  "link_dependencies [] ts = Inr ts"
| "link_dependencies (n # ns) ts =
     (case lookup_ids ts (n_dependencies n) of
        Inl e \<Rightarrow> Inl e
      | Inr is \<Rightarrow> link_dependencies ns
          (AList.update (n_id n) ((the (map_of ts (n_id n)))\<lparr>t_dependencies := is\<rparr>) ts))"

definition materialize :: "plan \<Rightarrow> string \<Rightarrow> ('z, task list \<times> (string \<times> task_node) list) goal_act" where
  "materialize p run_id =
     bindE (forE (pl_tasks p) (\<lambda>n.
       bindE (mk_task run_id (n_objective n) (Some (role_for n)) (risk_str (n_risk n)) (n_write_scope n))
         (\<lambda>t. ret (n_id n, t)))) (\<lambda>pairs.
     case link_dependencies (pl_tasks p) (dict_update [] pairs) of
       Inl e \<Rightarrow> throw e
     | Inr ts \<Rightarrow> ret (List.map snd ts,
         dict_update [] (List.map (\<lambda>n. (t_id (the (map_of ts (n_id n))), n)) (pl_tasks p))))"

section \<open>Small steps\<close>

definition poll_cancelled :: "goal_runner \<Rightarrow> string \<Rightarrow> ('z, bool) goal_act" where
  "poll_cancelled gn run_id s =
     (if \<not> gn_cancellation gn then (Inr False, s)
      else let reg = fold (\<lambda>(i, r) acc. request i r acc) (arrivals s (polls s)) (requested s)
           in (Inr (is_requested reg run_id), s\<lparr>requested := reg, polls := Suc (polls s)\<rparr>))"

definition cancel_reason :: "goal_runner \<Rightarrow> string \<Rightarrow> ('z, string) goal_act" where
  "cancel_reason gn run_id =
     (if gn_cancellation gn then gets (\<lambda>s. reason_of (requested s) run_id) else ret ''cancelled'')"

definition measure_latency :: "('z, rat) goal_act" where
  "measure_latency s = (Inr (latency s (meters s)), s\<lparr>meters := Suc (meters s)\<rparr>)"

definition reserve_budget :: "('z, exn option) goal_act" where
  "reserve_budget s =
     (case reserve_attempt (budget s) of
        Inl e \<Rightarrow> (Inr (Some e), s) | Inr l \<Rightarrow> (Inr None, s\<lparr>budget := l\<rparr>))"

definition spend_budget :: "runner_result \<Rightarrow> ('z, unit) goal_act" where
  "spend_budget r = modify (\<lambda>s. s\<lparr>budget := record_usage (usage_of (rs_evidence r)) (budget s)\<rparr>)"

definition reload_task :: "task \<Rightarrow> ('z, task) goal_act" where
  "reload_task t =
     bindE (load_tasks (t_run_id t)) (\<lambda>ts.
       ret (case row_by t_id (t_id t) ts of None \<Rightarrow> t | Some u \<Rightarrow> u))"

definition record_gate ::
  "run \<Rightarrow> task \<Rightarrow> gate_kind \<Rightarrow> gate_verdict \<Rightarrow> string \<Rightarrow> string \<Rightarrow> ('z, unit) goal_act" where
  "record_gate r t gate verdict detail kind =
     bindE (evidence_new (r_goal_id r) gate kind verdict (take 500 detail) [] (Some (r_id r)) (Some (t_id t)))
       (\<lambda>e. bindE (record_evidence e) (\<lambda>_. ret ()))"

definition note_observation ::
  "goal_runner \<Rightarrow> run \<Rightarrow> task \<Rightarrow> string \<Rightarrow> bool \<Rightarrow> string \<Rightarrow> rat \<Rightarrow> ('z, unit) goal_act" where
  "note_observation gn r t key success role lat =
     bindE (observe_model key success) (\<lambda>_.
       if gn_routing_store gn
       then record_observation key success role lat (Some (r_id r)) (Some (t_id t)) else ret ())"

definition runner_error :: "runner_result \<Rightarrow> string \<Rightarrow> string" where
  "runner_error res alt = (if rs_error res \<noteq> [] then rs_error res else alt)"

section \<open>Attempts with fallback\<close>

type_synonym attempt_pair = "(runner_result \<times> attempt) option"

text \<open>One awaited call of the harness; \<open>None\<close> when it was cancelled on request.\<close>

definition awaited_attempt ::
  "goal_runner \<Rightarrow> run \<Rightarrow> task \<Rightarrow> task_node \<Rightarrow> string \<Rightarrow> string \<Rightarrow> string \<Rightarrow>
   ('z, (runner_result \<times> attempt) option) goal_act" where
  "awaited_attempt gn r t n role runner model_id =
     try_except
       (bindE (harness_execute (gn_harness gn) runner t (prompt_for n)
                (Some (mk_runner_config model_id (command_code_max_turns (gn_config gn))
                         (command_code_timeout_seconds (gn_config gn)) role)) [])
          (\<lambda>x. ret (Some x)))
       (\<lambda>e. if e = CancelledError
            then bindE (poll_cancelled gn (r_id r)) (\<lambda>c. if \<not> c then throw e else ret None)
            else throw e)"

fun fallback_loop ::
  "goal_runner \<Rightarrow> run \<Rightarrow> task \<Rightarrow> task_node \<Rightarrow> string \<Rightarrow> string \<Rightarrow> nat \<Rightarrow> nat \<Rightarrow> model_entry option list \<Rightarrow>
   attempt_pair \<Rightarrow> task_outcome \<Rightarrow> ('z, attempt_pair \<times> task_outcome) goal_act" where
  "fallback_loop gn r t n role runner limit index [] last_pair outcome = ret (last_pair, outcome)"
| "fallback_loop gn r t n role runner limit index (cand # cands) last_pair outcome =
     (let model_id = (case cand of None \<Rightarrow> ''default'' | Some c \<Rightarrow> m_command_code_id c);
          model_key = (case cand of None \<Rightarrow> ''default'' | Some c \<Rightarrow> m_key c)
      in bindE reserve_budget (\<lambda>refusal.
         case refusal of
           Some e \<Rightarrow> ret (last_pair, outcome\<lparr>to_error := budget_message (gn_format_g gn) e,
                                      to_budget_stopped := True\<rparr>)
         | None \<Rightarrow>
             bindE (awaited_attempt gn r t n role runner model_id) (\<lambda>answer.
             case answer of
               None \<Rightarrow> bindE (cancel_reason gn (r_id r)) (\<lambda>why.
                 ret (last_pair, outcome\<lparr>to_cancelled := True, to_error := why\<rparr>))
             | Some (result, attempt) \<Rightarrow>
                 bindE measure_latency (\<lambda>lat.
                 let outcome = outcome\<lparr>to_attempt_id := a_id attempt, to_model_key := model_id,
                       to_provider := (case cand of None \<Rightarrow> [] | Some c \<Rightarrow> m_provider c),
                       to_fallback_attempts := index\<rparr>
                 in bindE (spend_budget result) (\<lambda>_.
                    bindE (note_observation gn r t model_key (rs_success result) role lat) (\<lambda>_.
                    if rs_success result then ret (Some (result, attempt), outcome)
                    else
                      bindE (reload_task t) (\<lambda>t1.
                      bindE (if index + 1 < limit \<and> t_state t1 = T_FAILED
                             then mark_task_ready (project_id (gn_config gn)) t1 else ret t1) (\<lambda>t2.
                      fallback_loop gn r t2 n role runner limit (index + 1) cands (Some (result, attempt))
                        (outcome\<lparr>to_error := runner_error result ''runner reported failure''\<rparr>)))))))))"

definition attempt_with_fallback ::
  "goal_runner \<Rightarrow> run \<Rightarrow> task \<Rightarrow> task_node \<Rightarrow> string \<Rightarrow> route_decision \<Rightarrow> string \<Rightarrow> task_outcome \<Rightarrow>
   ('z, attempt_pair \<times> task_outcome) goal_act" where
  "attempt_with_fallback gn r t n role decision runner outcome =
     bindE (gets available_models) (\<lambda>av.
     let candidates = fallback_candidates av decision;
         limit = min (length candidates) (1 + nat (max 0 (max_fallback_attempts (gn_config gn))))
     in fallback_loop gn r t n role runner limit 0 (take limit candidates) None outcome)"

section \<open>Review\<close>

definition cross_provider_review ::
  "goal_runner \<Rightarrow> run \<Rightarrow> task \<Rightarrow> task_node \<Rightarrow> task_outcome \<Rightarrow> string \<Rightarrow> worktree option \<Rightarrow>
   ('z, bool \<times> task_outcome) goal_act" where
  "cross_provider_review gn r t n outcome runner w =
     bindE (gets available_models) (\<lambda>av.
     case select_high_risk_reviewer av (to_provider outcome) of
       None \<Rightarrow>
         bindE (record_gate r t REVIEW PENDING (''No reviewer outside provider ''
             @ quoted (if to_provider outcome \<noteq> [] then to_provider outcome else ''unknown'')
             @ '' is reachable'') ''review_comment'') (\<lambda>_. ret (True, outcome))
     | Some reviewer \<Rightarrow>
         bindE reserve_budget (\<lambda>refusal.
         case refusal of
           Some e \<Rightarrow>
             bindE (record_gate r t REVIEW PENDING (budget_message (gn_format_g gn) e) ''review_comment'')
               (\<lambda>_. ret (True, outcome))
         | None \<Rightarrow>
             bindE (harness_execute (gn_harness gn) runner t (review_prompt n w)
                      (Some (mk_runner_config (m_command_code_id reviewer)
                               (command_code_max_turns (gn_config gn))
                               (command_code_timeout_seconds (gn_config gn)) ''reviewer'')) [])
               (\<lambda>(result, attempt).
             bindE measure_latency (\<lambda>lat.
             bindE (spend_budget result) (\<lambda>_.
             bindE (note_observation gn r t (m_key reviewer) (rs_success result) ''reviewer'' lat) (\<lambda>_.
             let verdict = (if rs_success result then PASSED else FAILED);
                 outcome = outcome\<lparr>to_reviewer_model_key := m_command_code_id reviewer,
                             to_review_verdict := verdict_str verdict\<rparr>;
                 detail = m_key reviewer @ '' ('' @ m_provider reviewer @ '') reviewed attempt '' @ a_id attempt;
                 outcome = (if rs_success result then outcome
                            else outcome\<lparr>to_error := runner_error result ''cross-provider review rejected the change''\<rparr>);
                 detail = (if rs_success result then detail else detail @ '': '' @ to_error outcome)
             in bindE (record_gate r t REVIEW verdict detail ''review_comment'')
                  (\<lambda>_. ret (rs_success result, outcome))))))))"

section \<open>One task\<close>

definition finish_task ::
  "goal_runner \<Rightarrow> run \<Rightarrow> task \<Rightarrow> worktree option \<Rightarrow> string \<Rightarrow> attempt \<Rightarrow> task_outcome \<Rightarrow>
   ('z, task_outcome) goal_act" where
  "finish_task gn r t w target attempt outcome =
     (let pass = (\<lambda>outcome.
            bindE (record_gate r t BUILD PASSED (''attempt '' @ a_id attempt @ '' completed'') ''runner_result'')
              (\<lambda>_. bindE (complete_task (project_id (gn_config gn)) t)
              (\<lambda>_. ret (outcome\<lparr>to_succeeded := True\<rparr>))))
      in case (w, gn_worktrees gn) of
           (Some w, Some m) \<Rightarrow>
             bindE (commit_all w (t_id t @ '': '' @ t_objective t)) (\<lambda>_.
             bindE (integrate m w target) (\<lambda>result.
             let outcome = outcome\<lparr>to_integration := Some result\<rparr>
             in if \<not> ir_integrated result
                then bindE (record_gate r t BUILD FAILED (ir_reason result) ''runner_result'') (\<lambda>_.
                     bindE (fail_task (project_id (gn_config gn)) t (ir_reason result))
                       (\<lambda>_. ret (outcome\<lparr>to_error := ir_reason result\<rparr>)))
                else pass outcome))
         | _ \<Rightarrow> pass outcome)"

definition judge_task ::
  "goal_runner \<Rightarrow> run \<Rightarrow> task \<Rightarrow> task_node \<Rightarrow> string \<Rightarrow> string \<Rightarrow> worktree option \<Rightarrow> attempt_pair \<Rightarrow>
   task_outcome \<Rightarrow> ('z, task_outcome) goal_act" where
  "judge_task gn r t n runner target w last_pair outcome =
     (let pid = project_id (gn_config gn)
      in if to_cancelled outcome
         then bindE (if t_state t \<in> {T_RUNNING, T_READY, T_PLANNED}
                     then bindE (cancel_task pid t
                            (if to_error outcome \<noteq> [] then to_error outcome else ''cancelled'')) (\<lambda>_. ret ())
                     else ret ()) (\<lambda>_. ret outcome)
         else case last_pair of
           None \<Rightarrow>
             bindE (record_gate r t BUILD FAILED (to_error outcome) ''runner_result'') (\<lambda>_.
             bindE (if t_state t = T_RUNNING
                    then bindE (fail_task pid t (to_error outcome)) (\<lambda>_. ret ()) else ret ())
               (\<lambda>_. ret outcome))
         | Some (result, attempt) \<Rightarrow>
             if \<not> rs_success result
             then let outcome = outcome\<lparr>to_error := runner_error result ''runner reported failure''\<rparr>
                  in bindE (record_gate r t BUILD FAILED (to_error outcome) ''runner_result'') (\<lambda>_.
                     bindE (fail_task pid t (to_error outcome)) (\<lambda>_. ret outcome))
             else
               bindE (if is_high_risk n then cross_provider_review gn r t n outcome runner w
                      else ret (True, outcome)) (\<lambda>(ok, outcome).
               if \<not> ok then bindE (fail_task pid t (to_error outcome)) (\<lambda>_. ret outcome)
               else finish_task gn r t w target attempt outcome))"

text \<open>\<open>_run_task\<close> up to and from the moment the task is ready.\<close>

definition isolate :: "goal_runner \<Rightarrow> run \<Rightarrow> task_node \<Rightarrow> task \<Rightarrow> ('z, worktree option) goal_act" where
  "isolate gn r n t =
     (case gn_worktrees gn of
        None \<Rightarrow> ret None
      | Some m \<Rightarrow>
          if requires_isolation (n_write_scope n)
          then bindE (wt_create m (r_goal_id r) (t_id t) ''HEAD'') (\<lambda>w. ret (Some w))
          else ret None)"

definition run_ready_task ::
  "goal_runner \<Rightarrow> run \<Rightarrow> task_node \<Rightarrow> string \<Rightarrow> string \<Rightarrow> route_decision \<Rightarrow> task_outcome \<Rightarrow> task \<Rightarrow>
   ('z, task_outcome) goal_act" where
  "run_ready_task gn r n runner target decision outcome t =
     bindE (isolate gn r n t) (\<lambda>w.
     bindE (attempt_with_fallback gn r t n (role_for n) decision runner (outcome\<lparr>to_worktree := w\<rparr>))
       (\<lambda>(last_pair, outcome).
     bindE (reload_task t) (\<lambda>t2. judge_task gn r t2 n runner target w last_pair outcome)))"

definition run_task ::
  "goal_runner \<Rightarrow> run \<Rightarrow> task \<Rightarrow> task_node \<Rightarrow> string \<Rightarrow> string \<Rightarrow> ('z, task_outcome) goal_act" where
  "run_task gn r t n runner target =
     bindE (gets available_models) (\<lambda>av.
     let decision = route av (role_for n); outcome = mk_outcome t
     in bindE (poll_cancelled gn (r_id r)) (\<lambda>stop.
        if stop then ret (outcome\<lparr>to_cancelled := True, to_error := ''cancelled before the task started''\<rparr>)
        else
          bindE (if gn_routing_store gn then record_decision decision (t_id t) (Some (r_id r)) else ret ()) (\<lambda>_.
          bindE (mark_task_ready (project_id (gn_config gn)) t)
            (run_ready_task gn r n runner target decision outcome))))"

section \<open>The whole run\<close>

definition batch_fits :: "config \<Rightarrow> (string \<times> task_node) list \<Rightarrow> task \<Rightarrow> task list \<Rightarrow> bool" where
  "batch_fits c nodes t b \<longleftrightarrow>
     length b < nat (max 1 (max_parallel_tasks c))
     \<and> list_all (\<lambda>other. can_coexist (n_write_scope (the (map_of nodes (t_id t))))
                                     (n_write_scope (the (map_of nodes (t_id other))))) b"

definition parallel_batches :: "config \<Rightarrow> (string \<times> task_node) list \<Rightarrow> task list \<Rightarrow> exn + task list list" where
  "parallel_batches c nodes ready =
     (case find (\<lambda>t. map_of nodes (t_id t) = None) ready of
        Some t \<Rightarrow> Inl (KeyError (t_id t))
      | None \<Rightarrow> Inr (batches_of (batch_fits c nodes) ready))"

definition verify_declared_gates :: "goal_runner \<Rightarrow> run \<Rightarrow> ('z, gate_outcome list) goal_act" where
  "verify_declared_gates gn r =
     bindE (forE (declared_gates (gn_commands gn)) (\<lambda>gate.
       case for_gate (gn_commands gn) gate of
         None \<Rightarrow> ret []
       | Some command \<Rightarrow>
           bindE (run_gate_command (gn_redact gn) (gn_format_g gn 900) gate command
                    (project_root (gn_config gn))) (\<lambda>oc.
           bindE (evidence_for oc (r_goal_id r) (r_id r)) (\<lambda>e.
           bindE (record_evidence e) (\<lambda>_. ret [oc]))))) (\<lambda>ocs. ret (concat ocs))"

definition run_batches ::
  "goal_runner \<Rightarrow> run \<Rightarrow> (string \<times> task_node) list \<Rightarrow> string \<Rightarrow> string \<Rightarrow> task list list \<Rightarrow>
   ('z, task_outcome list) goal_act" where
  "run_batches gn r nodes runner target batches =
     bindE (forE batches (\<lambda>batch.
       forE batch (\<lambda>t. run_task gn r t (the (map_of nodes (t_id t))) runner target)))
     (\<lambda>results. ret (concat results))"

text \<open>The \<open>while True\<close> loop; \<open>None\<close> only when the fuel runs out.\<close>

fun run_loop ::
  "goal_runner \<Rightarrow> run \<Rightarrow> (string \<times> task_node) list \<Rightarrow> string \<Rightarrow> string \<Rightarrow> nat \<Rightarrow> task_outcome list \<Rightarrow>
   ('z, task_outcome list option) goal_act" where
  "run_loop gn r nodes runner target 0 outcomes = ret None"
| "run_loop gn r nodes runner target (Suc fuel) outcomes =
     bindE (poll_cancelled gn (r_id r)) (\<lambda>stop.
     if stop then ret (Some outcomes)
     else bindE (ready_tasks (r_id r)) (\<lambda>ready.
          if ready = [] then ret (Some outcomes)
          else case parallel_batches (gn_config gn) nodes ready of
              Inl e \<Rightarrow> throw e
            | Inr batches \<Rightarrow>
                bindE (run_batches gn r nodes runner target batches) (\<lambda>results.
                if list_ex (\<lambda>oc. \<not> to_succeeded oc) (outcomes @ results)
                then ret (Some (outcomes @ results))
                else run_loop gn r nodes runner target fuel (outcomes @ results))))"

definition reload_run :: "run \<Rightarrow> ('z, run) goal_act" where
  "reload_run r = bindE (load_run (r_id r)) (\<lambda>found. ret (case found of None \<Rightarrow> r | Some r' \<Rightarrow> r'))"

text \<open>What follows the loop: winding down a cancelled run, or closing the run.\<close>

definition wind_down :: "goal_runner \<Rightarrow> run \<Rightarrow> task_outcome list \<Rightarrow> ('z, goal_run_report) goal_act" where
  "wind_down gn r outcomes =
     bindE (cancel_reason gn (r_id r)) (\<lambda>why.
     bindE (cancel_run (project_id (gn_config gn)) r why) (\<lambda>_.
     bindE (if gn_cancellation gn then modify (\<lambda>s. s\<lparr>requested := clear_request (r_id r) (requested s)\<rparr>)
            else ret ()) (\<lambda>_.
     bindE (gets budget) (\<lambda>b.
     bindE (reload_run r) (\<lambda>r'.
     ret \<lparr>gp_run = r', gp_outcomes = outcomes, gp_blocked = [], gp_budget = Some b, gp_gates = []\<rparr>)))))"

definition close_run :: "goal_runner \<Rightarrow> run \<Rightarrow> task_outcome list \<Rightarrow> ('z, goal_run_report) goal_act" where
  "close_run gn r outcomes =
     bindE (load_tasks (r_id r)) (\<lambda>ts.
     bindE (gets budget) (\<lambda>b.
     let remaining = List.map t_id (filter (\<lambda>t. t_state t \<in> {T_PLANNED, T_BLOCKED}) ts);
         rep = \<lparr>gp_run = r, gp_outcomes = outcomes, gp_blocked = remaining, gp_budget = Some b, gp_gates = []\<rparr>
     in bindE (if report_succeeded rep \<and> remaining = [] then verify_declared_gates gn r else ret []) (\<lambda>gates.
        bindE (evaluate_run_completion r) (\<lambda>_.
        bindE (reload_run r) (\<lambda>r'. ret (rep\<lparr>gp_run := r', gp_gates := gates\<rparr>))))))"

definition open_run ::
  "goal_runner \<Rightarrow> plan \<Rightarrow> string \<Rightarrow> ('z, run \<times> (string \<times> task_node) list) goal_act" where
  "open_run gn p goal_revision =
     bindE (mk_run (project_id (gn_config gn)) (pl_goal_id p) goal_revision (autonomy_mode (gn_config gn))) (\<lambda>r0.
     bindE (save_run r0) (\<lambda>_.
     bindE (start_run r0) (\<lambda>r1.
     bindE (materialize p (r_id r1)) (\<lambda>(ts, nodes).
     bindE (modify (\<lambda>s. s\<lparr>budget := ledger_from_config (gn_config gn) (length ts)\<rparr>)) (\<lambda>_.
     bindE (schedule_tasks r1 ts) (\<lambda>(r2, _).
     bindE (advance_run r2 R_RUNNING) (\<lambda>r3. ret (r3, nodes))))))))"

definition planned_of_run :: "string \<Rightarrow> 'z goal_db_scheme \<Rightarrow> string list" where
  "planned_of_run run_id s =
     List.map t_id (filter (\<lambda>t. t_run_id t = run_id \<and> t_state t = T_PLANNED) (tasks s))"

definition execute_goal ::
  "goal_runner \<Rightarrow> plan \<Rightarrow> string \<Rightarrow> string \<Rightarrow> string \<Rightarrow> ('z, goal_run_report option) goal_act" where
  "execute_goal gn p goal_revision runner target =
     (let errors = validate_dag (gn_set_order gn) p
      in if errors \<noteq> [] then throw (DAGError (join ''; '' errors))
         else bindE (open_run gn p goal_revision) (\<lambda>(r, nodes).
              bindE (gets (planned_of_run (r_id r))) (\<lambda>planned.
              bindE (run_loop gn r nodes runner target (Suc (length planned)) []) (\<lambda>ending.
              case ending of
                None \<Rightarrow> ret None
              | Some outcomes \<Rightarrow>
                  bindE (poll_cancelled gn (r_id r)) (\<lambda>stop.
                  bindE (if stop then wind_down gn r outcomes else close_run gn r outcomes)
                    (\<lambda>rep. ret (Some rep)))))))"

section \<open>Invariants\<close>

locale goal_invariant = shell_invariant I ok_task ok_run ok_git
  for I :: "'z goal_db_scheme \<Rightarrow> bool" and ok_task :: "task \<Rightarrow> bool"
    and ok_run :: "run \<Rightarrow> bool" and ok_git :: "string list \<Rightarrow> bool" +
  assumes I_budget: "I s \<Longrightarrow> I (s\<lparr>budget := b\<rparr>)"
    and I_requested: "I s \<Longrightarrow> I (s\<lparr>requested := q\<rparr>)"
    and I_polls: "I s \<Longrightarrow> I (s\<lparr>polls := n\<rparr>)"
    and I_meters: "I s \<Longrightarrow> I (s\<lparr>meters := n\<rparr>)"
begin

lemma pres_steps:
  "preserves I (poll_cancelled gn rid)" "preserves I (cancel_reason gn rid)"
  "preserves I measure_latency" "preserves I reserve_budget" "preserves I (spend_budget res)"
  by (auto simp: preserves_def poll_cancelled_def cancel_reason_def measure_latency_def act_defs
      reserve_budget_def spend_budget_def I_budget I_requested I_polls I_meters Let_def split: sum.splits)

lemma pres_notes:
  "preserves I (reload_task t)" "preserves I (reload_run r)" "preserves I (record_gate r t g v d k)"
  "preserves I (note_observation gn r t key ok role lat)"
  "preserves I (awaited_attempt gn r t n role rn mid)"
  unfolding reload_task_def reload_run_def record_gate_def note_observation_def awaited_attempt_def
  by (intro shell_pres pres_steps)+

lemma pres_fallback_loop: "preserves I (fallback_loop gn r t n role rn cap i cs lp oc)"
proof (induction cs arbitrary: t i lp oc)
  case (Cons c cs)
  show ?case unfolding fallback_loop.simps Let_def
    by (intro shell_pres pres_steps pres_notes Cons.IH)
qed (simp add: shell_pres)

lemma pres_review: "preserves I (cross_provider_review gn r t n oc rn w)"
  unfolding cross_provider_review_def Let_def by (intro shell_pres pres_steps pres_notes)

lemma pres_attempts: "preserves I (attempt_with_fallback gn r t n role d rn oc)"
  unfolding attempt_with_fallback_def Let_def by (intro shell_pres pres_fallback_loop)

lemma pres_finish: "preserves I (finish_task gn r t w target a oc)"
  unfolding finish_task_def Let_def by (intro shell_pres pres_notes)

lemma pres_judge: "preserves I (judge_task gn r t n rn target w lp oc)"
  unfolding judge_task_def Let_def by (intro shell_pres pres_notes pres_review pres_finish)

lemma pres_run_ready: "preserves I (run_ready_task gn r n rn target d oc t)"
  unfolding run_ready_task_def isolate_def by (intro shell_pres pres_notes pres_attempts pres_judge)

lemma pres_run_task: "preserves I (run_task gn r t n rn target)"
  unfolding run_task_def Let_def by (intro shell_pres pres_steps pres_run_ready)

lemma pres_run_batches: "preserves I (run_batches gn r nodes rn target bs)"
  unfolding run_batches_def by (intro shell_pres pres_run_task)

lemma pres_run_loop: "preserves I (run_loop gn r nodes rn target fuel ocs)"
proof (induction fuel arbitrary: ocs)
  case (Suc fuel)
  show ?case unfolding run_loop.simps
    by (intro shell_pres pres_steps pres_run_batches Suc.IH)
qed (simp add: shell_pres)

lemma pres_declared: "preserves I (verify_declared_gates gn r)"
  unfolding verify_declared_gates_def by (intro shell_pres)

lemmas goal_pres = shell_pres pres_steps pres_notes pres_run_task pres_run_loop pres_declared

lemma pres_closing:
  assumes ok: "\<And>r. ok_run r"
  shows "preserves I (wind_down gn r ocs)" "preserves I (close_run gn r ocs)"
proof -
  show "preserves I (wind_down gn r ocs)"
    unfolding wind_down_def by (intro goal_pres pres_run_handlers ok pres_modify I_requested)
  show "preserves I (close_run gn r ocs)"
    unfolding close_run_def Let_def by (intro goal_pres pres_run_handlers ok)
qed

lemma pres_materialize: "preserves I (materialize p rid)"
  unfolding materialize_def by (intro goal_pres)

lemma pres_opening:
  assumes ok: "\<And>r. ok_run r" "\<And>t. ok_task t"
  shows "preserves I (open_run gn p gr)"
  unfolding open_run_def
  by (intro goal_pres pres_run_handlers pres_schedule_tasks pres_materialize ok pres_modify I_budget)

lemma pres_execute_goal:
  assumes ok: "\<And>r. ok_run r" "\<And>t. ok_task t"
  shows "preserves I (execute_goal gn p gr rn target)"
  unfolding execute_goal_def Let_def
  by (intro goal_pres pres_closing pres_opening ok)

end

text \<open>The planned tasks of a run are among \<open>P\<close>; the stored runs are \<open>R\<close>.\<close>

definition planned_ids :: "string \<Rightarrow> 'z db_scheme \<Rightarrow> string set" where
  "planned_ids rid s = t_id ` {t \<in> set (tasks s). t_run_id t = rid \<and> t_state t = T_PLANNED}"

definition planned_within :: "string \<Rightarrow> string set \<Rightarrow> 'z db_scheme \<Rightarrow> bool" where
  "planned_within rid P s \<longleftrightarrow> planned_ids rid s \<subseteq> P"

definition runs_are :: "run list \<Rightarrow> 'z db_scheme \<Rightarrow> bool" where
  "runs_are R s \<longleftrightarrow> runs s = R"

interpretation goal_integrity: goal_invariant integrity "\<lambda>_. True" "\<lambda>_. True" "\<lambda>_. True"
  by unfold_locales (auto simp: integrity_def)

interpretation goal_guarded: goal_invariant guarded_log "\<lambda>_. True" "\<lambda>_. True" guarded_args
  by unfold_locales (auto simp: guarded_log_def)

interpretation goal_log: goal_invariant "log_from es" "\<lambda>_. True" "\<lambda>_. True" "\<lambda>_. True"
  for es :: "domain_event list"
  by unfold_locales (auto simp: log_from_def)

interpretation planned: goal_invariant "planned_within rid P" "\<lambda>t. t_state t \<noteq> T_PLANNED"
    "\<lambda>_. True" "\<lambda>_. True"
  for rid :: string and P :: "string set"
  by unfold_locales
    (auto simp: planned_within_def planned_ids_def set_upsert task_step_iff split: task_state.splits)

interpretation steady: goal_invariant "runs_are R" "\<lambda>_. True" "\<lambda>_. False" "\<lambda>_. True"
  for R :: "run list"
  by unfold_locales (auto simp: runs_are_def)

section \<open>The loop ends\<close>

lemma planned_ids_shrink:
  "preserves (planned_within rid (planned_ids rid s)) m \<Longrightarrow> m s = (x, s') \<Longrightarrow>
   planned_ids rid s' \<subseteq> planned_ids rid s"
  by (metis planned_within_def preserves_stepD subset_refl)

lemma ready_task_leaves_plan:
  assumes "mark_task_ready pid t s = (Inr t', s')"
  shows "planned_within rid (- {t_id t}) s'"
proof -
  obtain e where "task_event t TASK_READY [] pid s = (Inr e, stamped s)" using event_ok(2) by blast
  then have "tasks s' = upsert t_id (t\<lparr>t_state := T_READY\<rparr>) (tasks s)"
    using assms by (auto simp: mark_task_ready_def bindE_def record_task_transition_eq split: if_splits)
  then show ?thesis by (auto simp: planned_within_def planned_ids_def set_upsert)
qed

lemma bindE_retE:
  assumes "bindE m (\<lambda>x. ret (f x)) s = (Inr y, s')"
  obtains x where "m s = (Inr x, s')" "y = f x"
  using assms by (auto simp: bindE_def ret_def split: prod.splits sum.splits)

text \<open>What a task that succeeded went through.\<close>

lemma run_task_OkE:
  assumes "run_task gn r t n rn target s = (Inr oc, s')" "to_succeeded oc"
  obtains t1 d s1 s2 where
    "mark_task_ready (project_id (gn_config gn)) t s1 = (Inr t1, s2)"
    "run_ready_task gn r n rn target d (mk_outcome t) t1 s2 = (Inr oc, s')"
  using assms
  by (auto simp: run_task_def Let_def mk_outcome_def ret_def split: if_splits elim!: bindE_OkE)

lemma run_task_leaves_plan:
  assumes "run_task gn r t n rn target s = (Inr oc, s')" "to_succeeded oc"
  shows "planned_within rid (- {t_id t}) s'"
  using assms by (rule run_task_OkE) (metis ready_task_leaves_plan planned.pres_run_ready preserves_stepD)

lemma pres_ball: "(\<And>x. x \<in> X \<Longrightarrow> preserves (D x) m) \<Longrightarrow> preserves (\<lambda>s. \<forall>x \<in> X. D x s) m"
  by (auto simp: preserves_def)

lemma forE_each:
  assumes f: "\<And>x z. preserves (D x) (f z)"
    "\<And>x s y s'. f x s = (Inr y, s') \<Longrightarrow> good y \<Longrightarrow> D x s'"
    and run: "forE xs f s = (Inr ys, s')" "list_all good ys"
  shows "\<forall>x \<in> set xs. D x s'"
  using run
proof (induction xs arbitrary: s ys)
  case (Cons x xs)
  from Cons.prems obtain y zs s1 where 1: "f x s = (Inr y, s1)" "forE xs f s1 = (Inr zs, s')"
    "ys = y # zs" by (auto simp: ret_def elim!: bindE_OkE)
  with Cons.prems have "D x s1" "list_all good zs" using f(2) by auto
  moreover have "preserves (D x) (forE xs f)" by (intro pres_forE f(1))
  ultimately show ?case using 1 Cons.IH preserves_stepD by auto
qed simp

abbreviation scope_in :: "(string \<times> task_node) list \<Rightarrow> task \<Rightarrow> string list" where
  "scope_in nodes t \<equiv> n_write_scope (the (map_of nodes (t_id t)))"

interpretation run_batches: batching "batch_fits c nodes"
  "\<lambda>u t. can_coexist (scope_in nodes u) (scope_in nodes t)" "Some (nat (max 1 (max_parallel_tasks c)))"
  for c :: config and nodes :: "(string \<times> task_node) list"
  by unfold_locales (auto simp: batch_fits_def list_all_iff can_coexist_sym)

lemma parallel_batches_Inr:
  "parallel_batches c nodes ready = Inr bs \<Longrightarrow> bs = batches_of (batch_fits c nodes) ready"
  by (auto simp: parallel_batches_def split: option.splits)

lemma parallel_batches_set: "parallel_batches c nodes ready = Inr bs \<Longrightarrow> \<Union> (set ` set bs) = set ready"
  by (metis parallel_batches_Inr run_batches.batches_partition set_concat set_mset_mset)

lemma run_batches_leave_plan:
  assumes "run_batches gn r nodes rn target bs s = (Inr ocs, s')" "list_all to_succeeded ocs"
    and "t \<in> set b" "b \<in> set bs"
  shows "planned_within rid (- {t_id t}) s'"
proof -
  let ?f = "\<lambda>t. run_task gn r t (the (map_of nodes (t_id t))) rn target"
  let ?D = "\<lambda>b s. \<forall>t \<in> set b. planned_within rid (- {t_id t}) s"
  from assms obtain rss where 1: "forE bs (\<lambda>b. forE b ?f) s = (Inr rss, s')"
    "list_all (list_all to_succeeded) rss"
    by (auto simp: run_batches_def ret_def list_all_iff elim!: bindE_OkE)
  have p: "preserves (?D b) (forE bt ?f)" for b bt
    by (intro pres_ball pres_forE planned.pres_run_task)
  have "\<forall>b \<in> set bs. ?D b s'"
    by (rule forE_each [OF p _ 1])
      (rule forE_each [where good = to_succeeded and f = ?f],
        auto intro: planned.pres_run_task run_task_leaves_plan)
  with assms(3,4) show ?thesis by blast
qed

lemma run_loop_ends:
  "card (planned_ids (r_id r) s) < fuel \<Longrightarrow> fst (run_loop gn r nodes rn target fuel ocs s) \<noteq> Inr None"
proof (induction fuel arbitrary: s ocs)
  case (Suc fuel)
  let ?P = "\<lambda>s. planned_ids (r_id r) s"
  show ?case
  proof
    assume none: "fst (run_loop gn r nodes rn target (Suc fuel) ocs s) = Inr None"
    then obtain s' where "run_loop gn r nodes rn target (Suc fuel) ocs s = (Inr None, s')"
      by (cases "run_loop gn r nodes rn target (Suc fuel) ocs s") simp
    then obtain s1 s2 s3 ready bs results where
      1: "poll_cancelled gn (r_id r) s = (Inr False, s1)"
        "ready_tasks (r_id r) s1 = (Inr ready, s2)" "ready \<noteq> []"
        "parallel_batches (gn_config gn) nodes ready = Inr bs"
        "run_batches gn r nodes rn target bs s2 = (Inr results, s3)"
        "\<not> list_ex (\<lambda>oc. \<not> to_succeeded oc) (ocs @ results)"
        "run_loop gn r nodes rn target fuel (ocs @ results) s3 = (Inr None, s')"
      by (auto simp: ret_def throw_def split: if_splits sum.splits elim!: bindE_OkE)
    obtain t where t: "t \<in> set ready" using 1(3) by (cases ready) auto
    have sub: "?P s1 \<subseteq> ?P s" "?P s2 \<subseteq> ?P s1" "?P s3 \<subseteq> ?P s2"
      using planned_ids_shrink [OF planned.pres_steps(1) 1(1)]
        planned_ids_shrink [OF planned.pres_task_handlers(1) 1(2)]
        planned_ids_shrink [OF planned.pres_run_batches 1(5)] by blast+
    have "list_all to_succeeded results" using 1(6) by (auto simp: list_ex_iff list_all_iff)
    moreover obtain b where "t \<in> set b" "b \<in> set bs"
      using t parallel_batches_set [OF 1(4)] by blast
    ultimately have "planned_within (r_id r) (- {t_id t}) s3"
      using run_batches_leave_plan 1(5) by blast
    then have out: "t_id t \<notin> ?P s3" by (auto simp: planned_within_def)
    have "t_id t \<in> ?P s1"
      using 1(2) t by (auto simp: ready_tasks_def load_tasks_def query_def require_conn_def act_defs
          planned_ids_def split: if_splits)
    with sub out have "?P s3 \<subset> ?P s" by blast
    moreover have "finite (?P s)" by (simp add: planned_ids_def)
    ultimately have "card (?P s3) < card (?P s)" by (rule psubset_card_mono [rotated])
    with Suc.prems have "card (?P s3) < fuel" by simp
    from Suc.IH [OF this] 1(7) show False by (metis fst_conv)
  qed
qed simp

lemma planned_of_run_length: "card (planned_ids rid s) \<le> length (planned_of_run rid s)"
proof -
  have "planned_ids rid s = set (planned_of_run rid s)"
    by (auto simp: planned_ids_def planned_of_run_def)
  then show ?thesis by (simp add: card_length)
qed

section \<open>The run that is reported\<close>

lemma query_InrE:
  assumes "query f s = (Inr x, s')"
  obtains "db_open s" "x = f s" "s' = s"
proof -
  have "db_open s \<and> x = f s \<and> s' = s"
    using assms by (cases "db_open s") (auto simp: query_def require_conn_def act_defs)
  then show thesis using that by blast
qed

lemma advance_InrE:
  assumes "advance_run r st s = (Inr r', s')"
  obtains "r' = r\<lparr>r_state := st\<rparr>" "runs s' = upsert r_id r' (runs s)" "tasks s' = tasks s"
    "run_step (r_state r) st" "db_open s'"
proof -
  obtain e where "run_event r (case map_of [(R_COMPLETED, RUN_COMPLETED), (R_FAILED, RUN_FAILED)] st of
      Some ty \<Rightarrow> ty | None \<Rightarrow> STATE_CHANGE) st [] s = (Inr e, stamped s)" using event_ok(1) by blast
  with assms have "record_run_transition r st e (stamped s) = (Inr r', s')"
    by (simp only: advance_run_def bindE_ok)
  then have "run_step (r_state r) st \<and> db_open s \<and> r' = r\<lparr>r_state := st\<rparr> \<and> s' =
      committed_event e ((stamped s)\<lparr>runs := upsert r_id (r\<lparr>r_state := st\<rparr>) (runs (stamped s))\<rparr>)"
    by (auto simp: record_run_transition_eq split: if_splits)
  then show thesis by (intro that) simp_all
qed

text \<open>The run \<open>r\<close> is stored as running: what \<open>open_run\<close> leaves.\<close>

definition launched :: "run \<Rightarrow> 'z db_scheme \<Rightarrow> bool" where
  "launched r s \<longleftrightarrow> r_state r = R_RUNNING \<and> row_by r_id (r_id r) (runs s) = Some r"

lemma open_run_launched:
  assumes "open_run gn p gr s = (Inr (r, nodes), s')"
  shows "launched r s'"
proof -
  from assms obtain r2 s1 where "advance_run r2 R_RUNNING s1 = (Inr r, s')"
    by (auto simp: open_run_def ret_def elim!: bindE_OkE)
  then show ?thesis by (rule advance_InrE) (simp add: launched_def row_by_upsert)
qed

lemma launched_kept:
  fixes m :: "('z db_scheme, 'e, 'a) act"
  assumes "\<And>R. preserves (runs_are R) m"
  shows "preserves (launched r) m"
proof (rule preservesI)
  fix s :: "'z db_scheme" assume "launched r s"
  moreover have "runs (snd (m s)) = runs s"
    using preservesD [OF assms, where s = s and R1 = "runs s"] by (simp add: runs_are_def)
  ultimately show "launched r (snd (m s))" by (simp add: launched_def)
qed

text \<open>What a stored run's state says of its tasks.\<close>

definition state_is_earned :: "run \<Rightarrow> 'z db_scheme \<Rightarrow> bool" where
  "state_is_earned r s \<longleftrightarrow>
     (let T = {t \<in> set (tasks s). t_run_id t = r_id r}
      in row_by r_id (r_id r) (runs s) = Some r
       \<and> (case r_state r of
            R_VERIFYING \<Rightarrow> T \<noteq> {} \<and> (\<forall>t \<in> T. t_state t \<in> {T_SUCCEEDED, T_SUPERSEDED})
          | R_FAILED \<Rightarrow> (\<exists>t \<in> T. t_state t = T_FAILED)
          | R_RUNNING \<Rightarrow> T = {} \<or> (\<exists>t \<in> T. t_state t \<notin> {T_SUCCEEDED, T_SUPERSEDED})
          | R_CANCELLED \<Rightarrow> True
          | _ \<Rightarrow> False))"

definition earned_by :: "run \<Rightarrow> 'z db_scheme \<Rightarrow> bool" where
  "earned_by r s \<longleftrightarrow> (\<exists>r'. row_by r_id (r_id r) (runs s) = Some r' \<and> state_is_earned r' s)"

lemma evaluate_earns:
  "gives (launched r) (evaluate_run_completion r) (\<lambda>_. earned_by r)"
proof (rule givesI)
  fix s v s' assume l: "launched r s" and e: "evaluate_run_completion r s = (Inr v, s')"
  have up: "db_open s"
    using e by (auto simp: evaluate_run_completion_def load_tasks_def elim!: bindE_OkE query_InrE)
  have run: "r_state r = R_RUNNING" and row: "row_by r_id (r_id r) (runs s) = Some r"
    using l by (auto simp: launched_def)
  define T where "T = {t \<in> set (tasks s). t_run_id t = r_id r}"
  define V where "V = (if T = {} then None else if \<exists>t \<in> T. t_state t = T_FAILED then Some R_FAILED
      else if \<exists>t \<in> T. t_state t = T_CANCELLED then Some R_CANCELLED
      else if \<forall>t \<in> T. t_state t \<in> {T_SUCCEEDED, T_SUPERSEDED} then Some R_VERIFYING else None)"
  have same: "tasks s' = tasks s"
    and rs: "runs s' = (case V of None \<Rightarrow> runs s | Some st \<Rightarrow> upsert r_id (r\<lparr>r_state := st\<rparr>) (runs s))"
    using evaluate_spec [OF up run] e unfolding V_def T_def by auto
  have T': "T = {t \<in> set (tasks s'). t_run_id t = r_id r}" by (simp add: T_def same)
  have V: "V = None \<and> (T = {} \<or> (\<exists>t \<in> T. t_state t \<notin> {T_SUCCEEDED, T_SUPERSEDED}))
    \<or> V = Some R_FAILED \<and> (\<exists>t \<in> T. t_state t = T_FAILED)
    \<or> V = Some R_CANCELLED
    \<or> V = Some R_VERIFYING \<and> T \<noteq> {} \<and> (\<forall>t \<in> T. t_state t \<in> {T_SUCCEEDED, T_SUPERSEDED})"
    unfolding V_def by simp
  let ?r = "case V of None \<Rightarrow> r | Some st \<Rightarrow> r\<lparr>r_state := st\<rparr>"
  have id': "r_id ?r = r_id r" by (cases V) simp_all
  have row': "row_by r_id (r_id r) (runs s') = Some ?r"
    unfolding rs using row by (cases V) (simp_all add: row_by_upsert)
  have "case r_state ?r of
        R_VERIFYING \<Rightarrow> T \<noteq> {} \<and> (\<forall>t \<in> T. t_state t \<in> {T_SUCCEEDED, T_SUPERSEDED})
      | R_FAILED \<Rightarrow> (\<exists>t \<in> T. t_state t = T_FAILED)
      | R_RUNNING \<Rightarrow> T = {} \<or> (\<exists>t \<in> T. t_state t \<notin> {T_SUCCEEDED, T_SUPERSEDED})
      | R_CANCELLED \<Rightarrow> True
      | _ \<Rightarrow> False"
    using V by (elim disjE) (simp_all add: run)
  with row' have "state_is_earned ?r s'"
    unfolding state_is_earned_def Let_def id' T' [symmetric] by (rule conjI)
  with row' show "earned_by r s'" unfolding earned_by_def by blast
qed

lemma reload_run_earned: "gives (earned_by r) (reload_run r) (\<lambda>r'. state_is_earned r')"
  by (rule givesI)
    (auto simp: reload_run_def load_run_def earned_by_def ret_def elim!: bindE_OkE query_InrE)

definition live :: "run \<Rightarrow> 'z db_scheme \<Rightarrow> bool" where
  "live r s \<longleftrightarrow> launched r s \<and> integrity s"

lemma live_kept:
  "(\<And>R. preserves (runs_are R) m) \<Longrightarrow> preserves integrity m \<Longrightarrow> gives (live r) m (\<lambda>_. live r)"
  unfolding live_def by (intro gives_both gives_keep launched_kept)

lemma close_run_earned: "gives (live r) (close_run gn r ocs) (\<lambda>rep. state_is_earned (gp_run rep))"
  unfolding close_run_def Let_def
  by (intro gives_bind, (rule live_kept; intro steady.goal_pres goal_integrity.goal_pres)+,
      rule gives_weaken [OF evaluate_earns], simp add: live_def, rule reload_run_earned,
      rule gives_ret, simp)

lemma cancel_run_earns: "gives (live r) (cancel_run project r why) (\<lambda>_. earned_by r)"
proof (rule givesI)
  fix s r1 s' assume l: "live r s" and c: "cancel_run project r why s = (Inr r1, s')"
  then have i: "integrity s" and row: "row_by r_id (r_id r) (runs s) = Some r"
    and st: "r_state r = R_RUNNING" by (simp_all add: live_def launched_def)
  have up: "db_open s"
    using c by (auto simp: cancel_run_def load_tasks_def elim!: bindE_OkE query_InrE)
  from cancel_run_spec [OF up i row, of project why] c st
  have "row_by r_id (r_id r) (runs s') = Some (r\<lparr>r_state := R_CANCELLED\<rparr>)" by auto
  then show "earned_by r s'" by (simp add: earned_by_def state_is_earned_def Let_def)
qed

lemma earned_by_other [simp]: "earned_by r (s\<lparr>requested := q\<rparr>) \<longleftrightarrow> earned_by r s"
  by (simp add: earned_by_def state_is_earned_def Let_def)

lemma wind_down_earned: "gives (live r) (wind_down gn r ocs) (\<lambda>rep. state_is_earned (gp_run rep))"
  unfolding wind_down_def
proof (intro gives_bind)
  show "gives (live r) (cancel_reason gn (r_id r)) (\<lambda>_. live r)"
    by (intro live_kept steady.goal_pres goal_integrity.goal_pres)
  show "gives (live r) (cancel_run (project_id (gn_config gn)) r why) (\<lambda>_. earned_by r)" for why
    by (rule cancel_run_earns)
  show "gives (earned_by r) (if gn_cancellation gn
          then modify (\<lambda>s. s\<lparr>requested := clear_request (r_id r) (requested s)\<rparr>) else ret ())
          (\<lambda>_. earned_by r)"
    by (rule givesI) (auto simp: act_defs split: if_splits)
  show "gives (earned_by r) (gets budget) (\<lambda>_. earned_by r)" by (intro gives_keep pres)
  show "gives (earned_by r) (reload_run r) (\<lambda>r'. state_is_earned r')" by (rule reload_run_earned)
qed (simp add: gives_ret)

lemma open_run_live: "gives integrity (open_run gn p gr) (\<lambda>x. live (fst x))"
proof -
  have "gives integrity (open_run gn p gr) (\<lambda>_. integrity)"
    by (intro gives_keep goal_integrity.pres_opening) simp_all
  then show ?thesis
    unfolding gives_def live_def using open_run_launched by (metis prod.collapse)
qed

lemma execute_goal_earned:
  "gives integrity (execute_goal gn p gr rn target)
     (\<lambda>x s. \<forall>rep. x = Some rep \<longrightarrow> state_is_earned (gp_run rep) s)"
  unfolding execute_goal_def Let_def
proof (intro gives_if gives_throw gives_bind)
  show "gives integrity (open_run gn p gr) (\<lambda>x. live (fst x))" by (rule open_run_live)
  fix x :: "run \<times> (string \<times> task_node) list"
  obtain r nodes where x: "x = (r, nodes)" by (cases x)
  have "gives (live r) (bindE (gets (planned_of_run (r_id r))) (\<lambda>planned.
              bindE (run_loop gn r nodes rn target (Suc (length planned)) []) (\<lambda>ending.
              case ending of
                None \<Rightarrow> ret None
              | Some outcomes \<Rightarrow>
                  bindE (poll_cancelled gn (r_id r)) (\<lambda>stop.
                  bindE (if stop then wind_down gn r outcomes else close_run gn r outcomes)
                    (\<lambda>rep. ret (Some rep))))))
     (\<lambda>x s. \<forall>rep. x = Some rep \<longrightarrow> state_is_earned (gp_run rep) s)" (is "gives _ ?body ?Q")
  proof (intro gives_bind)
    fix ending :: "task_outcome list option"
    show "gives (live r) (case ending of
                None \<Rightarrow> ret None
              | Some outcomes \<Rightarrow>
                  bindE (poll_cancelled gn (r_id r)) (\<lambda>stop.
                  bindE (if stop then wind_down gn r outcomes else close_run gn r outcomes)
                    (\<lambda>rep. ret (Some rep)))) ?Q"
    proof (cases ending)
      case (Some ocs)
      show ?thesis unfolding Some option.case
        by (intro gives_bind, rule live_kept, (intro steady.goal_pres goal_integrity.goal_pres)+,
            rule gives_if, rule wind_down_earned, rule close_run_earned, rule gives_ret, simp)
    qed (simp add: gives_ret)
  qed (rule live_kept; intro steady.goal_pres goal_integrity.goal_pres)+
  then show "gives (live (fst x)) (case x of (r, nodes) \<Rightarrow> bindE (gets (planned_of_run (r_id r))) (\<lambda>planned.
              bindE (run_loop gn r nodes rn target (Suc (length planned)) []) (\<lambda>ending.
              case ending of
                None \<Rightarrow> ret None
              | Some outcomes \<Rightarrow>
                  bindE (poll_cancelled gn (r_id r)) (\<lambda>stop.
                  bindE (if stop then wind_down gn r outcomes else close_run gn r outcomes)
                    (\<lambda>rep. ret (Some rep)))))) ?Q" by (simp add: x)
qed

end
