(* ===== verification/GoalRuns.thy ===== *)
theory GoalRuns
  imports GoalRunner
begin

text \<open>
  What a run of a plan amounts to (\<open>execution/goal_runner.py\<close>), over the definitions of \<open>GoalRunner\<close>:
  which models are called and how often, what it takes for a task to count as succeeded, and the
  properties of a whole execution.
\<close>

section \<open>The calls of the agent\<close>

definition agent_is :: "(string \<times> string \<times> string \<times> runner_config) list \<Rightarrow> 'z harness_db_scheme \<Rightarrow> bool" where
  "agent_is L s \<longleftrightarrow> agent_log s = L"

interpretation unheard: routing_invariant "agent_is L" "\<lambda>_. True" "\<lambda>_. True" "\<lambda>_. True"
  for L :: "(string \<times> string \<times> string \<times> runner_config) list"
  by unfold_locales (auto simp: agent_is_def)

text \<open>\<open>calls m N X\<close>: the calls \<open>m\<close> makes are a list in \<open>N x\<close> when it returns \<open>x\<close>, and in \<open>X\<close> when it
  raises; \<open>calls_in m F\<close>: they are in \<open>F\<close> whatever happens.\<close>

type_synonym call_list = "(string \<times> string \<times> string \<times> runner_config) list"

definition calls ::
  "('z harness_db_scheme, 'e, 'a) act \<Rightarrow> ('a \<Rightarrow> call_list set) \<Rightarrow> call_list set \<Rightarrow> bool" where
  "calls m N X \<longleftrightarrow> (\<forall>s. \<exists>cs. agent_log (snd (m s)) = agent_log s @ cs
     \<and> cs \<in> (case fst (m s) of Inl e \<Rightarrow> X | Inr x \<Rightarrow> N x))"

definition calls_in :: "('z harness_db_scheme, 'e, 'a) act \<Rightarrow> call_list set \<Rightarrow> bool" where
  "calls_in m F \<longleftrightarrow> calls m (\<lambda>_. F) F"

lemma callsD:
  "calls m N X \<Longrightarrow> m s = (r, s') \<Longrightarrow>
   \<exists>cs. agent_log s' = agent_log s @ cs \<and> cs \<in> (case r of Inl e \<Rightarrow> X | Inr x \<Rightarrow> N x)"
  unfolding calls_def by (metis fst_conv snd_conv)

lemma calls_bind:
  assumes m: "calls m N X" and f: "\<And>x. calls (f x) (E x) (G x)"
    and F: "X \<subseteq> Y" "\<And>x d e. d \<in> N x \<Longrightarrow> e \<in> G x \<Longrightarrow> d @ e \<in> Y"
    "\<And>x y d e. d \<in> N x \<Longrightarrow> e \<in> E x y \<Longrightarrow> d @ e \<in> M y"
  shows "calls (bindE m f) M Y"
  unfolding calls_def
proof
  fix s
  obtain r s1 where s1: "m s = (r, s1)" by (cases "m s")
  from callsD [OF m s1] obtain d where d: "agent_log s1 = agent_log s @ d"
    "d \<in> (case r of Inl e \<Rightarrow> X | Inr x \<Rightarrow> N x)" by blast
  show "\<exists>cs. agent_log (snd (bindE m f s)) = agent_log s @ cs
     \<and> cs \<in> (case fst (bindE m f s) of Inl e \<Rightarrow> Y | Inr x \<Rightarrow> M x)"
  proof (cases r)
    case (Inl e)
    with d s1 F(1) show ?thesis by (auto simp: bindE_def)
  next
    case (Inr x)
    obtain q s2 where s2: "f x s1 = (q, s2)" by (cases "f x s1")
    from callsD [OF f s2] obtain e where e: "agent_log s2 = agent_log s1 @ e"
      "e \<in> (case q of Inl _ \<Rightarrow> G x | Inr y \<Rightarrow> E x y)" by blast
    have "bindE m f s = (q, s2)" using s1 s2 Inr by (simp add: bindE_def)
    moreover have "d @ e \<in> (case q of Inl _ \<Rightarrow> Y | Inr y \<Rightarrow> M y)"
      using d(2) e(2) Inr F(2,3) by (cases q) auto
    ultimately show ?thesis using d(1) e(1) by auto
  qed
qed

lemma calls_none: "(\<And>L. preserves (agent_is L) m) \<Longrightarrow> (\<And>x. [] \<in> N x) \<Longrightarrow> [] \<in> X \<Longrightarrow> calls m N X"
proof -
  assume p: "\<And>L. preserves (agent_is L) m" and D: "\<And>x. [] \<in> N x" "[] \<in> X"
  have "agent_log (snd (m s)) = agent_log s" for s
    using preservesD [OF p, of "agent_log s" s] by (simp add: agent_is_def)
  with D show ?thesis unfolding calls_def by (auto split: sum.split)
qed

lemma calls_quiet:
  assumes "\<And>L. preserves (agent_is L) m" "\<And>x. calls (f x) N X" "[] \<in> X"
  shows "calls (bindE m f) N X"
  by (rule calls_bind [OF calls_none [where N = "\<lambda>_. {[]}" and X = "{[]}"],
        where E = "\<lambda>_. N" and G = "\<lambda>_. X"]) (use assms in auto)

lemma calls_quiet_after:
  assumes "calls m (\<lambda>_. D) X" "\<And>x L. preserves (agent_is L) (f x)" "D \<subseteq> X"
  shows "calls (bindE m f) (\<lambda>_. D) X"
  using assms(3)
  by (intro calls_bind [OF assms(1) calls_none [where N = "\<lambda>_. {[]}" and X = "{[]}"]] assms(2)) auto

lemma calls_try:
  assumes m: "calls m N X" and q: "\<And>e L. preserves (agent_is L) (h e)"
    and P: "\<And>e s x s'. h e s = (Inr x, s') \<Longrightarrow> P x"
    and M: "\<And>x. N x \<subseteq> M x" "\<And>x. P x \<Longrightarrow> X \<subseteq> M x"
  shows "calls (try_except m h) M X"
  unfolding calls_def
proof
  fix s
  obtain r s1 where s1: "m s = (r, s1)" by (cases "m s")
  from callsD [OF m s1] obtain d where d: "agent_log s1 = agent_log s @ d"
    "d \<in> (case r of Inl e \<Rightarrow> X | Inr x \<Rightarrow> N x)" by blast
  show "\<exists>cs. agent_log (snd (try_except m h s)) = agent_log s @ cs
     \<and> cs \<in> (case fst (try_except m h s) of Inl e \<Rightarrow> X | Inr x \<Rightarrow> M x)"
  proof (cases r)
    case (Inl e)
    obtain v s2 where s2: "h e s1 = (v, s2)" by (cases "h e s1")
    have "agent_log s2 = agent_log s1"
      using preservesD [OF q [of "agent_log s1" e], of s1] s2 by (simp add: agent_is_def)
    moreover have "try_except m h s = (v, s2)" using s1 s2 Inl by (simp add: try_except_def)
    moreover have "d \<in> (case v of Inl _ \<Rightarrow> X | Inr x \<Rightarrow> M x)"
    proof (cases v)
      case (Inr y)
      then have "P y" using P s2 by simp
      then show ?thesis using M(2) d(2) Inl Inr by auto
    qed (use d(2) Inl in simp)
    ultimately show ?thesis using d(1) by auto
  qed (use d s1 M(1) in \<open>auto simp: try_except_def\<close>)
qed

lemma calls_in_quiet:
  "(\<And>L. preserves (agent_is L) m) \<Longrightarrow> (\<And>x. calls_in (f x) F) \<Longrightarrow> [] \<in> F \<Longrightarrow> calls_in (bindE m f) F"
  unfolding calls_in_def by (rule calls_quiet)

lemma calls_in_none: "(\<And>L. preserves (agent_is L) m) \<Longrightarrow> [] \<in> F \<Longrightarrow> calls_in m F"
  unfolding calls_in_def by (rule calls_none)

lemma calls_in_mono: "calls_in m F \<Longrightarrow> F \<subseteq> G \<Longrightarrow> calls_in m G"
  unfolding calls_in_def calls_def by (fastforce split: sum.splits)

lemma calls_in_bind:
  "calls m N X \<Longrightarrow> (\<And>x. calls_in (f x) (E x)) \<Longrightarrow> X \<subseteq> F \<Longrightarrow>
   (\<And>x d e. d \<in> N x \<Longrightarrow> e \<in> E x \<Longrightarrow> d @ e \<in> F) \<Longrightarrow> calls_in (bindE m f) F"
  unfolding calls_in_def by (rule calls_bind)

lemma quiet_attempts:
  "preserves (agent_is L) (open_attempt h nm t mo)" "preserves (agent_is L) (task_to_running h t)"
  "preserves (agent_is L) (settle_attempt h ti a oc)"
proof -
  have 1: "preserves (agent_is L) (attempt_event h a ty)" for h a ty
    unfolding attempt_event_def by (intro unheard.routing_pres)
  have 2: "preserves (agent_is L) (close_attempt h a st ty err)" for h a st ty err
    unfolding close_attempt_def Let_def by (intro unheard.routing_pres 1)
  show "preserves (agent_is L) (open_attempt h nm t mo)"
    unfolding open_attempt_def Let_def by (intro unheard.routing_pres 1)
  show "preserves (agent_is L) (task_to_running h t)"
    unfolding task_to_running_def harness_task_event_def by (intro unheard.routing_pres)
  show "preserves (agent_is L) (settle_attempt h ti a oc)"
    unfolding settle_attempt_def
    by (cases oc; simp only: agent_outcome.case) (intro unheard.routing_pres 2)+
qed

lemma harness_execute_calls:
  "calls (harness_execute h nm t pr (Some cfg) req) (\<lambda>_. {[(nm, t_id t, pr, cfg)]})
     {[], [(nm, t_id t, pr, cfg)]}"
proof -
  let ?c = "[(nm, t_id t, pr, cfg)]"
  have run: "calls (run_agent nm (t_id t) pr cfg) (\<lambda>_. {?c}) {[], ?c}"
    by (simp add: calls_def run_agent_def)
  have "calls (bindE (run_agent nm (t_id t) pr cfg) (settle_attempt h (t_id t) a)) (\<lambda>_. {?c}) {[], ?c}" for a
    by (rule calls_quiet_after [OF run]) (auto intro: quiet_attempts)
  then have "calls (bindE (open_attempt h nm t mo) (\<lambda>a. bindE (task_to_running h t) (\<lambda>_.
      bindE (run_agent nm (t_id t) pr cfg) (settle_attempt h (t_id t) a)))) (\<lambda>_. {?c}) {[], ?c}" for mo
    by (intro calls_quiet [OF quiet_attempts(1)] calls_quiet [OF quiet_attempts(2)]) simp_all
  moreover have "calls (throw e) (\<lambda>_. {?c}) {[], ?c}" for e by (simp add: calls_def throw_def)
  ultimately show ?thesis
    unfolding harness_execute_def Let_def by (auto split: option.split)
qed

lemma quiet_steps:
  "preserves (agent_is L) (poll_cancelled gn rid)" "preserves (agent_is L) (cancel_reason gn rid)"
  "preserves (agent_is L) measure_latency" "preserves (agent_is L) reserve_budget"
  "preserves (agent_is L) (spend_budget res)"
  by (auto simp: preserves_def poll_cancelled_def cancel_reason_def measure_latency_def act_defs
      reserve_budget_def spend_budget_def agent_is_def Let_def split: sum.splits)

lemma quiet_notes:
  "preserves (agent_is L) (reload_task t)" "preserves (agent_is L) (note_observation gn r t key ok role lat)"
  "preserves (agent_is L) (mark_task_ready pid t)"
  unfolding reload_task_def note_observation_def
  by (intro unheard.routing_pres unheard.scheduler_pres)+

text \<open>The model each candidate stands for, and the models of a list of calls.\<close>

definition model_of :: "model_entry option \<Rightarrow> string" where
  "model_of cand = (case cand of None \<Rightarrow> ''default'' | Some c \<Rightarrow> m_command_code_id c)"

definition models_called :: "call_list \<Rightarrow> string list" where
  "models_called cs = List.map (\<lambda>(_, _, _, cfg). rc_model cfg) cs"

definition in_order :: "string list \<Rightarrow> call_list set" where
  "in_order ms = {cs. prefix (models_called cs) ms}"

lemma in_order_Nil [simp]: "[] \<in> in_order ms"
  by (simp add: in_order_def models_called_def)

lemma in_order_Cons:
  "d \<in> {c. models_called c = [m]} \<Longrightarrow> e \<in> in_order ms \<Longrightarrow> d @ e \<in> in_order (m # ms)"
  by (simp add: in_order_def models_called_def)

lemma awaited_calls:
  "calls (awaited_attempt gn r t n role rn mid)
     (\<lambda>x. case x of None \<Rightarrow> in_order [mid] | Some _ \<Rightarrow> {c. models_called c = [mid]}) (in_order [mid])"
  (is "calls _ ?M _")
proof -
  let ?cfg = "mk_runner_config mid (command_code_max_turns (gn_config gn))
                 (command_code_timeout_seconds (gn_config gn)) role"
  let ?c = "[(rn, t_id t, prompt_for n, ?cfg)]"
  have c: "models_called ?c = [mid]" by (simp add: models_called_def mk_runner_config_def)
  have ret: "calls (ret (Some x)) (\<lambda>y. if y = None then {} else {[]}) {}" for x
    by (simp add: calls_def ret_def)
  have "calls (bindE (harness_execute (gn_harness gn) rn t (prompt_for n) (Some ?cfg) []) (\<lambda>x. ret (Some x)))
      (\<lambda>y. if y = None then {} else {?c}) (in_order [mid])"
    by (rule calls_bind [OF harness_execute_calls ret]) (auto simp: in_order_def models_called_def mk_runner_config_def split: if_splits)
  then show ?thesis
    unfolding awaited_attempt_def
  proof (rule calls_try)
    show "preserves (agent_is L) (if e = CancelledError
            then bindE (poll_cancelled gn (r_id r)) (\<lambda>c. if \<not> c then throw e else ret None)
            else throw e)" for e L by (intro pres quiet_steps)
    show "x = None" if "(if e = CancelledError
            then bindE (poll_cancelled gn (r_id r)) (\<lambda>c. if \<not> c then throw e else ret None)
            else throw e) s = (Inr x, s')" for e s s' and x :: "(runner_result \<times> attempt) option"
      using that by (auto simp: act_defs split: if_splits prod.splits sum.splits)
  qed (auto simp: c split: option.split)
qed

lemma calls_in_option:
  "(y = None \<Longrightarrow> calls_in m F) \<Longrightarrow> (\<And>x. y = Some x \<Longrightarrow> calls_in (f x) F) \<Longrightarrow>
   calls_in (case y of None \<Rightarrow> m | Some x \<Rightarrow> f x) F"
  by (cases y) simp_all

lemma calls_in_if: "calls_in m F \<Longrightarrow> calls_in n F \<Longrightarrow> calls_in (if b then m else n) F"
  by simp

lemma calls_in_ret: "[] \<in> F \<Longrightarrow> calls_in (ret x) F"
  by (simp add: calls_in_none pres)

lemma fallback_calls:
  "calls_in (fallback_loop gn r t n role rn cap i cs lp oc) (in_order (List.map model_of cs))"
proof (induction cs arbitrary: t i lp oc)
  case (Cons c cs)
  let ?E = "\<lambda>x. case x of None \<Rightarrow> {[]} | Some _ \<Rightarrow> in_order (List.map model_of cs)"
  have order: "in_order [model_of c] \<subseteq> in_order (List.map model_of (c # cs))"
    by (auto simp: in_order_def prefix_Cons)
  have join: "d @ e \<in> in_order (List.map model_of (c # cs))"
    if "d \<in> (case x of None \<Rightarrow> in_order [model_of c] | Some _ \<Rightarrow> {d. models_called d = [model_of c]})"
      "e \<in> ?E x" for x d e
    using that order in_order_Cons by (cases x) auto
  show ?case
    unfolding fallback_loop.simps Let_def model_of_def [symmetric]
    apply (rule calls_in_quiet, rule quiet_steps)
    apply (rule calls_in_option)
    apply (rule calls_in_bind [OF awaited_calls, where E = ?E])
       apply (case_tac xa)
        apply (simp add: calls_in_quiet quiet_steps calls_in_ret)
        apply (simp only: option.case split: prod.split, intro allI impI)
        apply (intro calls_in_quiet quiet_steps quiet_notes calls_in_if calls_in_ret Cons.IH in_order_Nil pres)
      apply (rule order)
     apply (rule join; assumption)
    by (auto simp: calls_in_ret)
qed (auto intro: calls_in_none pres)

section \<open>What success takes\<close>

lemma gives_skip: "(\<And>x. gives (\<lambda>_. True) (f x) Q) \<Longrightarrow> gives (\<lambda>_. True) (bindE m f) Q"
  by (rule gives_bind [where R = "\<lambda>_ _. True"]) (simp_all add: gives_def)

lemma gives_option:
  "gives P m Q \<Longrightarrow> (\<And>x. gives P (f x) Q) \<Longrightarrow> gives P (case y of None \<Rightarrow> m | Some x \<Rightarrow> f x) Q"
  by (cases y) simp_all

lemma gives_prod: "(\<And>a b. gives P (f a b) Q) \<Longrightarrow> gives P (case p of (a, b) \<Rightarrow> f a b) Q"
  by (cases p) simp

lemma gives_guard: "(A \<Longrightarrow> gives (\<lambda>_. True) m Q) \<Longrightarrow> gives (\<lambda>_. A) m Q"
  by (auto simp: gives_def)

lemmas gives_rules = gives_skip gives_option gives_prod gives_if gives_throw gives_ret

text \<open>An outcome that nothing has been decided about yet, but for its worktree and its review.\<close>

definition undecided :: "string \<Rightarrow> worktree option \<Rightarrow> string list \<Rightarrow> task_outcome \<Rightarrow> bool" where
  "undecided i w vs oc \<longleftrightarrow> to_task_id oc = i \<and> \<not> to_succeeded oc \<and> to_review_verdict oc \<in> set vs
     \<and> to_worktree oc = w \<and> to_integration oc = None"

definition honest :: "goal_runner \<Rightarrow> run \<Rightarrow> string \<Rightarrow> task_outcome \<Rightarrow> 'z goal_db_scheme \<Rightarrow> bool" where
  "honest gn r i oc s \<longleftrightarrow> to_task_id oc = i \<and> (to_succeeded oc \<longrightarrow>
     (\<exists>u. row_by t_id i (tasks s) = Some u \<and> t_state u = T_SUCCEEDED)
   \<and> (\<exists>e \<in> set (evidence_rows s). ev_gate e = BUILD \<and> ev_verdict e = PASSED
        \<and> ev_task_id e = Some i \<and> ev_run_id e = Some (r_id r))
   \<and> (to_worktree oc \<noteq> None \<and> gn_worktrees gn \<noteq> None \<longrightarrow>
        (\<exists>x. to_integration oc = Some x \<and> ir_integrated x))
   \<and> to_review_verdict oc \<in> {[], verdict_str PASSED})"

lemma undecided_honest: "undecided i w vs oc \<Longrightarrow> honest gn r i oc s"
  by (simp add: undecided_def honest_def)

lemma gives_undecided: "undecided i w vs oc \<Longrightarrow> gives (\<lambda>_. True) (ret oc) (honest gn r i)"
  by (simp add: gives_ret undecided_honest)

lemma fallback_undecided:
  "undecided i w vs oc \<Longrightarrow>
   gives (\<lambda>_. True) (fallback_loop gn r t n role rn cap k cs lp oc) (\<lambda>x _. undecided i w vs (snd x))"
proof (induction cs arbitrary: t k lp oc)
  case (Cons c cs)
  have u: "undecided i w vs (oc\<lparr>to_error := m, to_budget_stopped := b\<rparr>)"
    "undecided i w vs (oc\<lparr>to_cancelled := b, to_error := m\<rparr>)"
    "undecided i w vs (oc\<lparr>to_attempt_id := m, to_model_key := m2, to_provider := m3, to_fallback_attempts := k\<rparr>)"
    "undecided i w vs (oc\<lparr>to_attempt_id := m, to_model_key := m2, to_provider := m3,
       to_fallback_attempts := k, to_error := m4\<rparr>)" for b m m2 m3 m4 k
    using Cons.prems by (simp_all add: undecided_def)
  show ?case
    unfolding fallback_loop.simps Let_def
    by (intro gives_rules Cons.IH) (simp_all add: u)
qed (simp add: gives_ret)

lemma review_undecided:
  assumes "undecided i w [[]] oc"
  shows "gives (\<lambda>_. True) (cross_provider_review gn r t n oc rn w')
     (\<lambda>x _. undecided i w (if fst x then [[], verdict_str PASSED] else [[], verdict_str PASSED, verdict_str FAILED]) (snd x))"
  unfolding cross_provider_review_def Let_def using assms
  by (intro gives_rules) (auto simp: undecided_def)

lemma complete_task_gives:
  "gives P (complete_task pid t) (\<lambda>t' s. row_by t_id (t_id t) (tasks s) = Some (t\<lparr>t_state := T_SUCCEEDED\<rparr>))"
proof (rule givesI)
  fix s t' s' assume c: "complete_task pid t s = (Inr t', s')"
  obtain e where "task_event t TASK_SUCCEEDED [] pid s = (Inr e, stamped s)" using event_ok(2) by blast
  with c show "row_by t_id (t_id t) (tasks s') = Some (t\<lparr>t_state := T_SUCCEEDED\<rparr>)"
    by (auto simp: complete_task_def bindE_def record_task_transition_eq row_by_upsert split: if_splits)
qed

definition build_passed :: "run \<Rightarrow> string \<Rightarrow> 'z db_scheme \<Rightarrow> bool" where
  "build_passed r i s \<longleftrightarrow> (\<exists>e \<in> set (evidence_rows s). ev_gate e = BUILD \<and> ev_verdict e = PASSED
     \<and> ev_task_id e = Some i \<and> ev_run_id e = Some (r_id r))"

lemma complete_task_keeps_evidence: "preserves (build_passed r i) (complete_task pid t)"
proof (rule preservesI)
  fix s :: "'z db_scheme" assume b: "build_passed r i s"
  obtain e where "task_event t TASK_SUCCEEDED [] pid s = (Inr e, stamped s)" using event_ok(2) by blast
  with b show "build_passed r i (snd (complete_task pid t s))"
    by (auto simp: complete_task_def bindE_def record_task_transition_eq build_passed_def split: if_splits)
qed

lemma record_gate_gives:
  "gives P (record_gate r t BUILD PASSED d k) (\<lambda>_. build_passed r (t_id t))"
  by (rule givesI)
    (auto simp: record_gate_def evidence_new_def new_id_def now_iso_def record_evidence_def
      attach_evidence_def save_evidence_def execute_def require_conn_def stmt_defs act_defs
      build_passed_def set_upsert split: if_splits)

lemma pass_gives:
  assumes "to_task_id oc = t_id t" "to_review_verdict oc \<in> {[], verdict_str PASSED}"
    and "to_worktree oc \<noteq> None \<and> gn_worktrees gn \<noteq> None \<longrightarrow>
      (\<exists>x. to_integration oc = Some x \<and> ir_integrated x)"
  shows "gives (\<lambda>_. True) (bindE (record_gate r t BUILD PASSED d k) (\<lambda>_.
      bindE (complete_task pid t) (\<lambda>_. ret (oc\<lparr>to_succeeded := True\<rparr>)))) (honest gn r (t_id t))"
  by (rule gives_bind [OF record_gate_gives],
      rule gives_bind [OF gives_both [OF gives_keep [OF complete_task_keeps_evidence] complete_task_gives [where P = "\<lambda>_. True"],
        THEN gives_weaken]], simp, rule gives_ret)
    (use assms in \<open>auto simp: honest_def build_passed_def\<close>)

lemma finish_gives:
  assumes "undecided (t_id t) w [[], verdict_str PASSED] oc"
  shows "gives (\<lambda>_. True) (finish_task gn r t w target a oc) (honest gn r (t_id t))"
proof (cases "w = None \<or> gn_worktrees gn = None")
  case True
  then have "gives (\<lambda>_. True) (bindE (record_gate r t BUILD PASSED d k) (\<lambda>_.
      bindE (complete_task pid t) (\<lambda>_. ret (oc\<lparr>to_succeeded := True\<rparr>)))) (honest gn r (t_id t))" for d k pid
    using assms by (intro pass_gives) (auto simp: undecided_def)
  with True show ?thesis by (auto simp: finish_task_def split: option.split)
next
  case False
  then obtain w' m where w: "w = Some w'" "gn_worktrees gn = Some m" by auto
  have "gives (\<lambda>_. True) (if \<not> ir_integrated x
      then bindE (record_gate r t BUILD FAILED (ir_reason x) k) (\<lambda>_. bindE (fail_task pid t (ir_reason x))
             (\<lambda>_. ret (oc\<lparr>to_integration := Some x, to_error := ir_reason x\<rparr>)))
      else bindE (record_gate r t BUILD PASSED d k) (\<lambda>_. bindE (complete_task pid t)
             (\<lambda>_. ret (oc\<lparr>to_integration := Some x, to_succeeded := True\<rparr>)))) (honest gn r (t_id t))" for x d k pid
  proof (cases "ir_integrated x")
    case True
    with assms have "gives (\<lambda>_. True) (bindE (record_gate r t BUILD PASSED d k) (\<lambda>_.
      bindE (complete_task pid t) (\<lambda>_. ret ((oc\<lparr>to_integration := Some x\<rparr>)\<lparr>to_succeeded := True\<rparr>))))
      (honest gn r (t_id t))" by (intro pass_gives) (auto simp: undecided_def)
    with True show ?thesis by simp
  next
    case False
    then have "honest gn r (t_id t) (oc\<lparr>to_integration := Some x, to_error := ir_reason x\<rparr>) s" for s
      using assms by (simp add: honest_def undecided_def)
    with False show ?thesis by (auto intro!: gives_rules)
  qed
  then show ?thesis by (simp add: finish_task_def w Let_def) (intro gives_skip; assumption)
qed

lemma judge_gives:
  assumes u: "undecided (t_id t) w [[]] oc"
  shows "gives (\<lambda>_. True) (judge_task gn r t n rn target w lp oc) (honest gn r (t_id t))"
proof -
  have 1: "honest gn r (t_id t) oc s" "honest gn r (t_id t) (oc\<lparr>to_error := m\<rparr>) s" for m s
    using u by (simp_all add: undecided_def honest_def)
  have 2: "gives (\<lambda>_. True) (bindE (if is_high_risk n then cross_provider_review gn r t n oc rn w
                      else ret (True, oc)) (\<lambda>(ok, oc').
               if \<not> ok then bindE (fail_task pid t (to_error oc')) (\<lambda>_. ret oc')
               else finish_task gn r t w target a oc')) (honest gn r (t_id t))" for pid a
  proof (rule gives_bind)
    let ?R = "\<lambda>x _. undecided (t_id t) w
      (if fst x then [[], verdict_str PASSED] else [[], verdict_str PASSED, verdict_str FAILED]) (snd x)"
    show "gives (\<lambda>_. True) (if is_high_risk n then cross_provider_review gn r t n oc rn w else ret (True, oc)) ?R"
      using review_undecided [OF u] u by (auto intro!: gives_ret simp: undecided_def)
    fix x :: "bool \<times> task_outcome"
    obtain ok oc' where x: "x = (ok, oc')" by (cases x)
    show "gives (?R x) (case x of (ok, oc') \<Rightarrow> if \<not> ok then bindE (fail_task pid t (to_error oc')) (\<lambda>_. ret oc')
               else finish_task gn r t w target a oc') (honest gn r (t_id t))"
    proof (cases "undecided (t_id t) w
        (if ok then [[], verdict_str PASSED] else [[], verdict_str PASSED, verdict_str FAILED]) oc'")
      case und: True
      show ?thesis
      proof (cases ok)
        case True
        with und show ?thesis
          by (simp add: x) (rule gives_weaken [OF finish_gives], simp_all)
      next
        case False
        have "honest gn r (t_id t) oc' s" for s using und by (rule undecided_honest)
        then have "gives (\<lambda>_. True) (bindE (fail_task pid t (to_error oc')) (\<lambda>_. ret oc')) (honest gn r (t_id t))"
          by (intro gives_rules)
        with False show ?thesis by (simp add: x) (erule gives_weaken, simp)
      qed
    qed (simp add: x gives_def)
  qed
  show ?thesis
    unfolding judge_task_def Let_def
    by (intro gives_if gives_option gives_prod 2 gives_skip gives_ret 1)
qed

lemma reload_task_id: "gives P (reload_task t) (\<lambda>t' _. t_id t' = t_id t)"
  by (rule givesI) (auto simp: reload_task_def ret_def dest: row_by_key elim!: bindE_OkE split: option.splits)

lemma run_ready_gives:
  assumes u: "undecided (t_id t) w0 [[]] oc"
  shows "gives (\<lambda>_. True) (run_ready_task gn r n rn target d oc t) (honest gn r (t_id t))"
proof -
  have "gives (\<lambda>_. True) (bindE (attempt_with_fallback gn r t n role d rn (oc\<lparr>to_worktree := w\<rparr>))
      (\<lambda>(lp, oc'). bindE (reload_task t) (\<lambda>t2. judge_task gn r t2 n rn target w lp oc')))
      (honest gn r (t_id t))" for w role
  proof (rule gives_bind)
    have "undecided (t_id t) w [[]] (oc\<lparr>to_worktree := w\<rparr>)" using u by (simp add: undecided_def)
    then show "gives (\<lambda>_. True) (attempt_with_fallback gn r t n role d rn (oc\<lparr>to_worktree := w\<rparr>))
        (\<lambda>x _. undecided (t_id t) w [[]] (snd x))"
      unfolding attempt_with_fallback_def Let_def by (intro gives_skip fallback_undecided)
    fix x :: "attempt_pair \<times> task_outcome"
    obtain lp oc' where x: "x = (lp, oc')" by (cases x)
    have "gives (\<lambda>_. undecided (t_id t) w [[]] oc') (bindE (reload_task t)
        (\<lambda>t2. judge_task gn r t2 n rn target w lp oc')) (honest gn r (t_id t))"
    proof (rule gives_bind)
      show "gives (\<lambda>_. undecided (t_id t) w [[]] oc') (reload_task t)
          (\<lambda>t2 _. t_id t2 = t_id t \<and> undecided (t_id t) w [[]] oc')"
        using reload_task_id [of "\<lambda>_. True" t] by (auto simp: gives_def)
      fix t2
      show "gives (\<lambda>_. t_id t2 = t_id t \<and> undecided (t_id t) w [[]] oc')
          (judge_task gn r t2 n rn target w lp oc') (honest gn r (t_id t))"
        by (rule gives_guard) (metis judge_gives)
    qed
    then show "gives (\<lambda>_. undecided (t_id t) w [[]] (snd x)) (case x of (lp, oc') \<Rightarrow>
        bindE (reload_task t) (\<lambda>t2. judge_task gn r t2 n rn target w lp oc')) (honest gn r (t_id t))"
      by (simp add: x)
  qed
  then show ?thesis unfolding run_ready_task_def by (rule gives_skip)
qed

lemma mark_ready_id: "gives P (mark_task_ready pid t) (\<lambda>t' _. t_id t' = t_id t)"
proof (rule givesI)
  fix s t' s' assume c: "mark_task_ready pid t s = (Inr t', s')"
  obtain e where "task_event t TASK_READY [] pid s = (Inr e, stamped s)" using event_ok(2) by blast
  with c show "t_id t' = t_id t"
    by (auto simp: mark_task_ready_def bindE_def record_task_transition_eq split: if_splits)
qed

lemma run_task_gives: "gives (\<lambda>_. True) (run_task gn r t n rn target) (honest gn r (t_id t))"
proof -
  have u: "undecided (t_id t) None [[]] (mk_outcome t)" by (simp add: undecided_def mk_outcome_def)
  have 1: "gives (\<lambda>_. True) (bindE (mark_task_ready pid t) (run_ready_task gn r n rn target d (mk_outcome t)))
      (honest gn r (t_id t))" for pid d
    by (rule gives_bind [OF mark_ready_id], rule gives_guard) (metis run_ready_gives u)
  have 2: "honest gn r (t_id t) ((mk_outcome t)\<lparr>to_cancelled := b, to_error := m\<rparr>) s" for b m s
    by (simp add: honest_def mk_outcome_def)
  show ?thesis unfolding run_task_def Let_def by (intro gives_if gives_skip 1 gives_ret 2)
qed

section \<open>The order of the fallback\<close>

lemma role_candidates_distinct: "distinct (List.map m_key (role_candidates role))"
proof (cases "map_of ROLE_DEFAULTS role")
  case None
  then show ?thesis unfolding role_candidates_def None option.case by code_simp
next
  case (Some order)
  have "list_all (\<lambda>(r, ks). distinct (List.map m_key (List.map_filter (map_of model_by_key) ks))) ROLE_DEFAULTS"
    by code_simp
  moreover have "(role, order) \<in> set ROLE_DEFAULTS" using Some by (rule map_of_SomeD)
  ultimately show ?thesis unfolding role_candidates_def Some option.case by (auto simp: list_all_iff)
qed

lemma keep_selected:
  "distinct (List.map m_key xs) \<Longrightarrow> find P xs = Some c \<Longrightarrow>
   c # filter (\<lambda>d. m_key d \<noteq> m_key c) (filter P xs) = filter P xs"
proof (induction xs)
  case (Cons x xs)
  show ?case
  proof (cases "P x")
    case True
    with Cons.prems have "c = x" "\<forall>d \<in> set xs. m_key d \<noteq> m_key x" by (auto simp: image_iff)
    with True show ?thesis by (auto intro: filter_cong)
  qed (use Cons in \<open>auto simp: find_Some_iff\<close>)
qed simp

lemma fallback_candidates_eq:
  "fallback_candidates av (route av role) =
     (let reachable = filter (is_reachable av) (role_candidates role)
      in if reachable = [] then [None] else List.map Some reachable)"
proof (cases "find (is_reachable av) (role_candidates role)")
  case None
  then have f: "filter (is_reachable av) (role_candidates role) = []" by (simp add: find_None_iff filter_empty_conv)
  with None show ?thesis
    by (simp add: fallback_candidates_def route_def route_loop_selected)
next
  case (Some c)
  have sel: "rd_selected (route av role) = Some c" "rd_candidates (route av role) = role_candidates role"
    using Some by (simp_all add: route_def route_loop_selected)
  show ?thesis
    unfolding fallback_candidates_def Let_def sel option.case
      keep_selected [OF role_candidates_distinct Some] by (simp del: filter_False)
qed

section \<open>A concrete program of work\<close>

text \<open>Two tasks, the second after the first; an agent that succeeds and reports ten tokens; git that
  answers every command with an empty success.\<close>

definition demo_node :: "string \<Rightarrow> string list \<Rightarrow> string list \<Rightarrow> task_node" where
  "demo_node i deps scope = \<lparr>n_id = i, n_objective = ''do '' @ i, n_dependencies = deps,
     n_write_scope = scope, n_gates = [], n_risk = LOW, n_parallelizable = True, n_capabilities = []\<rparr>"


definition demo_result :: "bool \<Rightarrow> string \<Rightarrow> runner_result" where
  "demo_result ok task_id = \<lparr>rs_task_id = task_id, rs_success = ok, rs_output = [], rs_error = [],
     rs_transcript = [], rs_evidence = [(''tokens'', ''10'')]\<rparr>"

definition demo_db :: "bool \<Rightarrow> goal_db" where
  "demo_db ok = \<lparr>uuid_hex = nat_str, clock_iso = nat_str, draws = 0, ticks = 0, db_open = True,
     listeners = [], delivered = [], runs = [], tasks = [], attempts = [], events = [],
     evidence_rows = [], plans = [],
     git_out = (\<lambda>_ _ _. ([], [], 0)), git_log = [],
     available_models = [], scores = [], observations = [], route_decisions = [],
     agent_out = (\<lambda>_ _ task_id _ _. Returned (demo_result ok task_id)), agent_log = [],
     attached = [], repairs = [],
     shell_out = (\<lambda>_ _ _. Exited 0 []), shell_log = [],
     budget = ledger_from_config (default_config ''/p'' ''p'' (\<lambda>_. [])) 0,
     requested = [], arrivals = (\<lambda>_. []), polls = 0, latency = (\<lambda>_. 0), meters = 0\<rparr>"

definition demo_runner :: "int \<Rightarrow> goal_runner" where
  "demo_runner tokens = \<lparr>gn_config = (default_config ''/p'' ''p'' (\<lambda>_. []))\<lparr>max_tokens_per_run := tokens\<rparr>,
     gn_harness = \<lparr>h_project_id = ''p'', h_runners = [(''dummy'', [])]\<rparr>,
     gn_worktrees = None, gn_routing_store = True, gn_cancellation = True, gn_commands = [],
     gn_redact = (\<lambda>s. s), gn_format_g = (\<lambda>_. ''n''), gn_set_order = (\<lambda>xs. xs)\<rparr>"



lemma execute_goal_some: "gives (\<lambda>_. True) (execute_goal gn p gr rn target) (\<lambda>x _. x \<noteq> None)"
proof -
  let ?rest = "\<lambda>r (ending :: task_outcome list option). case ending of
                None \<Rightarrow> ret None
              | Some outcomes \<Rightarrow>
                  bindE (poll_cancelled gn (r_id r)) (\<lambda>stop.
                  bindE (if stop then wind_down gn r outcomes else close_run gn r outcomes)
                    (\<lambda>rep. ret (Some rep)))"
  have loop: "gives (\<lambda>s. planned = planned_of_run (r_id r) s)
      (run_loop gn r nodes rn target (Suc (length planned)) []) (\<lambda>ending _. ending \<noteq> None)" for planned r nodes
  proof (rule givesI)
    fix s x s' assume pl: "planned = planned_of_run (r_id r) s"
      and run: "run_loop gn r nodes rn target (Suc (length planned)) [] s = (Inr x, s')"
    have "card (planned_ids (r_id r) s) < Suc (length planned)"
      using planned_of_run_length [of "r_id r" s] by (simp add: pl)
    from run_loop_ends [OF this, of gn nodes rn target "[]"] run show "x \<noteq> None" by (metis fst_conv)
  qed
  have gets: "gives (\<lambda>_. True) (gets (planned_of_run i)) (\<lambda>planned s. planned = planned_of_run i s)" for i
    by (simp add: gives_def gets_def)
  have tail: "gives (\<lambda>_. True) (?rest r ending) (\<lambda>x _. x \<noteq> None)" if "ending \<noteq> None" for r ending
    using that by (cases ending) (auto intro!: gives_skip gives_ret)
  have "gives (\<lambda>_. True) (bindE (gets (planned_of_run (r_id r))) (\<lambda>planned.
      bindE (run_loop gn r nodes rn target (Suc (length planned)) []) (?rest r))) (\<lambda>x _. x \<noteq> None)" for r nodes
    by (rule gives_bind [OF gets], rule gives_bind [OF loop], rule gives_guard, rule tail)
  then show ?thesis
    unfolding execute_goal_def Let_def
    by (intro gives_if gives_throw, intro gives_skip [where m = "open_run gn p gr"] gives_prod)
qed


definition one_task_db :: goal_db where
  "one_task_db = (demo_db True)\<lparr>runs := [sample_run R_RUNNING], tasks := [sample_task ''t'' T_PLANNED []]\<rparr>"

lemma one_task_succeeds:
  "case run_task (demo_runner 1000) (sample_run R_RUNNING) (sample_task ''t'' T_PLANNED [])
      (demo_node ''a'' [] []) ''dummy'' ''main'' one_task_db of
     (Inr oc, s') \<Rightarrow> to_succeeded oc | _ \<Rightarrow> False"
  by code_simp

section \<open>Properties\<close>

text \<open>C1. Executing a plan always ends: the loop over the batches of ready tasks never uses up its fuel,
  whatever the plan, the configuration, the agent, git and the requests to cancel are.\<close>

theorem execute_goal_ends: "fst (execute_goal gn p goal_revision runner target s) \<noteq> Inr None"
proof
  assume "fst (execute_goal gn p goal_revision runner target s) = Inr None"
  then have "execute_goal gn p goal_revision runner target s
      = (Inr None, snd (execute_goal gn p goal_revision runner target s))" by (metis prod.collapse)
  from givesD [OF execute_goal_some _ this] show False by simp
qed





text \<open>The batches run in parallel are a partition of the ready tasks, none is larger than the
  configured limit, and in each of them the write scopes of any two tasks can coexist.\<close>

theorem parallel_batches_correct:
  assumes "\<forall>t \<in> set ready. map_of nodes (t_id t) \<noteq> None"
  shows "\<exists>bs. parallel_batches c nodes ready = Inr bs \<and> mset (concat bs) = mset ready
     \<and> (\<forall>b \<in> set bs. b \<noteq> [] \<and> length b \<le> nat (max 1 (max_parallel_tasks c))
          \<and> sorted_wrt (\<lambda>u t. can_coexist (n_write_scope (the (map_of nodes (t_id u))))
                                          (n_write_scope (the (map_of nodes (t_id t))))) b)"
proof -
  have "find (\<lambda>t. map_of nodes (t_id t) = None) ready = None" using assms by (simp add: find_None_iff)
  then have "parallel_batches c nodes ready = Inr (batches_of (batch_fits c nodes) ready)"
    by (simp add: parallel_batches_def)
  then show ?thesis
    using run_batches.batches_partition run_batches.batches_pairwise run_batches.batches_limit
      run_batches.batches_good unfolding run_batches.good_def by blast
qed

theorem parallel_batches_correct_witness:
  "let nodes = [(''t'', demo_node ''a'' [] [''src'']), (''u'', demo_node ''b'' [] [''src/x'']),
         (''v'', demo_node ''c'' [] [''docs''])];
       ready = List.map (\<lambda>i. sample_task i T_PLANNED []) [''t'', ''u'', ''v'']
   in \<exists>bs. parallel_batches (default_config ''/p'' ''p'' (\<lambda>_. [])) nodes ready = Inr bs
      \<and> mset (concat bs) = mset ready \<and> length bs = 2"
proof -
  let ?nodes = "[(''t'', demo_node ''a'' [] [''src'']), (''u'', demo_node ''b'' [] [''src/x'']),
         (''v'', demo_node ''c'' [] [''docs''])]"
  let ?ready = "List.map (\<lambda>i. sample_task i T_PLANNED []) [''t'', ''u'', ''v'']"
  let ?c = "default_config ''/p'' ''p'' (\<lambda>_. [])"
  have n: "\<forall>t \<in> set ?ready. map_of ?nodes (t_id t) \<noteq> None" by simp
  have "(case parallel_batches ?c ?nodes ?ready of Inr bs \<Rightarrow> length bs = 2 | Inl _ \<Rightarrow> False)" by code_simp
  with parallel_batches_correct [OF n, of ?c] show ?thesis unfolding Let_def by (auto simp del: list.map)
qed

text \<open>The models tried for a role are its reachable candidates, each once and in the role's order of
  preference, the routed one first; when none is reachable, the harness's default model alone.\<close>

theorem fallback_is_preference_order:
  "fallback_candidates available (route available role) =
     (if filter (is_reachable available) (role_candidates role) = [] then [None]
      else List.map Some (filter (is_reachable available) (role_candidates role)))
   \<and> distinct (List.map m_key (role_candidates role))"
  using fallback_candidates_eq [of available role] role_candidates_distinct by (simp add: Let_def)

text \<open>The attempts at a task are bounded: the models called are the first candidates in their order,
  at most one more than \<open>max_fallback_attempts\<close>, however the attempts end.\<close>

theorem attempts_bounded:
  "\<exists>cs. agent_log (snd (attempt_with_fallback gn r t n role decision runner outcome s)) = agent_log s @ cs
     \<and> length cs \<le> 1 + nat (max 0 (max_fallback_attempts (gn_config gn)))
     \<and> prefix (List.map (\<lambda>(_, _, _, cfg). rc_model cfg) cs)
         (List.map model_of (fallback_candidates (available_models s) decision))"
proof -
  let ?cs = "fallback_candidates (available_models s) decision"
  let ?k = "min (length ?cs) (1 + nat (max 0 (max_fallback_attempts (gn_config gn))))"
  have "calls_in (fallback_loop gn r t n role runner ?k 0 (take ?k ?cs) None outcome)
      (in_order (List.map model_of (take ?k ?cs)))" by (rule fallback_calls)
  then obtain cs where cs: "agent_log (snd (fallback_loop gn r t n role runner ?k 0 (take ?k ?cs) None outcome s))
      = agent_log s @ cs" "cs \<in> in_order (List.map model_of (take ?k ?cs))"
    unfolding calls_in_def calls_def by (fastforce split: sum.splits)
  have p: "prefix (models_called cs) (take ?k (List.map model_of ?cs))"
    using cs(2) by (simp add: in_order_def take_map)
  have "length cs \<le> ?k" using prefix_length_le [OF p] by (simp add: models_called_def)
  moreover have "prefix (models_called cs) (List.map model_of ?cs)"
    using p take_is_prefix prefix_order.trans by blast
  moreover have "attempt_with_fallback gn r t n role decision runner outcome s
      = fallback_loop gn r t n role runner ?k 0 (take ?k ?cs) None outcome s"
    by (simp add: attempt_with_fallback_def Let_def bindE_def gets_def)
  ultimately show ?thesis using cs(1) unfolding models_called_def by (metis min.bounded_iff)
qed

text \<open>C4. A task that is reported as succeeded has succeeded in the database, has passing build evidence
  of this run, was integrated without conflict when it had a worktree, and was not rejected by a
  reviewer.\<close>

theorem success_is_honest:
  assumes "run_task gn r t n runner target s = (Inr oc, s')" and "to_succeeded oc"
  shows "to_task_id oc = t_id t
     \<and> (\<exists>u. row_by t_id (t_id t) (tasks s') = Some u \<and> t_state u = T_SUCCEEDED)
     \<and> (\<exists>e \<in> set (evidence_rows s'). ev_gate e = BUILD \<and> ev_verdict e = PASSED
          \<and> ev_task_id e = Some (t_id t) \<and> ev_run_id e = Some (r_id r))
     \<and> (to_worktree oc \<noteq> None \<and> gn_worktrees gn \<noteq> None \<longrightarrow>
          (\<exists>x. to_integration oc = Some x \<and> ir_integrated x))
     \<and> to_review_verdict oc \<in> {[], verdict_str PASSED}"
proof -
  have "honest gn r (t_id t) oc s'" using givesD [OF run_task_gives _ assms(1)] by simp
  with assms(2) show ?thesis by (simp add: honest_def)
qed

theorem success_is_honest_witness:
  "\<exists>oc s'. run_task (demo_runner 1000) (sample_run R_RUNNING) (sample_task ''t'' T_PLANNED [])
      (demo_node ''a'' [] []) ''dummy'' ''main'' one_task_db = (Inr oc, s')
    \<and> to_task_id oc = ''t'' \<and> (\<exists>u. row_by t_id ''t'' (tasks s') = Some u \<and> t_state u = T_SUCCEEDED)"
proof -
  let ?x = "run_task (demo_runner 1000) (sample_run R_RUNNING) (sample_task ''t'' T_PLANNED [])
      (demo_node ''a'' [] []) ''dummy'' ''main'' one_task_db"
  obtain oc s' where x: "?x = (Inr oc, s')" and ok: "to_succeeded oc"
    using one_task_succeeds by (auto split: prod.splits sum.splits)
  from success_is_honest [OF x ok] x show ?thesis by auto
qed


end
