(* ===== verification/GoalCompletion.thy ===== *)
theory GoalCompletion
  imports GateTypes
begin

text \<open>
  The rule that a Goal is DONE only with evidence (\<open>verification/goal_completion.py\<close>, with the Goal of
  \<open>goals/models.py\<close>): the check against evidence records, completing a Goal file, and the check of the
  evidence a Goal file declares. A Goal file is the dictionary its YAML loads to; writing it back is the
  new dictionary.
\<close>

record goal_gates =
  gg_build :: string
  gg_tests :: string
  gg_review :: string
  gg_documentation :: string

record goal =
  g_id :: string
  g_phase :: string
  g_title :: string
  g_state :: string
  g_objective :: string
  g_constraints :: "string list"
  g_non_goals :: "string list"
  g_dependencies :: "string list"
  g_acceptance :: "string list"
  g_gates :: goal_gates
  g_evidence :: "json list"
  g_history :: "string list"

definition gates_dump :: "goal_gates \<Rightarrow> (string \<times> string) list" where
  "gates_dump gg = [(''build'', gg_build gg), (''tests'', gg_tests gg), (''review'', gg_review gg),
     (''documentation'', gg_documentation gg)]"

section \<open>Declared verdicts\<close>

definition NON_PASSING_VERDICTS :: "string list" where
  "NON_PASSING_VERDICTS = [''FAILED'', ''FAIL'', ''PENDING'', ''PARTIAL'', ''BLOCKED'', ''UNVERIFIED'',
     ''SKIPPED'']"

definition declares_failure :: "string \<Rightarrow> bool" where
  "declares_failure value =
     (let txt = strip value
      in if txt = [] then True
         else let first = split_ws (before ''-'' (before emdash (before '':'' txt)))
              in first \<noteq> [] \<and> upper (hd first) \<in> set NON_PASSING_VERDICTS)"

section \<open>The check against evidence\<close>

record completion_check =
  cc_goal_id :: string
  cc_missing :: "gate_kind list"
  cc_failed :: "gate_kind list"

definition completable :: "completion_check \<Rightarrow> bool" where
  "completable c \<longleftrightarrow> cc_missing c = [] \<and> cc_failed c = []"

definition describe :: "completion_check \<Rightarrow> string" where
  "describe c =
     (let parts = (if cc_missing c \<noteq> [] then [''no passing evidence for required gate(s): ''
                     @ join '', '' (List.map gate_str (sort (cc_missing c)))] else [])
                @ (if cc_failed c \<noteq> [] then [''failing evidence on gate(s): ''
                     @ join '', '' (List.map gate_str (sort (cc_failed c)))] else [])
      in if parts \<noteq> [] then cc_goal_id c @ '': '' @ join ''; '' parts else cc_goal_id c @ '': ok'')"

definition required_gates :: "goal \<Rightarrow> gate_kind list" where
  "required_gates g =
     List.map (\<lambda>(name, _). projr (gate_of name))
       (filter (\<lambda>(_, requirement). requirement = ''required'') (gates_dump (g_gates g)))"

fun check_loop :: "evidence list \<Rightarrow> gate_kind list \<Rightarrow> completion_check \<Rightarrow> completion_check" where
  "check_loop relevant [] c = c"
| "check_loop relevant (gate # gates) c =
     (let for_gate = filter (\<lambda>e. ev_gate e = gate) relevant
      in check_loop relevant gates
           (if list_ex (\<lambda>e. ev_verdict e = FAILED) for_gate
            then c\<lparr>cc_failed := cc_failed c @ [gate]\<rparr>
            else if \<not> list_ex (\<lambda>e. ev_verdict e = PASSED) for_gate
            then c\<lparr>cc_missing := cc_missing c @ [gate]\<rparr>
            else c))"

definition check_completion :: "goal \<Rightarrow> evidence list \<Rightarrow> completion_check" where
  "check_completion g evs =
     check_loop (filter (\<lambda>e. ev_goal_id e = g_id g) evs) (required_gates g)
       \<lparr>cc_goal_id = g_id g, cc_missing = [], cc_failed = []\<rparr>"

definition assert_goal_completable :: "goal \<Rightarrow> evidence list \<Rightarrow> exn + unit" where
  "assert_goal_completable g evs =
     (let c = check_completion g evs
      in if \<not> completable c then Inl (GoalNotCompletable (describe c)) else Inr ())"

section \<open>Completing a Goal file\<close>

definition goal_file_path :: "string \<Rightarrow> goal \<Rightarrow> string" where
  "goal_file_path dir g = dir @ ''/.ai/goals/'' @ g_phase g @ ''/'' @ g_id g @ ''.yaml''"

text \<open>\<open>list(value or [])\<close>.\<close>

definition py_list :: "json option \<Rightarrow> exn + json list" where
  "py_list v =
     (case v of
        None \<Rightarrow> Inr []
      | Some x \<Rightarrow>
          if \<not> truthy x then Inr []
          else case x of
              JList xs \<Rightarrow> Inr xs
            | JStr s \<Rightarrow> Inr (List.map (\<lambda>c. JStr [c]) s)
            | JObj kvs \<Rightarrow> Inr (List.map (\<lambda>(k, _). JStr k) kvs)
            | _ \<Rightarrow> Inl (ValueError ''object is not iterable''))"

definition passing_items :: "goal \<Rightarrow> evidence list \<Rightarrow> gate_kind \<Rightarrow> evidence list" where
  "passing_items g evs gate =
     filter (\<lambda>e. ev_goal_id e = g_id g \<and> ev_gate e = gate \<and> ev_verdict e = PASSED) evs"

definition gate_summary :: "goal \<Rightarrow> evidence list \<Rightarrow> gate_kind \<Rightarrow> string" where
  "gate_summary g evs gate =
     (let items = passing_items g evs gate;
          summary = join ''; '' (filter (\<lambda>t. t \<noteq> [])
                      (List.map (\<lambda>e. if ev_uri e \<noteq> [] then ev_uri e else ev_kind e) items))
      in if summary \<noteq> [] then summary else nat_str (length items) @ '' passing evidence item(s)'')"

definition declared_entries :: "goal \<Rightarrow> evidence list \<Rightarrow> json list" where
  "declared_entries g evs =
     List.map (\<lambda>gate. JObj [(gate_str gate, JStr (gate_summary g evs gate))]) (required_gates g)"

definition complete_goal :: "string \<Rightarrow> goal \<Rightarrow> evidence list \<Rightarrow> string \<Rightarrow> json \<Rightarrow> exn + dict" where
  "complete_goal path g evs today file =
     (case assert_goal_completable g evs of Inl e \<Rightarrow> Inl e | Inr _ \<Rightarrow>
      case file of
        JObj data \<Rightarrow>
          (case py_list (map_of data ''evidence'') of Inl e \<Rightarrow> Inl e | Inr declared \<Rightarrow>
             (let d1 = AList.update ''evidence'' (JList (declared @ declared_entries g evs)) data;
                  d2 = AList.update ''state'' (JStr ''DONE'') d1
              in case py_list (map_of d2 ''history'') of Inl e \<Rightarrow> Inl e | Inr history \<Rightarrow>
                   Inr (AList.update ''history'' (JList (history @
                     [JStr (today @ '': moved to DONE with evidence for ''
                        @ join '', '' (sort (List.map gate_str (required_gates g))) @ ''.'')])) d2)))
      | _ \<Rightarrow> Inl (GoalNotCompletable (g_id g @ '': malformed Goal file at '' @ path)))"

section \<open>The check of declared evidence\<close>

definition entry_items :: "json list \<Rightarrow> (string \<times> json) list" where
  "entry_items entries =
     concat (List.map (\<lambda>entry. case entry of JObj kvs \<Rightarrow> filter (\<lambda>(_, v). truthy v) kvs | _ \<Rightarrow> []) entries)"

definition declared_passing :: "(json \<Rightarrow> string) \<Rightarrow> json list \<Rightarrow> string list" where
  "declared_passing repr entries =
     List.map fst (filter (\<lambda>(_, v). \<not> declares_failure (py_str repr v)) (entry_items entries))"

definition declared_failing :: "(json \<Rightarrow> string) \<Rightarrow> json list \<Rightarrow> string list" where
  "declared_failing repr entries =
     List.map fst (filter (\<lambda>(_, v). declares_failure (py_str repr v)) (entry_items entries))"

fun declared_loop :: "string list \<Rightarrow> string list \<Rightarrow> string list \<Rightarrow> completion_check \<Rightarrow> exn + completion_check" where
  "declared_loop passing failing [] c = Inr c"
| "declared_loop passing failing (name # names) c =
     (if name \<in> set failing
      then (case gate_of name of Inl e \<Rightarrow> Inl e
            | Inr g \<Rightarrow> declared_loop passing failing names (c\<lparr>cc_failed := cc_failed c @ [g]\<rparr>))
      else if name \<notin> set passing
      then (case gate_of name of Inl e \<Rightarrow> Inl e
            | Inr g \<Rightarrow> declared_loop passing failing names (c\<lparr>cc_missing := cc_missing c @ [g]\<rparr>))
      else declared_loop passing failing names c)"

definition declared_required :: "dict \<Rightarrow> string list" where
  "declared_required data =
     (case map_of data ''gates'' of
        Some (JObj gates) \<Rightarrow> List.map fst (filter (\<lambda>(_, v). v = JStr ''required'') gates)
      | _ \<Rightarrow> [])"

definition check_declared_evidence :: "(json \<Rightarrow> string) \<Rightarrow> dict \<Rightarrow> exn + completion_check" where
  "check_declared_evidence repr data =
     (let goal_id = (case map_of data ''id'' of None \<Rightarrow> ''<unknown>'' | Some v \<Rightarrow> py_str repr v);
          entries = (case map_of data ''evidence'' of Some (JList es) \<Rightarrow> es | _ \<Rightarrow> [])
      in declared_loop (declared_passing repr entries) (declared_failing repr entries)
           (declared_required data) \<lparr>cc_goal_id = goal_id, cc_missing = [], cc_failed = []\<rparr>)"

section \<open>Facts\<close>

lemma required_gates_iff:
  "gate \<in> set (required_gates g) \<longleftrightarrow> (gate_str gate, ''required'') \<in> set (gates_dump (g_gates g))"
  by (cases gate) (auto simp: required_gates_def gates_dump_def gate_of_def all_gates_def)

lemma check_loop_spec:
  "cc_failed (check_loop rel gates c) = cc_failed c @
     filter (\<lambda>g. \<exists>e \<in> set rel. ev_gate e = g \<and> ev_verdict e = FAILED) gates
   \<and> cc_missing (check_loop rel gates c) = cc_missing c @
     filter (\<lambda>g. (\<forall>e \<in> set rel. ev_gate e = g \<longrightarrow> ev_verdict e \<noteq> FAILED \<and> ev_verdict e \<noteq> PASSED)) gates"
  by (induction gates arbitrary: c) (auto simp: Let_def list_ex_iff)

lemma declared_loop_spec:
  "\<forall>n \<in> set names. n \<in> range gate_str \<Longrightarrow>
   \<exists>c'. declared_loop passing failing names c = Inr c'
     \<and> (completable c' \<longleftrightarrow> completable c \<and> (\<forall>n \<in> set names. n \<in> set passing \<and> n \<notin> set failing))"
proof (induction names arbitrary: c)
  case (Cons n names)
  then obtain g where n: "n = gate_str g" by auto
  have IH: "\<exists>c'. declared_loop passing failing names c = Inr c'
     \<and> (completable c' \<longleftrightarrow> completable c \<and> (\<forall>n \<in> set names. n \<in> set passing \<and> n \<notin> set failing))" for c
    using Cons by simp
  from IH [of c] IH [of "c\<lparr>cc_failed := cc_failed c @ [g]\<rparr>"] IH [of "c\<lparr>cc_missing := cc_missing c @ [g]\<rparr>"]
  show ?case using n by (auto simp: completable_def)
qed simp

lemma entry_items_append: "entry_items (xs @ ys) = entry_items xs @ entry_items ys"
  by (simp add: entry_items_def)

lemma join_nonempty: "x \<in> set xs \<Longrightarrow> x \<noteq> [] \<Longrightarrow> join sep xs \<noteq> []"
proof (induction xs)
  case (Cons y ys)
  then show ?case by (cases ys) auto
qed simp

lemma gate_summary_not_Nil: "gate_summary g evs gate \<noteq> []"
  by (simp add: gate_summary_def Let_def)

lemma entry_items_declared:
  "set (entry_items (declared_entries g evs)) =
     (\<lambda>gate. (gate_str gate, JStr (gate_summary g evs gate))) ` set (required_gates g)"
  by (auto simp: entry_items_def declared_entries_def gate_summary_not_Nil)

section \<open>Properties\<close>

text \<open>C13. A Goal may be completed exactly when each of its required gates has passing evidence of that
  Goal and no failing evidence of it; the refusal lists exactly the gates that fall short.\<close>

theorem completion_check_iff:
  "(assert_goal_completable g evs = Inr () \<longleftrightarrow>
      (\<forall>gate. (gate_str gate, ''required'') \<in> set (gates_dump (g_gates g)) \<longrightarrow>
         passing_items g evs gate \<noteq> []
         \<and> (\<forall>e \<in> set evs. ev_goal_id e = g_id g \<and> ev_gate e = gate \<longrightarrow> ev_verdict e \<noteq> FAILED)))
   \<and> set (cc_failed (check_completion g evs)) = {gate. gate \<in> set (required_gates g)
      \<and> (\<exists>e \<in> set evs. ev_goal_id e = g_id g \<and> ev_gate e = gate \<and> ev_verdict e = FAILED)}"
proof -
  have B: "completable (check_completion g evs) \<longleftrightarrow> (\<forall>gate \<in> set (required_gates g).
         (\<exists>e \<in> set evs. ev_goal_id e = g_id g \<and> ev_gate e = gate \<and> ev_verdict e = PASSED)
         \<and> (\<forall>e \<in> set evs. ev_goal_id e = g_id g \<and> ev_gate e = gate \<longrightarrow> ev_verdict e \<noteq> FAILED))"
    by (auto simp: completable_def check_completion_def check_loop_spec filter_empty_conv)
  have P: "passing_items g evs gate \<noteq> [] \<longleftrightarrow>
      (\<exists>e \<in> set evs. ev_goal_id e = g_id g \<and> ev_gate e = gate \<and> ev_verdict e = PASSED)" for gate
    by (auto simp: passing_items_def filter_empty_conv)
  have F: "set (cc_failed (check_completion g evs)) = {gate. gate \<in> set (required_gates g)
      \<and> (\<exists>e \<in> set evs. ev_goal_id e = g_id g \<and> ev_gate e = gate \<and> ev_verdict e = FAILED)}"
    by (auto simp: check_completion_def check_loop_spec)
  have A: "assert_goal_completable g evs = Inr () \<longleftrightarrow> completable (check_completion g evs)"
    by (simp add: assert_goal_completable_def Let_def)
  show ?thesis by (rule conjI [OF _ F]) (simp only: A B P required_gates_iff Ball_def)
qed

definition sample_goal :: goal where
  "sample_goal = \<lparr>g_id = ''G'', g_phase = ''P'', g_title = [], g_state = ''ACTIVE'', g_objective = [],
     g_constraints = [], g_non_goals = [], g_dependencies = [], g_acceptance = [],
     g_gates = \<lparr>gg_build = ''required'', gg_tests = ''optional'', gg_review = ''optional'',
                gg_documentation = ''optional''\<rparr>, g_evidence = [], g_history = []\<rparr>"

definition build_evidence :: "gate_verdict \<Rightarrow> string \<Rightarrow> evidence" where
  "build_evidence v uri = \<lparr>ev_id = ''e'', ev_goal_id = ''G'', ev_gate = BUILD, ev_kind = ''log'',
     ev_uri = uri, ev_digest = [], ev_attached_at = [], ev_verdict = v, ev_run_id = None, ev_task_id = None\<rparr>"

theorem completion_check_iff_witness:
  "assert_goal_completable sample_goal [build_evidence PASSED ''ok''] = Inr ()
   \<and> assert_goal_completable sample_goal [build_evidence PASSED ''ok'', build_evidence FAILED ''no''] \<noteq> Inr ()"
proof -
  have d: "(gate_str gate, ''required'') \<in> set (gates_dump (g_gates sample_goal)) \<longleftrightarrow> gate = BUILD" for gate
    by (cases gate) (simp_all add: gates_dump_def sample_goal_def)
  show ?thesis
    using completion_check_iff [of sample_goal "[build_evidence PASSED ''ok'']"]
      completion_check_iff [of sample_goal "[build_evidence PASSED ''ok'', build_evidence FAILED ''no'']"]
    unfolding d by (auto simp: passing_items_def build_evidence_def sample_goal_def)
qed

text \<open>A Goal file whose gates are the Goal's and whose earlier entries report no failure passes the
  repository's own check after \<open>complete_goal\<close>, provided no attached evidence text opens with a
  non-passing verdict; its state is DONE and its other keys are untouched.\<close>

theorem completed_goal_passes_check:
  assumes c: "complete_goal path g evs today (JObj data) = Inr data'"
    and gates: "map_of data ''gates'' = Some (JObj (List.map (\<lambda>(n, q). (n, JStr q)) (gates_dump (g_gates g))))"
    and old: "py_list (map_of data ''evidence'') = Inr es" "declared_failing repr es = []"
    and new: "\<forall>gate \<in> set (required_gates g). \<not> declares_failure (gate_summary g evs gate)"
  shows "\<exists>check. check_declared_evidence repr data' = Inr check \<and> completable check
     \<and> map_of data' ''state'' = Some (JStr ''DONE'')
     \<and> (\<forall>k. k \<notin> {''evidence'', ''state'', ''history''} \<longrightarrow> map_of data' k = map_of data k)"
proof -
  let ?es = "es @ declared_entries g evs"
  from c old(1) obtain h where d': "data' = AList.update ''history'' (JList h)
      (AList.update ''state'' (JStr ''DONE'') (AList.update ''evidence'' (JList ?es) data))"
    by (auto simp: complete_goal_def Let_def split: sum.splits)
  have keys: "map_of data' ''state'' = Some (JStr ''DONE'')" "map_of data' ''evidence'' = Some (JList ?es)"
    "\<And>k. k \<notin> {''evidence'', ''state'', ''history''} \<Longrightarrow> map_of data' k = map_of data k"
    unfolding d' by (simp_all add: update_conv')
  have g': "map_of data' ''gates'' = Some (JObj (List.map (\<lambda>(n, q). (n, JStr q)) (gates_dump (g_gates g))))"
    using keys(3) [of "''gates''"] gates by simp
  have req: "declared_required data' = List.map gate_str (required_gates g)"
    unfolding declared_required_def g' required_gates_def gates_dump_def
    by (simp add: gate_of_def all_gates_def)
  have fail: "declared_failing repr ?es = []"
    using old(2) new entry_items_declared [of g evs]
    by (auto simp: declared_failing_def entry_items_append filter_empty_conv)
  have pass: "gate_str gate \<in> set (declared_passing repr ?es)" if "gate \<in> set (required_gates g)" for gate
    using that new entry_items_declared [of g evs]
    by (force simp: declared_passing_def entry_items_append image_iff)
  have "\<forall>n \<in> set (declared_required data'). n \<in> range gate_str" by (auto simp: req)
  from declared_loop_spec [OF this] obtain check where
    "check_declared_evidence repr data' = Inr check" "completable check"
    unfolding check_declared_evidence_def Let_def keys(2) option.case json.case fail req
    using pass by (fastforce simp: completable_def)
  with keys show ?thesis by blast
qed

theorem completed_goal_passes_check_witness:
  "\<exists>data' check. complete_goal ''p'' sample_goal [build_evidence PASSED ''ok''] ''2026-01-01''
       (JObj [(''gates'', JObj (List.map (\<lambda>(n, q). (n, JStr q)) (gates_dump (g_gates sample_goal)))),
              (''evidence'', JList [])]) = Inr data'
     \<and> check_declared_evidence (\<lambda>_. []) data' = Inr check \<and> completable check"
proof -
  let ?data = "[(''gates'', JObj (List.map (\<lambda>(n, q). (n, JStr q)) (gates_dump (g_gates sample_goal)))),
              (''evidence'', JList [])]"
  let ?evs = "[build_evidence PASSED ''ok'']"
  let ?r = "complete_goal ''p'' sample_goal ?evs ''2026-01-01'' (JObj ?data)"
  have "case ?r of Inr _ \<Rightarrow> True | Inl _ \<Rightarrow> False" by code_simp
  then obtain data' where r: "?r = Inr data'" by (auto split: sum.splits)
  have g: "map_of ?data ''gates'' = Some (JObj (List.map (\<lambda>(n, q). (n, JStr q)) (gates_dump (g_gates sample_goal))))"
    by simp
  have o': "py_list (map_of ?data ''evidence'') = Inr []" "declared_failing (\<lambda>_. []) [] = []" by code_simp+
  have n: "\<forall>gate \<in> set (required_gates sample_goal). \<not> declares_failure (gate_summary sample_goal ?evs gate)"
    by code_simp
  from completed_goal_passes_check [OF r g o' n] r show ?thesis by blast
qed

text \<open>\<open>complete_goal\<close> keeps the entries the file already declared, failing ones included, so it can
  write a Goal as DONE that the repository's check of the same file rejects.\<close>

theorem completed_goal_can_fail_check:
  "\<exists>data' check. complete_goal ''p'' sample_goal [build_evidence PASSED ''ok''] ''2026-01-01''
       (JObj [(''id'', JStr ''G''), (''gates'', JObj [(''build'', JStr ''required'')]),
              (''evidence'', JList [JObj [(''build'', JStr ''FAILED: compile error'')]])]) = Inr data'
     \<and> map_of data' ''state'' = Some (JStr ''DONE'')
     \<and> check_declared_evidence (\<lambda>_. []) data' = Inr check \<and> cc_failed check = [BUILD]"
proof -
  let ?r = "complete_goal ''p'' sample_goal [build_evidence PASSED ''ok''] ''2026-01-01''
       (JObj [(''id'', JStr ''G''), (''gates'', JObj [(''build'', JStr ''required'')]),
              (''evidence'', JList [JObj [(''build'', JStr ''FAILED: compile error'')]])])"
  have "isl ?r = False" "map_of (projr ?r) ''state'' = Some (JStr ''DONE'')"
    "isl (check_declared_evidence (\<lambda>_. []) (projr ?r)) = False"
    "cc_failed (projr (check_declared_evidence (\<lambda>_. []) (projr ?r))) = [BUILD]" by code_simp+
  then show ?thesis by (intro exI [of _ "projr ?r"] exI [of _ "projr (check_declared_evidence (\<lambda>_. []) (projr ?r))"]) auto
qed

end
