(* ===== verification/PlanApi.thy ===== *)
theory PlanApi
  imports GoalRunner GoalCompletion Decimals
begin

text \<open>
  The HTTP routes that make, lock and start plans and cancel runs (\<open>api/routes.py\<close>, lines 365 to 618).
  A request's context is a record of what the application holds: which capabilities the inspected
  project has, the Goals it loads, the harness, the project's identifier. \<open>create_run\<close> hands the
  execution to a background task: it is modelled as the admission of a plan, the plan's consumption,
  and the poll for the run, which other requests may come between.
\<close>

record app =
  app_can_plan :: bool
  app_can_run :: bool
  app_goals :: "(string \<times> goal) list"
  app_harness :: harness
  app_project_id :: string

record api_db = db +
  requests :: registry
  in_flight :: "string list"
  stopped :: "string list"

type_synonym ('z, 'a) api_act = "('z api_db_scheme, exn, 'a) act"

definition require_capability :: "bool \<Rightarrow> string \<Rightarrow> ('z db_scheme, exn, unit) act" where
  "require_capability ok name =
     (if ok then ret () else throw (HTTPException 409 (name @ '' is unavailable'')))"

definition goal_by_id :: "app \<Rightarrow> string \<Rightarrow> ('z db_scheme, exn, goal) act" where
  "goal_by_id a i =
     bindE (require_capability (app_can_plan a) ''can_plan'') (\<lambda>_.
       case map_of (app_goals a) i of
         None \<Rightarrow> throw (HTTPException 404 (''Unknown Goal: '' @ i))
       | Some g \<Rightarrow> ret g)"

section \<open>Deriving a plan\<close>

definition plan_for_goal :: "goal \<Rightarrow> plan" where
  "plan_for_goal g = \<lparr>pl_goal_id = g_id g,
     pl_tasks = List.map (\<lambda>(index, criterion).
       \<lparr>n_id = g_id g @ ''-t'' @ nat_str index, n_objective = criterion, n_dependencies = [],
        n_write_scope = [], n_gates = List.map gate_str (required_gates g), n_risk = MEDIUM,
        n_parallelizable = True, n_capabilities = []\<rparr>) (enumerate 1 (g_acceptance g))\<rparr>"

section \<open>Plans\<close>

definition create_plan :: "app \<Rightarrow> string \<Rightarrow> string \<Rightarrow> string \<Rightarrow> string \<Rightarrow> ('z db_scheme, exn, plan_record) act" where
  "create_plan a goal_id autonomy runner target =
     bindE (require_capability (app_can_plan a) ''can_plan'') (\<lambda>_.
     bindE (goal_by_id a goal_id) (\<lambda>g.
       if resolve (app_harness a) runner = None
       then throw (HTTPException 400 (''Unknown runner '' @ quoted runner))
       else bindE (mk_plan_record (app_project_id a) (g_id g) (g_id g) DRAFT autonomy runner target
                    (List.map plan_task_of (pl_tasks (plan_for_goal g)))) (\<lambda>p.
            bindE (save_plan p) (\<lambda>_. ret p))))"

definition known_plan :: "string \<Rightarrow> ('z db_scheme, exn, plan_record) act" where
  "known_plan i =
     bindE (load_plan i) (\<lambda>p. case p of
        None \<Rightarrow> throw (HTTPException 404 (''Unknown plan: '' @ i)) | Some p \<Rightarrow> ret p)"

definition get_plan :: "app \<Rightarrow> string \<Rightarrow> ('z db_scheme, exn, plan_record) act" where
  "get_plan a i = bindE (require_capability (app_can_plan a) ''can_plan'') (\<lambda>_. known_plan i)"

definition list_goal_plans :: "app \<Rightarrow> string \<Rightarrow> ('z db_scheme, exn, plan_record list) act" where
  "list_goal_plans a goal_id =
     bindE (require_capability (app_can_plan a) ''can_plan'') (\<lambda>_.
       if map_of (app_goals a) goal_id = None then throw (HTTPException 404 (''Unknown Goal: '' @ goal_id))
       else list_plans (Some goal_id))"

definition lock_plan :: "app \<Rightarrow> string \<Rightarrow> ('z db_scheme, exn, plan_record) act" where
  "lock_plan a i =
     bindE (require_capability (app_can_plan a) ''can_plan'') (\<lambda>_.
     bindE (known_plan i) (\<lambda>p.
       if pr_state p \<noteq> DRAFT
       then throw (HTTPException 409 (''Plan '' @ i @ '' is already '' @ plan_state_str (pr_state p)))
       else (let locked = p\<lparr>pr_state := LOCKED\<rparr>
             in bindE (save_plan locked) (\<lambda>_. ret locked))))"

section \<open>Runs\<close>

definition get_run :: "string \<Rightarrow> ('z db_scheme, exn, run \<times> task list \<times> attempt list \<times> domain_event list) act" where
  "get_run i =
     bindE (load_run i) (\<lambda>r. case r of
        None \<Rightarrow> throw (HTTPException 404 (''Unknown run: '' @ i))
      | Some r \<Rightarrow> bindE (load_tasks i) (\<lambda>ts. bindE (load_attempts i) (\<lambda>as. bindE (load_events i) (\<lambda>es.
          ret (r, ts, as, es)))))"

definition list_run_views :: "('z db_scheme, exn, (run \<times> nat) list) act" where
  "list_run_views =
     bindE (list_runs None) (\<lambda>rs. forE rs (\<lambda>r. bindE (load_tasks (r_id r)) (\<lambda>ts. ret (r, length ts))))"

text \<open>\<open>Harness.cancel_task\<close>: whether an attempt of the task was in flight.\<close>

definition cancel_attempt :: "string \<Rightarrow> ('z, bool) api_act" where
  "cancel_attempt task_id s =
     (if task_id \<in> set (in_flight s) then (Inr True, s\<lparr>stopped := stopped s @ [task_id]\<rparr>) else (Inr False, s))"

definition cancel_run_route :: "string \<Rightarrow> ('z, run \<times> nat) api_act" where
  "cancel_run_route i =
     bindE (load_run i) (\<lambda>r. case r of
        None \<Rightarrow> throw (HTTPException 404 (''Unknown run: '' @ i))
      | Some r \<Rightarrow>
          if \<not> run_step (r_state r) R_CANCELLED
          then throw (HTTPException 409 (''Run '' @ i @ '' is '' @ run_state_str (r_state r) @ '' and cannot be cancelled''))
          else bindE (modify (\<lambda>s. s\<lparr>requests := request i ''cancelled by request'' (requests s)\<rparr>)) (\<lambda>_.
               bindE (load_tasks i) (\<lambda>ts.
               bindE (forE ts (\<lambda>t. cancel_attempt (t_id t))) (\<lambda>_.
               bindE (load_tasks i) (\<lambda>ts'. ret (r, length ts'))))))"

text \<open>What \<open>create_run\<close> checks before it starts the background task, with the plan it will execute.\<close>

definition admit_run ::
  "app \<Rightarrow> string \<Rightarrow> string \<Rightarrow> string \<Rightarrow> string option
     \<Rightarrow> ('z db_scheme, exn, goal \<times> plan \<times> plan_record option) act" where
  "admit_run a goal_id runner target plan_id =
     bindE (require_capability (app_can_run a) ''can_run'') (\<lambda>_.
     bindE (goal_by_id a goal_id) (\<lambda>g.
     bindE (case plan_id of
         None \<Rightarrow> ret None
       | Some i \<Rightarrow> bindE (known_plan i) (\<lambda>p.
           if pr_state p \<noteq> LOCKED
           then throw (HTTPException 409 (''Plan '' @ i @ '' must be LOCKED before execution''))
           else if pr_goal_id p \<noteq> g_id g \<or> pr_goal_revision p \<noteq> g_id g
           then throw (HTTPException 409 ''Plan does not match the current Goal revision'')
           else if runner \<noteq> pr_runner p \<or> target \<noteq> pr_integration_target p
           then throw (HTTPException 409 ''Run settings do not match the locked plan'')
           else ret (Some p))) (\<lambda>record.
       if resolve (app_harness a) runner = None
       then throw (HTTPException 400 (''Unknown runner '' @ quoted runner))
       else ret (g, (case record of None \<Rightarrow> plan_for_goal g | Some p \<Rightarrow> to_plan p), record))))"

definition consume_plan :: "plan_record option \<Rightarrow> ('z db_scheme, exn, unit) act" where
  "consume_plan record = (case record of None \<Rightarrow> ret () | Some p \<Rightarrow> save_plan (p\<lparr>pr_state := CONSUMED\<rparr>))"

text \<open>One round of the poll: the newest run of the Goal, if there is one.\<close>

definition poll_run :: "string \<Rightarrow> ('z db_scheme, exn, run option) act" where
  "poll_run goal_id =
     bindE (list_runs None) (\<lambda>rs. ret (case filter (\<lambda>r. r_goal_id r = goal_id) rs of [] \<Rightarrow> None | r # _ \<Rightarrow> Some r))"

section \<open>The derived plan\<close>

lemma plan_ids: "List.map n_id (pl_tasks (plan_for_goal g))
    = List.map (\<lambda>i. g_id g @ ''-t'' @ nat_str i) [1..<1 + length (g_acceptance g)]"
proof -
  have "List.map n_id (pl_tasks (plan_for_goal g))
      = List.map (\<lambda>i. g_id g @ ''-t'' @ nat_str i) (List.map fst (enumerate 1 (g_acceptance g)))"
    by (simp add: plan_for_goal_def comp_def case_prod_unfold del: map_fst_enumerate One_nat_def)
  then show ?thesis
    by (simp only: map_fst_enumerate)
qed

text \<open>The plan derived from a Goal is valid whatever the order in which the ids are visited: its ids
  are unique and it has an order; it has one task per acceptance criterion, in their order, each
  answerable for exactly the gates the Goal requires.\<close>

theorem derived_plan_valid:
  assumes "\<And>xs. set (f xs) = set xs"
  shows "validate_dag f (plan_for_goal g) = [] \<and> distinct_ids (plan_for_goal g)
    \<and> (\<exists>out. dependency_aware_order (plan_for_goal g) = Inr out)
    \<and> List.map n_objective (pl_tasks (plan_for_goal g)) = g_acceptance g
    \<and> (\<forall>n \<in> set (pl_tasks (plan_for_goal g)). \<forall>gate.
         gate_str gate \<in> set (n_gates n) \<longleftrightarrow> (gate_str gate, ''required'') \<in> set (gates_dump (g_gates g)))"
proof -
  have d: "distinct_ids (plan_for_goal g)"
    unfolding distinct_ids_def plan_ids by (simp add: distinct_map inj_on_def nat_str_inj)
  have "deps_known (plan_for_goal g)" and "deps_rel (plan_for_goal g) = {}"
    by (auto simp: deps_known_def deps_rel_def plan_for_goal_def)
  then have v: "validate_dag f (plan_for_goal g) = []"
    using validate_dag_valid [OF d assms] by (simp add: acyclic_def)
  then have o: "\<exists>out. dependency_aware_order (plan_for_goal g) = Inr out"
    using order_iff_valid [OF d assms] by blast
  have "List.map n_objective (pl_tasks (plan_for_goal g)) = List.map snd (enumerate 1 (g_acceptance g))"
    by (simp add: plan_for_goal_def comp_def case_prod_unfold)
  then have a: "List.map n_objective (pl_tasks (plan_for_goal g)) = g_acceptance g"
    by (simp only: map_snd_enumerate)
  have "gate_str gate \<in> set (n_gates n) \<longleftrightarrow> gate \<in> set (required_gates g)"
    if "n \<in> set (pl_tasks (plan_for_goal g))" for n gate
    using that by (auto simp: plan_for_goal_def gate_str_inj)
  with d v o a required_gates_iff show ?thesis by blast
qed

definition demo_goal :: goal where
  "demo_goal = \<lparr>g_id = ''G1'', g_phase = ''P1'', g_title = ''t'', g_state = ''READY'', g_objective = ''o'',
     g_constraints = [], g_non_goals = [], g_dependencies = [], g_acceptance = [''a'', ''b''],
     g_gates = \<lparr>gg_build = ''required'', gg_tests = ''required'', gg_review = ''optional'', gg_documentation = ''optional''\<rparr>,
     g_evidence = [], g_history = []\<rparr>"

theorem derived_plan_valid_witness:
  "validate_dag (\<lambda>xs. xs) (plan_for_goal demo_goal) = []
     \<and> List.map n_objective (pl_tasks (plan_for_goal demo_goal)) = [''a'', ''b'']"
  using derived_plan_valid [of "\<lambda>xs. xs" demo_goal] by (simp add: demo_goal_def)

section \<open>Locking and starting\<close>

lemma query_returns: "query f s = (Inr x, s') \<Longrightarrow> s' = s \<and> x = f s \<and> db_open s"
  by (auto simp: query_def require_conn_def bindE_def gets_def split: if_splits)

lemma known_planD:
  "known_plan i s = (Inr p, s') \<Longrightarrow> s' = s \<and> db_open s \<and> row_by pr_id i (plans s) = Some p \<and> pr_id p = i"
  by (auto simp: known_plan_def load_plan_def ret_def throw_def elim!: bindE_OkE dest!: query_returns
      dest: row_by_key split: option.splits)

lemma known_plan_at:
  "db_open s \<Longrightarrow> row_by pr_id i (plans s) = Some p \<Longrightarrow> known_plan i s = (Inr p, s)"
  by (simp add: known_plan_def load_plan_def query_ok bindE_def ret_def)

lemma goal_by_idD:
  "goal_by_id a i s = (Inr g, s') \<Longrightarrow> s' = s \<and> app_can_plan a \<and> map_of (app_goals a) i = Some g"
  by (auto simp: goal_by_id_def require_capability_def ret_def throw_def elim!: bindE_OkE
      split: if_splits option.splits)

lemma admit_runD:
  assumes "admit_run a goal_id runner target (Some i) s = (Inr (g, p, record), s')"
  shows "s' = s \<and> app_can_run a \<and> map_of (app_goals a) goal_id = Some g \<and> resolve (app_harness a) runner \<noteq> None
    \<and> (\<exists>r. record = Some r \<and> row_by pr_id i (plans s) = Some r \<and> pr_id r = i \<and> pr_state r = LOCKED \<and> p = to_plan r
         \<and> pr_goal_id r = g_id g \<and> pr_goal_revision r = g_id g \<and> pr_runner r = runner
         \<and> pr_integration_target r = target \<and> db_open s)"
  using assms
  unfolding admit_run_def require_capability_def
  by (auto simp: ret_def throw_def elim!: bindE_OkE dest!: goal_by_idD known_planD split: if_splits)
    (metis option.simps(5))

text \<open>C21. What starting a locked plan guarantees: the runner exists, the plan executed is word for word the
  one stored as \<open>LOCKED\<close>, made for this Goal, with the runner and the target that were locked; and once
  it is consumed, its content still as it was, no request can start it again.\<close>

theorem locked_plan_runs_as_locked:
  assumes "admit_run a goal_id runner target (Some i) s = (Inr (g, p, record), s1)"
    and "consume_plan record s1 = (Inr (), s2)"
  shows "resolve (app_harness a) runner \<noteq> None
    \<and> (\<exists>r. row_by pr_id i (plans s) = Some r \<and> pr_state r = LOCKED \<and> p = to_plan r \<and> (\<exists>g. map_of (app_goals a) goal_id = Some g \<and> pr_goal_id r = g_id g)
         \<and> pr_runner r = runner \<and> pr_integration_target r = target
         \<and> row_by pr_id i (plans s2) = Some (r\<lparr>pr_state := CONSUMED\<rparr>))
    \<and> (\<forall>b goal_id' runner' target' x. fst (admit_run b goal_id' runner' target' (Some i) s2) \<noteq> Inr x)"
proof -
  obtain r where s1: "s1 = s" "db_open s" and r: "record = Some r" "row_by pr_id i (plans s) = Some r" "pr_id r = i"
      "pr_state r = LOCKED" "p = to_plan r" "pr_runner r = runner" "pr_integration_target r = target"
    and res: "resolve (app_harness a) runner \<noteq> None"
    and g: "map_of (app_goals a) goal_id = Some g" "pr_goal_id r = g_id g"
    using admit_runD [OF assms(1)] by (elim exE conjE) (rule that)
  let ?c = "r\<lparr>pr_state := CONSUMED\<rparr>"
  have "s2 = s\<lparr>plans := upsert pr_id ?c (plans s)\<rparr>"
    using assms(2) s1 r
    by (simp add: consume_plan_def save_plan_def load_plan_def query_ok bindE_def execute_def require_conn_def
        upsert_plan_def)
  then have c: "row_by pr_id i (plans s2) = Some ?c"
    using r by (simp add: row_by_upsert)
  have "fst (admit_run b goal_id' runner' target' (Some i) s2) \<noteq> Inr x" for b goal_id' runner' target' x
  proof
    assume "fst (admit_run b goal_id' runner' target' (Some i) s2) = Inr x"
    then obtain g' p' rec' s' where "admit_run b goal_id' runner' target' (Some i) s2 = (Inr (g', p', rec'), s')"
      by (cases "admit_run b goal_id' runner' target' (Some i) s2"; cases x) auto
    from admit_runD [OF this] c show False by auto
  qed
  with res r g c show ?thesis by blast
qed

definition demo_app :: app where
  "demo_app = \<lparr>app_can_plan = True, app_can_run = True, app_goals = [(''G1'', demo_goal)],
     app_harness = \<lparr>h_project_id = ''p'', h_runners = [(''dummy'', [])]\<rparr>, app_project_id = ''p''\<rparr>"

definition demo_locked :: plan_record where
  "demo_locked = \<lparr>pr_id = ''plan-1'', pr_project_id = ''p'', pr_goal_id = ''G1'', pr_goal_revision = ''G1'',
     pr_state = LOCKED, pr_autonomy = ''agentic'', pr_runner = ''dummy'', pr_integration_target = ''main'',
     pr_created_at = ''0'', pr_tasks = List.map plan_task_of (pl_tasks (plan_for_goal demo_goal))\<rparr>"

definition demo_api_db :: db where
  "demo_api_db = empty_db\<lparr>plans := [demo_locked]\<rparr>"

lemma demo_admitted:
  "admit_run demo_app ''G1'' ''dummy'' ''main'' (Some ''plan-1'') demo_api_db
     = (Inr (demo_goal, to_plan demo_locked, Some demo_locked), demo_api_db)"
  by (simp add: admit_run_def require_capability_def goal_by_id_def known_plan_def load_plan_def query_ok bindE_def
      ret_def demo_app_def demo_locked_def demo_api_db_def samples row_by_def resolve_def) (simp add: demo_goal_def)

definition demo_consumed :: db where
  "demo_consumed = demo_api_db\<lparr>plans := [demo_locked\<lparr>pr_state := CONSUMED\<rparr>]\<rparr>"

lemma demo_consumes:
  "consume_plan (Some demo_locked) demo_api_db = (Inr (), demo_consumed)"
  "consume_plan (Some demo_locked) demo_consumed = (Inr (), demo_consumed)"
  by (simp_all add: consume_plan_def save_plan_def load_plan_def query_ok bindE_def ret_def demo_locked_def
      demo_api_db_def demo_consumed_def samples row_by_def execute_def require_conn_def upsert_plan_def upsert_def)

theorem locked_plan_runs_as_locked_witness:
  "\<forall>x. fst (admit_run demo_app ''G1'' ''dummy'' ''main'' (Some ''plan-1'') demo_consumed) \<noteq> Inr x"
  using locked_plan_runs_as_locked [OF demo_admitted demo_consumes(1)] by blast

text \<open>Two requests for one locked plan, the second admitted before the first has consumed it, both
  start: nothing between the check and the background task looks at the plan again, and the second
  consumption finds the plan already as it wants it.\<close>

theorem locked_plan_starts_twice:
  "\<exists>g p record. admit_run demo_app ''G1'' ''dummy'' ''main'' (Some ''plan-1'') demo_api_db
       = (Inr (g, p, record), demo_api_db)
     \<and> bindE (admit_run demo_app ''G1'' ''dummy'' ''main'' (Some ''plan-1'')) (\<lambda>_.
        bindE (consume_plan record) (\<lambda>_. consume_plan record)) demo_api_db = (Inr (), demo_consumed)"
  using demo_admitted demo_consumes by (auto simp: bindE_def)

section \<open>Cancelling a run\<close>

lemma cancel_all:
  "forE ts (\<lambda>t. cancel_attempt (t_id t)) s
     = (Inr (List.map (\<lambda>t. t_id t \<in> set (in_flight s)) ts),
        s\<lparr>stopped := stopped s @ filter (\<lambda>i. i \<in> set (in_flight s)) (List.map t_id ts)\<rparr>)"
  by (induction ts arbitrary: s) (simp_all add: ret_def bindE_def cancel_attempt_def)

text \<open>The cancel route asks the state machine: an unknown run is 404, a run with no step to
  \<open>CANCELLED\<close> is 409 and nothing changes; otherwise the request is on record and exactly the run's
  attempts in flight are stopped, while no row of the database changes.\<close>

theorem cancel_route_verdict:
  assumes "db_open s"
  shows "case row_by r_id i (runs s) of
      None \<Rightarrow> (\<exists>m. cancel_run_route i s = (Inl (HTTPException 404 m), s))
    | Some r \<Rightarrow>
        if r_state r \<in> {R_CREATED, R_PLANNING, R_READY, R_RUNNING}
        then (\<exists>n s'. cancel_run_route i s = (Inr (r, n), s') \<and> is_requested (requests s') i
           \<and> set (stopped s') = set (stopped s) \<union> {t_id t | t. t \<in> set (tasks s) \<and> t_run_id t = i \<and> t_id t \<in> set (in_flight s)}
           \<and> db.truncate s' = db.truncate s)
        else (\<exists>m. cancel_run_route i s = (Inl (HTTPException 409 m), s))"
proof (cases "row_by r_id i (runs s)")
  case None
  with assms show ?thesis
    by (simp add: cancel_run_route_def load_run_def query_ok bindE_def throw_def)
next
  case (Some r)
  have step: "run_step (r_state r) R_CANCELLED \<longleftrightarrow> r_state r \<in> {R_CREATED, R_PLANNING, R_READY, R_RUNNING}"
    by (auto simp: run_step_iff split: run_state.splits)
  show ?thesis
  proof (cases "r_state r \<in> {R_CREATED, R_PLANNING, R_READY, R_RUNNING}")
    case True
    let ?q = "request i ''cancelled by request'' (requests s)"
    let ?ts = "order_by t_created_at (filter (\<lambda>t. t_run_id t = i) (tasks s))"
    let ?s = "s\<lparr>requests := ?q, stopped := stopped s @ filter (\<lambda>i. i \<in> set (in_flight s)) (List.map t_id ?ts)\<rparr>"
    have "cancel_run_route i s = (Inr (r, length ?ts), ?s)"
      using True Some assms step
      by (simp add: cancel_run_route_def load_run_def load_tasks_def query_ok bindE_def modify_def ret_def cancel_all)
    moreover have "is_requested (requests ?s) i"
      by (auto simp: is_requested_def map_of_request)
    moreover have "set (stopped ?s) = set (stopped s)
        \<union> {t_id t | t. t \<in> set (tasks s) \<and> t_run_id t = i \<and> t_id t \<in> set (in_flight s)}"
      by auto
    moreover have "db.truncate ?s = db.truncate s"
      by (simp add: db.truncate_def)
    ultimately have "\<exists>n s'. cancel_run_route i s = (Inr (r, n), s') \<and> is_requested (requests s') i
        \<and> set (stopped s') = set (stopped s) \<union> {t_id t | t. t \<in> set (tasks s) \<and> t_run_id t = i \<and> t_id t \<in> set (in_flight s)}
        \<and> db.truncate s' = db.truncate s"
      by blast
    with True Some show ?thesis by simp
  next
    case False
    with Some assms step show ?thesis
      by (simp add: cancel_run_route_def load_run_def query_ok bindE_def throw_def)
  qed
qed

definition demo_running :: api_db where
  "demo_running = db.extend (empty_db\<lparr>runs := [sample_run R_RUNNING], tasks := [sample_task ''t'' T_RUNNING []]\<rparr>)
     \<lparr>requests = [], in_flight = [''t''], stopped = []\<rparr>"

theorem cancel_route_verdict_witness:
  "\<exists>n s'. cancel_run_route ''r'' demo_running = (Inr (sample_run R_RUNNING, n), s') \<and> stopped s' \<noteq> []"
proof -
  have "db_open demo_running" and r: "row_by r_id ''r'' (runs demo_running) = Some (sample_run R_RUNNING)"
    and t: "tasks demo_running = [sample_task ''t'' T_RUNNING []]" and f: "in_flight demo_running = [''t'']"
    by (simp_all add: demo_running_def db.defs empty_db_def row_by_def)
  from cancel_route_verdict [OF this(1), of "''r''"] obtain n s' where
    c: "cancel_run_route ''r'' demo_running = (Inr (sample_run R_RUNNING, n), s')"
    and s: "set (stopped s') = set (stopped demo_running) \<union> {t_id t | t. t \<in> set (tasks demo_running)
       \<and> t_run_id t = ''r'' \<and> t_id t \<in> set (in_flight demo_running)}"
    by (auto simp: r)
  have "''t'' \<in> set (stopped s')"
    by (auto simp: s t f)
  with c show ?thesis by auto
qed

end
