(* ===== verification/Adaptation.thy ===== *)
theory Adaptation
  imports Manifests McpServers
begin

text \<open>
  Looking at a project before Atlas runs in it (\<open>project/inspection.py\<close>) and writing the scaffold it lacks
  (\<open>project/adaptation.py\<close>). Inspection reads the disk and classifies; adaptation creates files it never
  overwrites, one after the other. Printing a list as YAML is a parameter, as is which paths resolve
  outside the project (through a symbolic link).
\<close>

section \<open>Inspection\<close>

datatype project_mode = ATLAS_READY | ATLAS_NEEDS_ADAPTATION | ATLAS_INCOMPATIBLE | EXTERNAL

fun mode_str :: "project_mode \<Rightarrow> string" where
  "mode_str ATLAS_READY = ''atlas-ready''"
| "mode_str ATLAS_NEEDS_ADAPTATION = ''atlas-needs-adaptation''"
| "mode_str ATLAS_INCOMPATIBLE = ''atlas-incompatible''"
| "mode_str EXTERNAL = ''external''"

definition REQUIRED_DIRECTORIES :: "rel_path list" where
  "REQUIRED_DIRECTORIES = [goals_dir]"

definition REQUIRED_MANIFESTS :: "rel_path list" where
  "REQUIRED_MANIFESTS = [[''PROJECT_MANIFEST.yaml''], [''ENTRYPOINT.md''], [''PROJECT_STATE.md''], [''docs'', ''ATLAS.md''],
     [''.ai'', ''context'', ''project-profile.yaml''], [''.ai'', ''agents'', ''manifest.yaml''], [''.ai'', ''skills'', ''manifest.yaml''],
     [''.ai'', ''recipes'', ''manifest.yaml''], [''.ai'', ''orchestration'', ''model-policy.yaml''],
     [''.ai'', ''orchestration'', ''autonomy-policy.yaml''], [''.ai'', ''orchestration'', ''orchestrator.yaml''],
     [''.ai'', ''orchestration'', ''fallbacks.yaml'']]"

record project_capabilities =
  can_explore :: bool
  can_discuss :: bool
  can_adapt :: bool
  can_plan :: bool
  can_run :: bool
  can_review :: bool

record project_inspection =
  pi_mode :: project_mode
  pi_project_id :: string
  pi_project_name :: string
  pi_types :: "string list"
  pi_framework_name :: "string option"
  pi_framework_version :: "string option"
  pi_framework_supported :: bool
  pi_git_present :: bool
  pi_missing :: "string list"
  pi_invalid :: "string list"
  pi_reason :: string
  pi_recommendation :: string
  pi_capabilities :: project_capabilities

definition inspection ::
  "project_mode \<Rightarrow> string \<Rightarrow> string \<Rightarrow> string list \<Rightarrow> string option \<Rightarrow> string option \<Rightarrow> bool \<Rightarrow> bool \<Rightarrow> string list \<Rightarrow> string list
     \<Rightarrow> string \<Rightarrow> string \<Rightarrow> project_inspection" where
  "inspection mode pid pname types fname fversion supported git missing invalid reason recommendation =
     (let ready = (mode = ATLAS_READY); no_git = (ready \<and> \<not> git)
      in \<lparr>pi_mode = mode, pi_project_id = pid, pi_project_name = pname, pi_types = types, pi_framework_name = fname,
          pi_framework_version = fversion, pi_framework_supported = supported, pi_git_present = git, pi_missing = missing,
          pi_invalid = invalid,
          pi_reason = (if no_git then ''Project Atlas manifests are valid, but Git is required for isolated execution.'' else reason),
          pi_recommendation = (if no_git then ''Initialize or open a Git repository before running a Goal.'' else recommendation),
          pi_capabilities = \<lparr>can_explore = True, can_discuss = True, can_adapt = (mode \<in> {EXTERNAL, ATLAS_NEEDS_ADAPTATION}),
             can_plan = ready, can_run = (ready \<and> git), can_review = ready\<rparr>\<rparr>)"

text \<open>\<open>_read_mapping\<close>: a mapping, or why there is none; text that is not UTF-8 raises, and so does whatever
  the YAML parser raises besides its own error.\<close>

definition read_mapping :: "yaml_parser \<Rightarrow> 'z project_disk_scheme \<Rightarrow> rel_path \<Rightarrow> exn + (string + dict)" where
  "read_mapping yaml d p =
     (let failed = (\<lambda>why. Inr (Inl (''Could not read '' @ last p @ '': '' @ why)))
      in case map_of (pd_files d) p of
           None \<Rightarrow> failed ''No such file''
         | Some (Unreadable why, _) \<Rightarrow> failed why
         | Some (NotUtf8 why, _) \<Rightarrow> Inl (ValueError why)
         | Some (Text t, _) \<Rightarrow>
             (case yaml t of
                Inl (YAMLError why) \<Rightarrow> failed why
              | Inl e \<Rightarrow> Inl e
              | Inr (JObj m) \<Rightarrow> Inr (Inr m)
              | Inr v \<Rightarrow> Inr (Inl (last p @ '' must contain a mapping.''))))"

definition invalid_file :: "yaml_parser \<Rightarrow> 'z project_disk_scheme \<Rightarrow> rel_path \<Rightarrow> exn + bool" where
  "invalid_file yaml d p =
     (if \<not> (ends_with (last p) ''.yaml'' \<or> ends_with (last p) ''.yml'')
      then case map_of (pd_files d) p of
          Some (Text t, _) \<Rightarrow> Inr (strip t = [])
        | Some (NotUtf8 why, _) \<Rightarrow> Inl (ValueError why)
        | _ \<Rightarrow> Inr True
      else map_sum id isl (read_mapping yaml d p))"

definition supported_version :: "string option \<Rightarrow> bool" where
  "supported_version v = (case v of
     None \<Rightarrow> False
   | Some s \<Rightarrow> (case split_on (CHR ''.'') s of
       major # minor # _ \<Rightarrow> py_int major = Inr 0 \<and> py_int minor = Inr 1
     | _ \<Rightarrow> False))"

definition optional_string :: "(json \<Rightarrow> string) \<Rightarrow> json \<Rightarrow> string option" where
  "optional_string repr v = (if v \<noteq> JNull \<and> strip (py_str repr v) \<noteq> [] then Some (py_str repr v) else None)"

definition strings_of :: "(json \<Rightarrow> string) \<Rightarrow> json \<Rightarrow> string list" where
  "strings_of repr v = (case v of
     JStr s \<Rightarrow> [s]
   | JList xs \<Rightarrow> filter (\<lambda>s. strip s \<noteq> []) (List.map (py_str repr) xs)
   | _ \<Rightarrow> [])"

definition type_signals :: "(string \<times> string) list" where
  "type_signals = [(''pyproject.toml'', ''python''), (''package.json'', ''javascript/typescript''), (''Cargo.toml'', ''rust''),
     (''go.mod'', ''go''), (''pom.xml'', ''java''), (''composer.json'', ''php'')]"

definition detected_types :: "'z project_disk_scheme \<Rightarrow> string list" where
  "detected_types d = List.map snd (filter (\<lambda>(name, _). has_file d [name]) type_signals)"

definition missing_of :: "'z project_disk_scheme \<Rightarrow> rel_path list" where
  "missing_of d = filter (\<lambda>p. \<not> has_file d p) REQUIRED_MANIFESTS @ filter (\<lambda>p. \<not> has_dir d p) REQUIRED_DIRECTORIES"

fun invalid_among :: "yaml_parser \<Rightarrow> 'z project_disk_scheme \<Rightarrow> rel_path list \<Rightarrow> exn + rel_path list" where
  "invalid_among yaml d [] = Inr []"
| "invalid_among yaml d (p # ps) =
     (case invalid_file yaml d p of Inl e \<Rightarrow> Inl e | Inr bad \<Rightarrow>
     (case invalid_among yaml d ps of Inl e \<Rightarrow> Inl e | Inr rest \<Rightarrow> Inr (if bad then p # rest else rest)))"

text \<open>The exceptions of \<open>resolve_project\<close> that count as a finding about the manifests.\<close>

fun manifest_fault :: "exn \<Rightarrow> string option" where
  "manifest_fault (AtlasLoadError why) = Some why"
| "manifest_fault (ValueError why) = Some why"
| "manifest_fault (ValidationError why) = Some why"
| "manifest_fault (TypeError why) = Some why"
| "manifest_fault (KeyError why) = Some (quoted why)"
| "manifest_fault e = None"

definition git_present :: "'z project_disk_scheme \<Rightarrow> bool" where
  "git_present d \<longleftrightarrow> has_dir d [''.git''] \<or> has_file d [''.git'']"

text \<open>\<open>x or y\<close> for strings.\<close>

definition or_str :: "string \<Rightarrow> string \<Rightarrow> string" where
  "or_str x y = (if x \<noteq> [] then x else y)"

definition or_value :: "(json \<Rightarrow> string) \<Rightarrow> json \<Rightarrow> string \<Rightarrow> string" where
  "or_value repr v y = (if truthy v then py_str repr v else y)"

text \<open>What the manifest says of the project: identifier, name and types.\<close>

definition declared_project :: "(json \<Rightarrow> string) \<Rightarrow> string \<Rightarrow> string list \<Rightarrow> dict \<Rightarrow> string \<times> string \<times> string list" where
  "declared_project repr name detected raw =
     (let pid = or_str name ''unknown-project''
      in case map_of raw ''project'' of
           Some (JObj p) \<Rightarrow>
             (let i = or_value repr (get_or ''id'' JNull p) pid; ts = strings_of repr (get_or ''type'' JNull p)
              in (i, or_value repr (get_or ''name'' JNull p) i, if ts \<noteq> [] then ts else detected))
         | _ \<Rightarrow> (pid, pid, detected))"

definition declared_framework :: "(json \<Rightarrow> string) \<Rightarrow> dict \<Rightarrow> string option \<times> string option" where
  "declared_framework repr raw =
     (case map_of raw ''framework'' of
        Some (JObj f) \<Rightarrow> (optional_string repr (get_or ''name'' JNull f), optional_string repr (get_or ''version'' JNull f))
      | _ \<Rightarrow> (None, None))"

definition ADAPT_FIRST :: string where
  "ADAPT_FIRST = ''Inspect the project, then preview an adaptation to Project Atlas.''"

text \<open>\<open>inspect_project\<close>; \<open>name\<close> is the last part of the root, \<open>shown\<close> the root's text.\<close>

definition inspect_project ::
  "yaml_parser \<Rightarrow> (string \<Rightarrow> int option) \<Rightarrow> (json \<Rightarrow> string) \<Rightarrow> string \<Rightarrow> string \<Rightarrow> 'z project_disk_scheme \<Rightarrow> context_cache
     \<Rightarrow> (exn + project_inspection) \<times> context_cache" where
  "inspect_project yaml rd repr name shown d cache =
     (let git = git_present d; detected = detected_types d; manifest = [''PROJECT_MANIFEST.yaml'']
      in if \<not> has_file d manifest
         then (Inr (inspection EXTERNAL (or_str name ''external-project'') (or_str name shown) detected None None False git
                (List.map show_path REQUIRED_MANIFESTS) [] ''This directory does not declare Project Atlas manifests.'' ADAPT_FIRST), cache)
         else case read_mapping yaml d manifest of
           Inl e \<Rightarrow> (Inl e, cache)
         | Inr (Inl why) \<Rightarrow>
             (Inr (inspection ATLAS_NEEDS_ADAPTATION (or_str name ''unknown-project'') (or_str name shown) detected None None False git
                [] [''PROJECT_MANIFEST.yaml''] why
                ''Repair or replace the invalid Project Atlas manifest after reviewing a preview.''), cache)
         | Inr (Inr raw) \<Rightarrow>
             (let (pid, pname, types) = declared_project repr name detected raw;
                  (fname, fversion) = declared_framework repr raw
              in if fname \<noteq> Some ''project-atlas-framework''
                 then (Inr (inspection ATLAS_INCOMPATIBLE pid pname types fname fversion False git [] [''PROJECT_MANIFEST.yaml'']
                        (''This project declares '' @ (case fname of Some n \<Rightarrow> n | None \<Rightarrow> ''no framework'') @ '', not project-atlas-framework.'')
                        ''Review the compatibility report and adapt deliberately; automatic conversion is disabled.''), cache)
                 else if \<not> supported_version fversion
                 then (Inr (inspection ATLAS_INCOMPATIBLE pid pname types fname fversion False git [] [''PROJECT_MANIFEST.yaml'']
                        (''Framework version '' @ (case fversion of Some v \<Rightarrow> v | None \<Rightarrow> ''unknown'')
                          @ '' is not supported; Atlas Flow currently supports 0.1.x.'')
                        ''Inspect and review an explicit framework migration before execution.''), cache)
                 else (let missing = missing_of d;
                           needs = (\<lambda>invalid reason. inspection ATLAS_NEEDS_ADAPTATION pid pname types fname fversion True git
                             (List.map show_path missing) invalid reason
                             ''Review the missing or invalid manifests, then preview an authorized adaptation.'')
                       in case invalid_among yaml d (filter (has_file d) REQUIRED_MANIFESTS) of
                            Inl e \<Rightarrow> (Inl e, cache)
                          | Inr invalid \<Rightarrow>
                              if missing \<noteq> [] \<or> invalid \<noteq> []
                              then (Inr (needs (List.map show_path invalid)
                                     ''Project Atlas is declared but required manifests need attention.''), cache)
                              else (case resolve_project yaml rd True d d cache of
                                  (Inr ctx, cache') \<Rightarrow>
                                    (Inr (inspection ATLAS_READY (str_attr ''id'' (ctx_project ctx)) (str_attr ''id'' (ctx_project ctx))
                                       (strs_attr ''types'' (ctx_project ctx)) fname fversion True git [] []
                                       ''Project Atlas manifests are valid and the supported framework is available.''
                                       ''Project is ready for Goal planning and execution.''), cache')
                                | (Inl e, cache') \<Rightarrow>
                                    (case manifest_fault e of
                                       Some why \<Rightarrow> (Inr (needs [''Project Atlas manifests''] (''Project Atlas manifests are not valid: '' @ why)), cache')
                                     | None \<Rightarrow> (Inl e, cache'))))))"

section \<open>The scaffold\<close>

record adaptation_file =
  af_path :: rel_path
  af_conflict :: bool
  af_content :: string
  af_reason :: string

record adaptation_preview =
  pv_ready :: bool
  pv_files :: "adaptation_file list"
  pv_conflicts :: "rel_path list"
  pv_limitations :: "string list"

definition safe_id :: "string \<Rightarrow> string" where
  "safe_id v = or_str (join ''-'' (filter (\<lambda>p. p \<noteq> []) (split_on (CHR ''-'')
     (List.map (\<lambda>c. if is_alnum c then lower_char c else CHR ''-'') v)))) ''external-project''"

definition indent :: "string \<Rightarrow> nat \<Rightarrow> string list" where
  "indent v n = List.map (\<lambda>l. replicate n (CHR '' '') @ l) (splitlines v)"

definition scaffold :: "(string list \<Rightarrow> string) \<Rightarrow> project_inspection \<Rightarrow> (rel_path \<times> string) list" where
  "scaffold dump insp =
     (let pid = safe_id (pi_project_id insp); pname = or_str (pi_project_name insp) pid;
          types = (if pi_types insp \<noteq> [] then pi_types insp else [''application'']);
          type_yaml = indent (strip (dump types)) 4;
          type_lines = (if type_yaml = [] then [[]] else type_yaml)
      in [([''PROJECT_MANIFEST.yaml''], text_of_lines ([''framework:'', ''  name: project-atlas-framework'', ''  version: 0.1.0'',
             ''  entrypoint: ENTRYPOINT.md'', ''project:'', ''  id: '' @ pid, ''  name: '' @ pname, ''  type:''] @ type_lines
             @ [''  status: in-development'', ''documentation:'', ''  atlas: docs/ATLAS.md'', ''  state: PROJECT_STATE.md''])),
          ([''ENTRYPOINT.md''], text_of_lines [''# '' @ pname, [], ''Project Atlas entrypoint. Review this scaffold before committing.'']),
          ([''PROJECT_STATE.md''], text_of_lines [''# Project State'', [], ''Atlas Flow adaptation scaffold; status requires owner review.'']),
          ([''docs'', ''ATLAS.md''], text_of_lines [''# Atlas'', [], ''Add the canonical navigation for this project.'']),
          ([''.ai'', ''context'', ''project-profile.yaml''], text_of_lines ([''project:'', ''  id: '' @ pid, ''  type:''] @ type_lines
             @ [''  languages: []'', ''  technologies: []'', ''  features: []'', ''  risk:'', ''    security: unknown''])),
          ([''.ai'', ''goals'', ''README.md''], text_of_lines [''# Goals'', [], ''Define Goals here after the project context and decisions are reviewed.'']),
          ([''.ai'', ''agents'', ''manifest.yaml''], text_of_lines [''agents:'', ''  - goal-planner'', ''  - core-implementer'', ''  - reviewer'',
             ''selection_basis:'', ''  - project type'', ''  - risk'']),
          ([''.ai'', ''skills'', ''manifest.yaml''], text_of_lines [''skills:'', ''  - goal-contracts'']),
          ([''.ai'', ''recipes'', ''manifest.yaml''], text_of_lines [''recipes:'', ''  - implement-goal'']),
          ([''.ai'', ''orchestration'', ''model-policy.yaml''], text_of_lines [''version: 1'', ''development_harness: command-code'',
             ''runtime_discovery:'', ''  command: cmd --list-models'', ''roster: []'', ''principles:'',
             ''  - runtime availability beats static assumptions'']),
          ([''.ai'', ''orchestration'', ''autonomy-policy.yaml''], text_of_lines [''default: agentic'', ''modes:'', ''  controlled:'',
             ''    description: human approval at meaningful gates'', ''  agentic:'', ''    description: bounded execution with escalation'',
             ''project_policy:'', ''  current: agentic'']),
          ([''.ai'', ''orchestration'', ''orchestrator.yaml''], text_of_lines [''development:'', ''  harness: command-code'', ''product:'',
             ''  runtime: atlas-flow'', ''protocols:'', ''  agent: acp'', ''  ui: ag-ui'', ''execution:'',
             ''  isolate_mutating_tasks: true'', ''  worktree_strategy: per-task'']),
          ([''.ai'', ''orchestration'', ''fallbacks.yaml''], text_of_lines [''availability: route to the next reachable model'', ''quality:'',
             ''  max_cross_model_attempts: 2'', ''confidence:'', ''  escalate_below: 0.5'', ''human_escalation:'', ''  - unresolvable conflict''])])"

section \<open>Preview and application\<close>

definition path_exists :: "'z project_disk_scheme \<Rightarrow> rel_path \<Rightarrow> bool" where
  "path_exists d p \<longleftrightarrow> has_file d p \<or> has_dir d p"

definition preview_adaptation :: "(string list \<Rightarrow> string) \<Rightarrow> project_inspection \<Rightarrow> 'z project_disk_scheme \<Rightarrow> adaptation_preview" where
  "preview_adaptation dump insp d =
     (if pi_mode insp = ATLAS_INCOMPATIBLE
      then \<lparr>pv_ready = False, pv_files = [], pv_conflicts = [],
            pv_limitations = [''An incompatible framework requires a reviewed migration, not a scaffold.'']\<rparr>
      else let files = scaffold dump insp;
               planned = List.map (\<lambda>(p, content). \<lparr>af_path = p, af_conflict = path_exists d p, af_content = content,
                 af_reason = ''Required Project Atlas scaffold file.''\<rparr>) files
           in \<lparr>pv_ready = list_ex (\<lambda>f. \<not> af_conflict f) planned, pv_files = planned,
               pv_conflicts = filter (path_exists d) (List.map fst files),
               pv_limitations = [''No Goal is generated or marked locked/done.'',
                  ''No command from the project is executed during adaptation.'',
                  ''Review generated files and commit them through Git after applying.'']
                 @ (if pi_git_present insp then [] else [''Execution remains unavailable until the project has a Git repository.''])\<rparr>)"

text \<open>\<open>target.parent.mkdir(parents=True, exist_ok=True)\<close> and \<open>write_text\<close>; \<open>t\<close> is the time of writing.\<close>

definition parents_of :: "rel_path \<Rightarrow> rel_path list" where
  "parents_of p = List.map (\<lambda>n. take n p) [1..<length p]"

record scaffold_disk = project_disk +
  pd_outside :: "rel_path \<Rightarrow> bool"
  pd_time :: int

definition write_new :: "rel_path \<Rightarrow> string \<Rightarrow> ('z scaffold_disk_scheme, exn, unit) act" where
  "write_new p content d =
     (if list_ex (has_file d) (parents_of p) then (Inl (OSError ''Not a directory''), d)
      else (Inr (), d\<lparr>pd_dirs := pd_dirs d @ List.map (\<lambda>q. (q, pd_time d)) (filter (\<lambda>q. \<not> has_dir d q) (parents_of p)),
              pd_files := pd_files d @ [(p, Text content, pd_time d)]\<rparr>))"

fun write_accepted ::
  "(rel_path \<Rightarrow> string option) \<Rightarrow> rel_path list \<Rightarrow> ('z scaffold_disk_scheme, exn, rel_path list) act" where
  "write_accepted planned [] = ret []"
| "write_accepted planned (p # ps) =
     bindE (gets (\<lambda>d. (pd_outside d p, path_exists d p))) (\<lambda>(outside, there).
     if outside then throw (AdaptationError (''Adaptation path escapes project root: '' @ show_path p))
     else if there then throw (AdaptationError (''Refusing to overwrite existing file: '' @ show_path p))
     else bindE (write_new p (case planned p of Some c \<Rightarrow> c | None \<Rightarrow> [])) (\<lambda>_.
          bindE (write_accepted planned ps) (\<lambda>rest. ret (p # rest))))"

definition apply_adaptation ::
  "(string list \<Rightarrow> string) \<Rightarrow> project_inspection \<Rightarrow> rel_path list \<Rightarrow> ('z scaffold_disk_scheme, exn, rel_path list) act" where
  "apply_adaptation dump insp accepted d =
     (if pi_mode insp = ATLAS_INCOMPATIBLE
      then (Inl (AdaptationError ''An incompatible framework requires a reviewed migration before applying.''), d)
      else let planned = map_of (List.map (\<lambda>f. (af_path f, af_content f)) (pv_files (preview_adaptation dump insp d)));
               unknown = sort (remdups (List.map show_path (filter (\<lambda>p. planned p = None) accepted)))
           in if unknown \<noteq> []
              then (Inl (AdaptationError (''Cannot apply paths not present in the preview: '' @ join '', '' unknown)), d)
              else write_accepted planned accepted d)"

section \<open>What inspection decides\<close>

lemma inspection_fields [simp]:
  "pi_mode (inspection m i n ts fn fv su g ms iv re rc) = m"
  "pi_missing (inspection m i n ts fn fv su g ms iv re rc) = ms"
  "pi_invalid (inspection m i n ts fn fv su g ms iv re rc) = iv"
  "pi_git_present (inspection m i n ts fn fv su g ms iv re rc) = g"
  "can_plan (pi_capabilities (inspection m i n ts fn fv su g ms iv re rc)) = (m = ATLAS_READY)"
  "can_review (pi_capabilities (inspection m i n ts fn fv su g ms iv re rc)) = (m = ATLAS_READY)"
  "can_run (pi_capabilities (inspection m i n ts fn fv su g ms iv re rc)) = (m = ATLAS_READY \<and> g)"
  "can_adapt (pi_capabilities (inspection m i n ts fn fv su g ms iv re rc)) = (m = EXTERNAL \<or> m = ATLAS_NEEDS_ADAPTATION)"
  by (simp_all add: inspection_def Let_def)

text \<open>What a project needs to be ready, read off the disk.\<close>

definition ready_project ::
  "yaml_parser \<Rightarrow> (string \<Rightarrow> int option) \<Rightarrow> (json \<Rightarrow> string) \<Rightarrow> 'z project_disk_scheme \<Rightarrow> context_cache \<Rightarrow> bool" where
  "ready_project yaml rd repr d cache \<longleftrightarrow>
     has_file d [''PROJECT_MANIFEST.yaml''] \<and> missing_of d = []
     \<and> invalid_among yaml d (filter (has_file d) REQUIRED_MANIFESTS) = Inr []
     \<and> (case read_mapping yaml d [''PROJECT_MANIFEST.yaml''] of
          Inr (Inr raw) \<Rightarrow> fst (declared_framework repr raw) = Some ''project-atlas-framework''
            \<and> supported_version (snd (declared_framework repr raw))
        | _ \<Rightarrow> False)
     \<and> (case fst (resolve_project yaml rd True d d cache) of Inr _ \<Rightarrow> True | Inl _ \<Rightarrow> False)"

text \<open>The verdict after the manifest has been read as a mapping.\<close>

lemma missing_shown [simp]: "List.map show_path ps = [] \<longleftrightarrow> ps = []"
  by simp

text \<open>C32. The verdict of an inspection: a project is ready exactly when its manifest names the supported
  framework, every required file and directory is there and valid, and its context resolves; it is
  external exactly when it has no manifest; any other verdict names a missing or invalid manifest; and
  what the project may do follows from the verdict, running also needing Git.\<close>

theorem inspection_verdict:
  assumes "inspect_project yaml rd repr name shown d cache = (Inr i, cache')"
  shows "(pi_mode i = ATLAS_READY \<longleftrightarrow> ready_project yaml rd repr d cache)
    \<and> (pi_mode i = EXTERNAL \<longleftrightarrow> \<not> has_file d [''PROJECT_MANIFEST.yaml''])
    \<and> (pi_mode i = ATLAS_READY \<longleftrightarrow> pi_missing i = [] \<and> pi_invalid i = [])
    \<and> can_plan (pi_capabilities i) = (pi_mode i = ATLAS_READY)
    \<and> can_run (pi_capabilities i) = (pi_mode i = ATLAS_READY \<and> git_present d)
    \<and> can_adapt (pi_capabilities i) = (pi_mode i \<noteq> ATLAS_READY \<and> pi_mode i \<noteq> ATLAS_INCOMPATIBLE)"
proof -
  let ?m = "[''PROJECT_MANIFEST.yaml'']"
  show ?thesis
  proof (cases "has_file d ?m")
    case False
    then have "i = inspection EXTERNAL (or_str name ''external-project'') (or_str name shown) (detected_types d) None None False (git_present d)
                (List.map show_path REQUIRED_MANIFESTS) [] ''This directory does not declare Project Atlas manifests.'' ADAPT_FIRST"
      using assms by (simp add: inspect_project_def Let_def)
    then show ?thesis using False by (simp add: ready_project_def REQUIRED_MANIFESTS_def)
  next
    case True
    show ?thesis
    proof (cases "read_mapping yaml d ?m")
      case (Inl e)
      with True assms show ?thesis by (simp add: inspect_project_def Let_def)
    next
      case read: (Inr res)
      show ?thesis
      proof (cases res)
        case (Inl why)
        with True assms read show ?thesis by (auto simp: inspect_project_def Let_def ready_project_def)
      next
        case raw: (Inr raw)
        obtain pid pname types where dp: "declared_project repr name (detected_types d) raw = (pid, pname, types)" by (metis prod_cases3)
        obtain fname fversion where df: "declared_framework repr raw = (fname, fversion)" by fastforce
        show ?thesis
        proof (cases "fname = Some ''project-atlas-framework'' \<and> supported_version fversion")
          case False
          with True assms read raw dp df show ?thesis
            by (auto simp: inspect_project_def Let_def ready_project_def split: if_splits)
        next
          case fw: True
          then have fwn: "fname = Some ''project-atlas-framework''" and fwv: "supported_version fversion" by simp_all
          show ?thesis
          proof (cases "invalid_among yaml d (filter (has_file d) REQUIRED_MANIFESTS)")
            case (Inl e)
            with True assms read raw dp df fwv show ?thesis by (simp add: inspect_project_def Let_def fwn)
          next
            case inv: (Inr invalid)
            obtain res cache2 where rp: "resolve_project yaml rd True d d cache = (res, cache2)" by fastforce
            have ready: "ready_project yaml rd repr d cache \<longleftrightarrow> missing_of d = [] \<and> invalid = [] \<and> \<not> isl res"
              using True read raw df fwv inv rp by (auto simp: ready_project_def fwn split: sum.split)
            show ?thesis
            proof (cases "missing_of d \<noteq> [] \<or> invalid \<noteq> []")
              case bad: True
              with True assms read raw dp df fwv inv have
                "i = inspection ATLAS_NEEDS_ADAPTATION pid pname types fname fversion True (git_present d)
                   (List.map show_path (missing_of d)) (List.map show_path invalid)
                   ''Project Atlas is declared but required manifests need attention.''
                   ''Review the missing or invalid manifests, then preview an authorized adaptation.''"
                by (simp add: inspect_project_def Let_def fwn)
              moreover have "\<not> ready_project yaml rd repr d cache" using bad ready by blast
              ultimately show ?thesis using True bad by simp
            next
              case False
              with True assms read raw dp df fwv inv rp show ?thesis
                by (cases res) (auto simp: inspect_project_def Let_def fwn ready split: option.splits)
            qed
          qed
        qed
      qed
    qed
  qed
qed

section \<open>What adaptation writes\<close>

lemma map_of_with_dirs: "map_of (ds @ List.map (\<lambda>q. (q, t)) qs) x = None \<longleftrightarrow> map_of ds x = None \<and> x \<notin> set qs"
  by (induction ds) (auto simp: map_of_eq_None_iff image_iff)

lemma write_new_facts:
  assumes "write_new p c d = (r, d')"
  shows "r = Inr () \<longleftrightarrow> \<not> list_ex (has_file d) (parents_of p)"
    and "r \<noteq> Inr () \<Longrightarrow> d' = d"
    and "r = Inr () \<Longrightarrow> map_of (pd_files d') x = (case map_of (pd_files d) x of Some f \<Rightarrow> Some f | None \<Rightarrow> if x = p then Some (Text c, pd_time d) else None)"
    and "r = Inr () \<Longrightarrow> has_dir d' x \<longleftrightarrow> has_dir d x \<or> x \<in> set (parents_of p)"
    and "pd_outside d' = pd_outside d" and "pd_time d' = pd_time d"
proof -
  show "r = Inr () \<longleftrightarrow> \<not> list_ex (has_file d) (parents_of p)" "r \<noteq> Inr () \<Longrightarrow> d' = d"
    "pd_outside d' = pd_outside d" "pd_time d' = pd_time d"
    using assms by (auto simp: write_new_def split: if_splits)
  assume ok: "r = Inr ()"
  with assms have d': "d' = d\<lparr>pd_dirs := pd_dirs d @ List.map (\<lambda>q. (q, pd_time d)) (filter (\<lambda>q. \<not> has_dir d q) (parents_of p)),
              pd_files := pd_files d @ [(p, Text c, pd_time d)]\<rparr>" by (auto simp: write_new_def split: if_splits)
  show "map_of (pd_files d') x = (case map_of (pd_files d) x of Some f \<Rightarrow> Some f | None \<Rightarrow> if x = p then Some (Text c, pd_time d) else None)"
    by (simp add: d' map_add_def split: option.split)
  have dirs: "pd_dirs d' = pd_dirs d @ List.map (\<lambda>q. (q, pd_time d)) (filter (\<lambda>q. \<not> has_dir d q) (parents_of p))"
    by (simp add: d')
  have "has_dir d' x \<longleftrightarrow> \<not> (map_of (pd_dirs d) x = None \<and> x \<notin> set (filter (\<lambda>q. \<not> has_dir d q) (parents_of p)))"
    by (simp only: has_dir_def [of d' x] dirs map_of_with_dirs simp_thms)
  then show "has_dir d' x \<longleftrightarrow> has_dir d x \<or> x \<in> set (parents_of p)"
    by (auto simp: has_dir_def)
qed

lemma unknown_paths: "sort (remdups (List.map show_path (filter P ps))) = [] \<longleftrightarrow> (\<forall>p \<in> set ps. \<not> P p)"
proof -
  have "sort (remdups (List.map show_path (filter P ps))) = [] \<longleftrightarrow> filter P ps = []"
    by (metis list.set_map set_empty set_remdups set_sort image_is_empty)
  then show ?thesis by (simp add: filter_empty_conv)
qed

text \<open>One disk grows into another: nothing of the files changes, and the new ones are among \<open>ps\<close>.\<close>

definition only_adds :: "(rel_path \<Rightarrow> string option) \<Rightarrow> rel_path list \<Rightarrow> 'z scaffold_disk_scheme \<Rightarrow> 'z scaffold_disk_scheme \<Rightarrow> bool" where
  "only_adds planned ps d d' \<longleftrightarrow> pd_outside d' = pd_outside d \<and> pd_time d' = pd_time d
     \<and> (\<forall>x f. map_of (pd_files d) x = Some f \<longrightarrow> map_of (pd_files d') x = Some f)
     \<and> (\<forall>x f. map_of (pd_files d) x = None \<and> map_of (pd_files d') x = Some f \<longrightarrow> x \<in> set ps \<and> \<not> pd_outside d x
          \<and> f = (Text (case planned x of Some c \<Rightarrow> c | None \<Rightarrow> []), pd_time d))
     \<and> (\<forall>x. has_dir d x \<longrightarrow> has_dir d' x)"

lemma only_adds_refl: "only_adds planned ps d d"
  by (auto simp: only_adds_def)

lemma only_adds_new:
  assumes "write_new p (case planned p of Some c \<Rightarrow> c | None \<Rightarrow> []) d = (r, d')" and "\<not> pd_outside d p"
  shows "only_adds planned [p] d d'"
proof (cases "r = Inr ()")
  case True
  show ?thesis
    unfolding only_adds_def write_new_facts(3) [OF assms(1) True] write_new_facts(4) [OF assms(1) True]
    using assms(2) write_new_facts(5,6) [OF assms(1)] by (simp split: option.split)
next
  case False
  then show ?thesis using write_new_facts(2) [OF assms(1)] by (simp add: only_adds_refl)
qed

lemma only_adds_trans:
  assumes "only_adds planned ps d e" and "only_adds planned qs e f"
  shows "only_adds planned (ps @ qs) d f"
  unfolding only_adds_def
proof (intro conjI allI impI; (elim conjE)?)
  note a = assms [unfolded only_adds_def]
  show "pd_outside f = pd_outside d" "pd_time f = pd_time d" using a by simp_all
  show "map_of (pd_files f) x = Some g" if "map_of (pd_files d) x = Some g" for x g using a that by blast
  show "has_dir f x" if "has_dir d x" for x using a that by blast
  fix x g assume n: "map_of (pd_files d) x = None" and s: "map_of (pd_files f) x = Some g"
  have "(x \<in> set ps \<or> x \<in> set qs) \<and> \<not> pd_outside d x \<and> g = (Text (case planned x of Some c \<Rightarrow> c | None \<Rightarrow> []), pd_time d)"
  proof (cases "map_of (pd_files e) x")
    case None
    with s assms(2) have "x \<in> set qs \<and> \<not> pd_outside e x \<and> g = (Text (case planned x of Some c \<Rightarrow> c | None \<Rightarrow> []), pd_time e)"
      unfolding only_adds_def by blast
    with assms(1) show ?thesis by (simp add: only_adds_def)
  next
    case (Some h)
    with s assms(2) have "g = h" unfolding only_adds_def by (metis option.inject)
    with n Some assms(1) show ?thesis unfolding only_adds_def by blast
  qed
  then show "x \<in> set (ps @ qs)" "\<not> pd_outside d x" "g = (Text (case planned x of Some c \<Rightarrow> c | None \<Rightarrow> []), pd_time d)" by auto
qed

lemma write_accepted_adds:
  assumes "write_accepted planned ps d = (r, d')"
  shows "only_adds planned ps d d' \<and> (\<forall>w. r = Inr w \<longrightarrow> w = ps \<and> (\<forall>p \<in> set ps. has_file d' p \<and> \<not> path_exists d p))"
  using assms
proof (induction ps arbitrary: d r d')
  case Nil
  then show ?case by (auto simp: ret_def only_adds_refl)
next
  case (Cons p ps)
  show ?case
  proof (cases "pd_outside d p \<or> path_exists d p")
    case True
    with Cons.prems have "d' = d \<and> (\<exists>e. r = Inl e)" by (auto simp: act_defs split: if_splits)
    then show ?thesis by (auto simp: only_adds_refl)
  next
    case False
    obtain r1 d1 where w: "write_new p (case planned p of Some c \<Rightarrow> c | None \<Rightarrow> []) d = (r1, d1)" by fastforce
    have add1: "only_adds planned [p] d d1" using only_adds_new [of p planned d r1 d1, OF w] False by simp
    show ?thesis
    proof (cases r1)
      case (Inl e)
      with Cons.prems False w have "d' = d1 \<and> r = Inl e" by (simp add: gets_def bindE_def)
      with write_new_facts(2) [OF w] Inl show ?thesis by (simp add: only_adds_refl)
    next
      case (Inr u)
      then have ok: "r1 = Inr ()" by simp
      obtain r2 d2 where rest: "write_accepted planned ps d1 = (r2, d2)" by fastforce
      from Cons.prems False w ok rest have run: "d' = d2 \<and> r = (case r2 of Inl e \<Rightarrow> Inl e | Inr w \<Rightarrow> Inr (p # w))"
        by (cases r2) (auto simp: gets_def bindE_def ret_def)
      note ih = Cons.IH [OF rest]
      from only_adds_trans [OF add1] ih have adds: "only_adds planned (p # ps) d d2" by fastforce
      have p1: "map_of (pd_files d1) p \<noteq> None"
        unfolding write_new_facts(3) [OF w ok] by (simp split: option.split)
      have "w' = p # ps \<and> (\<forall>q \<in> set (p # ps). has_file d2 q \<and> \<not> path_exists d q)" if "r = Inr w'" for w'
      proof -
        from that run obtain w2 where w2: "r2 = Inr w2" "w' = p # w2" by (cases r2) auto
        with ih have r: "w2 = ps" "\<forall>q \<in> set ps. has_file d2 q \<and> \<not> path_exists d1 q" by auto
        from p1 ih have "has_file d2 p" unfolding only_adds_def has_file_def by blast
        moreover have "\<not> path_exists d q" if "q \<in> set ps" for q
        proof -
          from r(2) that have "\<not> has_file d1 q" "\<not> has_dir d1 q" by (auto simp: path_exists_def)
          with add1 show ?thesis unfolding only_adds_def path_exists_def has_file_def by (metis option.exhaust)
        qed
        ultimately show ?thesis using False w2(2) r by auto
      qed
      with run adds show ?thesis by blast
    qed
  qed
qed

lemma planned_scaffold:
  "pi_mode insp \<noteq> ATLAS_INCOMPATIBLE \<Longrightarrow>
   map_of (List.map (\<lambda>f. (af_path f, af_content f)) (pv_files (preview_adaptation dump insp d))) = map_of (scaffold dump insp)"
  by (simp add: preview_adaptation_def Let_def comp_def split_beta)


section \<open>The scaffold is enough\<close>

lemma scaffold_paths: "List.map fst (scaffold dump insp) =
    [[''PROJECT_MANIFEST.yaml''], [''ENTRYPOINT.md''], [''PROJECT_STATE.md''], [''docs'', ''ATLAS.md''],
     [''.ai'', ''context'', ''project-profile.yaml''], [''.ai'', ''goals'', ''README.md''], [''.ai'', ''agents'', ''manifest.yaml''],
     [''.ai'', ''skills'', ''manifest.yaml''], [''.ai'', ''recipes'', ''manifest.yaml''], [''.ai'', ''orchestration'', ''model-policy.yaml''],
     [''.ai'', ''orchestration'', ''autonomy-policy.yaml''], [''.ai'', ''orchestration'', ''orchestrator.yaml''],
     [''.ai'', ''orchestration'', ''fallbacks.yaml'']]"
  by (simp add: scaffold_def Let_def)

definition scaffold_list :: "rel_path list" where
  "scaffold_list = [[''PROJECT_MANIFEST.yaml''], [''ENTRYPOINT.md''], [''PROJECT_STATE.md''], [''docs'', ''ATLAS.md''],
     [''.ai'', ''context'', ''project-profile.yaml''], [''.ai'', ''goals'', ''README.md''], [''.ai'', ''agents'', ''manifest.yaml''],
     [''.ai'', ''skills'', ''manifest.yaml''], [''.ai'', ''recipes'', ''manifest.yaml''], [''.ai'', ''orchestration'', ''model-policy.yaml''],
     [''.ai'', ''orchestration'', ''autonomy-policy.yaml''], [''.ai'', ''orchestration'', ''orchestrator.yaml''],
     [''.ai'', ''orchestration'', ''fallbacks.yaml'']]"

lemma scaffold_list_facts:
  "distinct scaffold_list" "list_all (\<lambda>p. list_all (\<lambda>q. p \<notin> set (parents_of q)) scaffold_list) scaffold_list"
  "goals_dir \<in> set (parents_of [''.ai'', ''goals'', ''README.md''])"
  "set REQUIRED_MANIFESTS \<subseteq> set scaffold_list" "[''.ai'', ''goals'', ''README.md''] \<in> set scaffold_list"
  by code_simp+

lemma write_accepted_succeeds:
  assumes "distinct ps" and "\<forall>p \<in> set ps. \<forall>q \<in> set ps. p \<notin> set (parents_of q)"
    and "\<forall>p \<in> set ps. \<not> pd_outside d p \<and> \<not> path_exists d p \<and> \<not> list_ex (has_file d) (parents_of p)"
  shows "\<exists>d'. write_accepted planned ps d = (Inr ps, d') \<and> (\<forall>p \<in> set ps. \<forall>q \<in> set (parents_of p). has_dir d' q)
    \<and> (\<forall>q. has_dir d q \<longrightarrow> has_dir d' q)"
  using assms
proof (induction ps arbitrary: d)
  case Nil
  then show ?case by (simp add: ret_def)
next
  case (Cons p ps)
  from Cons.prems(3) have free: "\<not> pd_outside d p" "\<not> path_exists d p" "\<not> list_ex (has_file d) (parents_of p)" by auto
  obtain r1 d1 where w: "write_new p (case planned p of Some c \<Rightarrow> c | None \<Rightarrow> []) d = (r1, d1)" by fastforce
  with free(3) write_new_facts(1) [OF w] have ok: "r1 = Inr ()" by simp
  have file1: "has_file d1 x \<longleftrightarrow> has_file d x \<or> x = p" for x
    unfolding has_file_def write_new_facts(3) [OF w ok] by (simp split: option.split)
  note dir1 = write_new_facts(4) [OF w ok]
  have "\<not> pd_outside d1 q \<and> \<not> path_exists d1 q \<and> \<not> list_ex (has_file d1) (parents_of q)" if q: "q \<in> set ps" for q
  proof -
    from q Cons.prems(1,2) have ne: "q \<noteq> p" "q \<notin> set (parents_of p)" "p \<notin> set (parents_of q)" by auto
    from q Cons.prems(3) have "\<not> pd_outside d q \<and> \<not> path_exists d q \<and> \<not> list_ex (has_file d) (parents_of q)" by auto
    with ne show ?thesis by (auto simp: path_exists_def file1 dir1 write_new_facts(5) [OF w] list_ex_iff)
  qed
  with Cons.IH [of d1] Cons.prems obtain d' where rest: "write_accepted planned ps d1 = (Inr ps, d')"
    and dirs: "\<forall>p \<in> set ps. \<forall>q \<in> set (parents_of p). has_dir d' q" "\<forall>q. has_dir d1 q \<longrightarrow> has_dir d' q" by auto
  have "write_accepted planned (p # ps) d = (Inr (p # ps), d')"
    using free w ok rest by (simp add: gets_def bindE_def ret_def)
  moreover have "\<forall>p' \<in> set (p # ps). \<forall>q \<in> set (parents_of p'). has_dir d' q" using dirs dir1 by auto
  moreover have "\<forall>q. has_dir d q \<longrightarrow> has_dir d' q" using dirs(2) dir1 by auto
  ultimately show ?case by blast
qed

text \<open>Accepting every path the preview does not mark as a conflict works, unless a path resolves outside
  the project or a file stands where a directory is needed, and leaves nothing an inspection requires
  missing, as long as what was in the way are files in place, below their directories.\<close>

theorem adaptation_completes:
  assumes "pi_mode insp \<noteq> ATLAS_INCOMPATIBLE"
    and "\<forall>p \<in> set (List.map fst (scaffold dump insp)). \<not> pd_outside d p \<and> \<not> has_dir d p \<and> \<not> list_ex (has_file d) (parents_of p)
      \<and> (has_file d p \<longrightarrow> list_all (has_dir d) (parents_of p))"
  shows "let accepted = List.map af_path (filter (\<lambda>f. \<not> af_conflict f) (pv_files (preview_adaptation dump insp d)))
    in \<exists>d'. apply_adaptation dump insp accepted d = (Inr accepted, d') \<and> missing_of d' = []"
proof -
  define accepted where "accepted = List.map af_path (filter (\<lambda>f. \<not> af_conflict f) (pv_files (preview_adaptation dump insp d)))"
  have paths: "List.map fst (scaffold dump insp) = scaffold_list" by (simp add: scaffold_paths scaffold_list_def)
  have acc: "accepted = filter (\<lambda>p. \<not> path_exists d p) scaffold_list"
    unfolding accepted_def paths [symmetric] using assms(1)
    by (simp add: preview_adaptation_def Let_def filter_map comp_def split_beta)
  have sub: "set accepted \<subseteq> set scaffold_list" by (auto simp: acc)
  have known: "map_of (scaffold dump insp) p \<noteq> None" if "p \<in> set accepted" for p
  proof -
    from that sub have "p \<in> set (List.map fst (scaffold dump insp))" unfolding paths by blast
    then show ?thesis by (simp add: map_of_eq_None_iff)
  qed
  note ok = assms(2) [unfolded paths]
  have "\<exists>d'. write_accepted (map_of (scaffold dump insp)) accepted d = (Inr accepted, d')
      \<and> (\<forall>p \<in> set accepted. \<forall>q \<in> set (parents_of p). has_dir d' q) \<and> (\<forall>q. has_dir d q \<longrightarrow> has_dir d' q)"
  proof (rule write_accepted_succeeds)
    show "distinct accepted" using scaffold_list_facts(1) by (simp add: acc)
    show "\<forall>p \<in> set accepted. \<forall>q \<in> set accepted. p \<notin> set (parents_of q)"
      using scaffold_list_facts(2) sub by (auto simp: list_all_iff)
    show "\<forall>p \<in> set accepted. \<not> pd_outside d p \<and> \<not> path_exists d p \<and> \<not> list_ex (has_file d) (parents_of p)"
      using ok by (auto simp: acc)
  qed
  then obtain d' where run: "write_accepted (map_of (scaffold dump insp)) accepted d = (Inr accepted, d')"
    and dirs: "\<forall>p \<in> set accepted. \<forall>q \<in> set (parents_of p). has_dir d' q" "\<forall>q. has_dir d q \<longrightarrow> has_dir d' q" by blast
  have app: "apply_adaptation dump insp accepted d = (Inr accepted, d')"
    using known run assms(1) by (auto simp: apply_adaptation_def Let_def planned_scaffold unknown_paths)
  from write_accepted_adds [OF run] have adds: "only_adds (map_of (scaffold dump insp)) accepted d d'"
    and new: "\<forall>p \<in> set accepted. has_file d' p" by auto
  have files: "has_file d' p" if "p \<in> set scaffold_list" for p
  proof (cases "p \<in> set accepted")
    case False
    with that ok have "has_file d p" by (auto simp: acc path_exists_def)
    then obtain f where "map_of (pd_files d) p = Some f" by (auto simp: has_file_def)
    with adds show ?thesis unfolding only_adds_def has_file_def by blast
  qed (use new in blast)
  have "has_dir d' goals_dir"
  proof (cases "[''.ai'', ''goals'', ''README.md''] \<in> set accepted")
    case True
    with dirs(1) scaffold_list_facts(3) show ?thesis by blast
  next
    case False
    then have "has_file d [''.ai'', ''goals'', ''README.md'']"
      using scaffold_list_facts(5) ok by (auto simp: acc path_exists_def)
    with ok scaffold_list_facts(3,5) have "has_dir d goals_dir" by (auto simp: list_all_iff)
    with dirs(2) show ?thesis by blast
  qed
  with files scaffold_list_facts(4) have "missing_of d' = []"
    by (auto simp: missing_of_def REQUIRED_DIRECTORIES_def filter_empty_conv)
  with app show ?thesis by (simp add: accepted_def [symmetric] Let_def)
qed

section \<open>Samples\<close>

definition ready_files :: "(rel_path \<times> string \<times> json) list" where
  "ready_files =
     [([''PROJECT_MANIFEST.yaml''], ''manifest'', JObj [(''framework'', JObj [(''name'', JStr ''project-atlas-framework''),
         (''version'', JStr ''0.1.0''), (''entrypoint'', JStr ''ENTRYPOINT.md'')])]),
      ([''ENTRYPOINT.md''], ''entry'', JNull), ([''PROJECT_STATE.md''], ''state'', JNull), ([''docs'', ''ATLAS.md''], ''atlas'', JNull)]
     @ sample_manifests"

definition ready_yaml :: yaml_parser where
  "ready_yaml t = (case map_of (List.map snd ready_files) t of Some v \<Rightarrow> Inr v | None \<Rightarrow> Inl (YAMLError ''unexpected text''))"

definition ready_disk :: project_disk where
  "ready_disk = sample_project True ready_files 1"

definition ready_inspection :: "(exn + project_inspection) \<times> context_cache" where
  "ready_inspection = inspect_project ready_yaml (\<lambda>_. None) (\<lambda>_. []) ''demo'' ''/demo'' ready_disk None"

lemma ready_inspects:
  "case ready_inspection of (Inr i, _) \<Rightarrow> pi_mode i = ATLAS_READY \<and> \<not> pi_git_present i | _ \<Rightarrow> False"
  by code_simp

theorem inspection_verdict_witness:
  "\<exists>i cache'. ready_inspection = (Inr i, cache') \<and> pi_mode i = ATLAS_READY \<and> can_plan (pi_capabilities i)
     \<and> ready_project ready_yaml (\<lambda>_. None) (\<lambda>_. []) ready_disk None"
proof -
  obtain i cache' where i: "ready_inspection = (Inr i, cache')" "pi_mode i = ATLAS_READY"
    using ready_inspects by (auto split: prod.splits sum.splits)
  from inspection_verdict [OF i(1) [unfolded ready_inspection_def]] i show ?thesis by blast
qed

definition empty_disk :: "(rel_path \<Rightarrow> bool) \<Rightarrow> scaffold_disk" where
  "empty_disk outside = \<lparr>pd_dirs = [], pd_files = [], pd_outside = outside, pd_time = 7\<rparr>"

definition external_inspection :: project_inspection where
  "external_inspection = projr (fst (inspect_project ready_yaml (\<lambda>_. None) (\<lambda>_. []) ''demo'' ''/demo'' (empty_disk (\<lambda>_. False)) None))"

lemma external_mode: "pi_mode external_inspection = EXTERNAL"
  by code_simp

theorem adaptation_completes_witness:
  "\<exists>d'. apply_adaptation concat external_inspection scaffold_list (empty_disk (\<lambda>_. False)) = (Inr scaffold_list, d') \<and> missing_of d' = []"
proof -
  have free: "\<forall>p \<in> set (List.map fst (scaffold concat external_inspection)).
      \<not> pd_outside (empty_disk (\<lambda>_. False)) p \<and> \<not> has_dir (empty_disk (\<lambda>_. False)) p
      \<and> \<not> list_ex (has_file (empty_disk (\<lambda>_. False))) (parents_of p)
      \<and> (has_file (empty_disk (\<lambda>_. False)) p \<longrightarrow> list_all (has_dir (empty_disk (\<lambda>_. False))) (parents_of p))"
    by (simp add: empty_disk_def has_dir_def has_file_def list_ex_iff)
  have acc: "List.map af_path (filter (\<lambda>f. \<not> af_conflict f) (pv_files (preview_adaptation concat external_inspection (empty_disk (\<lambda>_. False)))))
      = scaffold_list"
    using external_mode
    by (simp add: preview_adaptation_def Let_def filter_map comp_def split_beta scaffold_paths scaffold_list_def
        path_exists_def has_file_def has_dir_def empty_disk_def)
  show ?thesis
    using adaptation_completes [OF _ free] external_mode unfolding acc Let_def by simp
qed

text \<open>A path accepted twice: the first writing stays although the call fails.\<close>

definition twice :: "(exn + rel_path list) \<times> scaffold_disk" where
  "twice = apply_adaptation concat external_inspection [[''ENTRYPOINT.md''], [''ENTRYPOINT.md'']] (empty_disk (\<lambda>_. False))"

lemma adaptation_not_atomic: "isl (fst twice) \<and> has_file (snd twice) [''ENTRYPOINT.md'']"
  by code_simp


text \<open>The name of the project is written into the manifest as it is, unquoted.\<close>

lemma name_unquoted:
  "pi_project_name insp \<noteq> [] \<Longrightarrow>
   \<exists>before after. map_of (scaffold dump insp) [''PROJECT_MANIFEST.yaml''] =
     Some (before @ ''  name: '' @ pi_project_name insp @ newline @ after)"
  by (intro exI [of _ "text_of_lines [''framework:'', ''  name: project-atlas-framework'', ''  version: 0.1.0'',
        ''  entrypoint: ENTRYPOINT.md'', ''project:'', ''  id: '' @ safe_id (pi_project_id insp)]"] exI)
    (simp add: scaffold_def Let_def text_of_lines_def or_str_def)

end
