(* ===== verification/AdaptedProject.thy ===== *)
theory AdaptedProject
  imports Adaptation
begin

text \<open>
  What becomes of a project once it is adapted (\<open>project/adaptation.py\<close>, then \<open>project/inspection.py\<close>): every
  scaffold file written into a fresh project gives one that loads, with an inspection that says ready. How
  the scaffold's YAML reads is a property of the parser (\<open>parses_scaffold\<close>).
\<close>

section \<open>An adapted project is ready\<close>

text \<open>What the scaffold's YAML files say, as values.\<close>

abbreviation texts_of :: "string list \<Rightarrow> json" where
  "texts_of ss \<equiv> JList (List.map JStr ss)"

definition scaffold_types :: "project_inspection \<Rightarrow> string list" where
  "scaffold_types insp = (if pi_types insp \<noteq> [] then pi_types insp else [''application''])"

definition scaffold_values :: "project_inspection \<Rightarrow> (rel_path \<times> dict) list" where
  "scaffold_values insp =
     (let pid = safe_id (pi_project_id insp); types = texts_of (scaffold_types insp)
      in [([''PROJECT_MANIFEST.yaml''], [(''framework'', JObj [(''name'', JStr ''project-atlas-framework''), (''version'', JStr ''0.1.0''),
             (''entrypoint'', JStr ''ENTRYPOINT.md'')]),
           (''project'', JObj [(''id'', JStr pid), (''name'', JStr (or_str (pi_project_name insp) pid)), (''type'', types),
             (''status'', JStr ''in-development'')]),
           (''documentation'', JObj [(''atlas'', JStr ''docs/ATLAS.md''), (''state'', JStr ''PROJECT_STATE.md'')])]),
          ([''.ai'', ''context'', ''project-profile.yaml''], [(''project'', JObj [(''id'', JStr pid), (''type'', types), (''languages'', JList []),
             (''technologies'', JList []), (''features'', JList []), (''risk'', JObj [(''security'', JStr ''unknown'')])])]),
          ([''.ai'', ''agents'', ''manifest.yaml''], [(''agents'', texts_of [''goal-planner'', ''core-implementer'', ''reviewer'']),
             (''selection_basis'', texts_of [''project type'', ''risk''])]),
          ([''.ai'', ''skills'', ''manifest.yaml''], [(''skills'', texts_of [''goal-contracts''])]),
          ([''.ai'', ''recipes'', ''manifest.yaml''], [(''recipes'', texts_of [''implement-goal''])]),
          ([''.ai'', ''orchestration'', ''model-policy.yaml''], [(''version'', JInt 1), (''development_harness'', JStr ''command-code''),
             (''runtime_discovery'', JObj [(''command'', JStr ''cmd --list-models'')]), (''roster'', JList []),
             (''principles'', texts_of [''runtime availability beats static assumptions''])]),
          ([''.ai'', ''orchestration'', ''autonomy-policy.yaml''], [(''default'', JStr ''agentic''),
             (''modes'', JObj [(''controlled'', JObj [(''description'', JStr ''human approval at meaningful gates'')]),
                (''agentic'', JObj [(''description'', JStr ''bounded execution with escalation'')])]),
             (''project_policy'', JObj [(''current'', JStr ''agentic'')])]),
          ([''.ai'', ''orchestration'', ''orchestrator.yaml''], [(''development'', JObj [(''harness'', JStr ''command-code'')]),
             (''product'', JObj [(''runtime'', JStr ''atlas-flow'')]), (''protocols'', JObj [(''agent'', JStr ''acp''), (''ui'', JStr ''ag-ui'')]),
             (''execution'', JObj [(''isolate_mutating_tasks'', JBool True), (''worktree_strategy'', JStr ''per-task'')])]),
          ([''.ai'', ''orchestration'', ''fallbacks.yaml''], [(''availability'', JStr ''route to the next reachable model''),
             (''quality'', JObj [(''max_cross_model_attempts'', JInt 2)]), (''confidence'', JObj [(''escalate_below'', JFloat (1/2))]),
             (''human_escalation'', texts_of [''unresolvable conflict''])])])"

text \<open>A disk that holds the scaffold: each of its files with its text, the directory of the Goals without any.\<close>

definition holds_scaffold :: "(string list \<Rightarrow> string) \<Rightarrow> project_inspection \<Rightarrow> 'z project_disk_scheme \<Rightarrow> bool" where
  "holds_scaffold dump insp d \<longleftrightarrow>
     (\<forall>p \<in> set scaffold_list. \<exists>c t. map_of (scaffold dump insp) p = Some c \<and> map_of (pd_files d) p = Some (Text c, t))
     \<and> has_dir d goals_dir \<and> yaml_under goals_dir d = []"

definition parses_scaffold :: "yaml_parser \<Rightarrow> (string list \<Rightarrow> string) \<Rightarrow> project_inspection \<Rightarrow> bool" where
  "parses_scaffold yaml dump insp \<longleftrightarrow>
     (\<forall>(p, v) \<in> set (scaffold_values insp). \<exists>c. map_of (scaffold dump insp) p = Some c \<and> yaml c = Inr (JObj v))"

lemma those_strings: "those (List.map (coerce rd FStr) (List.map JStr ss)) = Some (List.map JStr ss)"
  by (induction ss) simp_all

lemma those_strings' [simp]: "those (List.map (coerce rd FStr \<circ> JStr) ss) = Some (List.map JStr ss)"
  using those_strings [of rd ss] by simp

lemma scaffold_value_at:
  assumes "holds_scaffold dump insp d" and "parses_scaffold yaml dump insp" and "(p, v) \<in> set (scaffold_values insp)"
    and "p \<in> set scaffold_list"
  shows "yaml_load yaml d p = Inr v \<and> read_mapping yaml d p = Inr (Inr v) \<and> has_file d p"
proof -
  from assms(2,3) obtain c where c: "map_of (scaffold dump insp) p = Some c" "yaml c = Inr (JObj v)"
    by (auto simp: parses_scaffold_def)
  with assms(1,4) obtain t where "map_of (pd_files d) p = Some (Text c, t)" by (fastforce simp: holds_scaffold_def)
  with c show ?thesis by (simp add: yaml_load_def read_mapping_def Let_def has_file_def)
qed

lemma scaffold_coerced:
  "\<exists>w. validate rd AgentManifest (JObj [(''agents'', texts_of [''goal-planner'', ''core-implementer'', ''reviewer'']),
     (''selection_basis'', texts_of [''project type'', ''risk''])]) = Inr w"
  "\<exists>w. validate rd SkillManifest (JObj [(''skills'', texts_of [''goal-contracts''])]) = Inr w"
  "\<exists>w. validate rd RecipeManifest (JObj [(''recipes'', texts_of [''implement-goal''])]) = Inr w"
  "\<exists>w. validate rd ModelPolicy (JObj [(''version'', JInt 1), (''development_harness'', JStr a), (''runtime_discovery'', JObj [(k, JStr b)]),
     (''roster'', JList []), (''principles'', texts_of [c])]) = Inr w"
  "\<exists>w. validate rd AutonomyPolicy (JObj [(''default'', JStr a), (''modes'', JObj modes), (''project_policy'', JObj [(k, JStr b)])]) = Inr w"
  "\<exists>w. validate rd OrchestratorConfig (JObj [(''development'', JObj a1), (''product'', JObj a2), (''protocols'', JObj a3), (''execution'', JObj a4)]) = Inr w"
  "\<exists>w. validate rd FallbackConfig (JObj [(''availability'', JStr a), (''quality'', JObj a1), (''confidence'', JObj a2), (''human_escalation'', texts_of [c])]) = Inr w"
proof -
  have any: "those (List.map (\<lambda>(k, w). map_option (Pair k) (coerce rd FAny w)) d) = Some d" for d :: dict
    by (induction d) auto
  have all: "those (List.map Some xs) = Some xs" for xs :: "'b list"
    by (induction xs) auto
  note shapes = validate_def all AgentManifest_def SkillManifest_def RecipeManifest_def ModelPolicy_def AutonomyPolicy_def
    OrchestratorConfig_def FallbackConfig_def field_def any
  show "\<exists>w. validate rd AgentManifest (JObj [(''agents'', texts_of [''goal-planner'', ''core-implementer'', ''reviewer'']),
     (''selection_basis'', texts_of [''project type'', ''risk''])]) = Inr w" by (simp add: shapes)
  show "\<exists>w. validate rd SkillManifest (JObj [(''skills'', texts_of [''goal-contracts''])]) = Inr w" by (simp add: shapes)
  show "\<exists>w. validate rd RecipeManifest (JObj [(''recipes'', texts_of [''implement-goal''])]) = Inr w" by (simp add: shapes)
  show "\<exists>w. validate rd ModelPolicy (JObj [(''version'', JInt 1), (''development_harness'', JStr a), (''runtime_discovery'', JObj [(k, JStr b)]),
     (''roster'', JList []), (''principles'', texts_of [c])]) = Inr w" by (simp add: shapes)
  show "\<exists>w. validate rd AutonomyPolicy (JObj [(''default'', JStr a), (''modes'', JObj modes), (''project_policy'', JObj [(k, JStr b)])]) = Inr w"
    by (simp add: shapes)
  show "\<exists>w. validate rd OrchestratorConfig (JObj [(''development'', JObj a1), (''product'', JObj a2), (''protocols'', JObj a3), (''execution'', JObj a4)]) = Inr w"
    by (simp add: shapes)
  show "\<exists>w. validate rd FallbackConfig (JObj [(''availability'', JStr a), (''quality'', JObj a1), (''confidence'', JObj a2), (''human_escalation'', texts_of [c])]) = Inr w"
    by (simp add: shapes)
qed

lemma scaffold_profile:
  "\<exists>w. validate rd ProjectProfile (JObj [(''id'', JStr pid), (''type'', texts_of types), (''languages'', JList []),
       (''technologies'', JList []), (''features'', JList []), (''risk'', JObj [(''security'', JStr ''unknown'')])]) = Inr w
     \<and> str_attr ''id'' w = pid \<and> strs_attr ''types'' w = types"
proof -
  have "those (List.map (coerce rd FStr) (List.map JStr types)) = Some (List.map JStr types)" by (rule those_strings)
  then show ?thesis
    by (simp add: validate_def ProjectProfile_def field_def field_or_def strings_or_empty_def str_attr_def strs_attr_def comp_def)
qed

lemma scaffold_resolves:
  assumes "holds_scaffold dump insp d" and "parses_scaffold yaml dump insp"
  shows "\<exists>ctx. resolve_fresh yaml rd d = Inr ctx \<and> str_attr ''id'' (ctx_project ctx) = safe_id (pi_project_id insp)
    \<and> strs_attr ''types'' (ctx_project ctx) = scaffold_types insp"
proof -
  have goals: "load_goals yaml rd d = Inr []"
    using assms(1) by (simp add: holds_scaffold_def load_goals_def)
  note at = scaffold_value_at [OF assms, unfolded scaffold_list_def scaffold_values_def Let_def, simplified]
  obtain project where "load_project_profile yaml rd d = Inr project" "str_attr ''id'' project = safe_id (pi_project_id insp)"
    "strs_attr ''types'' project = scaffold_types insp"
    using scaffold_profile [of rd "safe_id (pi_project_id insp)" "scaffold_types insp"]
      at [of "[''.ai'', ''context'', ''project-profile.yaml'']"]
    by (auto simp: load_project_profile_def)
  moreover have "\<exists>w. load_validated yaml rd AgentManifest [''.ai'', ''agents'', ''manifest.yaml''] d = Inr w"
    "\<exists>w. load_validated yaml rd SkillManifest [''.ai'', ''skills'', ''manifest.yaml''] d = Inr w"
    "\<exists>w. load_validated yaml rd RecipeManifest [''.ai'', ''recipes'', ''manifest.yaml''] d = Inr w"
    "\<exists>w. load_validated yaml rd ModelPolicy [''.ai'', ''orchestration'', ''model-policy.yaml''] d = Inr w"
    "\<exists>w. load_validated yaml rd AutonomyPolicy [''.ai'', ''orchestration'', ''autonomy-policy.yaml''] d = Inr w"
    "\<exists>w. load_validated yaml rd OrchestratorConfig [''.ai'', ''orchestration'', ''orchestrator.yaml''] d = Inr w"
    "\<exists>w. load_validated yaml rd FallbackConfig [''.ai'', ''orchestration'', ''fallbacks.yaml''] d = Inr w"
    using scaffold_coerced [where rd = rd] at by (simp_all add: load_validated_def)
  ultimately show ?thesis using goals by (auto simp: resolve_fresh_def)
qed

lemma strip_empty: "strip s = [] \<longleftrightarrow> list_all is_space s"
  by (simp add: strip_def strip_while_def dropWhile_eq_Nil_conv list_all_iff) (metis (full_types) set_dropWhileD dropWhile_eq_Nil_conv list.set_intros(1) neq_Nil_conv hd_dropWhile list.sel(1))

lemma scaffold_documents:
  assumes "holds_scaffold dump insp d" and "p \<in> {[''ENTRYPOINT.md''], [''PROJECT_STATE.md''], [''docs'', ''ATLAS.md'']}"
  shows "invalid_file yaml d p = Inr False"
proof -
  have listed: "p \<in> set scaffold_list" using assms(2) by (auto simp: scaffold_list_def)
  have heading: "\<exists>s. map_of (scaffold dump insp) p = Some (CHR ''#'' # s)"
    using assms(2) by (elim insertE emptyE; hypsubst) (simp_all add: scaffold_def Let_def text_of_lines_def)
  with assms(1) listed obtain s t where "map_of (pd_files d) p = Some (Text (CHR ''#'' # s), t)"
    by (fastforce simp: holds_scaffold_def)
  moreover have "strip (CHR ''#'' # s) \<noteq> []" by (simp add: strip_empty is_space_def)
  moreover have "\<not> (ends_with (last p) ''.yaml'' \<or> ends_with (last p) ''.yml'')" using assms(2) by (auto simp: ends_with_def starts_with_def)
  ultimately show ?thesis by (simp add: invalid_file_def)
qed

lemma invalid_among_none:
  assumes "\<forall>p \<in> set ps. invalid_file yaml d p = Inr False"
  shows "invalid_among yaml d ps = Inr []"
  using assms by (induction ps) simp_all

definition value_paths :: "rel_path list" where
  "value_paths = [[''PROJECT_MANIFEST.yaml''], [''.ai'', ''context'', ''project-profile.yaml''], [''.ai'', ''agents'', ''manifest.yaml''],
     [''.ai'', ''skills'', ''manifest.yaml''], [''.ai'', ''recipes'', ''manifest.yaml''], [''.ai'', ''orchestration'', ''model-policy.yaml''],
     [''.ai'', ''orchestration'', ''autonomy-policy.yaml''], [''.ai'', ''orchestration'', ''orchestrator.yaml''],
     [''.ai'', ''orchestration'', ''fallbacks.yaml'']]"

lemma scaffold_value_paths: "List.map fst (scaffold_values insp) = value_paths"
  by (simp add: scaffold_values_def value_paths_def Let_def)

lemma value_paths_facts:
  "list_all (\<lambda>p. p \<in> set scaffold_list \<and> ends_with (last p) ''.yaml'') value_paths"
  "list_all (\<lambda>p. p \<in> set [[''ENTRYPOINT.md''], [''PROJECT_STATE.md''], [''docs'', ''ATLAS.md'']] \<or> p \<in> set value_paths) REQUIRED_MANIFESTS"
  by code_simp+

lemma scaffold_parts:
  assumes "p \<in> set REQUIRED_MANIFESTS"
  shows "p \<in> {[''ENTRYPOINT.md''], [''PROJECT_STATE.md''], [''docs'', ''ATLAS.md'']} \<or> p \<in> set (List.map fst (scaffold_values insp))"
  using value_paths_facts(2) assms unfolding scaffold_value_paths list_all_iff by (simp only: list.set)

lemma scaffold_values_listed: "(p, v) \<in> set (scaffold_values insp) \<Longrightarrow> p \<in> set scaffold_list \<and> ends_with (last p) ''.yaml''"
  using value_paths_facts(1) unfolding scaffold_value_paths [symmetric, of insp] list_all_iff by fastforce

lemma scaffold_valid:
  assumes "holds_scaffold dump insp d" and "parses_scaffold yaml dump insp" and "p \<in> set REQUIRED_MANIFESTS"
  shows "invalid_file yaml d p = Inr False"
  using scaffold_parts [OF assms(3), of insp]
proof
  assume "p \<in> set (List.map fst (scaffold_values insp))"
  then obtain v where v: "(p, v) \<in> set (scaffold_values insp)" by auto
  with scaffold_values_listed [OF v] scaffold_value_at [OF assms(1,2) v] show ?thesis by (simp add: invalid_file_def)
qed (rule scaffold_documents [OF assms(1)])

lemma scaffold_manifest:
  "(([''PROJECT_MANIFEST.yaml''], v) \<in> set (scaffold_values insp)) \<Longrightarrow>
     declared_framework repr v = (Some ''project-atlas-framework'', Some ''0.1.0'')"
  by (auto simp: scaffold_values_def Let_def declared_framework_def optional_string_def get_or_def strip_empty is_space_def)

lemma scaffold_inspects:
  assumes "holds_scaffold dump insp d" and "parses_scaffold yaml dump insp"
  shows "\<exists>i cache. inspect_project yaml rd repr name shown d None = (Inr i, cache) \<and> pi_mode i = ATLAS_READY
    \<and> pi_project_id i = safe_id (pi_project_id insp) \<and> pi_types i = scaffold_types insp
    \<and> can_plan (pi_capabilities i) \<and> can_run (pi_capabilities i) = git_present d"
proof -
  let ?m = "[''PROJECT_MANIFEST.yaml'']"
  obtain raw where raw: "(?m, raw) \<in> set (scaffold_values insp)" by (auto simp: scaffold_values_def Let_def)
  have m: "read_mapping yaml d ?m = Inr (Inr raw)" "has_file d ?m"
    using scaffold_value_at [OF assms raw] scaffold_values_listed [OF raw] by auto
  have files: "has_file d p" if "p \<in> set scaffold_list" for p
    using assms(1) that by (fastforce simp: holds_scaffold_def has_file_def)
  have missing: "missing_of d = []"
    using assms(1) files scaffold_list_facts(4) by (auto simp: missing_of_def holds_scaffold_def REQUIRED_DIRECTORIES_def filter_empty_conv)
  have invalid: "invalid_among yaml d (filter (has_file d) REQUIRED_MANIFESTS) = Inr []"
    by (rule invalid_among_none) (use scaffold_valid [OF assms] in auto)
  have version: "supported_version (Some ''0.1.0'')" by code_simp
  obtain ctx where ctx: "resolve_fresh yaml rd d = Inr ctx" "str_attr ''id'' (ctx_project ctx) = safe_id (pi_project_id insp)"
    "strs_attr ''types'' (ctx_project ctx) = scaffold_types insp"
    using scaffold_resolves [OF assms, of rd] by blast
  obtain cache where "resolve_project yaml rd True d d None = (Inr ctx, cache)"
    using ctx(1) by (simp add: resolve_project_def)
  with m missing invalid version ctx scaffold_manifest [OF raw, of repr] show ?thesis
    by (cases "declared_project repr name (detected_types d) raw")
      (simp add: inspect_project_def Let_def inspection_def)
qed

text \<open>Directories after a run: those there were and those the written files needed.\<close>

lemma write_accepted_dirs:
  assumes "write_accepted planned ps d = (r, d')" and "has_dir d' q"
  shows "has_dir d q \<or> (\<exists>p \<in> set ps. q \<in> set (parents_of p))"
  using assms
proof (induction ps arbitrary: d r)
  case Nil
  then show ?case by (simp add: ret_def)
next
  case (Cons p ps)
  obtain r1 d1 where w: "write_new p (case planned p of Some c \<Rightarrow> c | None \<Rightarrow> []) d = (r1, d1)" by fastforce
  obtain r2 d2 where ps: "write_accepted planned ps d1 = (r2, d2)" by fastforce
  have "d' = d \<or> d' = d2 \<and> r1 = Inr () \<or> d' = d1 \<and> r1 \<noteq> Inr ()"
    using Cons.prems(1) w ps by (auto simp: bindE_def gets_def throw_def ret_def split: if_splits sum.splits)
  then show ?case
  proof (elim disjE conjE)
    assume "d' = d2" "r1 = Inr ()"
    with Cons.IH [of d1 r2] ps Cons.prems(2) write_new_facts(4) [OF w] show ?thesis by auto
  next
    assume "d' = d1" "r1 \<noteq> Inr ()"
    with write_new_facts(2) [OF w] Cons.prems(2) show ?thesis by simp
  qed (use Cons.prems(2) in simp)
qed

lemma write_accepted_more: "write_accepted planned ps d = (r, d') \<Longrightarrow> scaffold_disk.more d' = scaffold_disk.more d"
proof (induction ps arbitrary: d r)
  case Nil
  then show ?case by (simp add: ret_def)
next
  case (Cons p ps)
  then show ?case
    by (auto simp: bindE_def gets_def throw_def ret_def write_new_def split: if_splits sum.splits prod.splits dest!: Cons.IH)
qed

definition no_goal_path :: "rel_path \<Rightarrow> bool" where
  "no_goal_path p \<longleftrightarrow> \<not> (starts_with p goals_dir \<and> p \<noteq> goals_dir \<and> ends_with (last p) ''.yaml'') \<and> p \<noteq> [''.git'']"

lemma scaffold_without_goals:
  "list_all (\<lambda>p. no_goal_path p \<and> list_all no_goal_path (parents_of p)) scaffold_list"
  by code_simp

lemma yaml_under_empty: "yaml_under goals_dir d = [] \<longleftrightarrow>
    (\<forall>p. has_file d p \<or> has_dir d p \<longrightarrow> \<not> (starts_with p goals_dir \<and> p \<noteq> goals_dir \<and> ends_with (last p) ''.yaml''))"
proof -
  have "sort (remdups xs) = [] \<longleftrightarrow> xs = []" for xs :: "rel_path list" by (metis remdups_eq_nil_iff set_empty set_sort)
  then show ?thesis
    by (auto simp: yaml_under_def filter_empty_conv has_file_def has_dir_def map_of_eq_None_iff image_iff simp del: not_None_eq)
qed

lemma fresh_adaptation:
  assumes "pi_mode insp \<noteq> ATLAS_INCOMPATIBLE"
    and "\<forall>p \<in> set scaffold_list. \<not> pd_outside d p \<and> \<not> path_exists d p \<and> \<not> list_ex (has_file d) (parents_of p)"
    and "yaml_under goals_dir d = []"
  shows "\<exists>d'. apply_adaptation dump insp scaffold_list d = (Inr scaffold_list, d') \<and> holds_scaffold dump insp d'
    \<and> git_present d' = git_present d \<and> scaffold_disk.more d' = scaffold_disk.more d"
proof -
  have paths: "List.map fst (scaffold dump insp) = scaffold_list" by (simp add: scaffold_paths scaffold_list_def)
  have known: "\<exists>c. map_of (scaffold dump insp) p = Some c" if "p \<in> set scaffold_list" for p
    using that unfolding paths [symmetric] by (metis map_of_eq_None_iff not_None_eq set_map)
  obtain d' where run: "write_accepted (map_of (scaffold dump insp)) scaffold_list d = (Inr scaffold_list, d')"
    and dirs: "\<forall>p \<in> set scaffold_list. \<forall>q \<in> set (parents_of p). has_dir d' q"
    using write_accepted_succeeds [OF scaffold_list_facts(1) scaffold_list_facts(2) [unfolded list_all_iff] assms(2)] by blast
  have app: "apply_adaptation dump insp scaffold_list d = (Inr scaffold_list, d')"
    using known run assms(1) by (auto simp: apply_adaptation_def Let_def planned_scaffold unknown_paths)
  from write_accepted_adds [OF run] have adds: "only_adds (map_of (scaffold dump insp)) scaffold_list d d'"
    and new: "\<forall>p \<in> set scaffold_list. has_file d' p" by auto
  have fine: "no_goal_path p" "\<And>q. q \<in> set (parents_of p) \<Longrightarrow> no_goal_path q" if "p \<in> set scaffold_list" for p
    using scaffold_without_goals that by (auto simp: list_all_iff)
  have grown: "has_file d' q \<or> has_dir d' q \<Longrightarrow> has_file d q \<or> has_dir d q \<or> no_goal_path q" for q
    using write_accepted_dirs [OF run, of q] adds fine unfolding only_adds_def has_file_def by (metis not_None_eq)
  have goals: "yaml_under goals_dir d' = []"
    using assms(3) grown unfolding yaml_under_empty no_goal_path_def by blast
  have contents: "\<exists>c t. map_of (scaffold dump insp) p = Some c \<and> map_of (pd_files d') p = Some (Text c, t)" if p: "p \<in> set scaffold_list" for p
  proof -
    from p assms(2) have "\<not> path_exists d p" by blast
    then have "map_of (pd_files d) p = None" by (cases "map_of (pd_files d) p") (simp_all add: path_exists_def has_file_def)
    moreover obtain f where f: "map_of (pd_files d') p = Some f" using new p by (auto simp: has_file_def)
    ultimately have "f = (Text (case map_of (scaffold dump insp) p of Some c \<Rightarrow> c | None \<Rightarrow> []), pd_time d)"
      using adds unfolding only_adds_def by blast
    moreover obtain c where "map_of (scaffold dump insp) p = Some c" using known [OF p] by blast
    ultimately show ?thesis using f by simp
  qed
  have "has_dir d' goals_dir" using dirs scaffold_list_facts(3,5) by blast
  with goals contents have holds: "holds_scaffold dump insp d'" by (simp add: holds_scaffold_def)
  have kept: "has_file d q \<or> has_dir d q \<Longrightarrow> has_file d' q \<or> has_dir d' q" for q
    using adds unfolding only_adds_def has_file_def by (metis not_None_eq)
  have "git_present d' = git_present d"
    using grown [of "[''.git'']"] kept [of "[''.git'']"] by (auto simp: git_present_def no_goal_path_def)
  with app holds write_accepted_more [OF run] show ?thesis by blast
qed

end
