(* ===== verification/AcpProtocol.thy ===== *)
theory AcpProtocol
  imports AcpEvents
begin

text \<open>
  JSON-RPC with an agent over its pipes (\<open>acp/protocol.py\<close>). A connection keeps the calls it waits for
  and the future of each; the reader handles one line at a time. The client's state is the type \<open>'c\<close>: its
  request handlers and its notification handler are a parameter, as they are kvs in the code. What
  the agent writes is a list of \<open>incoming\<close> lines, in which the passing of a call's time-out is an event.
\<close>

section \<open>Connections\<close>

datatype future = Waiting | Done json | Failed exn

record 'c conn =
  cn_next :: int
  cn_pending :: "(int \<times> string) list"
  cn_futures :: "(int \<times> future) list"
  cn_sent :: "json list"
  cn_started :: bool
  cn_running :: bool
  cn_reading :: bool
  cn_closed :: bool
  cn_client :: 'c

type_synonym ('c, 'a) conn_act = "('c conn, exn, 'a) act"

record 'c handlers =
  on_request :: "string \<Rightarrow> (json \<Rightarrow> ('c, exn, json) act) option"
  on_notification :: "json \<Rightarrow> json \<Rightarrow> ('c, exn, unit) act"

definition new_conn :: "'c \<Rightarrow> 'c conn" where
  "new_conn c = \<lparr>cn_next = 0, cn_pending = [], cn_futures = [], cn_sent = [], cn_started = False, cn_running = False,
     cn_reading = False, cn_closed = False, cn_client = c\<rparr>"

text \<open>\<open>start\<close>; whether the program is found is an argument.\<close>

definition start :: "bool \<Rightarrow> string list \<Rightarrow> ('c, unit) conn_act" where
  "start found command s =
     (if command = [] then (Inl (AcpError ''ACP agent command is empty''), s)
      else if \<not> found then (Inl (AcpError (''ACP agent not found: '' @ hd command)), s)
      else (Inr (), s\<lparr>cn_started := True, cn_running := True, cn_reading := True\<rparr>))"

definition send_message :: "json \<Rightarrow> ('c, unit) conn_act" where
  "send_message m s =
     (if \<not> cn_started s then (Inl (AcpError ''ACP connection is not open''), s)
      else if \<not> cn_running s then (Inl (OSError ''Connection lost''), s)
      else (Inr (), s\<lparr>cn_sent := cn_sent s @ [m]\<rparr>))"

definition rpc :: "(string \<times> json) list \<Rightarrow> json" where
  "rpc kvs = JObj ((''jsonrpc'', JStr ''2.0'') # kvs)"

definition settle :: "int \<Rightarrow> future \<Rightarrow> 'c conn \<Rightarrow> 'c conn" where
  "settle i f s = (if map_of (cn_futures s) i = Some Waiting then s\<lparr>cn_futures := AList.update i f (cn_futures s)\<rparr> else s)"

definition drop_pending :: "int \<Rightarrow> 'c conn \<Rightarrow> 'c conn" where
  "drop_pending i s = s\<lparr>cn_pending := AList.delete i (cn_pending s)\<rparr>"

definition fail_pending :: "exn \<Rightarrow> 'c conn \<Rightarrow> 'c conn" where
  "fail_pending e s = (fold (\<lambda>(i, _). settle i (Failed e)) (cn_pending s) s)\<lparr>cn_pending := []\<rparr>"

text \<open>The first half of \<open>call\<close>: register the future and send the request.\<close>

definition send_call :: "string \<Rightarrow> json \<Rightarrow> ('c, int) conn_act" where
  "send_call mth params s =
     (if \<not> cn_running s then (Inl (AcpError (''Cannot call '' @ mth @ '': agent is not running'')), s)
      else let i = cn_next s + 1 in
        bindE (modify (\<lambda>s. s\<lparr>cn_next := i, cn_pending := AList.update i mth (cn_pending s),
                 cn_futures := AList.update i Waiting (cn_futures s)\<rparr>)) (\<lambda>_.
        bindE (send_message (rpc [(''id'', JInt i), (''method'', JStr mth), (''params'', params)])) (\<lambda>_. ret i)) s)"

definition notify :: "string \<Rightarrow> json \<Rightarrow> ('c, unit) conn_act" where
  "notify mth params = send_message (rpc [(''method'', JStr mth), (''params'', params)])"

section \<open>Dispatch\<close>

text \<open>\<open>key in message\<close> and \<open>message[key]\<close> of a decoded line.\<close>

fun has_key :: "string \<Rightarrow> json \<Rightarrow> exn + bool" where
  "has_key k (JObj d) = Inr (map_of d k \<noteq> None)"
| "has_key k (JList xs) = Inr (JStr k \<in> set xs)"
| "has_key k (JStr s) = Inr (contains s k)"
| "has_key k v = Inl (TypeError ''argument is not iterable'')"

fun subscript :: "string \<Rightarrow> json \<Rightarrow> exn + json" where
  "subscript k (JObj d) = (case map_of d k of Some v \<Rightarrow> Inr v | None \<Rightarrow> Inl (KeyError k))"
| "subscript k v = Inl (TypeError ''indices must be integers'')"

text \<open>Which of the client's integer keys a JSON value equals as a dictionary key: \<open>1\<close>, \<open>1.0\<close> and \<open>true\<close>
  are one key; a list or an object has no hash.\<close>

fun dict_key :: "json \<Rightarrow> exn + int option" where
  "dict_key (JInt i) = Inr (Some i)"
| "dict_key (JBool b) = Inr (Some (if b then 1 else 0))"
| "dict_key (JFloat r) = Inr (if r = of_int (floor r) then Some (floor r) else None)"
| "dict_key (JList xs) = Inl (TypeError ''unhashable type'')"
| "dict_key (JObj d) = Inl (TypeError ''unhashable type'')"
| "dict_key v = Inr None"

definition params_of :: "dict \<Rightarrow> json" where
  "params_of d = (let v = get ''params'' d in if truthy v then v else JObj [])"

definition in_client :: "('c, exn, 'a) act \<Rightarrow> ('c, 'a) conn_act" where
  "in_client m s = (let (r, c) = m (cn_client s) in (r, s\<lparr>cn_client := c\<rparr>))"

definition reply_error :: "json \<Rightarrow> int \<Rightarrow> string \<Rightarrow> ('c, unit) conn_act" where
  "reply_error i code why = send_message (rpc [(''id'', i), (''error'', JObj [(''code'', JInt code), (''message'', JStr why)])])"

fun str_exn :: "exn \<Rightarrow> string" where
  "str_exn (TypeError why) = why"
| "str_exn (AttributeError why) = why"
| "str_exn (ValueError why) = why"
| "str_exn (KeyError why) = quoted why"
| "str_exn (AcpError why) = why"
| "str_exn (RuntimeError why) = why"
| "str_exn (OSError why) = why"
| "str_exn (AcpRemoteError code why) = why"
| "str_exn e = []"

definition handle_request :: "(json \<Rightarrow> string) \<Rightarrow> 'c handlers \<Rightarrow> dict \<Rightarrow> json \<Rightarrow> json \<Rightarrow> ('c, unit) conn_act" where
  "handle_request repr hs d mth i =
     (if \<not> hashable mth then throw (TypeError ''unhashable type'')
      else case (case mth of JStr name \<Rightarrow> on_request hs name | _ \<Rightarrow> None) of
        None \<Rightarrow> reply_error i (- 32601) (''Method not found: '' @ py_str repr mth)
      | Some handler \<Rightarrow>
          bindE (try_except (bindE (in_client (handler (params_of d))) (\<lambda>v. ret (Inr v))) (\<lambda>e. ret (Inl e))) (\<lambda>r.
            case r of
              Inl e \<Rightarrow> reply_error i (- 32603) (str_exn e)
            | Inr v \<Rightarrow> send_message (rpc [(''id'', i), (''result'', v)])))"

text \<open>The error object of a response; a code that is not an integer is kept as -1, its text is kept.\<close>

definition remote_error :: "(json \<Rightarrow> string) \<Rightarrow> json \<Rightarrow> exn + exn" where
  "remote_error repr e =
     (case e of
        JObj d \<Rightarrow> Inr (AcpRemoteError (case get_or ''code'' (JInt (- 1)) d of JInt n \<Rightarrow> n | _ \<Rightarrow> - 1)
                        (''ACP error '' @ py_str repr (get_or ''code'' (JInt (- 1)) d) @ '': '' @ get_str repr ''message'' d))
      | _ \<Rightarrow> Inl (AttributeError ''object has no attribute get''))"

definition handle_response :: "(json \<Rightarrow> string) \<Rightarrow> dict \<Rightarrow> ('c, unit) conn_act" where
  "handle_response repr d s =
     (case dict_key (get ''id'' d) of
        Inl e \<Rightarrow> (Inl e, s)
      | Inr None \<Rightarrow> (Inr (), s)
      | Inr (Some i) \<Rightarrow>
          (case map_of (cn_pending s) i of
             None \<Rightarrow> (Inr (), s)
           | Some _ \<Rightarrow>
               let s' = drop_pending i s in
               if map_of (cn_futures s) i \<noteq> Some Waiting then (Inr (), s')
               else case map_of d ''error'' of
                 Some e \<Rightarrow> (case remote_error repr e of Inl x \<Rightarrow> (Inl x, s') | Inr x \<Rightarrow> (Inr (), settle i (Failed x) s'))
               | None \<Rightarrow> (Inr (), settle i (Done (get ''result'' d)) s')))"

definition dispatch :: "(json \<Rightarrow> string) \<Rightarrow> 'c handlers \<Rightarrow> json \<Rightarrow> ('c, unit) conn_act" where
  "dispatch repr hs m =
     (case (has_key ''method'' m, has_key ''id'' m) of
        (Inl e, _) \<Rightarrow> throw e
      | (_, Inl e) \<Rightarrow> throw e
      | (Inr meth, Inr ident) \<Rightarrow>
          (if meth then
             (case (subscript ''method'' m, m) of
                (Inr mth, JObj d) \<Rightarrow>
                  if ident then handle_request repr hs d mth (get ''id'' d)
                  else in_client (on_notification hs mth (params_of d))
              | (Inl e, _) \<Rightarrow> throw e
              | _ \<Rightarrow> throw (TypeError ''indices must be integers''))
           else if ident then (case m of JObj d \<Rightarrow> handle_response repr d | _ \<Rightarrow> throw (TypeError ''indices must be integers''))
           else ret ()))"

section \<open>The reader\<close>

datatype incoming = Line json | NotJson | Unreadable | Eof | TimeUp int

text \<open>One step of the connection: a line is decoded and dispatched; an exception out of \<open>_dispatch\<close>, like
  the end of the stream, ends the reader, which fails what is still pending. A line that is not JSON is
  skipped; one that cannot be read at all (past the stream's limit, or not UTF-8) raises a plain
  \<open>ValueError\<close> in the loop and ends the reader as well.\<close>

definition end_reader :: "'c conn \<Rightarrow> 'c conn" where
  "end_reader s = (fail_pending (AcpError ''ACP agent closed the connection'') s)\<lparr>cn_reading := False\<rparr>"

definition step :: "(json \<Rightarrow> string) \<Rightarrow> 'c handlers \<Rightarrow> incoming \<Rightarrow> 'c conn \<Rightarrow> 'c conn" where
  "step repr hs inc s =
     (case inc of
        TimeUp i \<Rightarrow>
          (if map_of (cn_futures s) i = Some Waiting
           then settle i (Failed TimeoutError) (drop_pending i s) else s)
      | Eof \<Rightarrow> if cn_reading s then (end_reader s)\<lparr>cn_running := False\<rparr> else s
      | NotJson \<Rightarrow> s
      | Unreadable \<Rightarrow> if cn_reading s then end_reader s else s
      | Line m \<Rightarrow>
          if \<not> cn_reading s then s
          else case dispatch repr hs m s of
            (Inr _, s') \<Rightarrow> s'
          | (Inl _, s') \<Rightarrow> end_reader s')"

definition close :: "'c conn \<Rightarrow> 'c conn" where
  "close s = (if cn_closed s then s
     else (fail_pending (AcpError ''ACP connection closed'') (if cn_reading s then end_reader s else s))\<lparr>cn_closed := True, cn_running := False, cn_reading := False\<rparr>)"

text \<open>\<open>call\<close>: the request is sent, then lines are read until its future is settled; \<open>after\<close> is the text of
  the time-out. A script that ends before is one in which the time-out passes.\<close>

definition timed_out :: "string \<Rightarrow> string \<Rightarrow> exn" where
  "timed_out mth after = AcpError (''ACP call '' @ quoted mth @ '' timed out after '' @ after @ ''s'')"

fun await ::
  "(json \<Rightarrow> string) \<Rightarrow> 'c handlers \<Rightarrow> string \<Rightarrow> string \<Rightarrow> int \<Rightarrow> incoming list \<Rightarrow> 'c conn
     \<Rightarrow> (exn + json) \<times> incoming list \<times> 'c conn" where
  "await repr hs mth after i incs s =
     (case map_of (cn_futures s) i of
        Some (Done v) \<Rightarrow> (Inr v, incs, s)
      | Some (Failed e) \<Rightarrow> (Inl (if e = TimeoutError then timed_out mth after else e), incs, s)
      | _ \<Rightarrow>
          (case incs of
             [] \<Rightarrow> (Inl (timed_out mth after), [], step repr hs (TimeUp i) s)
           | inc # rest \<Rightarrow> await repr hs mth after i rest (step repr hs inc s)))"

declare await.simps [simp del]

definition call ::
  "(json \<Rightarrow> string) \<Rightarrow> 'c handlers \<Rightarrow> string \<Rightarrow> json \<Rightarrow> string \<Rightarrow> incoming list \<Rightarrow> 'c conn
     \<Rightarrow> (exn + json) \<times> incoming list \<times> 'c conn" where
  "call repr hs mth params after incs s =
     (case send_call mth params s of
        (Inl e, s') \<Rightarrow> (Inl e, incs, s')
      | (Inr i, s') \<Rightarrow> await repr hs mth after i incs s')"

section \<open>What can happen to a connection\<close>

datatype conn_op = OpCall string json | OpNotify string json | OpIncoming incoming | OpClose

fun apply_op :: "(json \<Rightarrow> string) \<Rightarrow> 'c handlers \<Rightarrow> conn_op \<Rightarrow> 'c conn \<Rightarrow> 'c conn" where
  "apply_op repr hs (OpCall mth params) s = snd (send_call mth params s)"
| "apply_op repr hs (OpNotify mth params) s = snd (notify mth params s)"
| "apply_op repr hs (OpIncoming inc) s = step repr hs inc s"
| "apply_op repr hs OpClose s = close s"

definition run_ops :: "(json \<Rightarrow> string) \<Rightarrow> 'c handlers \<Rightarrow> conn_op list \<Rightarrow> 'c conn \<Rightarrow> 'c conn" where
  "run_ops repr hs ops s = fold (apply_op repr hs) ops s"

text \<open>\<open>keeps s s'\<close>: from \<open>s\<close> to \<open>s'\<close> no future that is settled changes, none is done anew, none is added.\<close>

definition keeps :: "'c conn \<Rightarrow> 'c conn \<Rightarrow> bool" where
  "keeps s s' \<longleftrightarrow> cn_next s' = cn_next s
     \<and> (\<forall>i f. map_of (cn_futures s) i = Some f \<and> f \<noteq> Waiting \<longrightarrow> map_of (cn_futures s') i = Some f)
     \<and> (\<forall>i v. map_of (cn_futures s') i = Some (Done v) \<longrightarrow> map_of (cn_futures s) i = Some (Done v))
     \<and> (\<forall>i. map_of (cn_futures s) i = None \<longrightarrow> map_of (cn_futures s') i = None)"

lemma keeps_refl [simp]: "keeps s s"
  by (simp add: keeps_def)

lemma keeps_trans: "keeps s t \<Longrightarrow> keeps t u \<Longrightarrow> keeps s u"
  unfolding keeps_def by (elim conjE) (intro conjI allI impI, erule (1) trans, blast, blast, blast)

lemma keeps_same:
  assumes "keeps s t" and "cn_futures u = cn_futures t" and "cn_next u = cn_next t"
  shows "keeps s u"
  using assms(1) unfolding keeps_def assms(2,3) .

lemma settle_futures:
  "map_of (cn_futures (settle i f s)) j
     = (if j = i \<and> map_of (cn_futures s) i = Some Waiting then Some f else map_of (cn_futures s) j)"
  by (simp add: settle_def update_conv')

lemma keeps_settle: "(\<And>v. f \<noteq> Done v) \<Longrightarrow> keeps s (settle i f s)"
  by (auto simp: keeps_def settle_futures) (simp add: settle_def)

lemma keeps_settles: "(\<And>v. f \<noteq> Done v) \<Longrightarrow> keeps s (fold (\<lambda>(i, _). settle i f) ps s)"
proof (induction ps arbitrary: s)
  case (Cons p ps)
  obtain i m where p: "p = (i, m)" by (cases p)
  show ?case
    using keeps_trans [OF keeps_settle [OF Cons.prems] Cons.IH [OF Cons.prems]] by (simp add: p)
qed simp

lemma keeps_fail_pending: "keeps s (fail_pending e s)"
  by (rule keeps_same [OF keeps_settles [of "Failed e" s "cn_pending s"]]) (simp_all add: fail_pending_def)

lemma keeps_end_reader: "keeps s (end_reader s)"
  by (rule keeps_same [OF keeps_fail_pending]) (simp_all add: end_reader_def)

lemma keeps_send [pres]: "preserves (keeps s) (send_message m)"
  by (auto simp: preserves_def send_message_def elim: keeps_same)

lemma keeps_in_client [pres]: "preserves (keeps s) (in_client m)"
  by (auto simp: preserves_def in_client_def elim: keeps_same split: prod.split)

lemma keeps_reply_error [pres]: "preserves (keeps s) (reply_error i code why)"
  by (simp add: reply_error_def keeps_send)

lemma keeps_handle_request [pres]: "preserves (keeps s) (handle_request repr hs d mth i)"
  unfolding handle_request_def
  by (intro pres) (simp_all split: sum.split add: pres)

text \<open>A response settles at most the call it names.\<close>

definition answers :: "incoming \<Rightarrow> int \<Rightarrow> json \<Rightarrow> bool" where
  "answers inc i v \<longleftrightarrow> (\<exists>d. inc = Line (JObj d) \<and> dict_key (get ''id'' d) = Inr (Some i)
     \<and> map_of d ''error'' = None \<and> v = get ''result'' d)"

definition advances :: "incoming \<Rightarrow> 'c conn \<Rightarrow> 'c conn \<Rightarrow> bool" where
  "advances inc s s' \<longleftrightarrow> cn_next s' = cn_next s
     \<and> (\<forall>i f. map_of (cn_futures s) i = Some f \<and> f \<noteq> Waiting \<longrightarrow> map_of (cn_futures s') i = Some f)
     \<and> (\<forall>i v. map_of (cn_futures s') i = Some (Done v) \<longrightarrow> map_of (cn_futures s) i = Some (Done v)
          \<or> i \<in> fst ` set (cn_pending s) \<and> answers inc i v)
     \<and> (\<forall>i. map_of (cn_futures s) i = None \<longrightarrow> map_of (cn_futures s') i = None)"

lemma keeps_advances: "keeps s s' \<Longrightarrow> advances inc s s'"
  unfolding keeps_def advances_def by (elim conjE) (intro conjI allI impI disjI1, assumption, blast, blast, blast)

lemma advances_keeps: "advances inc s t \<Longrightarrow> keeps t u \<Longrightarrow> advances inc s u"
  unfolding keeps_def advances_def by (elim conjE) (intro conjI allI impI, erule (1) trans, blast, blast, blast)

lemma drop_pending_fields [simp]: "cn_futures (drop_pending i s) = cn_futures s" "cn_next (drop_pending i s) = cn_next s"
  by (simp_all add: drop_pending_def)

lemma handle_response_advances: "advances (Line (JObj d)) s (snd (handle_response repr d s))"
proof (cases "dict_key (get ''id'' d)")
  case (Inr k)
  show ?thesis
  proof (cases k)
    case (Some i)
    show ?thesis
    proof (cases "map_of (cn_pending s) i = None \<or> map_of (cn_futures s) i \<noteq> Some Waiting")
      case True
      then show ?thesis
        by (auto simp: handle_response_def Inr Some Let_def advances_def split: option.split)
    next
      case False
      then have w: "map_of (cn_futures s) i = Some Waiting" and "\<exists>m. map_of (cn_pending s) i = Some m"
        by auto
      then obtain m where m: "map_of (cn_pending s) i = Some m" by blast
      then have mem: "i \<in> fst ` set (cn_pending s)" by (force dest: map_of_SomeD)
      show ?thesis
      proof (cases "map_of d ''error''")
        case None
        then have "snd (handle_response repr d s) = settle i (Done (get ''result'' d)) (drop_pending i s)"
          by (simp add: handle_response_def Inr Some m w Let_def)
        then show ?thesis
          using Inr Some None mem w
          by (auto simp: advances_def settle_futures answers_def) (simp add: settle_def)
      next
        case e: (Some e)
        then have "keeps s (snd (handle_response repr d s))"
          using keeps_trans [OF keeps_same [OF keeps_refl [of s]] keeps_settle [of "Failed _" "drop_pending i s" i]]
          by (auto simp: handle_response_def Inr Some m w Let_def split: sum.split intro: keeps_same [OF keeps_refl])
        then show ?thesis by (rule keeps_advances)
      qed
    qed
  qed (simp add: handle_response_def Inr advances_def)
qed (simp add: handle_response_def advances_def)

lemma pres_advances: "preserves (keeps s) n \<Longrightarrow> advances inc s (snd (n s))"
  by (intro keeps_advances) (simp add: preserves_def)

lemma dispatch_advances: "advances (Line m) s (snd (dispatch repr hs m s))"
  unfolding dispatch_def
  by (auto split: sum.split json.split simp: handle_response_advances intro!: pres_advances pres)

lemma step_advances: "advances inc s (step repr hs inc s)"
proof (cases inc)
  case (Line m)
  obtain r s' where d: "dispatch repr hs m s = (r, s')" by fastforce
  have "advances (Line m) s s'" using dispatch_advances [of m s repr hs] by (simp add: d)
  then show ?thesis
    using advances_keeps [OF _ keeps_end_reader] by (auto simp: step_def Line d keeps_advances split: sum.split)
next
  case (TimeUp i)
  have "keeps s (settle i (Failed TimeoutError) (drop_pending i s))"
    by (rule keeps_trans [OF keeps_same [OF keeps_refl] keeps_settle]) simp_all
  then show ?thesis by (simp add: step_def TimeUp keeps_advances)
next
  case Eof
  have "keeps s ((end_reader s)\<lparr>cn_running := False\<rparr>)"
    by (rule keeps_same [OF keeps_end_reader]) simp_all
  then show ?thesis by (simp add: step_def Eof keeps_advances)
qed (simp_all add: step_def keeps_advances keeps_end_reader)

section \<open>Every call settles at most once, with its own answer\<close>

definition bounded :: "'c conn \<Rightarrow> bool" where
  "bounded s \<longleftrightarrow> (\<forall>i. map_of (cn_futures s) i \<noteq> None \<longrightarrow> i \<le> cn_next s)"

definition settled :: "'c conn \<Rightarrow> int \<Rightarrow> future \<Rightarrow> bool" where
  "settled s i f \<longleftrightarrow> map_of (cn_futures s) i = Some f \<and> f \<noteq> Waiting"

lemma advancesD:
  assumes "advances inc s s'"
  shows "bounded s \<Longrightarrow> bounded s'" and "settled s i f \<Longrightarrow> settled s' i f"
    and "settled s' i (Done v) \<Longrightarrow> settled s i (Done v) \<or> i \<in> fst ` set (cn_pending s) \<and> answers inc i v"
proof -
  show "bounded s \<Longrightarrow> bounded s'"
    using assms unfolding bounded_def advances_def by (metis (no_types))
  show "settled s i f \<Longrightarrow> settled s' i f"
    using assms unfolding settled_def advances_def by blast
  show "settled s' i (Done v) \<Longrightarrow> settled s i (Done v) \<or> i \<in> fst ` set (cn_pending s) \<and> answers inc i v"
    using assms unfolding settled_def advances_def by blast
qed

lemma kept_futures:
  assumes "keeps s s'"
  shows "bounded s \<Longrightarrow> bounded s'" and "settled s i f \<Longrightarrow> settled s' i f"
    and "settled s' i (Done v) \<Longrightarrow> settled s i (Done v)"
  using assms unfolding bounded_def settled_def keeps_def by (metis (no_types), blast, blast)

lemma send_call_steps:
  assumes "bounded s"
  shows "bounded (snd (send_call mth params s))"
    and "settled s i f \<Longrightarrow> settled (snd (send_call mth params s)) i f"
    and "settled (snd (send_call mth params s)) i (Done v) \<Longrightarrow> settled s i (Done v)"
proof -
  have n: "map_of (cn_futures s) (cn_next s + 1) = None"
    using assms unfolding bounded_def by (metis add_le_same_cancel1 not_one_le_zero)
  show "bounded (snd (send_call mth params s))"
    using assms by (auto simp: send_call_def bounded_def bindE_def modify_def send_message_def ret_def Let_def update_conv'
      split: if_splits)
  show "settled s i f \<Longrightarrow> settled (snd (send_call mth params s)) i f"
    using n by (auto simp: send_call_def settled_def bindE_def modify_def send_message_def ret_def Let_def update_conv')
  show "settled (snd (send_call mth params s)) i (Done v) \<Longrightarrow> settled s i (Done v)"
    by (auto simp: send_call_def settled_def bindE_def modify_def send_message_def ret_def Let_def update_conv' split: if_splits)
qed

lemma keeps_close: "keeps s (close s)"
proof -
  have "keeps s (fail_pending e (if cn_reading s then end_reader s else s))" for e
    by (rule keeps_trans [OF _ keeps_fail_pending]) (simp add: keeps_end_reader)
  from keeps_same [OF this] show ?thesis by (simp add: close_def)
qed

lemma keeps_notify: "keeps s (snd (notify mth params s))"
  using keeps_send [of s "rpc [(''method'', JStr mth), (''params'', params)]"]
  by (simp add: preserves_def notify_def)

lemma apply_op_steps:
  assumes "bounded s"
  shows "bounded (apply_op repr hs op s)"
    and "settled s i f \<Longrightarrow> settled (apply_op repr hs op s) i f"
    and "settled (apply_op repr hs op s) i (Done v) \<Longrightarrow>
      settled s i (Done v) \<or> (\<exists>inc. op = OpIncoming inc \<and> i \<in> fst ` set (cn_pending s) \<and> answers inc i v)"
proof -
  show "bounded (apply_op repr hs op s)"
    by (cases op) (use assms in \<open>simp_all add: send_call_steps kept_futures [OF keeps_notify] kept_futures [OF keeps_close]
      advancesD [OF step_advances]\<close>)
  show "settled s i f \<Longrightarrow> settled (apply_op repr hs op s) i f"
    by (cases op) (use assms in \<open>simp_all add: send_call_steps kept_futures [OF keeps_notify] kept_futures [OF keeps_close]
      advancesD [OF step_advances]\<close>)
  show "settled (apply_op repr hs op s) i (Done v) \<Longrightarrow>
      settled s i (Done v) \<or> (\<exists>inc. op = OpIncoming inc \<and> i \<in> fst ` set (cn_pending s) \<and> answers inc i v)"
    by (cases op) (use assms in \<open>auto dest: send_call_steps(3) kept_futures(3) [OF keeps_notify] kept_futures(3) [OF keeps_close]
      advancesD(3) [OF step_advances]\<close>)
qed

lemma run_ops_append: "run_ops repr hs (xs @ ys) s = run_ops repr hs ys (run_ops repr hs xs s)"
  by (simp add: run_ops_def)

lemma run_ops_steps:
  assumes "bounded s"
  shows "bounded (run_ops repr hs ops s)" and "settled s i f \<Longrightarrow> settled (run_ops repr hs ops s) i f"
proof -
  have "bounded (run_ops repr hs ops s) \<and> (settled s i f \<longrightarrow> settled (run_ops repr hs ops s) i f)"
  proof (induction ops rule: rev_induct)
    case (snoc op ops)
    then show ?case
      using apply_op_steps(1,2) [of "run_ops repr hs ops s"] by (auto simp: run_ops_def)
  qed (use assms in \<open>simp add: run_ops_def\<close>)
  then show "bounded (run_ops repr hs ops s)" "settled s i f \<Longrightarrow> settled (run_ops repr hs ops s) i f" by auto
qed

lemma bounded_new: "bounded ((new_conn c)\<lparr>cn_started := True, cn_running := True, cn_reading := True\<rparr>)"
  by (simp add: bounded_def new_conn_def)

text \<open>C23. Whatever is called and whatever the agent sends, in any order: a call that is settled stays
  settled the same way; a call that succeeds does so with the result of a response that carries its
  identifier, no error, and arrived while the call was pending; and closing the connection leaves
  nothing pending.\<close>

theorem acp_calls_settle_once:
  fixes c :: 'c
  defines "opened \<equiv> (new_conn c)\<lparr>cn_started := True, cn_running := True, cn_reading := True\<rparr>"
  shows "(\<forall>ops later i f. settled (run_ops repr hs ops opened) i f \<longrightarrow> settled (run_ops repr hs (ops @ later) opened) i f)
    \<and> (\<forall>ops i v. settled (run_ops repr hs ops opened) i (Done v) \<longrightarrow>
         (\<exists>before inc after. ops = before @ OpIncoming inc # after
            \<and> i \<in> fst ` set (cn_pending (run_ops repr hs before opened)) \<and> answers inc i v))
    \<and> (\<forall>ops. \<not> cn_closed (run_ops repr hs ops opened) \<longrightarrow>
         cn_pending (run_ops repr hs (ops @ [OpClose]) opened) = [])"
proof (intro conjI allI impI)
  have b: "bounded (run_ops repr hs ops opened)" for ops
    unfolding opened_def by (rule run_ops_steps(1) [OF bounded_new])
  show "settled (run_ops repr hs (ops @ later) opened) i f" if "settled (run_ops repr hs ops opened) i f" for ops later i f
    unfolding run_ops_append by (rule run_ops_steps(2) [OF b that])
  show "\<exists>before inc after. ops = before @ OpIncoming inc # after
            \<and> i \<in> fst ` set (cn_pending (run_ops repr hs before opened)) \<and> answers inc i v"
    if "settled (run_ops repr hs ops opened) i (Done v)" for ops i v
    using that
  proof (induction ops rule: rev_induct)
    case Nil
    then show ?case by (simp add: run_ops_def opened_def settled_def new_conn_def)
  next
    case (snoc op ops)
    from snoc.prems have "settled (apply_op repr hs op (run_ops repr hs ops opened)) i (Done v)"
      by (simp add: run_ops_def)
    from apply_op_steps(3) [OF b this] show ?case
    proof
      assume "settled (run_ops repr hs ops opened) i (Done v)"
      from snoc.IH [OF this] show ?thesis by (metis append.assoc append_Cons)
    qed blast
  qed
  show "cn_pending (run_ops repr hs (ops @ [OpClose]) opened) = []"
    if "\<not> cn_closed (run_ops repr hs ops opened)" for ops
    using that by (simp add: run_ops_def close_def fail_pending_def)
qed

text \<open>Witness: one call, answered, then a second answer to the same identifier, which is ignored.\<close>

definition no_handlers :: "unit handlers" where
  "no_handlers = \<lparr>on_request = (\<lambda>_. None), on_notification = (\<lambda>_ _ s. (Inr (), s))\<rparr>"

definition answer :: "int \<Rightarrow> json \<Rightarrow> incoming" where
  "answer i v = Line (JObj [(''id'', JInt i), (''result'', v)])"

definition opened_conn :: "unit conn" where
  "opened_conn = (new_conn ())\<lparr>cn_started := True, cn_running := True, cn_reading := True\<rparr>"

lemma one_call_answered:
  "settled (run_ops (\<lambda>_. []) no_handlers [OpCall ''m'' JNull, OpIncoming (answer 1 (JInt 7))] opened_conn) 1 (Done (JInt 7))"
  by code_simp

theorem acp_calls_settle_once_witness:
  "settled (run_ops (\<lambda>_. []) no_handlers
      ([OpCall ''m'' JNull, OpIncoming (answer 1 (JInt 7))] @ [OpIncoming (answer 1 (JInt 8))]) opened_conn) 1 (Done (JInt 7))"
  using acp_calls_settle_once [of "\<lambda>_. []" no_handlers "()"] one_call_answered
  unfolding opened_conn_def by blast

text \<open>A line that is JSON but not an object ends the reader: the process runs on, every pending call fails,
  and a later call is sent and waits for its time-out whatever the agent answers.\<close>

lemma number_line_ends_reader:
  "let s = run_ops (\<lambda>_. []) no_handlers
        [OpCall ''m'' JNull, OpIncoming (Line (JInt 5)), OpCall ''m'' JNull, OpIncoming (answer 2 (JInt 7))] opened_conn
   in cn_running s \<and> settled s 1 (Failed (AcpError ''ACP agent closed the connection''))
      \<and> map_of (cn_futures s) 2 = Some Waiting"
  by code_simp

text \<open>An error that is not an object: the call leaves the pending table before its error is read, so nothing
  settles it; not the end of the reader, not closing.\<close>

lemma string_error_strands_call:
  "let s = run_ops (\<lambda>_. []) no_handlers
        [OpCall ''m'' JNull, OpIncoming (Line (JObj [(''id'', JInt 1), (''error'', JStr ''no'')])), OpClose] opened_conn
   in map_of (cn_futures s) 1 = Some Waiting \<and> cn_pending s = []"
  by code_simp

text \<open>A dead reader hears nothing: whatever the agent writes, a call ends with the time-out.\<close>

lemma await_unheard:
  "map_of (cn_futures s) i = Some Waiting \<Longrightarrow> \<not> cn_reading s \<Longrightarrow> TimeUp i \<notin> set incs \<Longrightarrow>
   \<exists>e. fst (await repr hs m a i incs s) = Inl e"
proof (induction incs arbitrary: s)
  case Nil
  then show ?case by (simp add: await.simps [of repr hs m a i "[]"])
next
  case (Cons inc incs)
  have w: "map_of (cn_futures (step repr hs inc s)) i = Some Waiting"
    using Cons.prems by (cases inc) (auto simp: step_def settle_futures drop_pending_def)
  have r: "\<not> cn_reading (step repr hs inc s)"
    using Cons.prems by (cases inc) (auto simp: step_def settle_def drop_pending_def)
  from Cons.IH [OF w r] Cons.prems show ?case
    by (simp add: await.simps [of repr hs m a i "inc # incs"])
qed

section \<open>What holds of the client\<close>

text \<open>A property of the client's state that its handlers keep is kept by everything the connection does.\<close>

lemma client_settle [simp]: "cn_client (settle i f s) = cn_client s" "cn_client (drop_pending i s) = cn_client s"
  by (simp_all add: settle_def drop_pending_def)

lemma client_settles [simp]: "cn_client (fold (\<lambda>(i, _). settle i f) ps s) = cn_client s"
  by (induction ps arbitrary: s) auto

lemma client_end [simp]: "cn_client (fail_pending e s) = cn_client s" "cn_client (end_reader s) = cn_client s"
    "cn_client (close s) = cn_client s"
  by (simp_all add: fail_pending_def end_reader_def close_def)

lemma client_handle_response [simp]: "cn_client (snd (handle_response repr d s)) = cn_client s"
  by (simp add: handle_response_def Let_def split: sum.split option.split)

lemma client_send [simp]: "cn_client (snd (send_message m s)) = cn_client s"
  by (simp add: send_message_def)

lemma client_send_call [simp]: "cn_client (snd (send_call m params s)) = cn_client s"
  by (simp add: send_call_def Let_def act_defs send_message_def)

locale client_invariant =
  fixes hs :: "'c handlers" and I :: "'c \<Rightarrow> bool"
  assumes request_keeps: "on_request hs name = Some h \<Longrightarrow> preserves I (h params)"
    and notification_keeps: "preserves I (on_notification hs mth params)"
begin

lemma in_client_keeps: "preserves I m \<Longrightarrow> preserves (\<lambda>s. I (cn_client s)) (in_client m)"
  by (auto simp: preserves_def in_client_def split: prod.split)

lemma send_keeps: "preserves (\<lambda>s. I (cn_client s)) (send_message m)"
  by (simp add: preserves_def)

lemma request_handled: "preserves (\<lambda>s. I (cn_client s)) (handle_request repr hs d mth i)"
proof (cases "case mth of JStr name \<Rightarrow> on_request hs name | _ \<Rightarrow> None")
  case None
  then show ?thesis by (simp add: handle_request_def reply_error_def send_keeps pres_throw)
next
  case (Some h)
  then have "\<exists>name. on_request hs name = Some h" by (cases mth) auto
  then have "preserves I (h (params_of d))" using request_keeps by blast
  from in_client_keeps [OF this]
  have run: "preserves (\<lambda>s. I (cn_client s)) (try_except (bindE (in_client (h (params_of d))) (\<lambda>v. ret (Inr v))) (\<lambda>e. ret (Inl e)))"
    by (intro pres)
  have "preserves (\<lambda>s. I (cn_client s))
      (case r of Inl e \<Rightarrow> reply_error i (- 32603) (str_exn e) | Inr v \<Rightarrow> send_message (rpc [(''id'', i), (''result'', v)]))" for r
    by (cases r) (simp_all add: reply_error_def send_keeps)
  with run Some show ?thesis by (simp add: handle_request_def pres_throw pres_bindE)
qed

lemma dispatch_keeps: "preserves (\<lambda>s. I (cn_client s)) (dispatch repr hs m)"
proof -
  have resp: "preserves (\<lambda>s. I (cn_client s)) (handle_response repr d)" for d
    by (simp add: preserves_def)
  show ?thesis
    unfolding dispatch_def
    by (auto split: sum.split json.split intro!: pres_throw pres_ret resp request_handled in_client_keeps notification_keeps)
qed

lemma step_keeps: "I (cn_client s) \<Longrightarrow> I (cn_client (step repr hs inc s))"
proof (cases inc)
  case (Line m)
  assume I: "I (cn_client s)"
  from preservesD [OF dispatch_keeps, of s repr m] I have "I (cn_client (snd (dispatch repr hs m s)))" by simp
  with I show ?thesis by (auto simp: step_def Line split: prod.split sum.split)
qed (simp_all add: step_def)

lemma await_keeps: "I (cn_client s) \<Longrightarrow> I (cn_client (snd (snd (await repr hs m a i incs s))))"
proof (induction incs arbitrary: s)
  case Nil
  then show ?case
    by (simp add: await.simps [of repr hs m a i "[]"] step_keeps split: option.split future.split)
next
  case (Cons inc incs)
  from Cons.IH [OF step_keeps [OF Cons.prems]] Cons.prems show ?case
    by (simp add: await.simps [of repr hs m a i "inc # incs"] split: option.split future.split)
qed

lemma call_keeps: "I (cn_client s) \<Longrightarrow> I (cn_client (snd (snd (call repr hs m params a incs s))))"
proof -
  assume I: "I (cn_client s)"
  obtain r s' where sc: "send_call m params s = (r, s')" by fastforce
  with I client_send_call [of m params s] have "I (cn_client s')" by simp
  then show ?thesis by (cases r) (simp_all add: call_def sc await_keeps)
qed

end

end
