(* ===== verification/AcpClient.thy ===== *)
theory AcpClient
  imports AcpProtocol Harness Tables
begin

text \<open>
  The ACP client (\<open>acp/client.py\<close>), the store of its sessions (\<open>acp/store.py\<close>) and the runner that
  drives an agent through one prompt (\<open>runners/acp.py\<close>). The state of the actions is the world of one
  run: the connection, what the agent will still write, and the table of sessions. The permission
  policy and the listeners are functions; each may raise.
\<close>

section \<open>Permissions\<close>

record permission_request =
  pr_session :: string
  pr_tool :: string
  pr_options :: "json list"
  pr_raw :: dict

type_synonym policy = "permission_request \<Rightarrow> exn + bool"

text \<open>\<open>option_id\<close>: the first option of a kind decides, an identifier of \<open>None\<close> included.\<close>

fun option_id :: "(json \<Rightarrow> string) \<Rightarrow> string \<Rightarrow> json list \<Rightarrow> exn + string option" where
  "option_id repr kind [] = Inr None"
| "option_id repr kind (JObj d # rest) =
     (if get ''kind'' d = JStr kind
      then Inr (if get ''optionId'' d = JNull then None else Some (py_str repr (get ''optionId'' d)))
      else option_id repr kind rest)"
| "option_id repr kind (v # rest) = Inl (AttributeError ''object has no attribute get'')"

definition allow_option :: "(json \<Rightarrow> string) \<Rightarrow> json list \<Rightarrow> exn + string option" where
  "allow_option repr options =
     (case option_id repr ''allow_once'' options of
        Inl e \<Rightarrow> Inl e
      | Inr (Some i) \<Rightarrow> if i \<noteq> [] then Inr (Some i) else option_id repr ''allow_always'' options
      | Inr None \<Rightarrow> option_id repr ''allow_always'' options)"

definition deny_all :: policy where
  "deny_all p = Inr False"

definition allow_read_only :: "(json \<Rightarrow> string) \<Rightarrow> policy" where
  "allow_read_only repr p =
     (case get_or ''toolCall'' (JObj []) (pr_raw p) of
        JObj d \<Rightarrow> Inr (lower (get_str repr ''kind'' d) \<in> set [''read'', ''fetch'', ''search''])
      | _ \<Rightarrow> Inl (AttributeError ''object has no attribute get''))"

definition or_object :: "json \<Rightarrow> json" where
  "or_object v = (if truthy v then v else JObj [])"

definition or_else :: "json \<Rightarrow> json \<Rightarrow> json" where
  "or_else v w = (if truthy v then v else w)"

definition tool_name :: "(json \<Rightarrow> string) \<Rightarrow> json \<Rightarrow> exn + string" where
  "tool_name repr tool_call =
     (case or_object tool_call of
        JObj d \<Rightarrow> Inr (py_str repr (or_else (get ''title'' d) (or_else (get ''kind'' d) (JStr ''unknown''))))
      | _ \<Rightarrow> Inl (AttributeError ''object has no attribute get''))"

definition request_of :: "(json \<Rightarrow> string) \<Rightarrow> json \<Rightarrow> exn + permission_request" where
  "request_of repr params =
     (case params of
        JObj d \<Rightarrow>
          (case tool_name repr (get ''toolCall'' d) of Inl e \<Rightarrow> Inl e | Inr tool \<Rightarrow>
          (case iter_json (or_empty (get ''options'' d)) of Inl e \<Rightarrow> Inl e | Inr options \<Rightarrow>
             Inr \<lparr>pr_session = get_str repr ''sessionId'' d, pr_tool = tool, pr_options = options, pr_raw = d\<rparr>))
      | _ \<Rightarrow> Inl (AttributeError ''object has no attribute get''))"

definition selected :: "string \<Rightarrow> json" where
  "selected i = JObj [(''outcome'', JObj [(''outcome'', JStr ''selected''), (''optionId'', JStr i)])]"

definition cancelled :: json where
  "cancelled = JObj [(''outcome'', JObj [(''outcome'', JStr ''cancelled'')])]"

section \<open>The client\<close>

definition PROTOCOL_VERSION :: int where
  "PROTOCOL_VERSION = 1"

record client =
  cl_version :: int
  cl_caps :: dict
  cl_session :: "string option"
  cl_updates :: "dict list"
  cl_events :: "normalized_update list"
  cl_permissions :: "permission_request list"
  cl_denied :: "string list"

definition new_client :: client where
  "new_client = \<lparr>cl_version = PROTOCOL_VERSION, cl_caps = [], cl_session = None, cl_updates = [], cl_events = [],
     cl_permissions = [], cl_denied = []\<rparr>"

text \<open>The policy's answer to a request, and the option the client sends back.\<close>

definition permit :: "(json \<Rightarrow> string) \<Rightarrow> policy \<Rightarrow> permission_request \<Rightarrow> exn + string option" where
  "permit repr policy p =
     (case policy p of
        Inl e \<Rightarrow> Inl e
      | Inr allowed \<Rightarrow> if allowed then allow_option repr (pr_options p) else Inr None)"

definition on_permission_request ::
  "(json \<Rightarrow> string) \<Rightarrow> policy \<Rightarrow> json \<Rightarrow> (client, exn, json) act" where
  "on_permission_request repr policy params =
     bindE (lift_result (request_of repr params)) (\<lambda>p.
     bindE (modify (\<lambda>c. c\<lparr>cl_permissions := cl_permissions c @ [p]\<rparr>)) (\<lambda>_.
     bindE (lift_result (permit repr policy p)) (\<lambda>granted.
       case granted of
         Some i \<Rightarrow> ret (selected i)
       | None \<Rightarrow>
           bindE (modify (\<lambda>c. c\<lparr>cl_denied := cl_denied c @ [pr_tool p]\<rparr>)) (\<lambda>_.
           bindE (lift_result (option_id repr ''reject_once'' (pr_options p))) (\<lambda>r.
             ret (case r of Some i \<Rightarrow> selected i | None \<Rightarrow> cancelled))))))"

record listeners =
  on_update :: "string \<Rightarrow> dict \<Rightarrow> exn option"
  on_event :: "normalized_update \<Rightarrow> exn option"

definition silent :: listeners where
  "silent = \<lparr>on_update = (\<lambda>_ _. None), on_event = (\<lambda>_. None)\<rparr>"

definition tell :: "exn option \<Rightarrow> ('s, exn, unit) act" where
  "tell r = (case r of None \<Rightarrow> ret () | Some e \<Rightarrow> throw e)"

definition on_session_update ::
  "(json \<Rightarrow> string) \<Rightarrow> (string \<Rightarrow> string) \<Rightarrow> listeners \<Rightarrow> json \<Rightarrow> json \<Rightarrow> (client, exn, unit) act" where
  "on_session_update repr redact l mth params =
     (if mth \<noteq> JStr ''session/update'' then ret ()
      else case params of
        JObj d \<Rightarrow>
          (case get ''update'' d of
             JObj update \<Rightarrow>
               bindE (modify (\<lambda>c. c\<lparr>cl_updates := cl_updates c @ [update]\<rparr>)) (\<lambda>_.
               bindE (tell (on_update l (get_str repr ''sessionUpdate'' update) update)) (\<lambda>_.
                 case normalize_update repr redact update of
                   None \<Rightarrow> ret ()
                 | Some event \<Rightarrow>
                     bindE (modify (\<lambda>c. c\<lparr>cl_events := cl_events c @ [event]\<rparr>)) (\<lambda>_. tell (on_event l event))))
           | _ \<Rightarrow> ret ())
      | _ \<Rightarrow> throw (AttributeError ''object has no attribute get''))"

definition client_handlers ::
  "(json \<Rightarrow> string) \<Rightarrow> (string \<Rightarrow> string) \<Rightarrow> policy \<Rightarrow> listeners \<Rightarrow> client handlers" where
  "client_handlers repr redact policy l = \<lparr>
     on_request = (\<lambda>m. if m = ''session/request_permission'' then Some (on_permission_request repr policy) else None),
     on_notification = on_session_update repr redact l\<rparr>"

section \<open>What the agent said it can do\<close>

definition supports :: "client \<Rightarrow> string \<Rightarrow> bool" where
  "supports c n = truthy (get n (cl_caps c))"

definition prompt_capabilities :: "client \<Rightarrow> dict" where
  "prompt_capabilities c = (case get ''promptCapabilities'' (cl_caps c) of JObj d \<Rightarrow> d | _ \<Rightarrow> [])"

text \<open>\<open>int(v)\<close> of a decoded value.\<close>

fun json_int :: "json \<Rightarrow> exn + int" where
  "json_int (JInt i) = Inr i"
| "json_int (JBool b) = Inr (if b then 1 else 0)"
| "json_int (JFloat r) = Inr (if r \<ge> 0 then floor r else ceiling r)"
| "json_int (JStr s) = py_int s"
| "json_int v = Inl (TypeError ''int() argument must be a string or a number'')"

record prompt_result =
  pt_stop :: string
  pt_text :: string
  pt_updates :: "dict list"
  pt_events :: "normalized_update list"
  pt_permissions :: "permission_request list"
  pt_denied :: "string list"

definition prompt_completed :: "prompt_result \<Rightarrow> bool" where
  "prompt_completed r \<longleftrightarrow> pt_stop r \<in> set [''end_turn'', ''completed'']"

definition terminal_output :: "prompt_result \<Rightarrow> string" where
  "terminal_output r = concat (List.map nu_text (filter (\<lambda>e. nu_kind e = U_TERMINAL) (pt_events r)))"

definition files_changed :: "prompt_result \<Rightarrow> string list" where
  "files_changed r = from_keys (concat (List.map nu_paths (filter (\<lambda>e. nu_kind e = U_FILE) (pt_events r))))"

definition collected_text :: "(json \<Rightarrow> string) \<Rightarrow> dict list \<Rightarrow> string" where
  "collected_text repr updates = concat (List.map (\<lambda>u.
     case get ''content'' u of
       JObj d \<Rightarrow> if get ''type'' d = JStr ''text'' then get_str repr ''text'' d else []
     | _ \<Rightarrow> []) updates)"

section \<open>The world of a run\<close>

record stored_session =
  ss_task :: string
  ss_runner :: string
  ss_session :: string
  ss_cwd :: string
  ss_created :: string
  ss_used :: string

record agent_world = os +
  aw_found :: bool
  aw_script :: "incoming list"
  aw_conn :: "client conn"
  aw_sessions :: "stored_session list"
  aw_caps :: "runner_capability list"

type_synonym ('z, 'a) agent_act = "('z agent_world_scheme, exn, 'a) act"

definition agent_call ::
  "(json \<Rightarrow> string) \<Rightarrow> client handlers \<Rightarrow> string \<Rightarrow> json \<Rightarrow> string \<Rightarrow> ('z, json) agent_act" where
  "agent_call repr hs mth params after w =
     (let (r, incs, s) = call repr hs mth params after (aw_script w) (aw_conn w)
      in (r, w\<lparr>aw_script := incs, aw_conn := s\<rparr>))"

definition on_conn :: "(client, 'a) conn_act \<Rightarrow> ('z, 'a) agent_act" where
  "on_conn m w = (let (r, s) = m (aw_conn w) in (r, w\<lparr>aw_conn := s\<rparr>))"

definition client_of :: "'z agent_world_scheme \<Rightarrow> client" where
  "client_of w = cn_client (aw_conn w)"

definition set_client :: "(client \<Rightarrow> client) \<Rightarrow> ('z, unit) agent_act" where
  "set_client f = on_conn (in_client (modify f))"

definition client_initialize :: "(json \<Rightarrow> string) \<Rightarrow> client handlers \<Rightarrow> ('z, unit) agent_act" where
  "client_initialize repr hs =
     bindE (agent_call repr hs ''initialize''
         (JObj [(''protocolVersion'', JInt PROTOCOL_VERSION),
                (''clientCapabilities'', JObj [(''fs'', JObj [(''readTextFile'', JBool True), (''writeTextFile'', JBool True)])])])
         ''60.0'') (\<lambda>result.
     case result of
       JObj d \<Rightarrow>
         bindE (lift_result (json_int (get_or ''protocolVersion'' (JInt PROTOCOL_VERSION) d))) (\<lambda>negotiated.
         if negotiated > PROTOCOL_VERSION
         then throw (AcpError (''Agent speaks ACP v'' @ int_str negotiated @ ''; this client supports v'' @ int_str PROTOCOL_VERSION))
         else set_client (\<lambda>c. c\<lparr>cl_version := negotiated,
                cl_caps := (case get ''agentCapabilities'' d of JObj raw \<Rightarrow> raw | _ \<Rightarrow> [])\<rparr>))
     | _ \<Rightarrow> throw (AcpError ''initialize returned no capabilities''))"

definition new_session :: "(json \<Rightarrow> string) \<Rightarrow> client handlers \<Rightarrow> string \<Rightarrow> json list \<Rightarrow> ('z, unit) agent_act" where
  "new_session repr hs cwd forwarded =
     bindE (agent_call repr hs ''session/new'' (JObj [(''cwd'', JStr cwd), (''mcpServers'', JList forwarded)]) ''60.0'') (\<lambda>result.
     case result of
       JObj d \<Rightarrow>
         (case map_of d ''sessionId'' of
            Some v \<Rightarrow> set_client (\<lambda>c. c\<lparr>cl_session := Some (py_str repr v)\<rparr>)
          | None \<Rightarrow> throw (AcpError ''session/new did not return a sessionId''))
     | _ \<Rightarrow> throw (AcpError ''session/new did not return a sessionId''))"

definition load_session :: "(json \<Rightarrow> string) \<Rightarrow> client handlers \<Rightarrow> string \<Rightarrow> string \<Rightarrow> ('z, bool) agent_act" where
  "load_session repr hs session_id cwd =
     bindE (gets client_of) (\<lambda>c.
     if \<not> supports c ''loadSession'' then ret False
     else bindE (agent_call repr hs ''session/load'' (JObj [(''sessionId'', JStr session_id), (''cwd'', JStr cwd)]) ''60.0'') (\<lambda>_.
          bindE (set_client (\<lambda>c. c\<lparr>cl_session := Some session_id\<rparr>)) (\<lambda>_. ret True)))"

definition prompt_agent ::
  "(json \<Rightarrow> string) \<Rightarrow> client handlers \<Rightarrow> string \<Rightarrow> string \<Rightarrow> ('z, prompt_result) agent_act" where
  "prompt_agent repr hs message after =
     bindE (gets client_of) (\<lambda>c.
     case cl_session c of
       None \<Rightarrow> throw (AcpError ''prompt called before a session was created'')
     | Some session_id \<Rightarrow>
         bindE (set_client (\<lambda>c. c\<lparr>cl_updates := [], cl_events := [], cl_permissions := [], cl_denied := []\<rparr>)) (\<lambda>_.
         bindE (agent_call repr hs ''session/prompt''
             (JObj [(''sessionId'', JStr session_id),
                    (''prompt'', JList [JObj [(''type'', JStr ''text''), (''text'', JStr message)]])]) after) (\<lambda>result.
         bindE (gets client_of) (\<lambda>c.
           ret \<lparr>pt_stop = (case result of JObj d \<Rightarrow> get_str repr ''stopReason'' d | _ \<Rightarrow> []),
                pt_text = collected_text repr (cl_updates c), pt_updates = cl_updates c, pt_events = cl_events c,
                pt_permissions = cl_permissions c, pt_denied = cl_denied c\<rparr>))))"

text \<open>\<open>cancel\<close>: a notification, once there is a session.\<close>

definition client_cancel :: "('z, unit) agent_act" where
  "client_cancel = bindE (gets client_of) (\<lambda>c.
     case cl_session c of
       None \<Rightarrow> ret ()
     | Some i \<Rightarrow> on_conn (notify ''session/cancel'' (JObj [(''sessionId'', JStr i)])))"

section \<open>The store of sessions\<close>

definition session_key :: "stored_session \<Rightarrow> string \<times> string" where
  "session_key r = (ss_task r, ss_runner r)"

text \<open>\<open>remember\<close>: an upsert that keeps the row's place and its creation time.\<close>

definition remember_row :: "stored_session \<Rightarrow> stored_session list \<Rightarrow> stored_session list" where
  "remember_row r t =
     (if has_row session_key (session_key r) t
      then List.map (\<lambda>x. if session_key x = session_key r
             then x\<lparr>ss_session := ss_session r, ss_cwd := ss_cwd r, ss_used := ss_used r\<rparr> else x) t
      else t @ [r])"

definition remember :: "string \<Rightarrow> string \<Rightarrow> string \<Rightarrow> string \<Rightarrow> ('z, unit) agent_act" where
  "remember task_id runner session_id cwd =
     bindE now_iso (\<lambda>now.
     modify (\<lambda>w. w\<lparr>aw_sessions := remember_row
       \<lparr>ss_task = task_id, ss_runner = runner, ss_session = session_id, ss_cwd = cwd, ss_created = now, ss_used = now\<rparr>
       (aw_sessions w)\<rparr>))"

definition recall :: "string \<Rightarrow> string \<Rightarrow> stored_session list \<Rightarrow> stored_session option" where
  "recall task_id runner t = row_by session_key (task_id, runner) t"

definition touch :: "string \<Rightarrow> string \<Rightarrow> ('z, unit) agent_act" where
  "touch task_id runner =
     bindE now_iso (\<lambda>now.
     modify (\<lambda>w. w\<lparr>aw_sessions := List.map (\<lambda>x. if session_key x = (task_id, runner) then x\<lparr>ss_used := now\<rparr> else x)
       (aw_sessions w)\<rparr>))"

definition forget :: "string \<Rightarrow> string \<Rightarrow> ('z, unit) agent_act" where
  "forget task_id runner = modify (\<lambda>w. w\<lparr>aw_sessions := filter (\<lambda>x. session_key x \<noteq> (task_id, runner)) (aw_sessions w)\<rparr>)"

section \<open>The handlers keep the record of refusals\<close>

text \<open>A request is refused when the policy says no, or says yes and no option to allow it was offered. A
  policy that raises answers the agent with an error and records no refusal.\<close>

definition refused :: "(json \<Rightarrow> string) \<Rightarrow> policy \<Rightarrow> permission_request \<Rightarrow> bool" where
  "refused repr policy p \<longleftrightarrow> permit repr policy p = Inr None"

definition denied_ok :: "(json \<Rightarrow> string) \<Rightarrow> policy \<Rightarrow> client \<Rightarrow> bool" where
  "denied_ok repr policy c \<longleftrightarrow> cl_denied c = List.map pr_tool (filter (refused repr policy) (cl_permissions c))"

lemma on_permission_cases:
  "snd (on_permission_request repr policy params c) =
     (case request_of repr params of
        Inl e \<Rightarrow> c
      | Inr p \<Rightarrow> c\<lparr>cl_permissions := cl_permissions c @ [p],
                   cl_denied := cl_denied c @ (if refused repr policy p then [pr_tool p] else [])\<rparr>)"
  by (auto simp: on_permission_request_def lift_result_def act_defs refused_def split: sum.split option.split)

lemma denied_kept: "preserves (denied_ok repr policy) (on_permission_request repr policy params)"
  by (auto simp: preserves_def denied_ok_def on_permission_cases split: sum.split)

lemma pres_tell [pres]: "preserves I (tell r)"
  by (cases r) (simp_all add: tell_def pres)

lemma update_keeps:
  fixes c :: client
  shows "cl_session (snd (on_session_update repr redact l mth params c)) = cl_session c"
    and "cl_permissions (snd (on_session_update repr redact l mth params c)) = cl_permissions c"
    and "cl_denied (snd (on_session_update repr redact l mth params c)) = cl_denied c"
proof -
  have upd: "preserves (\<lambda>c. cl_session c = x \<and> cl_permissions c = y \<and> cl_denied c = z)
      (bindE (modify (\<lambda>c. c\<lparr>cl_updates := cl_updates c @ [u]\<rparr>)) (\<lambda>_. bindE (tell t) (\<lambda>_. case n of
         None \<Rightarrow> ret ()
       | Some event \<Rightarrow> bindE (modify (\<lambda>c. c\<lparr>cl_events := cl_events c @ [event]\<rparr>)) (\<lambda>_. tell (on_event l event)))))"
    for x y z u t n
    by (intro pres pres_modify) simp_all
  have "preserves (\<lambda>c. cl_session c = x \<and> cl_permissions c = y \<and> cl_denied c = z) (on_session_update repr redact l mth params)"
    for x y z
    unfolding on_session_update_def by (auto split: json.split intro!: pres_ret pres_throw upd)
  from preservesD [OF this, of c] show
    "cl_session (snd (on_session_update repr redact l mth params c)) = cl_session c"
    "cl_permissions (snd (on_session_update repr redact l mth params c)) = cl_permissions c"
    "cl_denied (snd (on_session_update repr redact l mth params c)) = cl_denied c"
    by simp_all
qed

interpretation refusals: client_invariant "client_handlers repr redact policy l" "denied_ok repr policy"
  for repr redact policy l
proof unfold_locales
  show "preserves (denied_ok repr policy) (h params)" if "on_request (client_handlers repr redact policy l) name = Some h" for name h params
    using that by (auto simp: client_handlers_def denied_kept split: if_splits)
  show "preserves (denied_ok repr policy) (on_notification (client_handlers repr redact policy l) mth params)" for mth params
    by (simp add: client_handlers_def preserves_def denied_ok_def update_keeps)
qed

interpretation sessions: client_invariant "client_handlers repr redact policy l" "\<lambda>c. cl_session c = x"
  for repr redact policy l x
proof unfold_locales
  show "preserves (\<lambda>c. cl_session c = x) (h params)" if "on_request (client_handlers repr redact policy l) name = Some h" for name h params
    using that by (auto simp: client_handlers_def preserves_def on_permission_cases split: if_splits sum.split)
  show "preserves (\<lambda>c. cl_session c = x) (on_notification (client_handlers repr redact policy l) mth params)" for mth params
    by (simp add: client_handlers_def preserves_def update_keeps)
qed

lemma agent_call_keeps:
  assumes "client_invariant hs I" and "I (client_of w)"
  shows "I (client_of (snd (agent_call repr hs mth params after w)))"
  using client_invariant.call_keeps [OF assms(1), of "aw_conn w" repr mth params after "aw_script w"] assms(2)
  by (cases "call repr hs mth params after (aw_script w) (aw_conn w)") (simp add: agent_call_def client_of_def)

lemma agent_call_sessions [simp]: "aw_sessions (snd (agent_call repr hs mth params after w)) = aw_sessions w"
  by (simp add: agent_call_def split: prod.split)

section \<open>The steps of a session\<close>

definition with_client :: "(client \<Rightarrow> client) \<Rightarrow> 'z agent_world_scheme \<Rightarrow> 'z agent_world_scheme" where
  "with_client f w = w\<lparr>aw_conn := (aw_conn w)\<lparr>cn_client := f (client_of w)\<rparr>\<rparr>"

lemma set_client_ok: "set_client f w = (Inr (), with_client f w)"
  by (simp add: set_client_def on_conn_def in_client_def modify_def with_client_def client_of_def)

lemma with_client [simp]:
  "client_of (with_client f w) = f (client_of w)" "aw_sessions (with_client f w) = aw_sessions w"
  by (simp_all add: with_client_def client_of_def)

lemma pres_sessions [pres]:
  "preserves (\<lambda>v. aw_sessions v = t) (agent_call repr hs mth params after)"
  "preserves (\<lambda>v. aw_sessions v = t) (set_client f)"
  by (simp_all add: preserves_def set_client_ok)

lemma pres_lift_result [pres]: "preserves I (lift_result r)"
  by (simp add: preserves_def lift_result_def act_defs split: sum.split)

lemma initialize_sessions: "client_initialize repr hs w = (r, w') \<Longrightarrow> aw_sessions w' = aw_sessions w"
proof -
  have "preserves (\<lambda>v. aw_sessions v = aw_sessions w) (client_initialize repr hs)"
    unfolding client_initialize_def
  proof (rule pres_bindE, rule pres_sessions(1))
    fix v :: json
    show "preserves (\<lambda>v. aw_sessions v = aw_sessions w)
      (case v of
         JObj d \<Rightarrow>
           bindE (lift_result (json_int (get_or ''protocolVersion'' (JInt PROTOCOL_VERSION) d))) (\<lambda>negotiated.
           if negotiated > PROTOCOL_VERSION
           then throw (AcpError (''Agent speaks ACP v'' @ int_str negotiated @ ''; this client supports v'' @ int_str PROTOCOL_VERSION))
           else set_client (\<lambda>c. c\<lparr>cl_version := negotiated,
                  cl_caps := (case get ''agentCapabilities'' d of JObj raw \<Rightarrow> raw | _ \<Rightarrow> [])\<rparr>))
       | _ \<Rightarrow> throw (AcpError ''initialize returned no capabilities''))"
      by (cases v; simp only: json.case; intro pres_throw pres_bindE pres_lift_result pres_if pres_sessions)
  qed
  then show "client_initialize repr hs w = (r, w') \<Longrightarrow> aw_sessions w' = aw_sessions w"
    by (rule preserves_stepD [where I = "\<lambda>v. aw_sessions v = aw_sessions w"]) simp
qed

lemma new_session_facts:
  assumes "new_session repr hs cwd forwarded w = (r, w')"
  shows "aw_sessions w' = aw_sessions w" and "r = Inr () \<Longrightarrow> cl_session (client_of w') \<noteq> None"
proof -
  obtain r1 w1 where c: "agent_call repr hs ''session/new'' (JObj [(''cwd'', JStr cwd), (''mcpServers'', JList forwarded)]) ''60.0'' w = (r1, w1)"
    by fastforce
  then have s: "aw_sessions w1 = aw_sessions w" by (metis agent_call_sessions snd_conv)
  have k: "new_session repr hs cwd forwarded w =
      (case r1 of Inl e \<Rightarrow> (Inl e, w1)
       | Inr v \<Rightarrow> (case v of
           JObj d \<Rightarrow> (case map_of d ''sessionId'' of
              Some v \<Rightarrow> (Inr (), (with_client (\<lambda>c. c\<lparr>cl_session := Some (py_str repr v)\<rparr>) w1))
            | None \<Rightarrow> (Inl (AcpError ''session/new did not return a sessionId''), w1))
         | _ \<Rightarrow> (Inl (AcpError ''session/new did not return a sessionId''), w1)))"
    by (simp add: new_session_def bindE_def c throw_def set_client_ok split: sum.split json.split option.split)
  show "aw_sessions w' = aw_sessions w"
    using assms s unfolding k by (auto split: sum.splits json.splits option.splits)
  show "r = Inr () \<Longrightarrow> cl_session (client_of w') \<noteq> None"
    using assms unfolding k by (auto split: sum.splits json.splits option.splits)
qed

lemma load_session_facts:
  assumes "load_session repr hs i cwd w = (r, w')"
  shows "aw_sessions w' = aw_sessions w" and "r = Inr True \<Longrightarrow> cl_session (client_of w') = Some i"
proof -
  obtain r1 w1 where c: "agent_call repr hs ''session/load'' (JObj [(''sessionId'', JStr i), (''cwd'', JStr cwd)]) ''60.0'' w = (r1, w1)"
    by fastforce
  then have s: "aw_sessions w1 = aw_sessions w" by (metis agent_call_sessions snd_conv)
  have k: "load_session repr hs i cwd w =
      (if \<not> supports (client_of w) ''loadSession'' then (Inr False, w)
       else case r1 of Inl e \<Rightarrow> (Inl e, w1)
       | Inr v \<Rightarrow> (Inr True, (with_client (\<lambda>c. c\<lparr>cl_session := Some i\<rparr>) w1)))"
    unfolding load_session_def bindE_def [of "gets client_of"]
    by (simp add: gets_def ret_def bindE_def c set_client_ok split: sum.split)
  show "aw_sessions w' = aw_sessions w"
    using assms s unfolding k by (auto split: if_splits sum.splits)
  show "r = Inr True \<Longrightarrow> cl_session (client_of w') = Some i"
    using assms unfolding k by (auto split: if_splits sum.splits)
qed

lemma prompt_facts:
  assumes "prompt_agent repr (client_handlers repr redact policy l) message after w = (r, w')"
  shows "aw_sessions w' = aw_sessions w" and "cl_session (client_of w') = cl_session (client_of w)"
    and "r = Inr p \<Longrightarrow> pt_denied p = List.map pr_tool (filter (refused repr policy) (pt_permissions p))"
    and "r = Inr p \<Longrightarrow> pt_permissions p = cl_permissions (client_of w')"
    and "r = Inr p \<Longrightarrow> cl_session (client_of w) \<noteq> None"
proof -
  let ?hs = "client_handlers repr redact policy l"
  have all: "aw_sessions w' = aw_sessions w \<and> cl_session (client_of w') = cl_session (client_of w)
    \<and> (\<forall>p. r = Inr p \<longrightarrow> pt_denied p = List.map pr_tool (filter (refused repr policy) (pt_permissions p))
        \<and> pt_permissions p = cl_permissions (client_of w') \<and> cl_session (client_of w) \<noteq> None)"
  proof (cases "cl_session (client_of w)")
    case None
    then show ?thesis using assms by (auto simp: prompt_agent_def act_defs)
  next
    case (Some i)
    define w1 where "w1 = (with_client (\<lambda>c. c\<lparr>cl_updates := [], cl_events := [], cl_permissions := [], cl_denied := []\<rparr>) w)"
    obtain r2 w2 where c: "agent_call repr ?hs ''session/prompt''
        (JObj [(''sessionId'', JStr i), (''prompt'', JList [JObj [(''type'', JStr ''text''), (''text'', JStr message)]])]) after w1 = (r2, w2)"
      by fastforce
    have tab: "aw_sessions w2 = aw_sessions w" using agent_call_sessions [of repr ?hs _ _ after w1] c by (metis snd_conv w1_def with_client(2))
    have "cl_session (client_of w1) = Some i" "denied_ok repr policy (client_of w1)"
      by (simp_all add: w1_def Some denied_ok_def)
    then have keep: "cl_session (client_of w2) = Some i" "denied_ok repr policy (client_of w2)"
      using agent_call_keeps [of ?hs "\<lambda>c. cl_session c = Some i", OF sessions.client_invariant_axioms]
        agent_call_keeps [of ?hs "denied_ok repr policy", OF refusals.client_invariant_axioms] c
      by (metis (no_types, lifting) snd_conv)+
    have "prompt_agent repr ?hs message after w = (case r2 of Inl e \<Rightarrow> (Inl e, w2)
        | Inr v \<Rightarrow> (Inr \<lparr>pt_stop = (case v of JObj d \<Rightarrow> get_str repr ''stopReason'' d | _ \<Rightarrow> []),
                pt_text = collected_text repr (cl_updates (client_of w2)), pt_updates = cl_updates (client_of w2),
                pt_events = cl_events (client_of w2),
                pt_permissions = cl_permissions (client_of w2), pt_denied = cl_denied (client_of w2)\<rparr>, w2))"
      unfolding prompt_agent_def bindE_def [of "gets client_of"]
      by (simp add: gets_def Some bindE_def set_client_ok w1_def [symmetric] c ret_def split: sum.split)
    with assms tab keep Some show ?thesis by (auto simp: denied_ok_def split: sum.splits)
  qed
  then show "aw_sessions w' = aw_sessions w" "cl_session (client_of w') = cl_session (client_of w)"
    "r = Inr p \<Longrightarrow> pt_denied p = List.map pr_tool (filter (refused repr policy) (pt_permissions p))"
    "r = Inr p \<Longrightarrow> pt_permissions p = cl_permissions (client_of w')"
    "r = Inr p \<Longrightarrow> cl_session (client_of w) \<noteq> None" by auto
qed

end
