(* ===== verification/AgentRunners.thy ===== *)
theory AgentRunners
  imports AcpClient
begin

text \<open>
  The two runners that reach a real agent: \<open>AcpRunner\<close> (\<open>runners/acp.py\<close>), which takes one task through an
  ACP session, and \<open>CliRunner\<close> (\<open>runners/cli.py\<close>), which runs the headless program. The program's
  output is a parameter; \<open>redact\<close> stands for \<open>SecurityGuard.redact_secrets\<close>.
\<close>

section \<open>The ACP runner\<close>

record acp_runner =
  ar_name :: string
  ar_command :: "string list"
  ar_cwd :: "string option"
  ar_policy :: "policy option"
  ar_mcp :: mcp_registry
  ar_on_event :: "(string \<Rightarrow> normalized_update \<Rightarrow> exn option) option"
  ar_sessions :: bool

definition acp_capabilities :: "mcp_registry \<Rightarrow> runner_capability list" where
  "acp_capabilities mcp =
     [AGENT_SESSION, CANCELLATION, PERMISSIONS, STREAMING, TRANSCRIPT, RESULT_CAPTURE]
       @ (if reg_servers mcp \<noteq> [] then [TOOL_ACCESS] else [])"

text \<open>\<open>x or y\<close> for the working directories.\<close>

definition or_text :: "string option \<Rightarrow> string \<Rightarrow> string" where
  "or_text x y = (case x of Some s \<Rightarrow> if s \<noteq> [] then s else y | None \<Rightarrow> y)"

definition runner_handlers ::
  "(json \<Rightarrow> string) \<Rightarrow> (string \<Rightarrow> string) \<Rightarrow> acp_runner \<Rightarrow> string \<Rightarrow> client handlers" where
  "runner_handlers repr redact ar task_id =
     client_handlers repr redact (case ar_policy ar of Some p \<Rightarrow> p | None \<Rightarrow> deny_all)
       (case ar_on_event ar of None \<Rightarrow> silent | Some f \<Rightarrow> silent\<lparr>on_event := f task_id\<rparr>)"

definition reconcile_capabilities :: "('z, unit) agent_act" where
  "reconcile_capabilities = modify (\<lambda>w.
     let caps = (if supports (client_of w) ''loadSession'' then aw_caps w else removeAll AGENT_SESSION (aw_caps w))
     in w\<lparr>aw_caps := (if truthy (get_or ''image'' (JBool True) (prompt_capabilities (client_of w))) then caps
                       else removeAll FILE_ACCESS caps)\<rparr>)"

fun is_acp_error :: "exn \<Rightarrow> bool" where
  "is_acp_error (AcpError why) = True"
| "is_acp_error (AcpRemoteError code why) = True"
| "is_acp_error e = False"

text \<open>\<open>_resume\<close>: whatever keeps the stored session from being loaded forgets it.\<close>

definition acp_resume :: "(json \<Rightarrow> string) \<Rightarrow> client handlers \<Rightarrow> acp_runner \<Rightarrow> string \<Rightarrow> ('z, bool) agent_act" where
  "acp_resume repr hs ar task_id =
     (if \<not> ar_sessions ar then ret False
      else bindE (gets (\<lambda>w. recall task_id (ar_name ar) (aw_sessions w))) (\<lambda>stored.
        case stored of
          None \<Rightarrow> ret False
        | Some row \<Rightarrow>
            bindE (try_except
                (bindE (load_session repr hs (ss_session row) (or_text (Some (ss_cwd row)) (or_text (ar_cwd ar) ''.''))) (\<lambda>loaded.
                 if loaded then bindE (touch task_id (ar_name ar)) (\<lambda>_. ret True) else ret False))
                (\<lambda>e. if is_acp_error e then ret False else throw e)) (\<lambda>resumed.
            if resumed then ret True
            else bindE (forget task_id (ar_name ar)) (\<lambda>_. ret False))))"

definition acp_remember :: "acp_runner \<Rightarrow> string \<Rightarrow> ('z, unit) agent_act" where
  "acp_remember ar task_id =
     bindE (gets client_of) (\<lambda>c.
     case cl_session c of
       None \<Rightarrow> ret ()
     | Some i \<Rightarrow> if ar_sessions ar then remember task_id (ar_name ar) i (or_text (ar_cwd ar) ''.'') else ret ())"

definition transcript_of :: "string \<Rightarrow> string \<Rightarrow> string" where
  "transcript_of t terminal =
     (if terminal = [] then t
      else if t \<noteq> [] then t @ newline @ newline @ ''--- terminal ---'' @ newline @ terminal else terminal)"

definition acp_result ::
  "(string \<Rightarrow> string) \<Rightarrow> acp_runner \<Rightarrow> string \<Rightarrow> runner_config \<Rightarrow> bool \<Rightarrow> prompt_result \<Rightarrow> runner_result" where
  "acp_result redact ar task_id config resumed r =
     (let denied = (if pt_denied r = [] then []
            else ''Denied permission for: '' @ join '', '' (sort (remdups (pt_denied r))));
          t = redact (pt_text r)
      in \<lparr>rs_task_id = task_id,
          rs_success = (prompt_completed r \<and> pt_denied r = []),
          rs_output = t,
          rs_error = (if \<not> prompt_completed r \<or> denied \<noteq> [] then denied else []),
          rs_transcript = transcript_of t (terminal_output r),
          rs_evidence = [(''stop_reason'', pt_stop r), (''mcp'', explain_mcp (ar_mcp ar) (rc_role config)),
            (''session'', if resumed then ''resumed'' else ''new''),
            (''files_changed'', join '', '' (files_changed r))]\<rparr>)"

definition failed_result :: "string \<Rightarrow> string \<Rightarrow> runner_result" where
  "failed_result task_id why =
     \<lparr>rs_task_id = task_id, rs_success = False, rs_output = [], rs_error = why, rs_transcript = [], rs_evidence = []\<rparr>"

text \<open>From the start of the process to the answer of the prompt.\<close>

definition acp_session ::
  "(json \<Rightarrow> string) \<Rightarrow> client handlers \<Rightarrow> acp_runner \<Rightarrow> string \<Rightarrow> string \<Rightarrow> runner_config \<Rightarrow> ('z, bool \<times> prompt_result) agent_act" where
  "acp_session repr hs ar task_id message config =
     bindE (\<lambda>w. on_conn (start (aw_found w) (ar_command ar)) w) (\<lambda>_.
     bindE (client_initialize repr hs) (\<lambda>_.
     bindE reconcile_capabilities (\<lambda>_.
     bindE (acp_resume repr hs ar task_id) (\<lambda>resumed.
     bindE (if resumed then ret ()
            else bindE (new_session repr hs (or_text (ar_cwd ar) ''.'') (acp_servers (ar_mcp ar) (rc_role config))) (\<lambda>_.
                 acp_remember ar task_id)) (\<lambda>_.
     bindE (prompt_agent repr hs message (int_str (rc_timeout_seconds config))) (\<lambda>r. ret (resumed, r)))))))"

definition acp_run ::
  "(json \<Rightarrow> string) \<Rightarrow> (string \<Rightarrow> string) \<Rightarrow> acp_runner \<Rightarrow> string \<Rightarrow> string \<Rightarrow> runner_config \<Rightarrow> ('z, runner_result) agent_act" where
  "acp_run repr redact ar task_id message config w =
     (case acp_session repr (runner_handlers repr redact ar task_id) ar task_id message config (w\<lparr>aw_conn := new_conn new_client\<rparr>) of
        (r, w1) \<Rightarrow>
          (case r of
             Inr (resumed, p) \<Rightarrow> Inr (acp_result redact ar task_id config resumed p)
           | Inl e \<Rightarrow> if is_acp_error e then Inr (failed_result task_id (str_exn e)) else Inl e,
           w1\<lparr>aw_conn := close (aw_conn w1)\<rparr>))"

section \<open>The headless runner\<close>

definition cli_capabilities :: "runner_capability list" where
  "cli_capabilities = [TRANSCRIPT, RESULT_CAPTURE, CANCELLATION]"

definition cli_args :: "string \<Rightarrow> runner_config \<Rightarrow> string list" where
  "cli_args message config =
     [''cmd'', ''--print'', message, ''--max-turns'', int_str (rc_max_turns config)]
       @ (if rc_model config \<noteq> [] \<and> rc_model config \<noteq> ''default'' then [''--model'', rc_model config] else [])
       @ rc_extra_args config"

text \<open>What the program does: its exit code and its two decoded streams, no end before the time-out, or no
  such program.\<close>

datatype process_end = Exited int string string | TimedOut | NotStarted

definition cli_run ::
  "(string \<Rightarrow> string) \<Rightarrow> (string list \<Rightarrow> process_end) \<Rightarrow> string \<Rightarrow> string \<Rightarrow> runner_config \<Rightarrow> exn + runner_result" where
  "cli_run redact program task_id message config =
     (case program (cli_args message config) of
        NotStarted \<Rightarrow> Inl (FileNotFound ''cmd'')
      | TimedOut \<Rightarrow> Inr (failed_result task_id (''Command Code timed out after '' @ int_str (rc_timeout_seconds config) @ ''s''))
      | Exited code out err \<Rightarrow> Inr \<lparr>rs_task_id = task_id, rs_success = (code = 0), rs_output = take 8000 (redact out),
            rs_error = take 2000 (redact err), rs_transcript = take 8000 (redact out), rs_evidence = []\<rparr>)"

section \<open>The store of sessions\<close>

lemma row_by_map:
  assumes "\<And>x. session_key (f x) = session_key x"
  shows "row_by session_key k (List.map f t) = map_option f (row_by session_key k t)"
  by (induction t) (auto simp: row_by_def assms)

lemma row_by_append: "row_by key k (t @ u) = (case row_by key k t of Some r \<Rightarrow> Some r | None \<Rightarrow> row_by key k u)"
  by (induction t) (auto simp: row_by_def)

lemma row_by_filter: "row_by key k (filter (\<lambda>x. key x \<noteq> k') t) = (if k = k' then None else row_by key k t)"
  by (induction t) (auto simp: row_by_def)

lemma recall_remember:
  "row_by session_key k (remember_row r t) =
     (if k \<noteq> session_key r then row_by session_key k t
      else Some (case row_by session_key k t of
          None \<Rightarrow> r
        | Some x \<Rightarrow> x\<lparr>ss_session := ss_session r, ss_cwd := ss_cwd r, ss_used := ss_used r\<rparr>))"
proof -
  let ?f = "\<lambda>x. if session_key x = session_key r
             then x\<lparr>ss_session := ss_session r, ss_cwd := ss_cwd r, ss_used := ss_used r\<rparr> else x"
  have f: "session_key (?f x) = session_key x" for x by (simp add: session_key_def)
  have one: "row_by session_key k [r] = (if k = session_key r then Some r else None)" by (simp add: row_by_def)
  show ?thesis
  proof (cases "row_by session_key k t")
    case (Some x)
    then have x: "session_key x = k" and "k \<in> session_key ` set t" by (auto dest: row_by_key row_by_in)
    then have "k = session_key r \<Longrightarrow> has_row session_key (session_key r) t" by (simp add: has_row_iff)
    then show ?thesis
      unfolding remember_row_def using x Some by (auto simp: row_by_map [of ?f, OF f] row_by_append simp del: map_option_eq_Some)
  next
    case None
    then have "k = session_key r \<Longrightarrow> \<not> has_row session_key (session_key r) t" by (simp add: has_row_iff row_by_None)
    then show ?thesis
      unfolding remember_row_def using None one by (auto simp: row_by_map [of ?f, OF f] row_by_append)
  qed
qed

lemma remember_facts:
  "remember t n i cwd w = (Inr (), snd (remember t n i cwd w))"
  "client_of (snd (remember t n i cwd w)) = client_of w"
  "map_option ss_session (recall t n (aw_sessions (snd (remember t n i cwd w)))) = Some i"
  "k \<noteq> (t, n) \<Longrightarrow> row_by session_key k (aw_sessions (snd (remember t n i cwd w))) = row_by session_key k (aw_sessions w)"
  by (simp_all add: remember_def now_iso_def bindE_def modify_def client_of_def recall_def recall_remember session_key_def
      split: option.split)

lemma touch_facts:
  "touch t n w = (Inr (), snd (touch t n w))"
  "client_of (snd (touch t n w)) = client_of w"
  "map_option ss_session (row_by session_key k (aw_sessions (snd (touch t n w)))) = map_option ss_session (row_by session_key k (aw_sessions w))"
  "k \<noteq> (t, n) \<Longrightarrow> row_by session_key k (aw_sessions (snd (touch t n w))) = row_by session_key k (aw_sessions w)"
proof -
  let ?f = "\<lambda>now x. if session_key x = (t, n) then x\<lparr>ss_used := now\<rparr> else x"
  have f: "session_key (?f now x) = session_key x" for now x by (simp add: session_key_def)
  have e: "aw_sessions (snd (touch t n w)) = List.map (?f (clock_iso w (ticks w))) (aw_sessions w)"
    by (simp add: touch_def now_iso_def bindE_def modify_def)
  show "touch t n w = (Inr (), snd (touch t n w))" "client_of (snd (touch t n w)) = client_of w"
    by (simp_all add: touch_def now_iso_def bindE_def modify_def client_of_def)
  show "map_option ss_session (row_by session_key k (aw_sessions (snd (touch t n w)))) = map_option ss_session (row_by session_key k (aw_sessions w))"
    unfolding e row_by_map [of "?f _", OF f] by (cases "row_by session_key k (aw_sessions w)") auto
  show "row_by session_key k (aw_sessions (snd (touch t n w))) = row_by session_key k (aw_sessions w)" if "k \<noteq> (t, n)"
    unfolding e row_by_map [of "?f _", OF f] using that row_by_key [of session_key k "aw_sessions w"]
    by (cases "row_by session_key k (aw_sessions w)") auto
qed

lemma resume_facts:
  assumes "acp_resume repr hs ar task_id w = (r, w')"
  shows "k \<noteq> (task_id, ar_name ar) \<Longrightarrow> row_by session_key k (aw_sessions w') = row_by session_key k (aw_sessions w)"
    and "r = Inr True \<Longrightarrow> \<exists>row. recall task_id (ar_name ar) (aw_sessions w) = Some row
      \<and> cl_session (client_of w') = Some (ss_session row)
      \<and> map_option ss_session (recall task_id (ar_name ar) (aw_sessions w')) = Some (ss_session row)"
    and "r = Inr False \<Longrightarrow> ar_sessions ar \<Longrightarrow> recall task_id (ar_name ar) (aw_sessions w') = None"
proof -
  have "(k \<noteq> (task_id, ar_name ar) \<longrightarrow> row_by session_key k (aw_sessions w') = row_by session_key k (aw_sessions w))
    \<and> (r = Inr True \<longrightarrow> (\<exists>row. recall task_id (ar_name ar) (aw_sessions w) = Some row
      \<and> cl_session (client_of w') = Some (ss_session row)
      \<and> map_option ss_session (recall task_id (ar_name ar) (aw_sessions w')) = Some (ss_session row)))
    \<and> (r = Inr False \<longrightarrow> ar_sessions ar \<longrightarrow> recall task_id (ar_name ar) (aw_sessions w') = None)"
  proof (cases "ar_sessions ar \<and> recall task_id (ar_name ar) (aw_sessions w) \<noteq> None")
    case False
    then show ?thesis using assms by (auto simp: acp_resume_def act_defs split: if_splits)
  next
    case True
    then obtain row where on: "ar_sessions ar" and row: "recall task_id (ar_name ar) (aw_sessions w) = Some row" by auto
    obtain r1 w1 where l: "load_session repr hs (ss_session row) (or_text (Some (ss_cwd row)) (or_text (ar_cwd ar) ''.'')) w = (r1, w1)"
      by fastforce
    note lf = load_session_facts [OF l]
    define w2 where "w2 = snd (touch task_id (ar_name ar) w1)"
    define w3 where "w3 = w1\<lparr>aw_sessions := filter (\<lambda>x. session_key x \<noteq> (task_id, ar_name ar)) (aw_sessions w1)\<rparr>"
    have t: "touch task_id (ar_name ar) w1 = (Inr (), w2)" unfolding w2_def by (rule touch_facts(1))
    have run: "acp_resume repr hs ar task_id w =
        (case r1 of
           Inr b \<Rightarrow> if b then (Inr True, w2) else (Inr False, w3)
         | Inl e \<Rightarrow> if is_acp_error e then (Inr False, w3) else (Inl e, w1))"
      by (auto simp: acp_resume_def on row gets_def bindE_def l t try_except_def ret_def throw_def forget_def modify_def w3_def
          split: sum.split)
    have "row_by session_key k (aw_sessions w3) = (if k = (task_id, ar_name ar) then None else row_by session_key k (aw_sessions w))" for k
      by (simp add: w3_def row_by_filter lf(1))
    moreover have "k \<noteq> (task_id, ar_name ar) \<Longrightarrow> row_by session_key k (aw_sessions w2) = row_by session_key k (aw_sessions w)"
      using touch_facts(4) [of k task_id "ar_name ar" w1] by (simp add: w2_def lf(1))
    moreover have "map_option ss_session (recall task_id (ar_name ar) (aw_sessions w2)) = Some (ss_session row)"
      using touch_facts(3) [of "(task_id, ar_name ar)" task_id "ar_name ar" w1] row by (simp add: w2_def lf(1) recall_def)
    moreover have "client_of w2 = client_of w1" by (simp add: w2_def touch_facts(2))
    ultimately show ?thesis
      using assms lf row unfolding run by (auto simp: recall_def split: sum.splits if_splits)
  qed
  then show "k \<noteq> (task_id, ar_name ar) \<Longrightarrow> row_by session_key k (aw_sessions w') = row_by session_key k (aw_sessions w)"
    "r = Inr True \<Longrightarrow> \<exists>row. recall task_id (ar_name ar) (aw_sessions w) = Some row
      \<and> cl_session (client_of w') = Some (ss_session row)
      \<and> map_option ss_session (recall task_id (ar_name ar) (aw_sessions w')) = Some (ss_session row)"
    "r = Inr False \<Longrightarrow> ar_sessions ar \<Longrightarrow> recall task_id (ar_name ar) (aw_sessions w') = None" by blast+
qed

section \<open>What a session leaves behind\<close>

lemma on_conn_sessions [simp]: "aw_sessions (snd (on_conn m w)) = aw_sessions w"
  by (simp add: on_conn_def split: prod.split)

lemma pres_rows:
  "(\<And>w. aw_sessions (snd (m w)) = aw_sessions w) \<Longrightarrow> preserves (\<lambda>v. row_by session_key k (aw_sessions v) = x) m"
  by (simp add: preserves_def)

lemma other_rows_kept:
  assumes "k \<noteq> (task_id, ar_name ar)"
  shows "preserves (\<lambda>v. row_by session_key k (aw_sessions v) = x) (acp_session repr (client_handlers repr redact policy l) ar task_id message config)"
proof -
  let ?P = "\<lambda>v. row_by session_key k (aw_sessions v) = x" and ?hs = "client_handlers repr redact policy l"
  have st: "preserves ?P (\<lambda>w. on_conn (start (aw_found w) (ar_command ar)) w)" by (rule pres_rows) simp
  have ini: "preserves ?P (client_initialize repr ?hs)"
    by (rule pres_rows) (metis initialize_sessions prod.collapse)
  have rec: "preserves ?P reconcile_capabilities"
    by (rule pres_rows) (simp add: reconcile_capabilities_def modify_def Let_def)
  have res: "preserves ?P (acp_resume repr ?hs ar task_id)"
    by (rule preservesI) (simp add: resume_facts(1) [OF surjective_pairing assms])
  have new: "preserves ?P (new_session repr ?hs cwd forwarded)" for cwd forwarded
    by (rule pres_rows) (metis new_session_facts(1) prod.collapse)
  have rem: "preserves ?P (acp_remember ar task_id)"
    unfolding acp_remember_def
    by (intro pres) (auto simp: preserves_def remember_facts(4) [OF assms])
  have pr: "preserves ?P (prompt_agent repr ?hs message after)" for after
    by (rule pres_rows) (metis prompt_facts(1) prod.collapse)
  show ?thesis
    unfolding acp_session_def by (intro pres_bindE pres_if pres_ret st ini rec res new rem pr)
qed

lemma session_facts:
  assumes "acp_session repr (client_handlers repr redact policy l) ar task_id message config w = (Inr (resumed, p), w')"
  shows "pt_denied p = List.map pr_tool (filter (refused repr policy) (pt_permissions p))"
    and "pt_permissions p = cl_permissions (client_of w')"
    and "cl_session (client_of w') \<noteq> None"
    and "ar_sessions ar \<Longrightarrow> map_option ss_session (recall task_id (ar_name ar) (aw_sessions w')) = cl_session (client_of w')"
    and "resumed \<Longrightarrow> map_option ss_session (recall task_id (ar_name ar) (aw_sessions w)) = cl_session (client_of w')"
proof -
  let ?hs = "client_handlers repr redact policy l"
  from assms obtain w1 w2 w3 w4 w5 u where
    st: "on_conn (start (aw_found w) (ar_command ar)) w = (Inr u, w1)"
    and ini: "client_initialize repr ?hs w1 = (Inr (), w2)"
    and rec: "reconcile_capabilities w2 = (Inr (), w3)"
    and res: "acp_resume repr ?hs ar task_id w3 = (Inr resumed, w4)"
    and new: "(if resumed then ret () else bindE (new_session repr ?hs (or_text (ar_cwd ar) ''.'') (acp_servers (ar_mcp ar) (rc_role config))) (\<lambda>_. acp_remember ar task_id)) w4 = (Inr (), w5)"
    and pr: "prompt_agent repr ?hs message (int_str (rc_timeout_seconds config)) w5 = (Inr p, w')"
    unfolding acp_session_def by (elim bindE_OkE) (simp add: ret_def)
  note pf = prompt_facts [OF pr]
  show "pt_denied p = List.map pr_tool (filter (refused repr policy) (pt_permissions p))" "pt_permissions p = cl_permissions (client_of w')"
    "cl_session (client_of w') \<noteq> None"
    using pf(2-5) by auto
  have early: "aw_sessions w3 = aw_sessions w"
    using st ini rec on_conn_sessions [of "start (aw_found w) (ar_command ar)" w] initialize_sessions [OF ini]
    by (auto simp: reconcile_capabilities_def modify_def Let_def)
  have pointer: "ar_sessions ar \<longrightarrow> map_option ss_session (recall task_id (ar_name ar) (aw_sessions w5)) = cl_session (client_of w5)"
  proof (cases resumed)
    case True
    with new have "w5 = w4" by (simp add: ret_def)
    with resume_facts(2) [OF res] True show ?thesis by auto
  next
    case False
    with new obtain w6 where ns: "new_session repr ?hs (or_text (ar_cwd ar) ''.'') (acp_servers (ar_mcp ar) (rc_role config)) w4 = (Inr (), w6)"
      and rm: "acp_remember ar task_id w6 = (Inr (), w5)" by (auto elim!: bindE_OkE)
    from new_session_facts(2) [OF ns] obtain i where i: "cl_session (client_of w6) = Some i" by auto
    from rm have rm': "w5 = (if ar_sessions ar then snd (remember task_id (ar_name ar) i (or_text (ar_cwd ar) ''.'') w6) else w6)"
      by (auto simp: acp_remember_def gets_def bindE_def i ret_def split: if_splits)
    show ?thesis unfolding rm'
      using remember_facts(3) [of task_id "ar_name ar" i _ w6]
      by (simp add: i remember_facts(2) del: map_option_eq_Some)
  qed
  then show "ar_sessions ar \<Longrightarrow> map_option ss_session (recall task_id (ar_name ar) (aw_sessions w')) = cl_session (client_of w')"
    using pf(1,2) by simp
  show "map_option ss_session (recall task_id (ar_name ar) (aw_sessions w)) = cl_session (client_of w')" if resumed
  proof -
    from that new have "w5 = w4" by (simp add: ret_def)
    with resume_facts(2) [OF res] that pf(2) early show ?thesis by auto
  qed
qed

definition policy_of :: "acp_runner \<Rightarrow> policy" where
  "policy_of ar = (case ar_policy ar of Some p \<Rightarrow> p | None \<Rightarrow> deny_all)"

lemma runner_handlers_are:
  "runner_handlers repr redact ar task_id = client_handlers repr redact (policy_of ar)
     (case ar_on_event ar of None \<Rightarrow> silent | Some f \<Rightarrow> silent\<lparr>on_event := f task_id\<rparr>)"
  by (simp add: runner_handlers_def policy_of_def)

lemma client_closed [simp]: "client_of (w\<lparr>aw_conn := close (aw_conn w)\<rparr>) = client_of w"
  by (simp add: client_of_def)

lemma acp_run_cases:
  assumes "acp_run repr redact ar task_id message config w = (r, w')"
  obtains (raised) e w1 where
      "acp_session repr (runner_handlers repr redact ar task_id) ar task_id message config (w\<lparr>aw_conn := new_conn new_client\<rparr>) = (Inl e, w1)"
      "r = (if is_acp_error e then Inr (failed_result task_id (str_exn e)) else Inl e)"
      "w' = w1\<lparr>aw_conn := close (aw_conn w1)\<rparr>"
    | (answered) resumed p w1 where
      "acp_session repr (runner_handlers repr redact ar task_id) ar task_id message config (w\<lparr>aw_conn := new_conn new_client\<rparr>) = (Inr (resumed, p), w1)"
      "r = Inr (acp_result redact ar task_id config resumed p)"
      "w' = w1\<lparr>aw_conn := close (aw_conn w1)\<rparr>"
  using assms unfolding acp_run_def by (auto split: prod.splits sum.splits if_splits)


text \<open>C24. The stored pointer follows the session that was prompted: after a run whose prompt was answered
  the task's row holds the session's identifier, a run that says it resumed kept the identifier that
  was stored before, and no run, failed or not, touches the row of another task or runner.\<close>

theorem acp_pointer_follows:
  assumes "acp_run repr redact ar task_id message config w = (r, w')" and "ar_sessions ar"
  shows "(\<forall>k. k \<noteq> (task_id, ar_name ar) \<longrightarrow> row_by session_key k (aw_sessions w') = row_by session_key k (aw_sessions w))
    \<and> (\<forall>res. r = Inr res \<and> rs_evidence res \<noteq> [] \<longrightarrow>
         cl_session (client_of w') \<noteq> None
         \<and> map_option ss_session (recall task_id (ar_name ar) (aw_sessions w')) = cl_session (client_of w')
         \<and> (map_of (rs_evidence res) ''session'' = Some ''resumed'' \<longrightarrow>
              map_option ss_session (recall task_id (ar_name ar) (aw_sessions w)) = cl_session (client_of w')))"
proof -
  obtain r1 w1 where s: "acp_session repr (runner_handlers repr redact ar task_id) ar task_id message config (w\<lparr>aw_conn := new_conn new_client\<rparr>) = (r1, w1)"
    by fastforce
  then have w': "aw_sessions w' = aw_sessions w1" using assms(1) by (auto simp: acp_run_def)
  have "row_by session_key k (aw_sessions w1) = row_by session_key k (aw_sessions w)" if "k \<noteq> (task_id, ar_name ar)" for k
    by (rule preserves_stepD [OF other_rows_kept [OF that] _ s [unfolded runner_handlers_are]]) simp
  moreover have "cl_session (client_of w') \<noteq> None
         \<and> map_option ss_session (recall task_id (ar_name ar) (aw_sessions w')) = cl_session (client_of w')
         \<and> (map_of (rs_evidence res) ''session'' = Some ''resumed'' \<longrightarrow>
              map_option ss_session (recall task_id (ar_name ar) (aw_sessions w)) = cl_session (client_of w'))"
    if "r = Inr res" and "rs_evidence res \<noteq> []" for res
    using assms(1)
  proof (cases rule: acp_run_cases)
    case (raised e w1)
    with that show ?thesis by (auto simp: failed_result_def split: if_splits)
  next
    case (answered resumed p w2)
    note sf = session_facts [OF answered(1) [unfolded runner_handlers_are]]
    have "map_of (rs_evidence res) ''session'' = Some ''resumed'' \<longrightarrow> resumed"
      using that(1) answered(2) by (auto simp: acp_result_def Let_def split: if_splits)
    then show ?thesis using sf(3) sf(4) [OF assms(2)] sf(5) by (auto simp: answered(3))
  qed
  ultimately show ?thesis by (simp add: w')
qed

section \<open>A resumed run\<close>

definition demo_agent_world :: agent_world where
  "demo_agent_world = \<lparr>uuid_hex = (\<lambda>_. []), clock_iso = (\<lambda>_. ''now''), draws = 0, ticks = 0, aw_found = True,
     aw_script = [answer 1 (JObj [(''protocolVersion'', JInt 1), (''agentCapabilities'', JObj [(''loadSession'', JBool True)])]),
       NotJson,
       answer 2 JNull,
       Line (JObj [(''id'', JInt 9), (''method'', JStr ''session/request_permission''),
         (''params'', JObj [(''toolCall'', JObj [(''kind'', JStr ''read'')]),
            (''options'', JList [JObj [(''kind'', JStr ''allow_once''), (''optionId'', JStr ''a'')]])])]),
       answer 3 (JObj [(''stopReason'', JStr ''end_turn'')])],
     aw_conn = new_conn new_client,
     aw_sessions = [\<lparr>ss_task = ''t'', ss_runner = ''acp'', ss_session = ''s1'', ss_cwd = [], ss_created = ''then'', ss_used = ''then''\<rparr>],
     aw_caps = acp_capabilities (empty_registry False)\<rparr>"

definition demo_acp :: acp_runner where
  "demo_acp = \<lparr>ar_name = ''acp'', ar_command = [''agent''], ar_cwd = None, ar_policy = Some (allow_read_only (\<lambda>_. [])),
     ar_mcp = empty_registry False, ar_on_event = None, ar_sessions = True\<rparr>"

definition demo_acp_run :: "(exn + runner_result) \<times> agent_world" where
  "demo_acp_run = acp_run (\<lambda>_. []) (\<lambda>s. s) demo_acp ''t'' ''go'' (mk_runner_config ''m'' 1 1 []) demo_agent_world"

lemma demo_run_succeeds:
  "case demo_acp_run of
     (Inr r, w') \<Rightarrow> rs_success r \<and> map_of (rs_evidence r) ''session'' = Some ''resumed'' \<and> length (cl_permissions (client_of w')) = 1
   | _ \<Rightarrow> False"
  by code_simp


theorem acp_pointer_follows_witness:
  "\<exists>r w'. demo_acp_run = (Inr r, w') \<and> cl_session (client_of w') = Some ''s1''
     \<and> map_option ss_session (recall ''t'' ''acp'' (aw_sessions w')) = Some ''s1''"
proof -
  obtain r w' where d: "demo_acp_run = (Inr r, w')" "map_of (rs_evidence r) ''session'' = Some ''resumed''"
    using demo_run_succeeds by (auto split: prod.splits sum.splits)
  moreover have "ar_sessions demo_acp" "rs_evidence r \<noteq> []" "ar_name demo_acp = ''acp''"
    using d(2) by (auto simp: demo_acp_def)
  moreover have "map_option ss_session (recall ''t'' ''acp'' (aw_sessions demo_agent_world)) = Some ''s1''"
    by code_simp
  ultimately show ?thesis
    using acp_pointer_follows [OF d(1) [unfolded demo_acp_run_def]] by (metis (no_types, lifting))
qed

text \<open>A turn that ends for another reason, such as the limit of tokens, fails without saying why.\<close>

lemma refusal_without_reason:
  "\<not> prompt_completed p \<Longrightarrow> pt_denied p = [] \<Longrightarrow>
   let r = acp_result redact ar task_id config resumed p in \<not> rs_success r \<and> rs_error r = []"
  by (simp add: acp_result_def Let_def)

text \<open>A policy that raises, as \<open>allow_read_only\<close> does on a call whose \<open>toolCall\<close> is null, answers with an
  error and is not recorded as a refusal.\<close>

lemma raising_policy_not_denied:
  "let (r, c) = on_permission_request (\<lambda>_. []) (allow_read_only (\<lambda>_. [])) (JObj [(''toolCall'', JNull)]) new_client
   in (\<exists>e. r = Inl e) \<and> length (cl_permissions c) = 1 \<and> cl_denied c = []"
  by (simp add: on_permission_request_def request_of_def tool_name_def or_object_def get_def get_or_def or_else_def
      or_empty_def allow_read_only_def permit_def lift_result_def act_defs new_client_def)

section \<open>Cancelling\<close>

text \<open>\<open>cancel\<close> of the ACP runner; whether the task has a client in flight is the argument.\<close>

definition acp_cancel :: "bool \<Rightarrow> ('z, bool) agent_act" where
  "acp_cancel in_flight = (if \<not> in_flight then ret False else bindE client_cancel (\<lambda>_. ret True))"

definition cli_cancel :: "string \<Rightarrow> bool" where
  "cli_cancel task_id = True"

text \<open>Cancelling before the session exists sends nothing and still reports that it cancelled.\<close>

lemma cancel_before_session: "cl_session (client_of w) = None \<Longrightarrow> acp_cancel True w = (Inr True, w)"
  by (simp add: acp_cancel_def client_cancel_def act_defs)

lemma cli_run_bounds:
  "cli_run redact program task_id message config = Inr r \<Longrightarrow> length (rs_output r) \<le> 8000 \<and> rs_transcript r = rs_output r \<or> \<not> rs_success r"
  by (auto simp: cli_run_def failed_result_def split: process_end.splits)

end
