(* ===== verification/Discovery.thy ===== *)
theory Discovery
  imports AgentRunners RoutingStore
begin

text \<open>
  Asking the harness which models are live (\<open>routing/discovery.py\<close>): reading its listing, what a probe
  concludes from how the program ended, and the registry that keeps the router in step with the last
  probe.
\<close>

section \<open>Reading the listing\<close>

definition bullet :: string where
  "bullet = [CHR 0xE2, CHR 0x80, CHR 0xA2]"

text \<open>The regular expression \<open>^[\s*\-\<bullet>]*([A-Za-z0-9][\w./:-]*)\<close>: what precedes the identifier, then its
  longest run.\<close>

fun skip_bullets :: "string \<Rightarrow> string" where
  "skip_bullets [] = []"
| "skip_bullets (c # cs) =
     (if is_space c \<or> c = CHR ''*'' \<or> c = CHR ''-'' then skip_bullets cs
      else if starts_with (c # cs) bullet then skip_bullets (drop 2 cs)
      else c # cs)"

definition ident_char :: "char \<Rightarrow> bool" where
  "ident_char c \<longleftrightarrow> is_alnum c \<or> c \<in> {CHR ''_'', CHR ''.'', CHR ''/'', CHR '':'', CHR ''-''}"

definition match_line :: "string \<Rightarrow> string option" where
  "match_line s =
     (case skip_bullets s of
        [] \<Rightarrow> None
      | c # cs \<Rightarrow> if is_alnum c then Some (c # takeWhile ident_char cs) else None)"

text \<open>\<open>re.search(r"[./:\d]", identifier)\<close>.\<close>

definition has_mark :: "string \<Rightarrow> bool" where
  "has_mark i \<longleftrightarrow> list_ex (\<lambda>c. c \<in> {CHR ''.'', CHR ''/'', CHR '':''} \<or> is_digit c) i"

definition add_model :: "string \<Rightarrow> string list \<Rightarrow> string list" where
  "add_model line models =
     (let stripped = strip line
      in if stripped = [] \<or> ends_with stripped '':'' then models
         else case match_line stripped of
           None \<Rightarrow> models
         | Some i \<Rightarrow> if i \<notin> set models \<and> has_mark i then models @ [i] else models)"

definition parse_model_list :: "string \<Rightarrow> string list" where
  "parse_model_list output = fold add_model (splitlines output) []"

section \<open>A probe\<close>

record discovery =
  ds_available :: "string list"
  ds_reachable :: bool
  ds_reason :: string
  ds_probed_at :: string
  ds_probed :: bool

definition degraded :: "discovery \<Rightarrow> bool" where
  "degraded r \<longleftrightarrow> ds_probed r \<and> \<not> ds_reachable r"

definition discovery_state :: "discovery \<Rightarrow> string" where
  "discovery_state r = (if \<not> ds_probed r then ''pending'' else if ds_reachable r then ''reachable'' else ''degraded'')"

definition pending_discovery :: discovery where
  "pending_discovery = \<lparr>ds_available = [], ds_reachable = False, ds_reason = ''The live registry has not answered yet'',
     ds_probed_at = [], ds_probed = False\<rparr>"

definition DISCOVERY_COMMAND :: "string list" where
  "DISCOVERY_COMMAND = [''cmd'', ''--list-models'']"

text \<open>\<open>discover_models\<close>: \<open>program\<close> runs an argument list, \<open>now\<close> is the time, \<open>limit\<close> the text of the time-out.\<close>

definition discover_models :: "(string list \<Rightarrow> process_end) \<Rightarrow> string \<Rightarrow> string \<Rightarrow> discovery" where
  "discover_models program now limit =
     (let failed = (\<lambda>why. \<lparr>ds_available = [], ds_reachable = False, ds_reason = why, ds_probed_at = now, ds_probed = True\<rparr>)
      in case program DISCOVERY_COMMAND of
           NotStarted \<Rightarrow> failed ''Command Code (cmd) is not on PATH''
         | TimedOut \<Rightarrow> failed (''cmd --list-models timed out after '' @ limit @ ''s'')
         | Exited code out err \<Rightarrow>
             if code \<noteq> 0 then failed (''cmd --list-models failed: '' @ take 200 (strip err))
             else let models = parse_model_list out
                  in \<lparr>ds_available = models, ds_reachable = True,
                      ds_reason = nat_str (length models) @ '' model(s) reported by the live registry'',
                      ds_probed_at = now, ds_probed = True\<rparr>)"

section \<open>The registry\<close>

text \<open>\<open>rg_cached\<close> is the attribute of the class, which outlives the registry; \<open>rg_router\<close> the identifiers the
  router holds.\<close>

record registry =
  rg_current :: discovery
  rg_cached :: "discovery option"
  rg_router :: "string list"

definition new_registry :: "discovery option \<Rightarrow> string list \<Rightarrow> registry" where
  "new_registry cached router =
     (let current = (case cached of Some r \<Rightarrow> r | None \<Rightarrow> pending_discovery)
      in \<lparr>rg_current = current, rg_cached = cached,
          rg_router = (if ds_reachable current then ds_available current else router)\<rparr>)"

definition refresh_registry :: "discovery \<Rightarrow> registry \<Rightarrow> registry" where
  "refresh_registry result g =
     (let g' = g\<lparr>rg_current := result, rg_cached := Some result\<rparr>
      in if ds_reachable result then g'\<lparr>rg_router := ds_available result\<rparr> else g')"

definition refresh_models :: "(string list \<Rightarrow> process_end) \<Rightarrow> string \<Rightarrow> string \<Rightarrow> registry \<Rightarrow> discovery \<times> registry" where
  "refresh_models program now limit g =
     (let result = discover_models program now limit in (result, refresh_registry result g))"

definition wants_probe :: "registry \<Rightarrow> bool" where
  "wants_probe g \<longleftrightarrow> \<not> ds_probed (rg_current g)"

definition seed_registry :: "discovery \<Rightarrow> registry \<Rightarrow> registry" where
  "seed_registry r g = g\<lparr>rg_cached := Some r\<rparr>"

definition reset_registry :: "registry \<Rightarrow> registry" where
  "reset_registry g = g\<lparr>rg_cached := None\<rparr>"

section \<open>The identifiers a listing has\<close>

definition model_id :: "string \<Rightarrow> bool" where
  "model_id i \<longleftrightarrow> i \<noteq> [] \<and> is_alnum (hd i) \<and> list_all ident_char i \<and> has_mark i"

lemma alnum_ident: "is_alnum c \<Longrightarrow> ident_char c"
  by (simp add: ident_char_def)

lemma match_line_id: "match_line s = Some i \<Longrightarrow> i \<noteq> [] \<and> is_alnum (hd i) \<and> list_all ident_char i"
  by (auto simp: match_line_def list_all_iff alnum_ident dest!: set_takeWhileD split: list.splits if_splits)

lemma add_model_sound:
  "distinct ms \<and> list_all model_id ms \<Longrightarrow> distinct (add_model l ms) \<and> list_all model_id (add_model l ms)"
  by (auto simp: add_model_def Let_def model_id_def list_all_iff dest!: match_line_id split: option.splits)

lemma parse_sound: "distinct (parse_model_list out) \<and> list_all model_id (parse_model_list out)"
proof -
  have "distinct ms \<and> list_all model_id ms \<Longrightarrow>
      distinct (fold add_model ls ms) \<and> list_all model_id (fold add_model ls ms)" for ls ms
    by (induction ls arbitrary: ms) (simp_all add: add_model_sound)
  then show ?thesis by (simp add: parse_model_list_def)
qed


text \<open>A listing as the program prints it: each identifier on a line of its own, behind an asterisk or
  indented, with or without an annotation.\<close>

definition listing_line :: "bool \<times> string \<times> bool \<Rightarrow> string" where
  "listing_line l = (case l of (starred, i, noted) \<Rightarrow>
     (if starred then ''* '' else ''  '') @ i @ (if noted then '' (default)'' else []))"

lemma strip_core: "t \<noteq> [] \<Longrightarrow> \<not> is_space (hd t) \<Longrightarrow> \<not> is_space (last t) \<Longrightarrow> list_all is_space a \<Longrightarrow> strip (a @ t) = t"
proof -
  assume t: "t \<noteq> []" "\<not> is_space (hd t)" "\<not> is_space (last t)" and a: "list_all is_space a"
  then have "dropWhile is_space (a @ t) = t"
    by (metis dropWhile_append2 dropWhile_eq_self_iff list_all_iff)
  moreover have "dropWhile is_space (rev t) = rev t"
    using t by (simp add: dropWhile_eq_self_iff hd_rev)
  ultimately show ?thesis by (simp add: strip_def strip_while_def)
qed

lemma alnum_facts: "is_alnum c \<Longrightarrow> \<not> is_space c \<and> c \<noteq> CHR ''*'' \<and> c \<noteq> CHR ''-'' \<and> \<not> starts_with (c # cs) bullet"
  by (auto simp: is_alnum_def is_digit_def is_space_def starts_with_def bullet_def lower_char_def Let_def
      split: if_splits)

lemma ident_not_space: "ident_char c \<Longrightarrow> \<not> is_space c \<and> \<not> is_linebreak c"
  by (auto simp: ident_char_def is_alnum_def is_digit_def is_space_def is_linebreak_def lower_char_def Let_def
      split: if_splits)

lemma takeWhile_ident: "list_all ident_char i \<Longrightarrow> takeWhile ident_char (i @ (if noted then '' (default)'' else [])) = i"
  by (induction i) (auto simp: ident_char_def is_alnum_def is_digit_def lower_char_def Let_def)

lemma match_listing:
  assumes "model_id i" and that: "a \<in> {[], ''* ''}"
  shows "match_line (a @ i @ (if noted then '' (default)'' else [])) = Some i"
proof -
  obtain c cs where i: "i = c # cs" "is_alnum c" "list_all ident_char cs"
    using assms by (cases i) (auto simp: model_id_def)
  have "skip_bullets (a @ i @ x) = i @ x" for x
    using that alnum_facts [OF i(2), of "cs @ x"] i(1) by (auto simp: is_space_def)
  then show ?thesis using i takeWhile_ident [OF i(3)] by (simp add: match_line_def)
qed

definition listed :: "bool \<times> string \<times> bool \<Rightarrow> bool" where
  "listed l \<longleftrightarrow> (case l of (_, i, noted) \<Rightarrow> model_id i \<and> (\<not> noted \<longrightarrow> last i \<noteq> CHR '':''))"

lemma strip_listing:
  assumes "listed (starred, i, noted)"
  shows "strip (listing_line (starred, i, noted)) = (if starred then ''* '' else []) @ i @ (if noted then '' (default)'' else [])"
proof -
  let ?t = "i @ (if noted then '' (default)'' else [])"
  have i: "i \<noteq> []" "is_alnum (hd i)" "list_all ident_char i" using assms by (auto simp: listed_def model_id_def)
  have last: "\<not> is_space (last ?t)"
    using i ident_not_space [of "last i"] by (auto simp: list_all_iff is_space_def)
  show ?thesis
  proof (cases starred)
    case True
    have "strip ([] @ ''* '' @ ?t) = ''* '' @ ?t"
      by (rule strip_core) (use last i in \<open>auto simp: is_space_def\<close>)
    with True show ?thesis by (simp add: listing_line_def)
  next
    case False
    have "strip (''  '' @ ?t) = ?t"
      by (rule strip_core) (use last i alnum_facts in \<open>auto simp: is_space_def\<close>)
    with False show ?thesis by (simp add: listing_line_def)
  qed
qed

lemma add_listed:
  assumes "listed l"
  shows "add_model (listing_line l) ms = (if fst (snd l) \<in> set ms then ms else ms @ [fst (snd l)])"
proof -
  obtain starred i noted where l: "l = (starred, i, noted)" by (cases l)
  then have i: "model_id i" "i \<noteq> []" "\<not> noted \<longrightarrow> last i \<noteq> CHR '':''" using assms by (auto simp: listed_def model_id_def)
  have "\<not> ends_with (a @ i @ (if noted then '' (default)'' else [])) '':''" for a
    using i(2,3) by (auto simp: ends_with_def starts_with_def hd_rev take_Suc_conv_app_nth rev_nth last_conv_nth split: list.splits)
  with l i show ?thesis
    using match_listing [OF i(1), of "if starred then ''* '' else []" noted] strip_listing [of starred i noted] assms
    by (auto simp: add_model_def Let_def model_id_def)
qed

lemma line_of_listing: "listed l \<Longrightarrow> line_text (listing_line l)"
proof -
  assume l: "listed l"
  obtain starred i noted where e: "l = (starred, i, noted)" by (cases l)
  with l have i: "i \<noteq> []" "list_all ident_char i" by (auto simp: listed_def model_id_def)
  then have "list_all (\<lambda>c. \<not> is_linebreak c) i" by (auto simp: list_all_iff dest: ident_not_space)
  with i e strip_listing [of starred i noted] l show ?thesis
    by (auto simp: line_text_def listing_line_def is_linebreak_def)
qed

lemma add_all_listed:
  "list_all listed ls \<Longrightarrow>
   fold add_model (List.map listing_line ls) ms = ms @ rev (remdups (rev (filter (\<lambda>i. i \<notin> set ms) (List.map (fst \<circ> snd) ls))))"
proof (induction ls rule: rev_induct)
  case (snoc l ls)
  then show ?case by (auto simp: add_listed)
qed simp

lemma add_headings: "list_all (\<lambda>h. ends_with (strip h) '':'') hs \<Longrightarrow> fold add_model hs ms = ms"
  by (induction hs) (auto simp: add_model_def Let_def)

text \<open>What the program prints is read back: behind any headings that end in a colon, a listing of
  identifiers, starred or indented, annotated or not, gives exactly these, each once and in order. Whatever
  it prints, what is read are distinct identifiers.\<close>

theorem model_list_round_trip:
  assumes "list_all (\<lambda>h. line_text h \<and> ends_with (strip h) '':'') headings" and "list_all listed ls"
  shows "parse_model_list (text_of_lines (headings @ List.map listing_line ls))
      = rev (remdups (rev (List.map (fst \<circ> snd) ls)))
    \<and> distinct (parse_model_list out) \<and> list_all model_id (parse_model_list out)"
proof -
  from assms have "list_all line_text (headings @ List.map listing_line ls)"
    by (auto simp: list_all_iff intro: line_of_listing)
  moreover have "list_all (\<lambda>h. ends_with (strip h) '':'') headings"
    using assms(1) by (simp add: list_all_iff)
  ultimately show ?thesis
    using add_all_listed [OF assms(2), of "[]"] parse_sound [of out]
    by (simp add: parse_model_list_def splitlines_text add_headings)
qed

definition sample_listing :: "(bool \<times> string \<times> bool) list" where
  "sample_listing = [(True, ''gpt-5.6-luna'', False), (False, ''deepseek/deepseek-v4-pro'', True), (True, ''gpt-5.6-luna'', True)]"

theorem model_list_round_trip_witness:
  "parse_model_list (text_of_lines ([''Available models:''] @ List.map listing_line sample_listing))
     = [''gpt-5.6-luna'', ''deepseek/deepseek-v4-pro'']"
proof -
  have a: "list_all (\<lambda>h. line_text h \<and> ends_with (strip h) '':'') [''Available models:'']" by code_simp
  have b: "list_all listed sample_listing" by code_simp
  have c: "rev (remdups (rev (List.map (fst \<circ> snd) sample_listing))) = [''gpt-5.6-luna'', ''deepseek/deepseek-v4-pro'']"
    by code_simp
  from model_list_round_trip [OF a b, of "[]"] show ?thesis unfolding c by blast
qed

section \<open>The router follows the last answer\<close>

text \<open>After any probes the registry shows the last one, and the router holds what the last one that was answered
  reported.\<close>

lemma refreshed_registry:
  "let g = fold refresh_registry rs g0
   in rg_current g = (if rs = [] then rg_current g0 else last rs)
    \<and> rg_router g = (case find ds_reachable (rev rs) of None \<Rightarrow> rg_router g0 | Some r \<Rightarrow> ds_available r)
    \<and> (rs \<noteq> [] \<longrightarrow> rg_cached g = Some (last rs))
    \<and> (list_all ds_probed rs \<and> rs \<noteq> [] \<longrightarrow> \<not> wants_probe g)"
  by (induction rs rule: rev_induct) (auto simp: refresh_registry_def Let_def wants_probe_def)

lemma discover_probed: "ds_probed (discover_models program now limit)
    \<and> (ds_reachable (discover_models program now limit) \<longleftrightarrow> (\<exists>out err. program DISCOVERY_COMMAND = Exited 0 out err))"
  by (auto simp: discover_models_def Let_def split: process_end.split)

text \<open>A probe that fails after one that was answered is shown as degraded, but the router keeps the old list and does
  not fall back to the roster.\<close>

lemma degraded_keeps_list:
  "let g = fold refresh_registry
         [discover_models (\<lambda>_. Exited 0 (''gpt-5.6-luna'' @ newline) []) [] ''15.0'', discover_models (\<lambda>_. NotStarted) [] ''15.0'']
         (new_registry None [])
   in degraded (rg_current g) \<and> rd_selected (route (rg_router g) ''reviewer'') = None
      \<and> rd_selected (route [] ''reviewer'') \<noteq> None"
  by code_simp

text \<open>A registry that answers with no model at all is reachable, and the router routes as if nothing had been asked.\<close>

lemma empty_answer_routes:
  "let g = refresh_registry (discover_models (\<lambda>_. Exited 0 [] []) [] ''15.0'') (new_registry None [])
   in discovery_state (rg_current g) = ''reachable'' \<and> rd_selected (route (rg_router g) ''reviewer'') \<noteq> None"
  by code_simp

end
