(* ===== verification/ProjectApi.thy ===== *)
theory ProjectApi
  imports PlanApi AdaptedProject Discovery JsonViews
begin

text \<open>
  The other routes of the application (\<open>api/routes.py\<close>, \<open>api/app.py\<close>) with the shapes they answer in
  (\<open>api/schemas.py\<close>): a shape is the JSON object of its fields, so that what a client reads of a run, a
  plan, a Goal or a setting is a function of the stored value.
\<close>

section \<open>Shapes of runs, tasks, plans and Goals\<close>

definition RunView :: "run \<Rightarrow> nat \<Rightarrow> json" where
  "RunView r task_count = JObj [(''id'', JStr (r_id r)), (''goal_id'', JStr (r_goal_id r)), (''goal_revision'', JStr (r_goal_revision r)),
     (''state'', JStr (run_state_str (r_state r))), (''autonomy'', JStr (r_autonomy r)), (''created_at'', JStr (r_created_at r)),
     (''task_count'', JInt (int task_count))]"

definition TaskView :: "task \<Rightarrow> json" where
  "TaskView t = JObj [(''id'', JStr (t_id t)), (''objective'', JStr (t_objective t)), (''state'', JStr (task_state_str (t_state t))),
     (''role'', opt_str (t_role t)), (''risk'', JStr (t_risk t)), (''scope'', strs (t_scope t)), (''dependencies'', strs (t_dependencies t))]"

definition AttemptView :: "attempt \<Rightarrow> json" where
  "AttemptView a = JObj [(''id'', JStr (a_id a)), (''task_id'', JStr (a_task_id a)), (''runner'', opt_str (a_runner a)),
     (''model_id'', opt_str (a_model_id a)), (''state'', JStr (attempt_state_str (a_state a))),
     (''started_at'', opt_str (a_started_at a)), (''completed_at'', opt_str (a_completed_at a)), (''error_msg'', opt_str (a_error_msg a))]"

definition EventView :: "domain_event \<Rightarrow> json" where
  "EventView e = JObj [(''id'', JStr (e_id e)), (''timestamp'', JStr (e_timestamp e)), (''type'', JStr (event_type_str (e_type e))),
     (''project_id'', JStr (e_project_id e)), (''run_id'', opt_str (e_run_id e)), (''payload'', JObj (e_payload e))]"

definition EvidenceView :: "evidence \<Rightarrow> json" where
  "EvidenceView e = JObj [(''id'', JStr (ev_id e)), (''gate'', JStr (gate_str (ev_gate e))), (''kind'', JStr (ev_kind e)),
     (''verdict'', JStr (verdict_str (ev_verdict e))), (''uri'', JStr (ev_uri e)), (''task_id'', opt_str (ev_task_id e)),
     (''attached_at'', JStr (ev_attached_at e))]"

definition PlanTaskView :: "plan_task \<Rightarrow> json" where
  "PlanTaskView t = JObj [(''id'', JStr (pt_id t)), (''objective'', JStr (pt_objective t)), (''dependencies'', strs (pt_dependencies t)),
     (''write_scope'', strs (pt_write_scope t)), (''gates'', strs (pt_gates t)), (''risk'', JStr (risk_str (pt_risk t))),
     (''parallelizable'', JBool (pt_parallelizable t)), (''capabilities'', strs (pt_capabilities t))]"

definition PlanView :: "plan_record \<Rightarrow> json" where
  "PlanView p = JObj [(''id'', JStr (pr_id p)), (''project_id'', JStr (pr_project_id p)), (''goal_id'', JStr (pr_goal_id p)),
     (''goal_revision'', JStr (pr_goal_revision p)), (''state'', JStr (plan_state_str (pr_state p))), (''autonomy'', JStr (pr_autonomy p)),
     (''runner'', JStr (pr_runner p)), (''integration_target'', JStr (pr_integration_target p)), (''created_at'', JStr (pr_created_at p)),
     (''tasks'', JList (List.map PlanTaskView (pr_tasks p)))]"

definition GoalView :: "goal \<Rightarrow> json" where
  "GoalView g = JObj [(''id'', JStr (g_id g)), (''phase'', JStr (g_phase g)), (''title'', JStr (g_title g)), (''state'', JStr (g_state g)),
     (''objective'', JStr (g_objective g)), (''acceptance'', strs (g_acceptance g)),
     (''gates'', JObj (List.map (\<lambda>(k, v). (k, JStr v)) (gates_dump (g_gates g)))), (''dependencies'', strs (g_dependencies g)),
     (''evidence_count'', JInt (int (length (g_evidence g))))]"

definition RunDetail :: "run \<times> task list \<times> attempt list \<times> domain_event list \<Rightarrow> json" where
  "RunDetail d = (case d of (r, ts, as, es) \<Rightarrow> JObj [(''run'', RunView r (length ts)), (''tasks'', JList (List.map TaskView ts)),
     (''attempts'', JList (List.map AttemptView as)), (''events'', JList (List.map EventView es))])"

section \<open>Inspection and adaptation\<close>

definition ProjectCapabilitiesView :: "project_capabilities \<Rightarrow> json" where
  "ProjectCapabilitiesView c = JObj [(''can_explore'', JBool (can_explore c)), (''can_discuss'', JBool (can_discuss c)),
     (''can_adapt'', JBool (can_adapt c)), (''can_plan'', JBool (can_plan c)), (''can_run'', JBool (can_run c)),
     (''can_review'', JBool (can_review c))]"

definition ProjectInspectionView :: "string \<Rightarrow> project_inspection \<Rightarrow> json" where
  "ProjectInspectionView shown i = JObj [(''root'', JStr shown), (''mode'', JStr (mode_str (pi_mode i))), (''project_id'', JStr (pi_project_id i)),
     (''project_name'', JStr (pi_project_name i)), (''types'', strs (pi_types i)), (''framework_name'', opt_str (pi_framework_name i)),
     (''framework_version'', opt_str (pi_framework_version i)), (''framework_supported'', JBool (pi_framework_supported i)),
     (''git_present'', JBool (pi_git_present i)), (''missing_manifests'', strs (pi_missing i)), (''invalid_manifests'', strs (pi_invalid i)),
     (''reason'', JStr (pi_reason i)), (''recommendation'', JStr (pi_recommendation i)),
     (''capabilities'', ProjectCapabilitiesView (pi_capabilities i))]"

definition AdaptationFileView :: "adaptation_file \<Rightarrow> json" where
  "AdaptationFileView f = JObj [(''path'', JStr (show_path (af_path f))), (''action'', JStr (if af_conflict f then ''conflict'' else ''create'')),
     (''reason'', JStr (af_reason f))]"

definition AdaptationPreviewView :: "adaptation_preview \<Rightarrow> json" where
  "AdaptationPreviewView p = JObj [(''ready'', JBool (pv_ready p)), (''files'', JList (List.map AdaptationFileView (pv_files p))),
     (''conflicts'', strs (List.map show_path (pv_conflicts p))), (''limitations'', strs (pv_limitations p))]"

text \<open>\<open>_require_capability\<close>: an inspection that raises is passed on.\<close>

definition require_of :: "project_inspection \<Rightarrow> (project_capabilities \<Rightarrow> bool) \<Rightarrow> string \<Rightarrow> exn + unit" where
  "require_of i cap name =
     (if cap (pi_capabilities i) then Inr ()
      else Inl (HTTPException 409 (''Project is '' @ mode_str (pi_mode i) @ ''; '' @ name @ '' is unavailable. ''
             @ pi_reason i @ '' '' @ pi_recommendation i)))"

text \<open>The inspection of a request: of the disk as it is, with the cache of contexts the process keeps.\<close>

record project_server = scaffold_disk +
  pj_cache :: context_cache

type_synonym 'a server_act = "(project_server, exn, 'a) act"

definition inspect_server ::
  "yaml_parser \<Rightarrow> (string \<Rightarrow> int option) \<Rightarrow> (json \<Rightarrow> string) \<Rightarrow> string \<Rightarrow> string \<Rightarrow> project_inspection server_act" where
  "inspect_server yaml rd repr name shown s =
     (case inspect_project yaml rd repr name shown s (pj_cache s) of (r, c) \<Rightarrow> (r, s\<lparr>pj_cache := c\<rparr>))"

definition get_adaptation_preview ::
  "yaml_parser \<Rightarrow> (string \<Rightarrow> int option) \<Rightarrow> (json \<Rightarrow> string) \<Rightarrow> (string list \<Rightarrow> string) \<Rightarrow> string \<Rightarrow> string \<Rightarrow> json server_act" where
  "get_adaptation_preview yaml rd repr dump name shown =
     bindE (inspect_server yaml rd repr name shown) (\<lambda>i.
     bindE (gets (preview_adaptation dump i)) (\<lambda>p. ret (AdaptationPreviewView p)))"



section \<open>Adapting a fresh project\<close>









end
