(* ===== verification/GoalViews.thy ===== *)
theory GoalViews
  imports ProjectApi
begin

text \<open>
  The routes that show Goals, their verification and the routing (\<open>api/routes.py\<close>), and the project and the
  configuration (\<open>api/app.py\<close>).
\<close>

section \<open>Goals\<close>

definition list_goals :: "app \<Rightarrow> json list" where
  "list_goals a = (if app_can_plan a then List.map (\<lambda>(_, g). GoalView g) (app_goals a) else [])"

definition get_goal :: "app \<Rightarrow> string \<Rightarrow> ('z db_scheme, exn, json) act" where
  "get_goal a i = bindE (goal_by_id a i) (\<lambda>g. ret (GoalView g))"

record gate_view =
  gv_gate :: string
  gv_requirement :: string
  gv_verdict :: gate_verdict
  gv_evidence_ids :: "string list"
  gv_details :: string

record goal_verification =
  vf_goal_id :: string
  vf_gates :: "gate_view list"
  vf_evidence :: "json list"
  vf_completable :: bool
  vf_blocking :: string

fun gate_views :: "evidence list \<Rightarrow> (string \<times> string) list \<Rightarrow> exn + gate_view list" where
  "gate_views evs [] = Inr []"
| "gate_views evs ((name, requirement) # rest) =
     (case gate_of name of Inl e \<Rightarrow> Inl e | Inr gate \<Rightarrow>
        let r = evaluate_gate evs gate
        in map_sum id (Cons \<lparr>gv_gate = name, gv_requirement = requirement, gv_verdict = gr_verdict r,
             gv_evidence_ids = gr_evidence_ids r, gv_details = gr_details r\<rparr>) (gate_views evs rest))"

text \<open>What a new coordinator holds after loading: the stored evidence by identifier.\<close>

definition loaded_values :: "evidence list \<Rightarrow> evidence list" where
  "loaded_values evs = List.map snd (fold (\<lambda>e. AList.update (ev_id e) e) evs [])"

definition get_goal_verification :: "app \<Rightarrow> string \<Rightarrow> ('z db_scheme, exn, goal_verification) act" where
  "get_goal_verification a goal_id =
     bindE (goal_by_id a goal_id) (\<lambda>g.
     bindE (load_evidence goal_id) (\<lambda>evs.
     bindE (lift_result (gate_views (loaded_values evs) (gates_dump (g_gates g)))) (\<lambda>gates.
     let check = check_completion g evs
     in ret \<lparr>vf_goal_id = goal_id, vf_gates = gates, vf_evidence = List.map EvidenceView evs, vf_completable = completable check,
          vf_blocking = (if completable check then [] else describe check)\<rparr>)))"

section \<open>Routing\<close>

text \<open>Python's \<open>round(x, n)\<close>, to the even digit when x lies half way.\<close>

definition round_even :: "rat \<Rightarrow> int" where
  "round_even x =
     (let lo = \<lfloor>x\<rfloor>; d = x - of_int lo
      in if d < 1/2 then lo else if 1/2 < d then lo + 1 else if even lo then lo else lo + 1)"

definition round_to :: "nat \<Rightarrow> rat \<Rightarrow> rat" where
  "round_to n x = of_int (round_even (x * 10 ^ n)) / 10 ^ n"

definition ModelStatsView :: "model_stats \<Rightarrow> json" where
  "ModelStatsView m = JObj [(''model_key'', JStr (ms_model_key m)), (''uses'', JInt (int (ms_uses m))),
     (''successes'', JInt (int (ms_successes m))), (''failures'', JInt (int (ms_failures m))),
     (''success_rate'', JFloat (round_to 3 (stats_success_rate m))),
     (''average_latency_ms'', JFloat (round_to 1 (ms_average_latency_ms m)))]"

definition RoleRouteView :: "string list \<Rightarrow> string \<Rightarrow> json" where
  "RoleRouteView available role =
     (let d = route available role
      in JObj [(''role'', JStr role), (''selected'', opt_str (map_option m_key (rd_selected d))),
          (''provider'', opt_str (map_option m_provider (rd_selected d))), (''explanation'', JStr (why_this_model d)),
          (''fallback_attempts'', JInt (int (rd_fallback_attempts d)))])"

definition RoutingView :: "discovery \<Rightarrow> json list \<Rightarrow> json list \<Rightarrow> json" where
  "RoutingView d roles stats = JObj [(''state'', JStr (discovery_state d)), (''reachable'', JBool (ds_reachable d)),
     (''degraded'', JBool (degraded d)), (''reason'', JStr (ds_reason d)), (''probed_at'', JStr (ds_probed_at d)),
     (''available'', strs (ds_available d)), (''roles'', JList roles), (''stats'', JList stats)]"

definition get_routing :: "Discovery.registry \<Rightarrow> ('z, json) routing_act" where
  "get_routing g =
     (let roles = List.map (RoleRouteView (rg_router g)) (sort (List.map fst ROLE_DEFAULTS))
      in bindE routing_stats (\<lambda>sts. ret (RoutingView (rg_current g) roles (List.map ModelStatsView sts))))"

section \<open>Project and configuration\<close>

definition project_dict :: "string \<Rightarrow> string \<Rightarrow> string list \<Rightarrow> nat \<Rightarrow> string list \<Rightarrow> string list \<Rightarrow> string list \<Rightarrow> project_inspection \<Rightarrow> json" where
  "project_dict i name types phases agents skills runners insp = JObj [(''id'', JStr i), (''name'', JStr name), (''types'', strs types),
     (''phases'', JInt (int phases)), (''agents'', strs agents), (''skills'', strs skills), (''runners'', strs runners),
     (''mode'', JStr (mode_str (pi_mode insp))), (''reason'', JStr (pi_reason insp)), (''recommendation'', JStr (pi_recommendation insp))]"

definition get_project ::
  "yaml_parser \<Rightarrow> (string \<Rightarrow> int option) \<Rightarrow> (json \<Rightarrow> string) \<Rightarrow> string \<Rightarrow> string \<Rightarrow> string list \<Rightarrow> json server_act" where
  "get_project yaml rd repr name shown runners =
     bindE (inspect_server yaml rd repr name shown) (\<lambda>i.
       if \<not> can_plan (pi_capabilities i)
       then ret (project_dict (pi_project_id i) (pi_project_name i) (pi_types i) 0 [] [] runners i)
       else bindE (\<lambda>s. case resolve_project yaml rd True s s (pj_cache s) of (r, c) \<Rightarrow> (r, s\<lparr>pj_cache := c\<rparr>)) (\<lambda>ctx.
         ret (project_dict (str_attr ''id'' (ctx_project ctx)) (str_attr ''id'' (ctx_project ctx)) (strs_attr ''types'' (ctx_project ctx))
           (length (ctx_phases ctx)) (strs_attr ''agents'' (ctx_agents ctx)) (strs_attr ''skills'' (ctx_skills ctx)) runners i)))"

definition get_config :: "config \<Rightarrow> json" where
  "get_config c = JObj [(''autonomy_mode'', JStr (autonomy_mode c)), (''max_parallel_tasks'', JInt (max_parallel_tasks c)),
     (''max_retries_per_task'', JInt (max_retries_per_task c)), (''log_level'', JStr (log_level c)),
     (''worktree_strategy'', JStr (worktree_strategy c)), (''database_path'', JStr (database_path c))]"

section \<open>The two verdicts of a Goal's verification\<close>

lemma update_fresh: "k \<notin> fst ` set acc \<Longrightarrow> AList.update k v acc = acc @ [(k, v)]"
  by (induction acc) auto

lemma fold_update_new:
  assumes "distinct (List.map fst acc @ List.map ev_id evs)"
  shows "fold (\<lambda>e. AList.update (ev_id e) e) evs acc = acc @ List.map (\<lambda>e. (ev_id e, e)) evs"
  using assms
proof (induction evs arbitrary: acc)
  case (Cons e evs)
  then have "AList.update (ev_id e) e acc = acc @ [(ev_id e, e)]"
    by (intro update_fresh) auto
  with Cons show ?case by simp
qed simp

lemma loaded_values_distinct: "distinct (List.map ev_id evs) \<Longrightarrow> loaded_values evs = evs"
  by (simp add: loaded_values_def fold_update_new comp_def)

lemma gate_of_iff: "gate_of n = Inr gate \<longleftrightarrow> n = gate_str gate"
  by (cases gate) (auto simp: gate_of_def all_gates_def split: option.splits if_splits)

lemma gate_views_total: "\<exists>vs. gate_views evs (gates_dump gg) = Inr vs"
proof -
  have "gate_of ''build'' = Inr BUILD" "gate_of ''tests'' = Inr TESTS" "gate_of ''review'' = Inr REVIEW"
    "gate_of ''documentation'' = Inr DOCUMENTATION" by (simp_all add: gate_of_iff)
  then show ?thesis by (simp add: gates_dump_def Let_def)
qed

lemma evaluate_passed: "gr_verdict (evaluate_gate evs gate) = PASSED \<longleftrightarrow>
    (\<exists>e \<in> set evs. ev_gate e = gate \<and> ev_verdict e = PASSED) \<and> (\<forall>e \<in> set evs. ev_gate e = gate \<longrightarrow> ev_verdict e \<noteq> FAILED)"
  by (auto simp: evaluate_gate_def Let_def filter_empty_conv)

lemma gate_views_passed:
  "gate_views evs ds = Inr vs \<Longrightarrow>
     (\<forall>x \<in> set vs. gv_requirement x = ''required'' \<longrightarrow> gv_verdict x = PASSED) \<longleftrightarrow>
     (\<forall>gate. (gate_str gate, ''required'') \<in> set ds \<longrightarrow> gr_verdict (evaluate_gate evs gate) = PASSED)"
proof (induction ds arbitrary: vs)
  case (Cons d ds)
  obtain n req where d: "d = (n, req)" by fastforce
  from Cons.prems d obtain gate rest where g: "gate_of n = Inr gate" and r: "gate_views evs ds = Inr rest"
    and vs: "vs = \<lparr>gv_gate = n, gv_requirement = req, gv_verdict = gr_verdict (evaluate_gate evs gate),
       gv_evidence_ids = gr_evidence_ids (evaluate_gate evs gate), gv_details = gr_details (evaluate_gate evs gate)\<rparr> # rest"
    by (cases "gate_of n"; cases "gate_views evs ds") (auto simp: Let_def)
  have inj: "gate_str h = gate_str gate \<longleftrightarrow> h = gate" for h by (cases h; cases gate) simp_all
  from g have n: "n = gate_str gate" by (simp add: gate_of_iff)
  show ?case unfolding vs using Cons.IH [OF r] by (auto simp: d n inj)
qed simp

text \<open>C39. The two ways the verification of a Goal is computed agree: the answer says completable exactly when every
  gate it shows as required is shown as passed; exactly then it names nothing that blocks; and asking
  changes nothing. Evidence has distinct identifiers (the key of its table), Goals are kept by their own.\<close>

theorem verification_view_consistent:
  assumes "get_goal_verification a goal_id s = (Inr v, s')" and "distinct (List.map ev_id (evidence_rows s))"
    and "\<forall>(i, g) \<in> set (app_goals a). g_id g = i"
  shows "(vf_completable v \<longleftrightarrow> (\<forall>x \<in> set (vf_gates v). gv_requirement x = ''required'' \<longrightarrow> gv_verdict x = PASSED))
    \<and> (vf_blocking v = [] \<longleftrightarrow> vf_completable v) \<and> s' = s"
proof -
  obtain g where g: "map_of (app_goals a) goal_id = Some g"
    and rest: "bindE (load_evidence goal_id) (\<lambda>evs.
        bindE (lift_result (gate_views (loaded_values evs) (gates_dump (g_gates g)))) (\<lambda>gates.
        let check = check_completion g evs
        in ret \<lparr>vf_goal_id = goal_id, vf_gates = gates, vf_evidence = List.map EvidenceView evs, vf_completable = completable check,
             vf_blocking = (if completable check then [] else describe check)\<rparr>)) s = (Inr v, s')"
    using assms(1)
    by (auto simp: get_goal_verification_def goal_by_id_def require_capability_def ret_def throw_def elim!: bindE_OkE
        split: if_splits option.splits)
  from rest obtain evs s1 where load: "load_evidence goal_id s = (Inr evs, s1)"
    and more: "bindE (lift_result (gate_views (loaded_values evs) (gates_dump (g_gates g)))) (\<lambda>gates.
        let check = check_completion g evs
        in ret \<lparr>vf_goal_id = goal_id, vf_gates = gates, vf_evidence = List.map EvidenceView evs, vf_completable = completable check,
             vf_blocking = (if completable check then [] else describe check)\<rparr>) s1 = (Inr v, s')"
    by (auto elim: bindE_OkE)
  from load have evs: "evs = order_by ev_attached_at (filter (\<lambda>e. ev_goal_id e = goal_id) (evidence_rows s))" and s1: "s1 = s"
    by (auto simp: load_evidence_def query_def require_conn_def gets_def bindE_def split: if_splits)
  from more obtain gates where views: "gate_views (loaded_values evs) (gates_dump (g_gates g)) = Inr gates"
    and v: "vf_gates v = gates" "vf_completable v = completable (check_completion g evs)"
      "vf_blocking v = (if completable (check_completion g evs) then [] else describe (check_completion g evs))" and s': "s' = s"
    unfolding s1 Let_def by (cases "gate_views (loaded_values evs) (gates_dump (g_gates g))") (auto simp: bindE_def lift_result_def ret_def)
  have "g_id g = goal_id" using assms(3) map_of_SomeD [OF g] by auto
  moreover have own: "\<forall>e \<in> set evs. ev_goal_id e = goal_id" by (simp add: evs)
  ultimately have check: "completable (check_completion g evs) \<longleftrightarrow> (\<forall>gate \<in> set (required_gates g).
      (\<exists>e \<in> set evs. ev_gate e = gate \<and> ev_verdict e = PASSED) \<and> (\<forall>e \<in> set evs. ev_gate e = gate \<longrightarrow> ev_verdict e \<noteq> FAILED))"
    by (auto simp: completable_def check_completion_def check_loop_spec filter_empty_conv)
  have "distinct (List.map ev_id evs)"
    using assms(2) by (simp add: evs order_by_def distinct_map inj_on_def)
  then have "loaded_values evs = evs" by (rule loaded_values_distinct)
  with gate_views_passed [OF views] check v(1,2)
  have "vf_completable v \<longleftrightarrow> (\<forall>x \<in> set (vf_gates v). gv_requirement x = ''required'' \<longrightarrow> gv_verdict x = PASSED)"
    by (simp add: required_gates_iff evaluate_passed Ball_def)
  moreover have "describe c \<noteq> []" for c by (simp add: describe_def Let_def)
  ultimately show ?thesis using v s' by simp
qed

definition sample_app :: app where
  "sample_app = demo_app\<lparr>app_goals := [(''G'', GoalCompletion.sample_goal)]\<rparr>"

definition sample_verified :: db where
  "sample_verified = empty_db\<lparr>evidence_rows := [build_evidence PASSED ''ok'']\<rparr>"

theorem verification_view_consistent_witness:
  "\<exists>v. get_goal_verification sample_app ''G'' sample_verified = (Inr v, sample_verified) \<and> vf_completable v \<and> vf_blocking v = []"
proof -
  have load: "load_evidence ''G'' sample_verified = (Inr [build_evidence PASSED ''ok''], sample_verified)"
    by (simp add: load_evidence_def query_ok sample_verified_def samples order_by_def build_evidence_def)
  obtain vs where "gate_views (loaded_values [build_evidence PASSED ''ok'']) (gates_dump (g_gates GoalCompletion.sample_goal)) = Inr vs"
    using gate_views_total by blast
  moreover have "completable (check_completion GoalCompletion.sample_goal [build_evidence PASSED ''ok''])" by code_simp
  ultimately have "\<exists>v. get_goal_verification sample_app ''G'' sample_verified = (Inr v, sample_verified) \<and> vf_completable v"
    using load by (simp add: get_goal_verification_def goal_by_id_def require_capability_def sample_app_def demo_app_def bindE_def ret_def
        lift_result_def Let_def)
  then obtain v where v: "get_goal_verification sample_app ''G'' sample_verified = (Inr v, sample_verified)" and c: "vf_completable v"
    by blast
  from verification_view_consistent [OF v] c v show ?thesis
    by (auto simp: sample_app_def sample_verified_def GoalCompletion.sample_goal_def samples)
qed

end
