(* ===== verification/Housekeeping.thy ===== *)
theory Housekeeping
  imports Models DocSite
begin

text \<open>
  The private directories of the application (\<open>workspace.py\<close>) and its timing statistics
  (\<open>execution/perf.py\<close>). Measuring itself, the decorator around a call, is not modelled.
\<close>

section \<open>Private directories\<close>

definition SELF_IGNORE :: string where
  "SELF_IGNORE = text_of_lines [''# Managed by Atlas Flow. Operational state, never committed.'', ''*'']"

definition ensure_private_dir :: "string list \<Rightarrow> ('z disk_scheme, exn, string list) act" where
  "ensure_private_dir p =
     bindE (gets (\<lambda>dk. list_ex (is_file dk) (prefixes p))) (\<lambda>blocked.
       if blocked then throw (OSError ''Not a directory'')
       else bindE (modify (make_dirs p)) (\<lambda>_.
            let marker = p @ [''.gitignore'']
            in bindE (gets (\<lambda>dk. is_file dk marker \<or> is_dir dk marker)) (\<lambda>there.
               if there then ret p else bindE (modify (write_text marker SELF_IGNORE)) (\<lambda>_. ret p))))"

text \<open>A directory that could be made private has the marker, or what stood in its place, and every other file
  as it was; doing it again changes nothing more.\<close>

lemma private_dir_marked:
  assumes "ensure_private_dir p dk = (Inr q, dk')" and "\<not> is_dir dk (p @ [''.gitignore''])"
  shows "q = p \<and> (\<exists>t. map_of (dk_files dk') (p @ [''.gitignore'']) = Some t \<and> (\<not> is_file dk (p @ [''.gitignore'']) \<longrightarrow> t = SELF_IGNORE))
    \<and> (\<forall>f t. map_of (dk_files dk) f = Some t \<longrightarrow> map_of (dk_files dk') f = Some t)"
proof -
  let ?m = "p @ [''.gitignore'']"
  have dirs: "dk_files (make_dirs p dk) = dk_files dk" by (simp add: make_dirs_def)
  have stands: "is_file dk ?m \<longleftrightarrow> map_of (dk_files dk) ?m \<noteq> None" by (simp add: is_file_def map_of_eq_None_iff)
  have notdir: "\<not> is_dir (make_dirs p dk) ?m"
    using assms(2) by (auto simp: is_dir_def make_dirs_def dest: prefix_length_le)
  show ?thesis
    using assms(1) notdir stands
    by (cases "is_file dk ?m")
      (auto simp: ensure_private_dir_def act_defs Let_def write_text_def dirs is_file_def update_conv split: if_splits)
qed

section \<open>Timings\<close>

type_synonym timer = "(string \<times> rat list) list"

definition record_timing :: "string \<Rightarrow> rat \<Rightarrow> timer \<Rightarrow> timer" where
  "record_timing label elapsed t =
     AList.update label ((case map_of t label of None \<Rightarrow> [] | Some vs \<Rightarrow> vs) @ [elapsed]) t"

text \<open>Subscripting a list: from the end for a negative index, an error out of range; \<open>int(x)\<close> drops the fraction.\<close>

definition py_nth :: "'a list \<Rightarrow> int \<Rightarrow> exn + 'a" where
  "py_nth xs i =
     (if 0 \<le> i \<and> i < int (length xs) then Inr (xs ! nat i)
      else if i < 0 \<and> - i \<le> int (length xs) then Inr (xs ! nat (int (length xs) + i))
      else Inl (IndexError ''list index out of range''))"

definition truncate_rat :: "rat \<Rightarrow> int" where
  "truncate_rat x = (if 0 \<le> x then \<lfloor>x\<rfloor> else \<lceil>x\<rceil>)"

definition percentile :: "rat list \<Rightarrow> rat \<Rightarrow> exn + rat" where
  "percentile data p =
     (if data = [] then Inr 0
      else let xs = sort data; idx = p / 100 * of_nat (length xs - 1); lo = truncate_rat idx;
               hi = min (lo + 1) (int (length xs) - 1); frac = idx - of_int lo
           in case py_nth xs lo of Inl e \<Rightarrow> Inl e | Inr a \<Rightarrow>
              (case py_nth xs hi of Inl e \<Rightarrow> Inl e | Inr b \<Rightarrow> Inr (a * (1 - frac) + b * frac)))"

record timing_stats =
  tg_count :: nat
  tg_p50 :: rat
  tg_p95 :: rat
  tg_p99 :: rat
  tg_max :: rat

definition timing_values :: "timer \<Rightarrow> string \<Rightarrow> rat list" where
  "timing_values t label = (case map_of t label of None \<Rightarrow> [0] | Some vs \<Rightarrow> vs)"

definition timing_stats_of :: "timer \<Rightarrow> string \<Rightarrow> exn + timing_stats" where
  "timing_stats_of t label =
     (let vs = timing_values t label
      in case percentile vs 50 of Inl e \<Rightarrow> Inl e | Inr a \<Rightarrow>
         (case percentile vs 95 of Inl e \<Rightarrow> Inl e | Inr b \<Rightarrow>
         (case percentile vs 99 of Inl e \<Rightarrow> Inl e | Inr c \<Rightarrow>
           Inr \<lparr>tg_count = length vs, tg_p50 = a, tg_p95 = b, tg_p99 = c, tg_max = (if vs \<noteq> [] then Max (set vs) else 0)\<rparr>)))"

text \<open>\<open>Budget.assert_p95\<close>; \<open>fmt1\<close> prints one decimal, \<open>fmt\<close> the limit.\<close>

datatype budget_check = WithinBudget | PerformanceBudgetError string

definition assert_p95 :: "(rat \<Rightarrow> string) \<Rightarrow> (rat \<Rightarrow> string) \<Rightarrow> timer \<Rightarrow> string \<Rightarrow> rat \<Rightarrow> exn + budget_check" where
  "assert_p95 fmt1 fmt t label max_ms =
     (case timing_stats_of t label of Inl e \<Rightarrow> Inl e | Inr st \<Rightarrow>
        if max_ms < tg_p95 st
        then Inr (PerformanceBudgetError (''P95 for '' @ quoted label @ '': '' @ fmt1 (tg_p95 st) @ ''ms exceeds budget of '' @ fmt max_ms @ ''ms''))
        else Inr WithinBudget)"

lemma between_sorted:
  fixes a b f :: rat
  assumes "m \<le> a" and "a \<le> b" and "b \<le> M" and "0 \<le> f" and "f \<le> 1"
  shows "m \<le> a * (1 - f) + b * f \<and> a * (1 - f) + b * f \<le> M"
proof -
  have "a * (1 - f) + b * f = a + (b - a) * f" by (simp add: algebra_simps)
  moreover have "0 \<le> (b - a) * f" using assms by simp
  moreover have "(b - a) * f \<le> b - a" using assms mult_left_le [of f "b - a"] by simp
  ultimately show ?thesis using assms by linarith
qed

text \<open>A percentile between 0 and 100 exists and lies between the least and the greatest of the observations.\<close>

theorem percentile_between:
  assumes "data \<noteq> []" and "0 \<le> p" and "p \<le> 100"
  shows "\<exists>r. percentile data p = Inr r \<and> Min (set data) \<le> r \<and> r \<le> Max (set data)"
proof -
  define xs where "xs = sort data"
  define idx where "idx = p / 100 * of_nat (length xs - 1)"
  let ?n = "length xs" and ?lo = "\<lfloor>idx\<rfloor>"
  have n: "0 < ?n" using assms(1) by (simp add: xs_def)
  have idx0: "0 \<le> idx" using assms(2) by (simp add: idx_def)
  have "p / 100 * of_nat (?n - 1) \<le> 1 * of_nat (?n - 1)" using assms(3) by (intro mult_right_mono) simp_all
  then have idx1: "idx \<le> of_nat (?n - 1)" by (simp add: idx_def)
  have lo: "0 \<le> ?lo" "?lo \<le> int ?n - 1"
    using idx0 idx1 n by (simp, metis (no_types, lifting) floor_mono floor_of_nat of_nat_diff less_eq_Suc_le of_nat_1 One_nat_def)
  define hi where "hi = min (?lo + 1) (int ?n - 1)"
  have hi: "0 \<le> hi" "hi \<le> int ?n - 1" "?lo \<le> hi" using lo n by (auto simp: hi_def)
  have sorted: "sorted xs" by (simp add: xs_def)
  have a: "py_nth xs ?lo = Inr (xs ! nat ?lo)" and b: "py_nth xs hi = Inr (xs ! nat hi)"
    using lo hi by (simp_all add: py_nth_def)
  have le: "xs ! nat ?lo \<le> xs ! nat hi" using sorted lo hi by (intro sorted_nth_mono) (auto simp: nat_le_iff nat_mono)
  have mem: "xs ! nat ?lo \<in> set data" "xs ! nat hi \<in> set data"
    using lo hi n by (auto simp: xs_def intro!: nth_mem [of _ "sort data", simplified])
  have frac: "0 \<le> idx - of_int ?lo" "idx - of_int ?lo \<le> 1" by (simp_all add: floor_correct) linarith+
  have "percentile data p = Inr (xs ! nat ?lo * (1 - (idx - of_int ?lo)) + xs ! nat hi * (idx - of_int ?lo))"
    using assms(1) idx0 a b by (simp add: percentile_def Let_def truncate_rat_def hi_def idx_def xs_def)
  with between_sorted [OF Min_le [OF finite_set mem(1)] le Max_ge [OF finite_set mem(2)] frac] show ?thesis by blast
qed

text \<open>A label nobody timed counts one observation of no time, so its budget always passes.\<close>

lemma untimed_label_passes:
  "assert_p95 fmt1 fmt [] label 0 = Inr WithinBudget \<and> (\<exists>st. timing_stats_of [] label = Inr st \<and> tg_count st = 1)"
  by (simp add: assert_p95_def timing_stats_of_def timing_values_def percentile_def py_nth_def truncate_rat_def Let_def)

end
