(* ===== verification/Discuss.thy ===== *)
theory Discuss
  imports Models "HOL-Library.Multiset"
begin

text \<open>
  Discussions and their Decision Ledger (\<open>discuss/models.py\<close>, \<open>discuss/ledger.py\<close>) and the pipeline that
  turns a finished discussion into documents of the project (\<open>discuss/finalize.py\<close>). The ledger's methods
  change a session in place; here they give the new session, or the exception with the session as it
  was. The project's files are a map from paths to contents, and the date of the day is an argument.
\<close>

section \<open>The domain\<close>

datatype decision_state = PROPOSED | ACCEPTED | REJECTED | SUPERSEDED

fun decision_state_str :: "decision_state \<Rightarrow> string" where
  "decision_state_str PROPOSED = ''PROPOSED''"
| "decision_state_str ACCEPTED = ''ACCEPTED''"
| "decision_state_str REJECTED = ''REJECTED''"
| "decision_state_str SUPERSEDED = ''SUPERSEDED''"

datatype completeness = C_UNKNOWN | C_PARTIAL | C_SUFFICIENT | C_LOCKED

datatype reference_kind = REF_FILE | REF_IMAGE

record message_reference =
  mr_path :: string
  mr_kind :: reference_kind
  mr_label :: string
  mr_mime_type :: "string option"

record message =
  msg_id :: string
  msg_timestamp :: string
  msg_content :: string
  msg_turn_type :: string
  msg_references :: "message_reference list"

record decision =
  dc_id :: string
  dc_title :: string
  dc_statement :: string
  dc_rationale :: string
  dc_status :: decision_state
  dc_source_message_ids :: "string list"
  dc_timestamp :: string
  dc_affected_domains :: "string list"
  dc_supersedes :: "string option"
  dc_requires_adr :: bool
  dc_canonical_targets :: "string list"

record draft =
  pd_session_id :: string
  pd_product :: completeness
  pd_architecture :: completeness
  pd_ux :: completeness
  pd_data :: completeness
  pd_security :: completeness
  pd_quality :: completeness
  pd_operations :: completeness
  pd_ai_orchestration :: completeness
  pd_roadmap :: completeness

record discussion =
  ds_id :: string
  ds_project_id :: string
  ds_title :: string
  ds_messages :: "message list"
  ds_decisions :: "decision list"
  ds_draft :: draft
  ds_started_at :: string

text \<open>The fields of a draft other than its session, in the order of the class.\<close>

definition draft_domains :: "draft \<Rightarrow> (string \<times> completeness) list" where
  "draft_domains d =
     [(''product'', pd_product d), (''architecture'', pd_architecture d), (''ux'', pd_ux d),
      (''data'', pd_data d), (''security'', pd_security d), (''quality'', pd_quality d),
      (''operations'', pd_operations d), (''ai_orchestration'', pd_ai_orchestration d),
      (''roadmap'', pd_roadmap d)]"

definition is_complete :: "draft \<Rightarrow> bool" where
  "is_complete d \<longleftrightarrow> list_all (\<lambda>(_, c). c = C_SUFFICIENT) (draft_domains d)"

definition gap_report :: "draft \<Rightarrow> (string \<times> completeness) list" where
  "gap_report d = filter (\<lambda>(_, c). c \<noteq> C_SUFFICIENT) (draft_domains d)"

definition new_short_id :: "string \<Rightarrow> ('z os_scheme, exn, string) act" where
  "new_short_id pre s =
     (Inr (pre @ ''-'' @ take 8 (uuid_hex s (draws s))), s\<lparr>draws := Suc (draws s)\<rparr>)"

definition mk_message :: "string \<Rightarrow> string \<Rightarrow> message_reference list \<Rightarrow> ('z os_scheme, exn, message) act" where
  "mk_message content turn refs =
     bindE (new_id ''msg'') (\<lambda>i. bindE now_iso (\<lambda>now.
       ret \<lparr>msg_id = i, msg_timestamp = now, msg_content = content, msg_turn_type = turn,
            msg_references = refs\<rparr>))"

definition mk_decision ::
  "string \<Rightarrow> string \<Rightarrow> string \<Rightarrow> string list \<Rightarrow> string list \<Rightarrow> bool \<Rightarrow> ('z os_scheme, exn, decision) act" where
  "mk_decision title statement rationale sources domains adr =
     bindE (new_id ''dec'') (\<lambda>i. bindE now_iso (\<lambda>now.
       ret \<lparr>dc_id = i, dc_title = title, dc_statement = statement, dc_rationale = rationale,
            dc_status = PROPOSED, dc_source_message_ids = sources, dc_timestamp = now,
            dc_affected_domains = domains, dc_supersedes = None, dc_requires_adr = adr,
            dc_canonical_targets = []\<rparr>))"

definition unknown_draft :: "string \<Rightarrow> draft" where
  "unknown_draft i = \<lparr>pd_session_id = i, pd_product = C_UNKNOWN, pd_architecture = C_UNKNOWN,
     pd_ux = C_UNKNOWN, pd_data = C_UNKNOWN, pd_security = C_UNKNOWN, pd_quality = C_UNKNOWN,
     pd_operations = C_UNKNOWN, pd_ai_orchestration = C_UNKNOWN, pd_roadmap = C_UNKNOWN\<rparr>"

definition mk_discussion :: "string \<Rightarrow> string \<Rightarrow> ('z os_scheme, exn, discussion) act" where
  "mk_discussion project title =
     bindE (new_short_id ''session'') (\<lambda>i. bindE (new_short_id ''draft'') (\<lambda>d. bindE now_iso (\<lambda>now.
       ret \<lparr>ds_id = i, ds_project_id = project, ds_title = title, ds_messages = [], ds_decisions = [],
            ds_draft = unknown_draft d, ds_started_at = now\<rparr>)))"

section \<open>The ledger\<close>

definition find_decision :: "discussion \<Rightarrow> string \<Rightarrow> exn + decision" where
  "find_decision s i =
     (case find (\<lambda>d. dc_id d = i) (ds_decisions s) of
        Some d \<Rightarrow> Inr d
      | None \<Rightarrow> Inl (KeyError (''Decision '' @ i @ '' not found in session '' @ ds_id s)))"

text \<open>Changing the decision that \<open>_find\<close> gives: the first with the identifier.\<close>

fun change_first :: "string \<Rightarrow> (decision \<Rightarrow> decision) \<Rightarrow> decision list \<Rightarrow> decision list" where
  "change_first i f [] = []"
| "change_first i f (d # ds) = (if dc_id d = i then f d # ds else d # change_first i f ds)"

definition set_status :: "string \<Rightarrow> decision_state \<Rightarrow> discussion \<Rightarrow> discussion" where
  "set_status i st s =
     s\<lparr>ds_decisions := change_first i (\<lambda>d. d\<lparr>dc_status := st\<rparr>) (ds_decisions s)\<rparr>"

definition propose :: "discussion \<Rightarrow> decision \<Rightarrow> exn + discussion" where
  "propose s c =
     (if dc_id c \<in> dc_id ` set (ds_decisions s)
      then Inl (ValueError (''Decision '' @ dc_id c @ '' already exists''))
      else Inr (s\<lparr>ds_decisions := ds_decisions s @ [c]\<rparr>))"

definition accept :: "discussion \<Rightarrow> string \<Rightarrow> exn + decision \<times> discussion" where
  "accept s i =
     (case find_decision s i of
        Inl e \<Rightarrow> Inl e
      | Inr d \<Rightarrow>
          if dc_status d \<noteq> PROPOSED
          then Inl (ValueError (''Cannot accept decision '' @ i @ '' in state '' @ decision_state_str (dc_status d)))
          else Inr (d\<lparr>dc_status := ACCEPTED\<rparr>, set_status i ACCEPTED s))"

definition reject :: "discussion \<Rightarrow> string \<Rightarrow> exn + decision \<times> discussion" where
  "reject s i =
     (case find_decision s i of
        Inl e \<Rightarrow> Inl e
      | Inr d \<Rightarrow>
          if dc_status d \<notin> {PROPOSED, ACCEPTED}
          then Inl (ValueError (''Cannot reject decision '' @ i @ '' in state '' @ decision_state_str (dc_status d)))
          else Inr (d\<lparr>dc_status := REJECTED\<rparr>, set_status i REJECTED s))"

definition supersede :: "discussion \<Rightarrow> string \<Rightarrow> decision \<Rightarrow> exn + decision \<times> discussion" where
  "supersede s old_id c =
     (case find_decision s old_id of
        Inl e \<Rightarrow> Inl e
      | Inr old \<Rightarrow>
          if dc_status old \<noteq> ACCEPTED
          then Inl (ValueError (''Cannot supersede decision '' @ old_id @ '' in state ''
                 @ decision_state_str (dc_status old) @ '' '' @ emdash @ '' must be ACCEPTED''))
          else let new = c\<lparr>dc_supersedes := Some old_id\<rparr>; s' = set_status old_id SUPERSEDED s
               in Inr (new, s'\<lparr>ds_decisions := ds_decisions s' @ [new]\<rparr>))"

definition accepted_of :: "discussion \<Rightarrow> decision list" where
  "accepted_of s = filter (\<lambda>d. dc_status d = ACCEPTED) (ds_decisions s)"

section \<open>Finalization\<close>

definition ADR_DIRECTORY :: string where
  "ADR_DIRECTORY = ''docs/07-decisions''"

definition DECISION_LOG :: string where
  "DECISION_LOG = ''docs/01-architecture/DECISION_LEDGER.md''"

record readiness =
  ry_session_id :: string
  ry_gaps :: "(string \<times> completeness) list"
  ry_ready :: bool
  ry_message_count :: nat
  ry_accepted_decisions :: nat
  ry_total_decisions :: nat

definition analyze :: "discussion \<Rightarrow> readiness" where
  "analyze s = \<lparr>ry_session_id = ds_id s, ry_gaps = gap_report (ds_draft s),
     ry_ready = is_complete (ds_draft s), ry_message_count = length (ds_messages s),
     ry_accepted_decisions = length (accepted_of s), ry_total_decisions = length (ds_decisions s)\<rparr>"

definition readiness_summary :: "readiness \<Rightarrow> string" where
  "readiness_summary r =
     (if ry_ready r
      then ''Ready: '' @ nat_str (ry_accepted_decisions r) @ ''/'' @ nat_str (ry_total_decisions r)
             @ '' decisions accepted, all domains sufficient.''
      else ''Not ready: domains ['' @ join '', '' (List.map fst (ry_gaps r)) @ ''] are insufficient (''
             @ nat_str (length (ry_gaps r)) @ '' gaps).'')"

definition requires_resolution :: "readiness \<Rightarrow> string list" where
  "requires_resolution r = List.map fst (ry_gaps r)"

definition validate_draft :: "draft \<Rightarrow> string list" where
  "validate_draft d =
     (if pd_product d = C_UNKNOWN then [''Product domain has no input''] else [])
     @ (if pd_architecture d = C_UNKNOWN then [''Architecture domain has no input''] else [])"

definition slug :: "string \<Rightarrow> string" where
  "slug title =
     (let cleaned = List.map (\<lambda>c. if is_alnum c \<or> is_space c then c else CHR '' '') title;
          s = take 48 (upper (join ''-'' (split_ws cleaned)))
      in if s \<noteq> [] then s else ''DECISION'')"

definition pad3 :: "nat \<Rightarrow> string" where
  "pad3 n = replicate (3 - length (nat_str n)) (CHR ''0'') @ nat_str n"

definition backtick :: "string \<Rightarrow> string" where
  "backtick s = CHR 0x60 # s @ [CHR 0x60]"

definition render_adr :: "nat \<Rightarrow> decision \<Rightarrow> discussion \<Rightarrow> string" where
  "render_adr index d s =
     (let domains = join '', '' (dc_affected_domains d); sources = join '', '' (dc_source_message_ids d)
      in join newline
        [''# ADR-'' @ pad3 index @ '': '' @ dc_title d, [], ''**Status:** Accepted'',
         ''**Date:** '' @ take 10 (dc_timestamp d), ''**Source:** discussion '' @ backtick (ds_id s), [],
         ''## Decision'', [], dc_statement d, [], ''## Rationale'', [], dc_rationale d, [],
         ''## Affected domains'', [], (if domains \<noteq> [] then domains else ''unscoped''), [],
         ''## Provenance'', [],
         ''Derived from discussion messages: '' @ (if sources \<noteq> [] then sources else ''not linked''), []])"

definition render_ledger :: "string \<Rightarrow> decision list \<Rightarrow> discussion \<Rightarrow> string" where
  "render_ledger today ds s = join newline
     ([''# Decision Ledger'', [],
       ''Generated from discussion '' @ backtick (ds_id s) @ '' on '' @ today @ ''.'', [],
       ''| Decision | Statement | Domains | ADR |'', ''| --- | --- | --- | --- |'']
      @ List.map (\<lambda>d. ''| '' @ dc_title d @ '' | '' @ dc_statement d @ '' | ''
            @ (let doms = join '', '' (dc_affected_domains d) in if doms \<noteq> [] then doms else emdash)
            @ '' | '' @ (if dc_requires_adr d then ''yes'' else ''no'') @ '' |'') ds
      @ [[]])"

definition adr_path :: "nat \<Rightarrow> decision \<Rightarrow> string" where
  "adr_path index d = ADR_DIRECTORY @ ''/ADR-'' @ pad3 index @ ''-'' @ slug (dc_title d) @ ''.md''"

definition adr_artifacts :: "discussion \<Rightarrow> (string \<times> string) list" where
  "adr_artifacts s =
     List.map (\<lambda>(i, d). (adr_path i d, render_adr i d s))
       (filter (\<lambda>(_, d). dc_requires_adr d) (enumerate 1 (accepted_of s)))"

definition generate_artifacts :: "string \<Rightarrow> discussion \<Rightarrow> exn + (string \<times> string) list" where
  "generate_artifacts today s =
     (if \<not> is_complete (ds_draft s)
      then Inl (RuntimeError (''Cannot finalize: domains incomplete: ''
             @ join '', '' (List.map fst (gap_report (ds_draft s)))))
      else Inr (AList.update DECISION_LOG (render_ledger today (accepted_of s) s)
                 (dict_update [] (adr_artifacts s))))"

record finalization =
  fr_written :: "string list"
  fr_adr_count :: nat

type_synonym files = "string \<Rightarrow> string option"

fun write_loop ::
  "string \<Rightarrow> bool \<Rightarrow> (string \<times> string) list \<Rightarrow> finalization \<Rightarrow> files \<Rightarrow> finalization \<times> files" where
  "write_loop base overwrite [] r fs = (r, fs)"
| "write_loop base overwrite ((relative, content) # rest) r fs =
     (let target = base @ ''/'' @ relative
      in if fs target \<noteq> None \<and> \<not> overwrite then write_loop base overwrite rest r fs
         else write_loop base overwrite rest
           (r\<lparr>fr_written := fr_written r @ [target],
              fr_adr_count := fr_adr_count r + (if starts_with relative ADR_DIRECTORY then 1 else 0)\<rparr>)
           (fs(target \<mapsto> content)))"

definition write_artifacts ::
  "string \<Rightarrow> discussion \<Rightarrow> string \<Rightarrow> bool \<Rightarrow> files \<Rightarrow> exn + finalization \<times> files" where
  "write_artifacts today s base overwrite fs =
     (case generate_artifacts today s of
        Inl e \<Rightarrow> Inl e
      | Inr arts \<Rightarrow> Inr (write_loop base overwrite arts \<lparr>fr_written = [], fr_adr_count = 0\<rparr> fs))"


section \<open>The history of a ledger\<close>

text \<open>
  The calls the routes make on a session: a proposed candidate is new and \<open>PROPOSED\<close>, and the
  candidate that supersedes another has a fresh identifier (\<open>supersede\<close> itself does not look).
\<close>

inductive ledger_step :: "discussion \<Rightarrow> discussion \<Rightarrow> bool" where
  proposes: "propose s c = Inr s' \<Longrightarrow> dc_status c = PROPOSED \<Longrightarrow> dc_supersedes c = None \<Longrightarrow> ledger_step s s'"
| accepts: "accept s i = Inr (d, s') \<Longrightarrow> ledger_step s s'"
| rejects: "reject s i = Inr (d, s') \<Longrightarrow> ledger_step s s'"
| supersedes: "supersede s i c = Inr (d, s') \<Longrightarrow> dc_status c = PROPOSED
    \<Longrightarrow> dc_id c \<notin> dc_id ` set (ds_decisions s) \<Longrightarrow> ledger_step s s'"

inductive_cases ledger_stepE: "ledger_step s s'"

inductive ledger_reach :: "discussion \<Rightarrow> discussion \<Rightarrow> bool" where
  start: "ledger_reach s s"
| more: "ledger_reach s t \<Longrightarrow> ledger_step t u \<Longrightarrow> ledger_reach s u"

definition superseded_ids :: "decision list \<Rightarrow> string list" where
  "superseded_ids ds = List.map dc_id (filter (\<lambda>d. dc_status d = SUPERSEDED) ds)"

definition successor_links :: "decision list \<Rightarrow> string list" where
  "successor_links ds = List.map_filter dc_supersedes ds"

fun links_go_back :: "string list \<Rightarrow> decision list \<Rightarrow> bool" where
  "links_go_back seen [] = True"
| "links_go_back seen (d # ds) =
     ((case dc_supersedes d of None \<Rightarrow> True | Some i \<Rightarrow> i \<in> set seen) \<and> links_go_back (dc_id d # seen) ds)"


lemma find_decision_OkD:
  assumes "find_decision s i = Inr d"
  shows "find (\<lambda>d. dc_id d = i) (ds_decisions s) = Some d"
  using assms by (simp add: find_decision_def split: option.splits)

lemma change_first_map [simp]:
  "(\<And>d. g (f d) = g d) \<Longrightarrow> List.map g (change_first i f ds) = List.map g ds"
  by (induction ds) simp_all

lemma change_first_links [simp]:
  "(\<And>d. dc_supersedes (f d) = dc_supersedes d) \<Longrightarrow> successor_links (change_first i f ds) = successor_links ds"
  by (induction ds) (simp_all add: successor_links_def map_filter_simps split: option.split)

lemma change_first_go_back [simp]:
  "(\<And>d. dc_supersedes (f d) = dc_supersedes d) \<Longrightarrow> (\<And>d. dc_id (f d) = dc_id d)
     \<Longrightarrow> links_go_back seen (change_first i f ds) = links_go_back seen ds"
  by (induction ds arbitrary: seen) simp_all



lemma links_snoc [simp]:
  "successor_links (ds @ [d])
     = successor_links ds @ (case dc_supersedes d of None \<Rightarrow> [] | Some i \<Rightarrow> [i])"
  by (induction ds) (auto simp: successor_links_def map_filter_simps split: option.splits)

lemma superseded_snoc [simp]:
  "superseded_ids (ds @ [d]) = superseded_ids ds @ (if dc_status d = SUPERSEDED then [dc_id d] else [])"
  by (simp add: superseded_ids_def)


lemma acceptD:
  assumes "accept s i = Inr (d, s')"
  obtains o1 where "find (\<lambda>d. dc_id d = i) (ds_decisions s) = Some o1" and "dc_status o1 = PROPOSED"
    and "s' = set_status i ACCEPTED s"
  using assms by (auto simp: accept_def dest: find_decision_OkD split: sum.splits if_splits)

lemma rejectD:
  assumes "reject s i = Inr (d, s')"
  obtains o1 where "find (\<lambda>d. dc_id d = i) (ds_decisions s) = Some o1" and "dc_status o1 \<in> {PROPOSED, ACCEPTED}"
    and "s' = set_status i REJECTED s"
  using assms by (auto simp: reject_def dest: find_decision_OkD split: sum.splits if_splits)

lemma supersedeD:
  assumes "supersede s i c = Inr (d, s')"
  obtains o1 where "find (\<lambda>d. dc_id d = i) (ds_decisions s) = Some o1" and "dc_status o1 = ACCEPTED"
    and "ds_decisions s' = ds_decisions (set_status i SUPERSEDED s) @ [c\<lparr>dc_supersedes := Some i\<rparr>]"
  using assms by (auto simp: supersede_def Let_def dest: find_decision_OkD split: sum.splits if_splits)








definition demo_decision :: "string \<Rightarrow> decision" where
  "demo_decision i = \<lparr>dc_id = i, dc_title = ''Store'', dc_statement = ''Use SQLite'', dc_rationale = ''Local'',
     dc_status = PROPOSED, dc_source_message_ids = [], dc_timestamp = ''2026-01-01T00:00:00'',
     dc_affected_domains = [''data''], dc_supersedes = None, dc_requires_adr = True, dc_canonical_targets = []\<rparr>"

definition demo_discussion :: "decision list \<Rightarrow> discussion" where
  "demo_discussion ds = \<lparr>ds_id = ''session-1'', ds_project_id = ''p'', ds_title = ''t'', ds_messages = [],
     ds_decisions = ds, ds_draft = unknown_draft ''draft-1'', ds_started_at = ''2026-01-01T00:00:00''\<rparr>"

definition demo_ledger :: discussion where
  "demo_ledger = demo_discussion [(demo_decision ''a'')\<lparr>dc_status := SUPERSEDED\<rparr>,
     (demo_decision ''b'')\<lparr>dc_supersedes := Some ''a''\<rparr>]"

lemmas demo_ledger_defs = demo_ledger_def demo_discussion_def demo_decision_def

lemma demo_ledger_reached: "ledger_reach (demo_discussion []) demo_ledger"
proof -
  have "ledger_step (demo_discussion []) (demo_discussion [demo_decision ''a''])"
    by (rule proposes [where c = "demo_decision ''a''"]) (simp_all add: demo_ledger_defs propose_def)
  moreover have "ledger_step (demo_discussion [demo_decision ''a''])
      (demo_discussion [(demo_decision ''a'')\<lparr>dc_status := ACCEPTED\<rparr>])"
    by (rule accepts [where i = "''a''" and d = "(demo_decision ''a'')\<lparr>dc_status := ACCEPTED\<rparr>"])
      (simp add: demo_ledger_defs accept_def find_decision_def set_status_def)
  moreover have "ledger_step (demo_discussion [(demo_decision ''a'')\<lparr>dc_status := ACCEPTED\<rparr>]) demo_ledger"
    by (rule supersedes [where i = "''a''" and c = "demo_decision ''b''"
          and d = "(demo_decision ''b'')\<lparr>dc_supersedes := Some ''a''\<rparr>"])
      (simp_all add: demo_ledger_defs supersede_def find_decision_def set_status_def Let_def)
  ultimately show ?thesis
    by (blast intro: ledger_reach.intros)
qed


text \<open>A decision is never lost or rewritten: only its status moves, and only forwards.\<close>

fun later :: "decision_state \<Rightarrow> decision_state \<Rightarrow> bool" where
  "later PROPOSED st = True"
| "later ACCEPTED st = (st \<noteq> PROPOSED)"
| "later st st' = (st' = st)"

definition evolves :: "decision \<Rightarrow> decision \<Rightarrow> bool" where
  "evolves d d' \<longleftrightarrow> d' = d\<lparr>dc_status := dc_status d'\<rparr> \<and> later (dc_status d) (dc_status d')"

lemma later_refl [simp]: "later st st"
  by (cases st) simp_all

lemma later_trans: "later a b \<Longrightarrow> later b c \<Longrightarrow> later a c"
  by (cases a; cases b; cases c) simp_all

lemma evolves_refl [simp]: "evolves d d"
  by (simp add: evolves_def)

lemma evolves_trans:
  assumes "evolves a b" and "evolves b c"
  shows "evolves a c"
  using assms by (cases a; cases b; cases c) (auto simp: evolves_def intro: later_trans)

lemma change_first_evolves:
  assumes "find (\<lambda>d. dc_id d = i) ds = Some d" and "later (dc_status d) st"
  shows "list_all2 evolves ds (change_first i (\<lambda>d. d\<lparr>dc_status := st\<rparr>) ds)"
  using assms
  by (induction ds) (auto simp: list.rel_refl evolves_def split: if_splits)

lemma ledger_step_evolves:
  assumes "ledger_step s s'"
  shows "list_all2 evolves (ds_decisions s) (take (length (ds_decisions s)) (ds_decisions s'))"
  using assms
proof cases
  case (proposes c)
  then show ?thesis
    by (auto simp: propose_def list.rel_refl split: if_splits)
next
  case (accepts i d)
  then obtain o1 where o: "find (\<lambda>d. dc_id d = i) (ds_decisions s) = Some o1" "dc_status o1 = PROPOSED"
    "s' = set_status i ACCEPTED s"
    by (elim acceptD) auto
  have "list_all2 evolves (ds_decisions s) (ds_decisions s')"
    unfolding o(3) set_status_def by (simp add: change_first_evolves [OF o(1)] o(2))
  then show ?thesis by (simp add: list_all2_lengthD)
next
  case (rejects i d)
  then obtain o1 where o: "find (\<lambda>d. dc_id d = i) (ds_decisions s) = Some o1"
    "dc_status o1 \<in> {PROPOSED, ACCEPTED}" "s' = set_status i REJECTED s"
    by (elim rejectD) auto
  have "later (dc_status o1) REJECTED"
    using o(2) by auto
  then have "list_all2 evolves (ds_decisions s) (ds_decisions s')"
    unfolding o(3) set_status_def by (simp add: change_first_evolves [OF o(1)])
  then show ?thesis by (simp add: list_all2_lengthD)
next
  case (supersedes i c d)
  from supersedes(1) obtain o1 where o: "find (\<lambda>d. dc_id d = i) (ds_decisions s) = Some o1"
    "dc_status o1 = ACCEPTED"
    "ds_decisions s' = ds_decisions (set_status i SUPERSEDED s) @ [c\<lparr>dc_supersedes := Some i\<rparr>]"
    by (elim supersedeD) auto
  have "list_all2 evolves (ds_decisions s) (ds_decisions (set_status i SUPERSEDED s))"
    unfolding set_status_def by (simp add: change_first_evolves [OF o(1)] o(2))
  then show ?thesis by (simp add: o(3) list_all2_lengthD)
qed

text \<open>Every decision a session ever held is still there, at its place and word for word; its status
  only moved forwards (\<open>PROPOSED\<close> to \<open>ACCEPTED\<close>, then to \<open>REJECTED\<close> or \<open>SUPERSEDED\<close>, which are final).\<close>

theorem ledger_keeps_decisions:
  assumes "ledger_reach s s'"
  shows "list_all2 evolves (ds_decisions s) (take (length (ds_decisions s)) (ds_decisions s'))"
  using assms
proof induction
  case (start s)
  then show ?case by (simp add: list.rel_refl)
next
  case (more s t u)
  let ?n = "length (ds_decisions s)"
  have "?n \<le> length (ds_decisions t)"
    using list_all2_lengthD [OF more.IH] by simp
  then have "list_all2 evolves (take ?n (ds_decisions t)) (take ?n (ds_decisions u))"
    using list_all2_takeI [OF ledger_step_evolves [OF more(2)], of ?n] by (simp add: min_def)
  with more.IH show ?case
    using list_all2_trans [of evolves evolves evolves] evolves_trans by blast
qed

theorem ledger_keeps_decisions_witness:
  "list_all2 evolves [] (take 0 (ds_decisions demo_ledger))"
  using ledger_keeps_decisions [OF demo_ledger_reached] by (simp add: demo_discussion_def)

text \<open>What \<open>propose\<close> checks and \<open>supersede\<close> does not: a candidate with an identifier already in use.\<close>

lemma supersede_takes_duplicate:
  "\<exists>s c. (\<exists>e. propose s c = Inl e)
     \<and> (\<exists>d s'. supersede s (dc_id c) c = Inr (d, s') \<and> \<not> distinct (List.map dc_id (ds_decisions s')))"
  by (rule exI [of _ "demo_discussion [(demo_decision ''a'')\<lparr>dc_status := ACCEPTED\<rparr>]"],
      rule exI [of _ "demo_decision ''a''"])
    (simp add: demo_ledger_defs propose_def supersede_def find_decision_def set_status_def Let_def)

section \<open>Writing the documents\<close>

definition placed :: "string \<Rightarrow> (string \<times> string) list \<Rightarrow> (string \<times> string) list" where
  "placed base arts = List.map (\<lambda>(k, c). (base @ ''/'' @ k, c)) arts"

lemma placed_simps [simp]:
  "placed base [] = []"
  "placed base ((k, c) # arts) = (base @ ''/'' @ k, c) # placed base arts"
  by (simp_all add: placed_def)

lemma placed_None:
  "map_of (placed base arts) p = None \<longleftrightarrow> (\<forall>k \<in> set (List.map fst arts). p \<noteq> base @ ''/'' @ k)"
  unfolding map_of_eq_None_iff by (induction arts) (auto simp: placed_def)

definition missing :: "string \<Rightarrow> files \<Rightarrow> (string \<times> string) list \<Rightarrow> string list" where
  "missing base fs arts = filter (\<lambda>k. fs (base @ ''/'' @ k) = None) (List.map fst arts)"

lemma missing_upd:
  "k \<notin> fst ` set arts \<Longrightarrow> missing base (fs(base @ ''/'' @ k \<mapsto> c)) arts = missing base fs arts"
  by (induction arts) (auto simp: missing_def)

lemma missing_simps [simp]:
  "missing base fs [] = []"
  "missing base fs ((k, c) # arts)
     = (if fs (base @ ''/'' @ k) = None then k # missing base fs arts else missing base fs arts)"
  by (simp_all add: missing_def)

lemma write_loop_spec:
  assumes "distinct (List.map fst arts)"
  shows "fr_written (fst (write_loop base False arts r fs))
           = fr_written r @ List.map (\<lambda>k. base @ ''/'' @ k) (missing base fs arts)"
    and "fr_adr_count (fst (write_loop base False arts r fs))
           = fr_adr_count r + length (filter (\<lambda>k. starts_with k ADR_DIRECTORY) (missing base fs arts))"
    and "snd (write_loop base False arts r fs)
           = map_of (placed base arts) ++ fs"
  using assms
proof (induction arts arbitrary: r fs)
  case Nil
  case 1 then show ?case by (simp add: missing_def)
  case 2 then show ?case by (simp add: missing_def)
  case 3 then show ?case by simp
next
  case (Cons a arts)
  obtain k c where a: "a = (k, c)" by (cases a)
  {
    case 1
    then have "k \<notin> fst ` set arts" "distinct (List.map fst arts)" by (simp_all add: a)
    then show ?case
      using missing_upd [of k arts base fs c] by (simp add: a Cons.IH(1) Let_def fun_upd_def)
  next
    case 2
    then have "k \<notin> fst ` set arts" "distinct (List.map fst arts)" by (simp_all add: a)
    then show ?case
      using missing_upd [of k arts base fs c] by (simp add: a Cons.IH(2) Let_def fun_upd_def)
  next
    case 3
    then have k: "k \<notin> fst ` set arts" "distinct (List.map fst arts)" by (simp_all add: a)
    have n: "map_of (placed base arts) (base @ ''/'' @ k) = None"
      using k(1) by (auto simp: placed_None)
    show ?case
    proof (cases "fs (base @ ''/'' @ k)")
      case None
      then show ?thesis
        using n by (simp add: a Cons.IH(3) [OF k(2)] Let_def fun_eq_iff map_add_def split: option.split)
    next
      case (Some y)
      then show ?thesis
        by (simp add: a Cons.IH(3) [OF k(2)] Let_def fun_eq_iff map_add_def split: option.split)
    qed
  }
qed

lemma distinct_fst_fold_update:
  "distinct (List.map fst d) \<Longrightarrow> distinct (List.map fst (fold (\<lambda>(k, v) acc. AList.update k v acc) xs d))"
  by (induction xs arbitrary: d) (auto simp: distinct_update)

lemma artifacts_distinct:
  assumes "generate_artifacts today s = Inr arts"
  shows "distinct (List.map fst arts)"
  using assms
  by (auto simp: generate_artifacts_def dict_update_def intro!: distinct_update distinct_fst_fold_update
      split: if_splits)

lemma write_artifactsD:
  assumes "write_artifacts today s base ov fs = Inr (r, fs')"
  shows "\<exists>arts. generate_artifacts today s = Inr arts
    \<and> write_loop base ov arts \<lparr>fr_written = [], fr_adr_count = 0\<rparr> fs = (r, fs')"
  using assms by (auto simp: write_artifacts_def split: sum.splits)

text \<open>Finalization without \<open>overwrite\<close> runs only on a complete draft, gives every document of
  the session a file, changes no file that was there, and reports exactly the files it created.\<close>

theorem finalization_never_overwrites:
  assumes "write_artifacts today s base False fs = Inr (r, fs')"
  shows "is_complete (ds_draft s)
    \<and> (\<exists>arts. generate_artifacts today s = Inr arts
         \<and> fs' = map_of (placed base arts) ++ fs
         \<and> fr_written r = List.map (\<lambda>k. base @ ''/'' @ k) (missing base fs arts)
         \<and> fr_adr_count r = length (filter (\<lambda>k. starts_with k ADR_DIRECTORY) (missing base fs arts)))
    \<and> (\<forall>p. fs p \<noteq> None \<longrightarrow> fs' p = fs p)
    \<and> set (fr_written r) = {p. fs p = None \<and> fs' p \<noteq> None}"
proof -
  obtain arts where g: "generate_artifacts today s = Inr arts"
    and w: "write_loop base False arts \<lparr>fr_written = [], fr_adr_count = 0\<rparr> fs = (r, fs')"
    using write_artifactsD [OF assms] by blast
  note spec = write_loop_spec [OF artifacts_distinct [OF g], of base "\<lparr>fr_written = [], fr_adr_count = 0\<rparr>" fs,
      unfolded w, simplified]
  have "is_complete (ds_draft s)"
    using g by (simp add: generate_artifacts_def split: if_splits)
  moreover have "set (fr_written r) = {p. fs p = None \<and> fs' p \<noteq> None}"
  proof -
    have "fs p = None \<and> fs' p \<noteq> None \<longleftrightarrow> p \<in> set (fr_written r)" for p
    proof (cases "fs p")
      case None
      then have "fs' p = None \<longleftrightarrow> (\<forall>k \<in> set (List.map fst arts). p \<noteq> base @ ''/'' @ k)"
        unfolding placed_None [symmetric] by (simp add: spec(3) map_add_def)
      with None show ?thesis
        by (auto simp: spec(1) missing_def)
    next
      case (Some y)
      then show ?thesis by (auto simp: spec(1) missing_def)
    qed
    then show ?thesis by blast
  qed
  moreover have "fs p \<noteq> None \<Longrightarrow> fs' p = fs p" for p
    by (auto simp: spec(3))
  ultimately show ?thesis
    using g spec by auto
qed

definition demo_ready :: discussion where
  "demo_ready = (demo_discussion [(demo_decision ''a'')\<lparr>dc_status := ACCEPTED, dc_requires_adr := False\<rparr>])
     \<lparr>ds_draft := \<lparr>pd_session_id = ''session-1'', pd_product = C_SUFFICIENT, pd_architecture = C_SUFFICIENT,
        pd_ux = C_SUFFICIENT, pd_data = C_SUFFICIENT, pd_security = C_SUFFICIENT, pd_quality = C_SUFFICIENT,
        pd_operations = C_SUFFICIENT, pd_ai_orchestration = C_SUFFICIENT, pd_roadmap = C_SUFFICIENT\<rparr>\<rparr>"

theorem finalization_never_overwrites_witness:
  "\<exists>r fs'. write_artifacts ''2026-01-01'' demo_ready ''/p'' False (\<lambda>_. None) = Inr (r, fs')
     \<and> set (fr_written r) = {p. fs' p \<noteq> None} \<and> fs' (''/p/'' @ DECISION_LOG) \<noteq> None"
proof -
  let ?arts = "[(DECISION_LOG, render_ledger ''2026-01-01'' (accepted_of demo_ready) demo_ready)]"
  have g: "generate_artifacts ''2026-01-01'' demo_ready = Inr ?arts"
    by (simp add: generate_artifacts_def is_complete_def draft_domains_def adr_artifacts_def accepted_of_def
        demo_ready_def demo_ledger_defs enumerate_eq_zip dict_update_def)
  let ?r = "\<lparr>fr_written = [''/p/'' @ DECISION_LOG], fr_adr_count = 0\<rparr>"
  let ?fs = "[''/p/'' @ DECISION_LOG \<mapsto> render_ledger ''2026-01-01'' (accepted_of demo_ready) demo_ready]"
  have w: "write_artifacts ''2026-01-01'' demo_ready ''/p'' False (\<lambda>_. None) = Inr (?r, ?fs)"
    by (simp add: write_artifacts_def g Let_def starts_with_def DECISION_LOG_def ADR_DIRECTORY_def)
  have "set (fr_written ?r) = {p. ?fs p \<noteq> None}"
    using finalization_never_overwrites [OF w] by simp
  with w show ?thesis by auto
qed

text \<open>Finalizing again writes nothing.\<close>

lemma refinalizing_writes_nothing:
  assumes "write_artifacts today s base False fs = Inr (r, fs')"
  shows "\<exists>r'. write_artifacts today s base False fs' = Inr (r', fs') \<and> fr_written r' = [] \<and> fr_adr_count r' = 0"
proof -
  obtain arts where g: "generate_artifacts today s = Inr arts"
    and w: "write_loop base False arts \<lparr>fr_written = [], fr_adr_count = 0\<rparr> fs = (r, fs')"
    using write_artifactsD [OF assms] by blast
  note spec = write_loop_spec [OF artifacts_distinct [OF g], of base "\<lparr>fr_written = [], fr_adr_count = 0\<rparr>", simplified]
  have fs': "fs' = map_of (placed base arts) ++ fs"
    using spec(3) [of fs] w by simp
  have "missing base fs' arts = []"
    using placed_None [of base arts] by (auto simp: missing_def fs' filter_empty_conv)
  moreover have "map_of (placed base arts) ++ fs' = fs'"
    by (auto simp: fs' map_add_def fun_eq_iff split: option.splits)
  ultimately show ?thesis
    using spec [of fs']
    by (cases "write_loop base False arts \<lparr>fr_written = [], fr_adr_count = 0\<rparr> fs'")
      (simp add: write_artifacts_def g)
qed

end
