(* ===== verification/DiscussStore.thy ===== *)
theory DiscussStore
  imports Discuss Persistence
begin

text \<open>
  Durable storage for discussions (\<open>discuss/store.py\<close>) and the HTTP routes over it (\<open>api/routes.py\<close>,
  lines 671 to 799). The state adds the four tables to the database; every statement is a step of its
  own, as in the code, so a failure in the middle of \<open>save_session\<close> leaves what was written before
  it. The lists a row keeps as JSON text are kept as lists. The routes get a request as arguments; the
  check that a reference is a file of the project is the parameter \<open>valid_ref\<close>.
\<close>

record header =
  hd_id :: string
  hd_project_id :: string
  hd_title :: string
  hd_started_at :: string

record stored_message =
  sm_session_id :: string
  sm_message :: message

record stored_ledger_decision =
  sl_session_id :: string
  sl_decision :: decision

record stored_draft =
  sf_session_id :: string
  sf_domains :: "completeness list"

record discuss_db = db +
  discussions :: "header list"
  discussion_messages :: "stored_message list"
  decisions :: "stored_ledger_decision list"
  project_drafts :: "stored_draft list"

type_synonym ('z, 'a) discuss_act = "('z discuss_db_scheme, exn, 'a) act"

abbreviation message_key :: "stored_message \<Rightarrow> string" where
  "message_key m \<equiv> msg_id (sm_message m)"

abbreviation decision_key :: "stored_ledger_decision \<Rightarrow> string" where
  "decision_key d \<equiv> dc_id (sl_decision d)"

section \<open>Writing\<close>

definition save_message :: "string \<Rightarrow> message \<Rightarrow> ('z, unit) discuss_act" where
  "save_message i m = execute (\<lambda>s.
     if has_row hd_id i (discussions s)
     then Inr (s\<lparr>discussion_messages := upsert message_key \<lparr>sm_session_id = i, sm_message = m\<rparr>
            (discussion_messages s)\<rparr>)
     else Inl (IntegrityError ''FOREIGN KEY constraint failed''))"

definition save_decision :: "string \<Rightarrow> decision \<Rightarrow> ('z, unit) discuss_act" where
  "save_decision i d = execute (\<lambda>s.
     if has_row hd_id i (discussions s)
     then Inr (s\<lparr>decisions := upsert decision_key \<lparr>sl_session_id = i, sl_decision = d\<rparr> (decisions s)\<rparr>)
     else Inl (IntegrityError ''FOREIGN KEY constraint failed''))"

definition draft_values :: "draft \<Rightarrow> completeness list" where
  "draft_values d = List.map snd (draft_domains d)"

definition save_draft :: "string \<Rightarrow> draft \<Rightarrow> ('z, unit) discuss_act" where
  "save_draft i d = execute (\<lambda>s. Inr (s\<lparr>project_drafts :=
     upsert sf_session_id \<lparr>sf_session_id = i, sf_domains = draft_values d\<rparr> (project_drafts s)\<rparr>))"

definition header_of :: "discussion \<Rightarrow> header" where
  "header_of s = \<lparr>hd_id = ds_id s, hd_project_id = ds_project_id s, hd_title = ds_title s,
     hd_started_at = ds_started_at s\<rparr>"

definition save_session :: "discussion \<Rightarrow> ('z, unit) discuss_act" where
  "save_session d =
     bindE (execute (\<lambda>s. Inr (s\<lparr>discussions := upsert hd_id (header_of d) (discussions s)\<rparr>))) (\<lambda>_.
     bindE (forE (ds_messages d) (save_message (ds_id d))) (\<lambda>_.
     bindE (forE (ds_decisions d) (save_decision (ds_id d))) (\<lambda>_.
     save_draft (ds_id d) (ds_draft d))))"

section \<open>Reading\<close>

definition load_messages :: "string \<Rightarrow> ('z, message list) discuss_act" where
  "load_messages i = query (\<lambda>s. List.map sm_message
     (order_by (\<lambda>m. msg_timestamp (sm_message m)) (filter (\<lambda>m. sm_session_id m = i) (discussion_messages s))))"

definition load_decisions :: "string \<Rightarrow> ('z, decision list) discuss_act" where
  "load_decisions i = query (\<lambda>s. List.map sl_decision
     (order_by (\<lambda>d. dc_timestamp (sl_decision d)) (filter (\<lambda>d. sl_session_id d = i) (decisions s))))"

definition draft_of_values :: "string \<Rightarrow> completeness list \<Rightarrow> draft" where
  "draft_of_values i cs = \<lparr>pd_session_id = i, pd_product = cs ! 0, pd_architecture = cs ! 1, pd_ux = cs ! 2,
     pd_data = cs ! 3, pd_security = cs ! 4, pd_quality = cs ! 5, pd_operations = cs ! 6,
     pd_ai_orchestration = cs ! 7, pd_roadmap = cs ! 8\<rparr>"

definition load_draft :: "string \<Rightarrow> ('z, draft) discuss_act" where
  "load_draft i = query (\<lambda>s. case row_by sf_session_id i (project_drafts s) of
       None \<Rightarrow> unknown_draft i
     | Some r \<Rightarrow> draft_of_values i (sf_domains r))"

definition load_session :: "string \<Rightarrow> ('z, discussion option) discuss_act" where
  "load_session i =
     bindE (query (\<lambda>s. row_by hd_id i (discussions s))) (\<lambda>h.
       case h of
         None \<Rightarrow> ret None
       | Some h \<Rightarrow>
           bindE (load_messages i) (\<lambda>ms. bindE (load_decisions i) (\<lambda>ds. bindE (load_draft i) (\<lambda>d.
             ret (Some \<lparr>ds_id = hd_id h, ds_project_id = hd_project_id h, ds_title = hd_title h,
               ds_messages = ms, ds_decisions = ds, ds_draft = d, ds_started_at = hd_started_at h\<rparr>)))))"

definition list_sessions :: "string option \<Rightarrow> ('z, string list) discuss_act" where
  "list_sessions project = query (\<lambda>s. List.map hd_id (order_by_desc hd_started_at
     (case project of None \<Rightarrow> discussions s
      | Some p \<Rightarrow> filter (\<lambda>h. hd_project_id h = p) (discussions s))))"

definition accepted_decisions :: "string \<Rightarrow> ('z, decision list) discuss_act" where
  "accepted_decisions i =
     bindE (load_decisions i) (\<lambda>ds. ret (filter (\<lambda>d. dc_status d = ACCEPTED) ds))"

section \<open>Routes\<close>

definition unknown_discussion :: "string \<Rightarrow> exn" where
  "unknown_discussion i = HTTPException 404 (''Unknown discussion: '' @ i)"

definition create_discussion :: "string \<Rightarrow> ('z, string) discuss_act" where
  "create_discussion project =
     bindE (mk_discussion project []) (\<lambda>d. bindE (save_session d) (\<lambda>_. ret (ds_id d)))"

definition loaded :: "string \<Rightarrow> ('z, discussion) discuss_act" where
  "loaded i = bindE (load_session i) (\<lambda>s.
     case s of None \<Rightarrow> throw (unknown_discussion i) | Some s \<Rightarrow> ret s)"

definition get_discussion :: "string \<Rightarrow> ('z, discussion) discuss_act" where
  "get_discussion i = loaded i"

definition add_message ::
  "(message_reference \<Rightarrow> exn + message_reference) \<Rightarrow> string \<Rightarrow> string \<Rightarrow> string \<Rightarrow> message_reference list
     \<Rightarrow> ('z, message) discuss_act" where
  "add_message valid_ref i content turn refs =
     bindE (loaded i) (\<lambda>_.
     bindE (forE refs (\<lambda>r s. (valid_ref r, s))) (\<lambda>refs'.
     bindE (mk_message content turn refs') (\<lambda>m.
     bindE (save_message i m) (\<lambda>_. ret m))))"

definition propose_decision ::
  "string \<Rightarrow> string \<Rightarrow> string \<Rightarrow> string \<Rightarrow> string list \<Rightarrow> bool \<Rightarrow> ('z, decision) discuss_act" where
  "propose_decision i title statement rationale domains adr =
     bindE (loaded i) (\<lambda>d.
     bindE (mk_decision title statement rationale [] domains adr) (\<lambda>c.
       case propose d c of
         Inl e \<Rightarrow> throw e
       | Inr _ \<Rightarrow> bindE (save_decision i c) (\<lambda>_. ret c)))"

text \<open>\<open>str(exc)\<close> of the two exceptions \<open>accept\<close> raises: a \<open>KeyError\<close> prints the repr of its argument.\<close>

fun exn_text :: "(string \<Rightarrow> string) \<Rightarrow> exn \<Rightarrow> string" where
  "exn_text repr (KeyError m) = repr m"
| "exn_text repr (ValueError m) = m"
| "exn_text repr e = []"

definition accept_decision :: "(string \<Rightarrow> string) \<Rightarrow> string \<Rightarrow> string \<Rightarrow> ('z, decision) discuss_act" where
  "accept_decision repr i dec =
     bindE (loaded i) (\<lambda>d.
       case accept d dec of
         Inl (KeyError m) \<Rightarrow> throw (HTTPException 404 (exn_text repr (KeyError m)))
       | Inl (ValueError m) \<Rightarrow> throw (HTTPException 409 (exn_text repr (ValueError m)))
       | Inl e \<Rightarrow> throw e
       | Inr (x, d') \<Rightarrow> bindE (save_decision i x) (\<lambda>_. ret x))"

definition finalize_discussion ::
  "bool \<Rightarrow> string \<Rightarrow> string \<Rightarrow> files \<Rightarrow> string \<Rightarrow> bool
     \<Rightarrow> ('z, string list \<times> nat \<times> string \<times> files) discuss_act" where
  "finalize_discussion can_plan today base fs i overwrite =
     (if \<not> can_plan then throw (HTTPException 409 ''can_plan is unavailable'')
      else bindE (loaded i) (\<lambda>d.
        let report = analyze d in
        if \<not> ry_ready report then throw (HTTPException 409 (readiness_summary report))
        else case write_artifacts today d base overwrite fs of
            Inl e \<Rightarrow> throw e
          | Inr (r, fs') \<Rightarrow> ret (fr_written r, fr_adr_count r, readiness_summary report, fs')))"

section \<open>A saved session comes back\<close>



lemma query_open: "db_open s \<Longrightarrow> query f s = (Inr (f s), s)"
  by (simp add: query_def require_conn_def bindE_def gets_def)



definition saved :: "discussion \<Rightarrow> 'z discuss_db_scheme \<Rightarrow> 'z discuss_db_scheme" where
  "saved d s = s\<lparr>
     discussions := upsert hd_id (header_of d) (discussions s),
     discussion_messages := fold (upsert message_key)
       (List.map (\<lambda>m. \<lparr>sm_session_id = ds_id d, sm_message = m\<rparr>) (ds_messages d)) (discussion_messages s),
     decisions := fold (upsert decision_key)
       (List.map (\<lambda>x. \<lparr>sl_session_id = ds_id d, sl_decision = x\<rparr>) (ds_decisions d)) (decisions s),
     project_drafts := upsert sf_session_id
       \<lparr>sf_session_id = ds_id d, sf_domains = draft_values (ds_draft d)\<rparr> (project_drafts s)\<rparr>"






definition empty_discuss_db :: "discuss_db" where
  "empty_discuss_db = \<lparr>uuid_hex = (\<lambda>n. replicate n (CHR ''a'')), clock_iso = (\<lambda>_. ''2026''), draws = 0, ticks = 0,
     db_open = True, listeners = [], delivered = [], runs = [], tasks = [], attempts = [], events = [],
     evidence_rows = [], plans = [], discussions = [], discussion_messages = [], decisions = [],
     project_drafts = []\<rparr>"


section \<open>The routes as a system\<close>

text \<open>
  The requests of a client, with their arguments. \<open>api_step s t\<close>: one request takes the database from
  \<open>s\<close> to \<open>t\<close>, whatever it answers; the process may also mint identifiers and read the clock in
  between.
\<close>

inductive api_step :: "'z discuss_db_scheme \<Rightarrow> 'z discuss_db_scheme \<Rightarrow> bool" where
  creates: "api_step s (snd (create_discussion p s))"
| messages: "api_step s (snd (add_message v i c t rs s))"
| proposals: "api_step s (snd (propose_decision i ti st ra dm adr s))"
| acceptances: "api_step s (snd (accept_decision repr i dec s))"
| finals: "api_step s (snd (finalize_discussion cp today base fs i ov s))"

definition drafts_unknown :: "'z discuss_db_scheme \<Rightarrow> bool" where
  "drafts_unknown s \<longleftrightarrow> (\<forall>r \<in> set (project_drafts s). sf_domains r = replicate 9 C_UNKNOWN)"

lemma pres_execute_drafts:
  "(\<And>s s'. st s = Inr s' \<Longrightarrow> project_drafts s' = project_drafts s) \<Longrightarrow> preserves drafts_unknown (execute st)"
  by (auto simp: preserves_def execute_def require_conn_def bindE_def drafts_unknown_def split: sum.split)

lemma pres_query_any: "preserves I (query f)"
  by (auto simp: preserves_def query_def require_conn_def bindE_def gets_def)

lemma drafts_save [pres]:
  "preserves drafts_unknown (save_message i m)" "preserves drafts_unknown (save_decision i d)"
  unfolding save_message_def save_decision_def
  by (rule pres_execute_drafts; auto split: if_splits)+

lemma drafts_save_session:
  assumes "draft_values (ds_draft d) = replicate 9 C_UNKNOWN"
  shows "preserves drafts_unknown (save_session d)"
proof -
  have "preserves drafts_unknown (save_draft (ds_id d) (ds_draft d))"
    by (auto simp: preserves_def save_draft_def execute_def require_conn_def bindE_def drafts_unknown_def
        assms set_upsert)
  moreover have "preserves drafts_unknown (execute (\<lambda>s. Inr (s\<lparr>discussions := upsert hd_id (header_of d) (discussions s)\<rparr>)))"
    by (rule pres_execute_drafts) auto
  ultimately show ?thesis
    unfolding save_session_def by (intro pres)
qed

lemma drafts_counters [pres]:
  "preserves drafts_unknown now_iso" "preserves drafts_unknown (new_id p)" "preserves drafts_unknown (new_short_id p)"
  by (auto simp: preserves_def now_iso_def new_id_def new_short_id_def drafts_unknown_def)

lemma drafts_load [pres]: "preserves drafts_unknown (loaded i)"
  unfolding loaded_def load_session_def load_messages_def load_decisions_def load_draft_def
  by (intro pres pres_query_any)

lemma drafts_mk [pres]: "preserves drafts_unknown (mk_message c t rs)"
  "preserves drafts_unknown (mk_decision ti st ra so dm adr)"
  unfolding mk_message_def mk_decision_def by (intro pres)+

lemma drafts_create [pres]: "preserves drafts_unknown (create_discussion p)"
  unfolding create_discussion_def mk_discussion_def bindE_assoc bindE_ret
  by (intro pres drafts_save_session)
    (simp add: draft_values_def draft_domains_def unknown_draft_def eval_nat_numeral)

lemma pres_pure: "preserves I (\<lambda>s. (f, s))"
  by (simp add: preserves_def)

lemma api_keeps_drafts:
  assumes "api_step s t" and "drafts_unknown s"
  shows "drafts_unknown t"
  using assms(1)
proof cases
  case (creates p)
  with assms(2) show ?thesis by (auto intro: preservesD pres)
next
  case (messages v i c t' rs)
  have "preserves drafts_unknown (add_message v i c t' rs)"
    unfolding add_message_def by (intro pres pres_pure)
  with messages assms(2) show ?thesis by (auto intro: preservesD)
next
  case (proposals i ti st ra dm adr)
  have "preserves drafts_unknown (propose_decision i ti st ra dm adr)"
    unfolding propose_decision_def by (intro pres) (auto split: sum.split intro!: pres)
  with proposals assms(2) show ?thesis by (auto intro: preservesD)
next
  case (acceptances repr i dec)
  have "preserves drafts_unknown (accept_decision repr i dec)"
    unfolding accept_decision_def by (intro pres) (auto split: sum.split exn.split intro!: pres)
  with acceptances assms(2) show ?thesis by (auto intro: preservesD)
next
  case (finals cp today base fs i ov)
  have "preserves drafts_unknown (finalize_discussion cp today base fs i ov)"
    unfolding finalize_discussion_def Let_def by (intro pres) (auto split: sum.split intro!: pres)
  with finals assms(2) show ?thesis by (auto intro: preservesD)
qed

lemma query_OkD: "query f s = (Inr x, s') \<Longrightarrow> x = f s \<and> s' = s"
  by (auto simp: query_def require_conn_def bindE_def gets_def split: if_splits)

lemma load_draft_unknown:
  assumes "drafts_unknown s" and "load_draft i s = (Inr d, s')"
  shows "d = unknown_draft i"
proof (cases "row_by sf_session_id i (project_drafts s)")
  case (Some r)
  then have "sf_domains r = replicate 9 C_UNKNOWN"
    using assms(1) row_by_in [OF Some] by (auto simp: drafts_unknown_def)
  with Some assms(2) show ?thesis
    by (auto simp: load_draft_def draft_of_values_def unknown_draft_def eval_nat_numeral dest!: query_OkD)
qed (use assms(2) in \<open>auto simp: load_draft_def dest!: query_OkD\<close>)

lemma loadedD:
  assumes "loaded i s = (Inr d, s')"
  shows "s' = s \<and> load_draft i s = (Inr (ds_draft d), s) \<and> load_decisions i s = (Inr (ds_decisions d), s)"
  using assms
  unfolding loaded_def load_session_def load_messages_def load_decisions_def load_draft_def
  by (auto elim!: bindE_OkE dest!: query_OkD simp: ret_def throw_def query_def bindE_def gets_def
      require_conn_def split: option.splits if_splits prod.splits)

inductive api_reach :: "'z discuss_db_scheme \<Rightarrow> 'z discuss_db_scheme \<Rightarrow> bool" where
  api_start: "api_reach s s"
| api_more: "api_reach s t \<Longrightarrow> api_step t u \<Longrightarrow> api_reach s u"

lemma api_reach_drafts: "api_reach s t \<Longrightarrow> drafts_unknown s \<Longrightarrow> drafts_unknown t"
  by (induction rule: api_reach.induct) (auto intro: api_keeps_drafts)

text \<open>No route writes a draft's domains after the discussion is created, so whatever a client of the
  HTTP interface does, the finalize route refuses every discussion and leaves the files alone.\<close>

theorem finalize_route_never_ready:
  assumes "api_reach s0 s" and "project_drafts s0 = []"
  shows "\<exists>e. fst (finalize_discussion can_plan today base fs i overwrite s) = Inl e"
proof -
  have u: "drafts_unknown s"
    using api_reach_drafts [OF assms(1)] assms(2) by (simp add: drafts_unknown_def)
  show ?thesis
  proof (cases "loaded i s")
    case (Pair r s')
    show ?thesis
    proof (cases r)
      case (Inr d)
      with Pair have "ds_draft d = unknown_draft i"
        using load_draft_unknown [OF u] loadedD by blast
      then have "\<not> ry_ready (analyze d)"
        by (simp add: analyze_def is_complete_def draft_domains_def unknown_draft_def)
      with Pair Inr show ?thesis
        by (simp add: finalize_discussion_def bindE_def Let_def throw_def)
    qed (use Pair in \<open>simp add: finalize_discussion_def bindE_def throw_def\<close>)
  qed
qed

theorem finalize_route_never_ready_witness:
  "\<exists>e. fst (finalize_discussion True ''2026-01-01'' ''/p'' (\<lambda>_. None) ''session-'' False
     (snd (create_discussion ''p'' empty_discuss_db))) = Inl e"
  by (rule finalize_route_never_ready [OF api_more [OF api_start creates]]) (simp add: empty_discuss_db_def)

section \<open>Accepting\<close>

lemma load_decisions_open:
  "db_open s \<Longrightarrow> load_decisions i s = (Inr (List.map sl_decision
     (order_by (\<lambda>d. dc_timestamp (sl_decision d)) (filter (\<lambda>d. sl_session_id d = i) (decisions s)))), s)"
  by (simp add: load_decisions_def query_open)

lemma accept_routeD:
  assumes "accept_decision repr i dec s = (Inr x, s')"
  shows "\<exists>d x0. loaded i s = (Inr d, s) \<and> find (\<lambda>d. dc_id d = dec) (ds_decisions d) = Some x0
    \<and> dc_status x0 = PROPOSED \<and> x = x0\<lparr>dc_status := ACCEPTED\<rparr> \<and> save_decision i x s = (Inr (), s')"
proof -
  from assms obtain d s1 where l: "loaded i s = (Inr d, s1)"
    and c: "(case accept d dec of
         Inl (KeyError m) \<Rightarrow> throw (HTTPException 404 (exn_text repr (KeyError m)))
       | Inl (ValueError m) \<Rightarrow> throw (HTTPException 409 (exn_text repr (ValueError m)))
       | Inl e \<Rightarrow> throw e
       | Inr (x, d') \<Rightarrow> bindE (save_decision i x) (\<lambda>_. ret x)) s1 = (Inr x, s')"
    unfolding accept_decision_def by (elim bindE_OkE)
  from loadedD [OF l] have s1: "s1 = s" by simp
  from c obtain d' where a: "accept d dec = Inr (x, d')" and sv: "save_decision i x s = (Inr (), s')"
    unfolding s1 by (auto simp: throw_def bindE_def ret_def split: sum.splits exn.splits prod.splits)
  from a have "\<exists>x0. find (\<lambda>d. dc_id d = dec) (ds_decisions d) = Some x0 \<and> dc_status x0 = PROPOSED
      \<and> x = x0\<lparr>dc_status := ACCEPTED\<rparr>"
    by (auto simp: accept_def dest: find_decision_OkD split: sum.splits if_splits)
  with l s1 sv show ?thesis by blast
qed

lemma find_in_unique:
  assumes "r \<in> set xs" and "\<And>y. y \<in> set xs \<Longrightarrow> key y = key r \<Longrightarrow> y = r"
  shows "find (\<lambda>y. key y = key r) xs = Some r"
  using assms by (induction xs) auto

lemma loaded_total:
  assumes "db_open s" and "row_by hd_id i (discussions s) = Some h"
  shows "\<exists>d. loaded i s = (Inr d, s) \<and> ds_decisions d = List.map sl_decision
     (order_by (\<lambda>d. dc_timestamp (sl_decision d)) (filter (\<lambda>d. sl_session_id d = i) (decisions s)))"
  using assms
  by (simp add: loaded_def load_session_def query_open bindE_def load_messages_def load_decisions_def
      load_draft_def ret_def)

text \<open>A decision is accepted once: after the accept route has answered with a decision, that
  decision is stored as \<open>ACCEPTED\<close> under its session, and the same request again is a conflict (409).\<close>

theorem accept_route_once:
  assumes "accept_decision repr i dec s = (Inr x, s')"
    and "keys_distinct decision_key (decisions s)" and "row_by hd_id i (discussions s) \<noteq> None"
  shows "dc_status x = ACCEPTED \<and> dc_id x = dec
    \<and> row_by decision_key dec (decisions s') = Some \<lparr>sl_session_id = i, sl_decision = x\<rparr>
    \<and> (\<exists>m. accept_decision repr i dec s' = (Inl (HTTPException 409 m), s'))"
proof -
  from accept_routeD [OF assms(1)] obtain d x0 where
    "loaded i s = (Inr d, s)" and f: "find (\<lambda>d. dc_id d = dec) (ds_decisions d) = Some x0"
    and "dc_status x0 = PROPOSED" and x1: "x = x0\<lparr>dc_status := ACCEPTED\<rparr>"
    and sv: "save_decision i x s = (Inr (), s')"
    by (elim exE conjE) (rule that)
  have x: "dc_id x = dec" "dc_status x = ACCEPTED"
    using find_SomeD [OF f] by (simp_all add: x1)
  let ?r = "\<lparr>sl_session_id = i, sl_decision = x\<rparr>"
  have o: "db_open s" and s': "s' = s\<lparr>decisions := upsert decision_key ?r (decisions s)\<rparr>"
    using sv by (auto simp: save_decision_def execute_def require_conn_def bindE_def split: if_splits)
  have k: "keys_distinct decision_key (decisions s')"
    using distinct_upsert [OF assms(2), of ?r] by (simp add: s')
  have r: "?r \<in> set (decisions s')"
    by (simp add: s' set_upsert)
  obtain h where h: "row_by hd_id i (discussions s') = Some h"
    using assms(3) by (auto simp: s')
  obtain d' where l: "loaded i s' = (Inr d', s')"
    and ds: "ds_decisions d' = List.map sl_decision
      (order_by (\<lambda>d. dc_timestamp (sl_decision d)) (filter (\<lambda>d. sl_session_id d = i) (decisions s')))"
    using loaded_total [OF _ h] o by (auto simp: s')
  have "find (\<lambda>d. dc_id d = dc_id x) (ds_decisions d') = Some x"
  proof (rule find_in_unique)
    have mem: "y \<in> set (ds_decisions d') \<longleftrightarrow> \<lparr>sl_session_id = i, sl_decision = y\<rparr> \<in> set (decisions s')" for y
      unfolding ds by (auto simp: image_iff) (metis stored_ledger_decision.surjective old.unit.exhaust)+
    show "x \<in> set (ds_decisions d')"
      using r by (simp add: mem)
    show "y = x" if "y \<in> set (ds_decisions d')" and "dc_id y = dc_id x" for y
      using inj_onD [OF conjunct1 [OF keys_distinct_inj [OF k]], of "\<lparr>sl_session_id = i, sl_decision = y\<rparr>" ?r]
        that r by (simp add: mem)
  qed
  then have "accept d' dec = Inl (ValueError (''Cannot accept decision '' @ dec @ '' in state '' @ decision_state_str ACCEPTED))"
    using x by (simp add: accept_def find_decision_def)
  then have "\<exists>m. accept_decision repr i dec s' = (Inl (HTTPException 409 m), s')"
    by (simp add: accept_decision_def l bindE_def throw_def)
  moreover have "row_by decision_key dec (decisions s') = Some ?r"
    using x by (simp add: s' row_by_upsert)
  ultimately show ?thesis
    using x by simp
qed

definition demo_proposed_db :: discuss_db where
  "demo_proposed_db = saved (demo_discussion [demo_decision ''a'']) empty_discuss_db"

theorem accept_route_once_witness:
  "\<exists>x s'. accept_decision (\<lambda>s. s) ''session-1'' ''a'' demo_proposed_db = (Inr x, s') \<and> dc_status x = ACCEPTED
     \<and> (\<exists>m. accept_decision (\<lambda>s. s) ''session-1'' ''a'' s' = (Inl (HTTPException 409 m), s'))"
proof -
  let ?x = "(demo_decision ''a'')\<lparr>dc_status := ACCEPTED\<rparr>"
  let ?s = "demo_proposed_db\<lparr>decisions := [\<lparr>sl_session_id = ''session-1'', sl_decision = ?x\<rparr>]\<rparr>"
  have a: "accept_decision (\<lambda>s. s) ''session-1'' ''a'' demo_proposed_db = (Inr ?x, ?s)"
    by (simp add: accept_decision_def loaded_def load_session_def load_messages_def load_decisions_def load_draft_def
      query_def require_conn_def bindE_def gets_def ret_def demo_proposed_db_def saved_def empty_discuss_db_def
      demo_ledger_defs header_of_def upsert_def row_by_def order_by_def accept_def find_decision_def
      save_decision_def execute_def has_row_def)
  have "keys_distinct decision_key (decisions demo_proposed_db)"
    "row_by hd_id ''session-1'' (discussions demo_proposed_db) \<noteq> None"
    by (simp_all add: demo_proposed_db_def saved_def empty_discuss_db_def demo_ledger_defs upsert_def
      keys_distinct_def row_by_def header_of_def)
  from accept_route_once [OF a this] a show ?thesis by blast
qed

end
