(* ===== verification/ProjectFiles.thy ===== *)
theory ProjectFiles
  imports DocSite DiscussStore Adaptation
begin

text \<open>
  The routes that show a project's files and documents (\<open>api/routes.py\<close>), the check of a message's
  references, and the search for the project (\<open>api/app.py\<close>). The file system is its entries with
  their bytes and \<open>Path.resolve\<close>; decoding UTF-8 is a parameter. Paths hold no null character.
\<close>

section \<open>Files\<close>

text \<open>\<open>en_file\<close> is \<open>is_file\<close>, which follows a link; \<open>en_bytes\<close> is missing when reading fails, \<open>en_size\<close>
  when \<open>stat\<close> does.\<close>

record fs_entry =
  en_path :: "string list"
  en_symlink :: bool
  en_file :: bool
  en_bytes :: "string option"
  en_size :: "int option"

record file_system =
  fs_root :: "string list"
  fs_resolve :: "string list \<Rightarrow> string list"
  fs_entries :: "fs_entry list"

definition fs_entry_at :: "file_system \<Rightarrow> string list \<Rightarrow> fs_entry option" where
  "fs_entry_at fs p = find (\<lambda>e. en_path e = p) (fs_entries fs)"

definition fs_is_file :: "file_system \<Rightarrow> string list \<Rightarrow> bool" where
  "fs_is_file fs p = (case fs_entry_at fs p of None \<Rightarrow> False | Some e \<Rightarrow> en_file e)"

definition fs_is_symlink :: "file_system \<Rightarrow> string list \<Rightarrow> bool" where
  "fs_is_symlink fs p = (case fs_entry_at fs p of None \<Rightarrow> False | Some e \<Rightarrow> en_symlink e)"

definition fs_bytes :: "file_system \<Rightarrow> string list \<Rightarrow> string option" where
  "fs_bytes fs p = (case fs_entry_at fs p of None \<Rightarrow> None | Some e \<Rightarrow> en_bytes e)"

text \<open>\<open>base / target\<close> and \<open>SecurityGuard.validate_path\<close>.\<close>

definition joined :: "string list \<Rightarrow> string \<Rightarrow> string list" where
  "joined base target = (if is_absolute target then tl (parts_of target) else base @ parts_of target)"

definition validate_path :: "file_system \<Rightarrow> string list \<Rightarrow> string \<Rightarrow> exn + string list" where
  "validate_path fs base target =
     (let resolved = fs_resolve fs (joined base target)
      in if prefix (fs_resolve fs base) resolved then Inr resolved
         else Inl (SecurityError (''Path traversal blocked: '' @ target @ '' escapes '' @ path_text base)))"

text \<open>\<open>Path.suffix\<close> and \<open>Path.stem\<close> of a name.\<close>

definition suffix_of :: "string \<Rightarrow> string" where
  "suffix_of name =
     (let ext = rev (takeWhile (\<lambda>c. c \<noteq> CHR ''.'') (rev name))
      in if ext = [] \<or> length name \<le> length ext + 1 then [] else CHR ''.'' # ext)"

definition stem_of :: "string \<Rightarrow> string" where
  "stem_of name = take (length name - length (suffix_of name)) name"

definition looks_binary :: "file_system \<Rightarrow> string list \<Rightarrow> bool" where
  "looks_binary fs p = (case fs_bytes fs p of None \<Rightarrow> True | Some b \<Rightarrow> CHR 0x00 \<in> set (take 4096 b))"

definition IGNORED_PARTS :: "string list" where
  "IGNORED_PARTS = [''.git'', ''.atlas-flow'', ''node_modules'', ''dist'', ''build'', ''target'']"

definition SECRET_NAMES :: "string list" where
  "SECRET_NAMES = [''.env'', ''.env.local'', ''.envrc'']"

definition hidden_path :: "string list \<Rightarrow> string list \<Rightarrow> bool" where
  "hidden_path base p \<longleftrightarrow>
     list_ex (\<lambda>part. part \<in> set IGNORED_PARTS) (drop (length base) p) \<or> last p \<in> set SECRET_NAMES"

record file_view =
  fv_path :: string
  fv_kind :: string
  fv_size :: int

text \<open>The loop of \<open>list_project_files\<close>: it stops after the entry that fills the list.\<close>

fun list_loop :: "file_system \<Rightarrow> string list \<Rightarrow> fs_entry list \<Rightarrow> file_view list \<Rightarrow> file_view list" where
  "list_loop fs base [] views = views"
| "list_loop fs base (e # es) views =
     (let relative = drop (length base) (en_path e)
      in if \<not> en_file e \<or> en_symlink e \<or> hidden_path base (en_path e) then list_loop fs base es views
         else case en_size e of
           None \<Rightarrow> list_loop fs base es views
         | Some n \<Rightarrow>
             let views' = views @ [\<lparr>fv_path = join ''/'' relative,
                   fv_kind = (if looks_binary fs (en_path e) then ''binary'' else ''text''), fv_size = n\<rparr>]
             in if 500 \<le> length views' then views' else list_loop fs base es views')"

text \<open>\<open>sorted(base.rglob(pattern))\<close>, with what the pattern says of the name.\<close>

definition found_below :: "file_system \<Rightarrow> string list \<Rightarrow> (string \<Rightarrow> bool) \<Rightarrow> fs_entry list" where
  "found_below fs base named =
     sort_key en_path (filter (\<lambda>e. strict_prefix base (en_path e) \<and> named (last (en_path e))) (fs_entries fs))"

definition list_project_files :: "file_system \<Rightarrow> file_view list" where
  "list_project_files fs =
     (let base = fs_resolve fs (fs_root fs) in list_loop fs base (found_below fs base (\<lambda>_. True)) [])"

record file_content =
  fc_path :: string
  fc_content :: string
  fc_truncated :: bool

definition get_project_file :: "(string \<Rightarrow> string) \<Rightarrow> file_system \<Rightarrow> string \<Rightarrow> exn + file_content" where
  "get_project_file decode fs file_path =
     (let base = fs_resolve fs (fs_root fs); unknown = Inl (HTTPException 404 ''Unknown project file'')
      in case validate_path fs base file_path of
           Inl _ \<Rightarrow> unknown
         | Inr p \<Rightarrow>
             if \<not> fs_is_file fs p \<or> fs_is_symlink fs p \<or> hidden_path base p then unknown
             else if looks_binary fs p then Inl (HTTPException 415 ''Binary project files are not previewed'')
             else case fs_bytes fs p of
               None \<Rightarrow> Inl (HTTPException 404 ''Could not read project file'')
             | Some raw \<Rightarrow> Inr \<lparr>fc_path = file_path, fc_content = decode (take 512000 raw), fc_truncated = 512000 < length raw\<rparr>)"

section \<open>Documents\<close>

definition DOC_SECTIONS :: "(string \<times> string) list" where
  "DOC_SECTIONS = [(''00-product'', ''Product''), (''01-architecture'', ''Architecture''), (''02-ui-ux'', ''UI/UX''),
     (''03-implementation'', ''Implementation''), (''04-quality'', ''Quality''), (''05-governance'', ''Governance''),
     (''06-user-guide'', ''User guide''), (''07-decisions'', ''Decisions''), (''08-rfcs'', ''RFCs''), (''09-references'', ''References'')]"

record doc_entry =
  de_path :: string
  de_title :: string
  de_section :: string

text \<open>\<open>read_text(encoding="utf-8")\<close>: \<open>utf8\<close> is the strict decoder.\<close>

definition read_text :: "(string \<Rightarrow> string option) \<Rightarrow> file_system \<Rightarrow> string list \<Rightarrow> exn + string" where
  "read_text utf8 fs p =
     (case fs_bytes fs p of
        None \<Rightarrow> Inl (OSError ''cannot read'')
      | Some b \<Rightarrow> (case utf8 b of None \<Rightarrow> Inl (ValueError ''invalid start byte'') | Some t \<Rightarrow> Inr t))"

definition title_of :: "(string \<Rightarrow> string option) \<Rightarrow> file_system \<Rightarrow> string list \<Rightarrow> exn + string" where
  "title_of utf8 fs p =
     map_sum id (\<lambda>text. case find (\<lambda>l. starts_with l ''# '') (splitlines text) of
        Some l \<Rightarrow> strip (drop 2 l) | None \<Rightarrow> stem_of (last p)) (read_text utf8 fs p)"

definition section_title :: "string list \<Rightarrow> string" where
  "section_title relative =
     (let s = (if 1 < length relative then hd relative else ''root'')
      in case map_of DOC_SECTIONS s of Some t \<Rightarrow> t | None \<Rightarrow> s)"

definition docs_dir :: "file_system \<Rightarrow> string list" where
  "docs_dir fs = fs_root fs @ [''docs'']"

fun doc_entries :: "(string \<Rightarrow> string option) \<Rightarrow> file_system \<Rightarrow> fs_entry list \<Rightarrow> exn + doc_entry list" where
  "doc_entries utf8 fs [] = Inr []"
| "doc_entries utf8 fs (e # es) =
     (let relative = drop (length (docs_dir fs)) (en_path e)
      in case title_of utf8 fs (en_path e) of Inl x \<Rightarrow> Inl x | Inr t \<Rightarrow>
         map_sum id (Cons \<lparr>de_path = join ''/'' relative, de_title = t, de_section = section_title relative\<rparr>) (doc_entries utf8 fs es))"

definition list_docs :: "(string \<Rightarrow> string option) \<Rightarrow> file_system \<Rightarrow> exn + doc_entry list" where
  "list_docs utf8 fs = doc_entries utf8 fs (found_below fs (docs_dir fs) (\<lambda>n. ends_with n ''.md''))"

definition get_doc :: "(string \<Rightarrow> string option) \<Rightarrow> file_system \<Rightarrow> string \<Rightarrow> exn + string" where
  "get_doc utf8 fs wanted =
     (let unknown = Inl (HTTPException 404 (''Unknown document: '' @ wanted))
      in case validate_path fs (fs_resolve fs (docs_dir fs)) wanted of
           Inl _ \<Rightarrow> unknown
         | Inr p \<Rightarrow> if p = [] \<or> suffix_of (last p) \<noteq> ''.md'' \<or> \<not> fs_is_file fs p then unknown else read_text utf8 fs p)"

section \<open>References of a message\<close>

definition IMAGE_SUFFIXES :: "string list" where
  "IMAGE_SUFFIXES = [''.png'', ''.jpg'', ''.jpeg'', ''.gif'', ''.webp'', ''.svg'']"

definition validate_message_reference :: "file_system \<Rightarrow> message_reference \<Rightarrow> exn + message_reference" where
  "validate_message_reference fs r =
     (case validate_path fs (fs_root fs) (mr_path r) of
        Inl _ \<Rightarrow> Inl (HTTPException 422 ''Reference path escapes the project'')
      | Inr p \<Rightarrow>
          if \<not> fs_is_file fs p \<or> fs_is_symlink fs p
          then Inl (HTTPException 422 (''Reference is not a project file: '' @ mr_path r))
          else Inr (r\<lparr>mr_kind := (if lower (suffix_of (last p)) \<in> set IMAGE_SUFFIXES then REF_IMAGE else mr_kind r),
                 mr_label := or_str (mr_label r) (last p)\<rparr>))"

section \<open>Finding the project\<close>

text \<open>\<open>_find_project_root\<close>: the override, else the nearest directory above that has a manifest, else the directory itself.\<close>

definition find_project_root :: "file_system \<Rightarrow> string option \<Rightarrow> string list \<Rightarrow> string list" where
  "find_project_root fs override cwd =
     (case override of
        Some (c # cs) \<Rightarrow> fs_resolve fs (joined cwd (c # cs))
      | _ \<Rightarrow> (let here = fs_resolve fs cwd
              in case find (\<lambda>p. fs_is_file fs (p @ [''PROJECT_MANIFEST.yaml''])) (rev (prefixes here)) of
                   Some p \<Rightarrow> p | None \<Rightarrow> here))"

section \<open>What a request can see\<close>

lemma entry_at_Some: "fs_entry_at fs p = Some e \<Longrightarrow> e \<in> set (fs_entries fs) \<and> en_path e = p"
  by (auto simp: fs_entry_at_def dest: find_SomeD)

text \<open>C35. Whatever path a client asks for, a file is shown only if it is one of the project's: what the path resolves to
  lies below the root, outside every ignored directory, is not one of the files that hold secrets, has no
  null byte near its start, and no more than the first 512000 bytes of it are shown.\<close>

theorem file_route_confined:
  assumes "get_project_file decode fs file_path = Inr c"
  shows "\<exists>e \<in> set (fs_entries fs). \<exists>raw. en_path e = fs_resolve fs (joined (fs_resolve fs (fs_root fs)) file_path)
    \<and> prefix (fs_resolve fs (fs_resolve fs (fs_root fs))) (en_path e) \<and> en_file e \<and> \<not> en_symlink e
    \<and> \<not> hidden_path (fs_resolve fs (fs_root fs)) (en_path e)
    \<and> en_bytes e = Some raw \<and> CHR 0x00 \<notin> set (take 4096 raw)
    \<and> fc_content c = decode (take 512000 raw) \<and> (fc_truncated c \<longleftrightarrow> 512000 < length raw)"
  using assms
  by (auto simp: get_project_file_def Let_def validate_path_def fs_is_file_def fs_is_symlink_def looks_binary_def fs_bytes_def
      dest!: entry_at_Some split: if_splits option.splits)

text \<open>A file system as a walk finds it: every path once, the root resolved, and a path that is not a link resolves to itself.\<close>

definition proper_part :: "string \<Rightarrow> bool" where
  "proper_part q \<longleftrightarrow> q \<noteq> [] \<and> q \<noteq> ''.'' \<and> CHR ''/'' \<notin> set q"

definition plain_system :: "file_system \<Rightarrow> bool" where
  "plain_system fs \<longleftrightarrow> distinct (List.map en_path (fs_entries fs)) \<and> fs_resolve fs (fs_root fs) = fs_root fs
     \<and> (\<forall>e \<in> set (fs_entries fs). (\<not> en_symlink e \<longrightarrow> fs_resolve fs (en_path e) = en_path e) \<and> list_all proper_part (en_path e))"

lemma parts_of_join:
  assumes "ps \<noteq> []" and "list_all proper_part ps"
  shows "parts_of (join ''/'' ps) = ps \<and> \<not> is_absolute (join ''/'' ps)"
proof -
  obtain q qs where ps: "ps = q # qs" using assms(1) by (cases ps) auto
  then obtain c cs where q: "q = c # cs" "c \<noteq> CHR ''/''" using assms(2) by (cases q) (auto simp: proper_part_def)
  have "hd (join ''/'' ps) = c" "join ''/'' ps \<noteq> []" using ps q by (cases qs; simp)+
  then have rel: "\<not> is_absolute (join ''/'' ps)"
    using q(2) by (cases "join ''/'' ps") (auto simp: is_absolute_def starts_with_def)
  have "split_on (CHR ''/'') (join ''/'' ps) = ps"
    by (rule split_on_join) (use assms in \<open>auto simp: list_all_iff proper_part_def\<close>)
  then have "parts_of (join ''/'' ps) = filter (\<lambda>p. p \<noteq> [] \<and> p \<noteq> ''.'') ps"
    using rel by (simp add: parts_of_def)
  also have "\<dots> = ps" using assms(2) by (auto simp: list_all_iff proper_part_def filter_id_conv)
  finally show ?thesis using rel by simp
qed

definition listed_view :: "file_system \<Rightarrow> string list \<Rightarrow> fs_entry \<Rightarrow> file_view option" where
  "listed_view fs base e =
     (if \<not> en_file e \<or> en_symlink e \<or> hidden_path base (en_path e) then None
      else map_option (\<lambda>n. \<lparr>fv_path = join ''/'' (drop (length base) (en_path e)),
        fv_kind = (if looks_binary fs (en_path e) then ''binary'' else ''text''), fv_size = n\<rparr>) (en_size e))"

lemma list_loop_take:
  "length vs < 500 \<Longrightarrow> list_loop fs base es vs = take 500 (vs @ List.map_filter (listed_view fs base) es)"
proof (induction es arbitrary: vs)
  case Nil
  then show ?case by simp
next
  case (Cons e es)
  show ?case
  proof (cases "listed_view fs base e")
    case None
    with Cons show ?thesis by (auto simp: listed_view_def Let_def List.map_filter_simps split: if_splits)
  next
    case (Some v)
    then have "list_loop fs base (e # es) vs = (if 500 \<le> length (vs @ [v]) then vs @ [v] else list_loop fs base es (vs @ [v]))"
      by (auto simp: listed_view_def Let_def split: if_splits option.splits)
    moreover have "take (500 - length vs) (v # ws) = v # take (499 - length vs) ws" for ws
      using Cons.prems by (cases "500 - length vs") (simp_all add: Suc_diff_Suc [symmetric])
    moreover have "499 \<le> length vs \<longleftrightarrow> length vs = 499" using Cons.prems by linarith
    ultimately show ?thesis using Some Cons.prems Cons.IH [of "vs @ [v]"]
      by (simp add: List.map_filter_simps del: list_loop.simps)
  qed
qed

lemma map_filter_Some: "v \<in> set (List.map_filter f xs) \<longleftrightarrow> (\<exists>x \<in> set xs. f x = Some v)"
  by (induction xs) (auto simp: List.map_filter_simps split: option.splits)

lemma find_distinct: "distinct (List.map f xs) \<Longrightarrow> x \<in> set xs \<Longrightarrow> find (\<lambda>y. f y = f x) xs = Some x"
  by (induction xs) auto

abbreviation shown_as :: "file_system \<Rightarrow> fs_entry \<Rightarrow> string" where
  "shown_as fs e \<equiv> join ''/'' (drop (length (fs_root fs)) (en_path e))"

lemma route_on_entry:
  assumes fs: "plain_system fs" and e: "e \<in> set (fs_entries fs)" "strict_prefix (fs_root fs) (en_path e)" "\<not> en_symlink e"
  shows "get_project_file decode fs (shown_as fs e) =
    (if \<not> en_file e \<or> hidden_path (fs_root fs) (en_path e) then Inl (HTTPException 404 ''Unknown project file'')
     else if looks_binary fs (en_path e) then Inl (HTTPException 415 ''Binary project files are not previewed'')
     else Inr \<lparr>fc_path = shown_as fs e, fc_content = decode (take 512000 (the (en_bytes e))),
            fc_truncated = 512000 < length (the (en_bytes e))\<rparr>)"
proof -
  from e(2) obtain rel where rel: "en_path e = fs_root fs @ rel" "rel \<noteq> []" by (auto simp: strict_prefix_def prefix_def)
  have "list_all proper_part rel" using fs e(1) rel by (auto simp: plain_system_def list_all_iff)
  with rel parts_of_join [of rel] have "joined (fs_root fs) (shown_as fs e) = en_path e" by (simp add: joined_def)
  moreover have "fs_resolve fs (fs_root fs) = fs_root fs" "fs_resolve fs (en_path e) = en_path e"
    using fs e by (auto simp: plain_system_def)
  moreover have "fs_entry_at fs (en_path e) = Some e"
    using fs e(1) by (simp add: fs_entry_at_def plain_system_def find_distinct)
  ultimately show ?thesis
    using e(2,3) rel
    by (auto simp: get_project_file_def Let_def validate_path_def fs_is_file_def fs_is_symlink_def fs_bytes_def looks_binary_def
        split: option.splits)
qed

text \<open>C36. The listing and the route agree: every listed text file is shown and every listed binary file is answered with
  415; there are at most 500, and as long as there are fewer, a file that is not a link, whose size can be
  read and which the route does not refuse as unknown is listed.\<close>

theorem listing_matches_route:
  assumes "plain_system fs"
  shows "(\<forall>v \<in> set (list_project_files fs).
      fv_kind v = ''text'' \<and> (\<exists>c. get_project_file decode fs (fv_path v) = Inr c)
      \<or> fv_kind v = ''binary'' \<and> get_project_file decode fs (fv_path v) = Inl (HTTPException 415 ''Binary project files are not previewed''))
    \<and> length (list_project_files fs) \<le> 500
    \<and> (length (list_project_files fs) < 500 \<longrightarrow> (\<forall>e \<in> set (fs_entries fs). strict_prefix (fs_root fs) (en_path e) \<and> \<not> en_symlink e
         \<and> en_size e \<noteq> None \<and> get_project_file decode fs (shown_as fs e) \<noteq> Inl (HTTPException 404 ''Unknown project file'')
         \<longrightarrow> (\<exists>v \<in> set (list_project_files fs). fv_path v = shown_as fs e)))"
proof -
  let ?all = "List.map_filter (listed_view fs (fs_root fs)) (found_below fs (fs_root fs) (\<lambda>_. True))"
  have base: "fs_resolve fs (fs_root fs) = fs_root fs" using assms by (simp add: plain_system_def)
  then have views: "list_project_files fs = take 500 ?all"
    by (simp add: list_project_files_def list_loop_take Let_def)
  have in_all: "v \<in> set ?all \<longleftrightarrow> (\<exists>e \<in> set (fs_entries fs). strict_prefix (fs_root fs) (en_path e) \<and> listed_view fs (fs_root fs) e = Some v)" for v
    by (auto simp: map_filter_Some found_below_def)
  have served: "fv_kind v = ''text'' \<and> (\<exists>c. get_project_file decode fs (fv_path v) = Inr c)
      \<or> fv_kind v = ''binary'' \<and> get_project_file decode fs (fv_path v) = Inl (HTTPException 415 ''Binary project files are not previewed'')"
    if "v \<in> set ?all" for v
  proof -
    from that in_all obtain e where e: "e \<in> set (fs_entries fs)" "strict_prefix (fs_root fs) (en_path e)"
      "listed_view fs (fs_root fs) e = Some v" by blast
    then have l: "en_file e" "\<not> en_symlink e" "\<not> hidden_path (fs_root fs) (en_path e)" "fv_path v = shown_as fs e"
      "fv_kind v = (if looks_binary fs (en_path e) then ''binary'' else ''text'')"
      by (auto simp: listed_view_def split: if_splits)
    with route_on_entry [OF assms e(1,2) l(2), of decode] show ?thesis by simp
  qed
  have complete: "\<exists>v \<in> set ?all. fv_path v = shown_as fs e"
    if e: "e \<in> set (fs_entries fs)" "strict_prefix (fs_root fs) (en_path e)" "\<not> en_symlink e" "en_size e \<noteq> None"
      and known: "get_project_file decode fs (shown_as fs e) \<noteq> Inl (HTTPException 404 ''Unknown project file'')" for e
  proof -
    from known route_on_entry [OF assms e(1-3), of decode] have "en_file e" "\<not> hidden_path (fs_root fs) (en_path e)"
      by (auto split: if_splits)
    with e obtain v where "listed_view fs (fs_root fs) e = Some v" "fv_path v = shown_as fs e" by (auto simp: listed_view_def)
    with e(1,2) in_all show ?thesis by blast
  qed
  have all: "length (take 500 ?all) < 500 \<Longrightarrow> take 500 ?all = ?all" by simp
  show ?thesis
    unfolding views
  proof (intro conjI ballI impI)
    fix v assume "v \<in> set (take 500 ?all)"
    from served [OF in_set_takeD [OF this]]
    show "fv_kind v = ''text'' \<and> (\<exists>c. get_project_file decode fs (fv_path v) = Inr c)
      \<or> fv_kind v = ''binary'' \<and> get_project_file decode fs (fv_path v) = Inl (HTTPException 415 ''Binary project files are not previewed'')" .
  next
    show "length (take 500 ?all) \<le> 500" by simp
  next
    fix e assume few: "length (take 500 ?all) < 500" and "e \<in> set (fs_entries fs)"
      and "strict_prefix (fs_root fs) (en_path e) \<and> \<not> en_symlink e \<and> en_size e \<noteq> None
        \<and> get_project_file decode fs (shown_as fs e) \<noteq> Inl (HTTPException 404 ''Unknown project file'')"
    then show "\<exists>v \<in> set (take 500 ?all). fv_path v = shown_as fs e"
      unfolding all [OF few] using complete by blast
  qed
qed

text \<open>One document that is not UTF-8, or a directory named like one, makes the whole listing of documents raise.\<close>

lemma one_document_breaks_listing:
  assumes "e \<in> set (fs_entries fs)" "strict_prefix (docs_dir fs) (en_path e)" "ends_with (last (en_path e)) ''.md''"
    and "fs_bytes fs (en_path e) = None"
  shows "isl (list_docs utf8 fs)"
proof -
  have "isl (doc_entries utf8 fs es)" if "e \<in> set es" for es
    using that assms(4)
    by (induction es) (auto simp: title_of_def read_text_def Let_def isl_map_sum split: sum.split)
  with assms show ?thesis by (simp add: list_docs_def found_below_def)
qed

definition sample_system :: file_system where
  "sample_system = (let entry = (\<lambda>p b. \<lparr>en_path = [''demo''] @ p, en_symlink = False, en_file = True, en_bytes = Some b,
       en_size = Some (int (length b))\<rparr>)
     in \<lparr>fs_root = [''demo''], fs_resolve = climb [], fs_entries =
       [entry [''notes.txt''] ''hello'', entry [''logo.bin''] [CHR 0x00], entry [''.env''] ''KEY=1'', entry [''.git'', ''config''] ''x'']\<rparr>)"

lemmas sample_simps = get_project_file_def validate_path_def fs_is_file_def fs_is_symlink_def looks_binary_def fs_bytes_def
  fs_entry_at_def sample_system_def joined_def parts_of_def is_absolute_def starts_with_def hidden_path_def IGNORED_PARTS_def
  SECRET_NAMES_def Let_def

theorem file_route_confined_witness:
  "\<exists>c. get_project_file (\<lambda>b. b) sample_system ''docs/../notes.txt'' = Inr c \<and> fc_content c = ''hello''"
proof -
  have "get_project_file (\<lambda>b. b) sample_system ''docs/../notes.txt'' = Inr \<lparr>fc_path = ''docs/../notes.txt'', fc_content = ''hello'', fc_truncated = False\<rparr>"
    by (simp add: sample_simps)
  from file_route_confined [OF this] this show ?thesis by auto
qed

theorem listing_matches_route_witness:
  "\<exists>v \<in> set (list_project_files sample_system). fv_path v = ''logo.bin''
     \<and> get_project_file (\<lambda>b. b) sample_system (fv_path v) = Inl (HTTPException 415 ''Binary project files are not previewed'')"
proof -
  have plain: "plain_system sample_system" by code_simp
  have "List.map fv_path (list_project_files sample_system) = [''logo.bin'', ''notes.txt'']"
    by (simp add: list_project_files_def found_below_def sample_simps sort_key_def insort_key_def)
  then obtain v where v: "v \<in> set (list_project_files sample_system)" "fv_path v = ''logo.bin''" by fastforce
  have "\<nexists>c. get_project_file (\<lambda>b. b) sample_system (fv_path v) = Inr c" unfolding v(2) by (simp add: sample_simps)
  with listing_matches_route [OF plain, of "\<lambda>b. b"] v show ?thesis by blast
qed

text \<open>What is refused: secrets, ignored directories, paths that leave the root.\<close>

lemma refused_samples:
  "list_all (\<lambda>p. get_project_file (\<lambda>b. b) sample_system p = Inl (HTTPException 404 ''Unknown project file''))
     [''.env'', ''docs/../.env'', ''.git/config'', ''../demo2/notes.txt'', ''/etc/passwd'', [] ]"
  by (simp add: sample_simps)

end
