(* ===== verification/SettingsApi.thy ===== *)
theory SettingsApi
  imports Settings McpServers Discovery Adaptation JsonViews
begin

text \<open>
  The routes of the settings (\<open>api/routes.py\<close>, lines 147 to 274) over \<open>Settings\<close>: the document a client
  reads, the validation that writes nothing, saving and resetting. \<open>sa_config\<close> is the configuration
  read at start-up, \<open>sa_inspect\<close> the inspection of the project with the files as they are.
\<close>

section \<open>The document\<close>

record settings_app =
  sa_base :: string
  sa_config :: dict
  sa_database :: string
  sa_runners :: "string list"
  sa_discovery :: discovery
  sa_inspect :: "yamls \<Rightarrow> exn + project_inspection"

fun source_str :: "config_source \<Rightarrow> string" where
  "source_str DEFAULT = ''default''"
| "source_str PROJECT = ''project''"
| "source_str USER = ''user''"
| "source_str ENVIRONMENT = ''environment''"

fun priority_str :: "priority \<Rightarrow> string" where
  "priority_str PRIMARY = ''primary''"
| "priority_str EFFICIENT = ''efficient-third''"

fun availability_str :: "availability \<Rightarrow> string" where
  "availability_str EXPECTED = ''expected''"
| "availability_str PROBE_REQUIRED = ''probe-required''"

definition SettingView :: "setting_view \<Rightarrow> json" where
  "SettingView v = JObj [(''key'', JStr (sv_key v)), (''value'', sv_value v), (''default'', sv_default v),
     (''source'', JObj [(''value'', JStr (source_str (sv_source v))), (''scope'', JStr (scope_str (sv_scope v))),
        (''environment_variable'', opt_str (sv_environment_variable v))]),
     (''restart_required'', JBool (sv_restart_required v)), (''applies_to'', JStr (sv_applies_to v)),
     (''description'', JStr (sv_description v)), (''kind'', JStr (sv_kind v))]"

text \<open>Which variable holds a provider's credential, and whether it is set; a reference that is no text is refused
  by the shape, one that is looked up by \<open>os.environ\<close>.\<close>

definition credential_of :: "dict \<Rightarrow> (string \<Rightarrow> string option) \<Rightarrow> string \<Rightarrow> exn + string option \<times> bool" where
  "credential_of config env provider =
     (case get_or ''provider_credential_refs'' (JObj []) config of
        JObj refs \<Rightarrow>
          (case get_or provider JNull refs of
             JNull \<Rightarrow> Inr (None, False)
           | JStr var \<Rightarrow> Inr (Some var, var \<noteq> [] \<and> (case env var of None \<Rightarrow> False | Some v \<Rightarrow> v \<noteq> []))
           | v \<Rightarrow> Inl (if truthy v then TypeError ''str expected'' else ValidationError ''Input should be a valid string''))
      | _ \<Rightarrow> Inl (AttributeError ''get''))"

definition ProviderView :: "model_entry \<Rightarrow> string option \<times> bool \<Rightarrow> json" where
  "ProviderView m c = JObj [(''key'', JStr (m_key m)), (''provider'', JStr (m_provider m)), (''command_code_id'', JStr (m_command_code_id m)),
     (''priority'', JStr (priority_str (m_priority m))), (''availability'', JStr (availability_str (m_availability m))),
     (''credential_ref'', opt_str (fst c)), (''credential_configured'', JBool (snd c))]"

fun provider_views :: "dict \<Rightarrow> (string \<Rightarrow> string option) \<Rightarrow> model_entry list \<Rightarrow> exn + json list" where
  "provider_views config env [] = Inr []"
| "provider_views config env (m # ms) =
     (case credential_of config env (m_provider m) of Inl e \<Rightarrow> Inl e | Inr c \<Rightarrow>
        map_sum id (Cons (ProviderView m c)) (provider_views config env ms))"

record settings_doc =
  dv_settings :: "setting_view list"
  dv_providers :: "json list"
  dv_mcp :: json
  dv_diagnostics :: dict

definition diagnostics :: "(json \<Rightarrow> string) \<Rightarrow> settings_app \<Rightarrow> (string \<Rightarrow> string option) \<Rightarrow> project_inspection \<Rightarrow> dict" where
  "diagnostics repr a env i = [(''projectRoot'', JStr (sa_base a)), (''projectId'', get_or ''project_id'' JNull (sa_config a)),
     (''projectMode'', JStr (mode_str (pi_mode i))),
     (''engineUrl'', JStr (case env ''ATLAS_FLOW_API'' of Some u \<Rightarrow> u | None \<Rightarrow> ''http://localhost:8000'')),
     (''databasePath'', JStr (sa_database a)), (''runners'', strs (sa_runners a)),
     (''registryState'', JStr (discovery_state (sa_discovery a))), (''registryReason'', JStr (ds_reason (sa_discovery a)))]"

definition settings_document ::
  "(json \<Rightarrow> string) \<Rightarrow> (string \<Rightarrow> exn + rat) \<Rightarrow> settings_app \<Rightarrow> ('z, settings_doc) settings_act" where
  "settings_document repr to_float a =
     bindE (load_settings repr to_float (sa_base a)) (\<lambda>views.
     bindE (\<lambda>s. (provider_views (sa_config a) (environ s) ROSTER, s)) (\<lambda>providers.
     bindE (\<lambda>s. (sa_inspect a (yaml_files s), s)) (\<lambda>i.
     bindE (\<lambda>s. (inspect_mcp repr s (sa_base a) (sa_config a), s)) (\<lambda>mcp.
     bindE (gets environ) (\<lambda>env.
       ret \<lparr>dv_settings = views, dv_providers = providers, dv_mcp = mcp, dv_diagnostics = diagnostics repr a env i\<rparr>)))))"

definition SettingsDocumentView :: "settings_doc \<Rightarrow> bool \<Rightarrow> string option \<Rightarrow> dict" where
  "SettingsDocumentView d restart reason = [(''settings'', JList (List.map SettingView (dv_settings d))),
     (''providers'', JList (dv_providers d)), (''mcp'', dv_mcp d), (''diagnostics'', JObj (dv_diagnostics d)),
     (''restart_required'', JBool restart), (''restart_reason'', opt_str reason)]"

definition get_settings :: "(json \<Rightarrow> string) \<Rightarrow> (string \<Rightarrow> exn + rat) \<Rightarrow> settings_app \<Rightarrow> ('z, dict) settings_act" where
  "get_settings repr to_float a =
     bindE (settings_document repr to_float a) (\<lambda>d. ret (SettingsDocumentView d False None))"

section \<open>Validating, saving, resetting\<close>

definition scope_of :: "string \<Rightarrow> exn + config_scope" where
  "scope_of s = (if s = ''user'' then Inr USER_SCOPE else if s = ''project'' then Inr PROJECT_SCOPE
     else Inl (ValueError (quoted s @ '' is not a valid ConfigScope'')))"

text \<open>\<open>except (ValueError, SettingsError)\<close>, answered with a status.\<close>

fun settings_fault :: "exn \<Rightarrow> string option" where
  "settings_fault (SettingsError why) = Some why"
| "settings_fault (ValueError why) = Some why"
| "settings_fault (ValidationError why) = Some why"
| "settings_fault (DocumentParseError why) = Some why"
| "settings_fault (JSONDecodeError why) = Some why"
| "settings_fault e = None"

definition answered :: "nat \<Rightarrow> ('s, exn, 'a) act \<Rightarrow> ('s, exn, 'a) act" where
  "answered status a = try_except a (\<lambda>e. case settings_fault e of Some why \<Rightarrow> throw (HTTPException status why) | None \<Rightarrow> throw e)"










definition reset_settings_route :: "(json \<Rightarrow> string) \<Rightarrow> (string \<Rightarrow> exn + rat) \<Rightarrow> settings_app \<Rightarrow> string \<Rightarrow> string list
     \<Rightarrow> ('z, settings_doc) settings_act" where
  "reset_settings_route repr to_float a scope keys =
     bindE (answered 409 (bindE (lift_result (scope_of scope)) (\<lambda>sc. reset_settings repr to_float (sa_base a) keys sc)))
       (\<lambda>_. settings_document repr to_float a)"

definition validate_settings_mcp :: "(json \<Rightarrow> string) \<Rightarrow> settings_app \<Rightarrow> ('z, json) settings_act" where
  "validate_settings_mcp repr a s = (inspect_mcp repr s (sa_base a) (sa_config a), s)"

section \<open>Validation is what saving checks\<close>



















end
