(* ===== verification/Workforce.thy ===== *)
theory Workforce
  imports Manifests
begin

text \<open>
  Who works on a task (\<open>workforce/resolver.py\<close>): the agent, skills and recipes for a role, out of the declared
  registries, and the skills a task's capabilities suggest. Also the structured errors of the package
  (\<open>errors.py\<close>).
\<close>

section \<open>The workforce of a role\<close>

record resolved_agent =
  ra_name :: string
  ra_skills :: "string list"

record workforce =
  wf_agents :: "resolved_agent list"
  wf_skills :: "string list"
  wf_recipes :: "string list"
  wf_selected_agent :: "string option"
  wf_selected_model :: "string option"
  wf_runner :: "string option"

definition RECIPE_MAP :: "(string \<times> string list) list" where
  "RECIPE_MAP =
    [(''goal-planner'', [''locked-goal-implementation'']),
     (''core-implementer'', [''locked-goal-implementation'', ''high-risk-feature'']),
     (''ui-engineer'', [''locked-goal-implementation'']),
     (''protocol-engineer'', [''protocol-change'']),
     (''release-verifier'', [''release-candidate'']),
     (''chief-architect'', [''locked-goal-implementation'', ''high-risk-feature'', ''protocol-change''])]"

definition select_recipes_for_role :: "string \<Rightarrow> string list \<Rightarrow> string list" where
  "select_recipes_for_role role recipes = (case map_of RECIPE_MAP role of Some rs \<Rightarrow> rs | None \<Rightarrow> recipes)"

text \<open>\<open>agents.agents[0]\<close> on an empty registry raises.\<close>

definition resolve_for_role :: "string \<Rightarrow> string list \<Rightarrow> string list \<Rightarrow> string list \<Rightarrow> exn + workforce" where
  "resolve_for_role role agents skills recipes =
     (case (if role \<in> set agents then Inr role
            else case agents of a # _ \<Rightarrow> Inr a | [] \<Rightarrow> Inl (IndexError ''list index out of range'')) of
        Inl e \<Rightarrow> Inl e
      | Inr agent \<Rightarrow> Inr \<lparr>wf_agents = [\<lparr>ra_name = agent, ra_skills = skills\<rparr>], wf_skills = skills,
          wf_recipes = select_recipes_for_role role recipes, wf_selected_agent = Some agent, wf_selected_model = None,
          wf_runner = None\<rparr>)"

definition SKILL_CAPABILITIES :: "(string \<times> string list) list" where
  "SKILL_CAPABILITIES =
    [(''goal-contracts'', [''goal_execution'', ''gates'']), (''dag-planning'', [''planning'', ''dag'']),
     (''model-routing'', [''routing'', ''model_selection'']), (''acp-integration'', [''acp'', ''agent_session'']),
     (''ag-ui-integration'', [''ag_ui'', ''ui_events'']), (''mcp-integration'', [''mcp'', ''tools'']),
     (''command-code-execution'', [''cli'', ''headless'']), (''worktree-isolation'', [''worktree'', ''git'']),
     (''evidence-gates'', [''verification'', ''evidence'']), (''fault-injection'', [''testing'', ''reliability'']),
     (''desktop-accessibility'', [''accessibility'', ''a11y'']), (''docs-maintenance'', [''documentation'']),
     (''context-packing'', [''context'', ''knowledge_graph'']), (''decision-ledger'', [''decisions'']),
     (''atlas-navigation'', [''atlas'', ''navigation''])]"

definition skill_matches :: "string \<Rightarrow> string list \<Rightarrow> bool" where
  "skill_matches skill capabilities =
     list_ex (\<lambda>c. c \<in> set capabilities) (case map_of SKILL_CAPABILITIES skill of Some cs \<Rightarrow> cs | None \<Rightarrow> [])"

definition skills_for_task :: "string list \<Rightarrow> string list \<Rightarrow> string list" where
  "skills_for_task capabilities skills = filter (\<lambda>s. skill_matches s capabilities) skills"

text \<open>The agent is declared, and is the role itself when that is declared; the resolution fails only on an empty registry.
  The recipes of a known role are taken from the table whether the registry declares them or not.\<close>

lemma resolved_agent_declared:
  "resolve_for_role role agents skills recipes = Inr w \<Longrightarrow>
   \<exists>a \<in> set agents. wf_selected_agent w = Some a \<and> (role \<in> set agents \<longrightarrow> a = role) \<and> List.map ra_name (wf_agents w) = [a]"
  by (auto simp: resolve_for_role_def split: list.splits if_splits)

lemma resolve_fails_iff: "isl (resolve_for_role role agents skills recipes) \<longleftrightarrow> agents = []"
  by (auto simp: resolve_for_role_def split: list.split)

lemma undeclared_recipe: "case resolve_for_role ''goal-planner'' [''reviewer''] [] [] of
    Inr w \<Rightarrow> wf_recipes w = [''locked-goal-implementation''] \<and> wf_selected_agent w = Some ''reviewer'' | Inl _ \<Rightarrow> False"
  by code_simp

lemma loaded_registry_without_agents:
  "conforms AgentManifest (JObj [(''agents'', JList []), (''selection_basis'', JList [])])
   \<and> isl (resolve_for_role role (strs_attr ''agents'' (JObj [(''agents'', JList []), (''selection_basis'', JList [])])) skills recipes)"
proof
  show "conforms AgentManifest (JObj [(''agents'', JList []), (''selection_basis'', JList [])])" by code_simp
qed (simp add: resolve_fails_iff strs_attr_def)

section \<open>Structured errors\<close>

datatype error_category = E_CONFIG | E_PROJECT_ATLAS | E_GIT | E_RUNNER | E_PROVIDER | E_PROTOCOL | E_POLICY | E_VERIFICATION
  | E_BUDGET | E_PERSISTENCE | E_INTERNAL

datatype retryability = TRANSIENT | FIXABLE | PERMANENT

fun SUGGESTED_RECOVERY :: "error_category \<Rightarrow> string" where
  "SUGGESTED_RECOVERY E_CONFIG = ''Check configuration file at .ai/orchestration/ or project overrides.''"
| "SUGGESTED_RECOVERY E_PROJECT_ATLAS = ''Validate PROJECT_MANIFEST.yaml and .ai/goals/ structure.''"
| "SUGGESTED_RECOVERY E_GIT = ''Verify repository state, resolve conflicts, retry the operation.''"
| "SUGGESTED_RECOVERY E_RUNNER = ''Runner unavailable '' @ emdash @ '' check runner process/connection and retry.''"
| "SUGGESTED_RECOVERY E_PROVIDER =
     ''Model provider error '' @ emdash @ '' check credentials, rate limits, or fallback to next model.''"
| "SUGGESTED_RECOVERY E_PROTOCOL = ''Protocol error '' @ emdash @ '' verify ACP/AG-UI/MCP compatibility and retry.''"
| "SUGGESTED_RECOVERY E_POLICY = ''Policy violation '' @ emdash @ '' operation blocked. No automatic retry.''"
| "SUGGESTED_RECOVERY E_VERIFICATION = ''Gate verification failed '' @ emdash @ '' check evidence and repair.''"
| "SUGGESTED_RECOVERY E_BUDGET = ''Budget exhausted '' @ emdash @ '' increase limits or review usage.''"
| "SUGGESTED_RECOVERY E_PERSISTENCE = ''Database error '' @ emdash @ '' check SQLite file integrity and disk space.''"
| "SUGGESTED_RECOVERY E_INTERNAL = ''Unexpected internal error '' @ emdash @ '' report with trace for investigation.''"

record flow_error =
  fe_message :: string
  fe_category :: error_category
  fe_code :: string
  fe_retryability :: retryability
  fe_detail :: string
  fe_goal_id :: "string option"
  fe_run_id :: "string option"
  fe_task_id :: "string option"

definition can_retry :: "flow_error \<Rightarrow> bool" where
  "can_retry e \<longleftrightarrow> fe_retryability e \<in> {TRANSIENT, FIXABLE}"

definition context_part :: "string \<Rightarrow> string option \<Rightarrow> string list" where
  "context_part label v = (case v of Some s \<Rightarrow> if s \<noteq> [] then [label @ '': '' @ s] else [] | None \<Rightarrow> [])"

definition suggested_recovery :: "flow_error \<Rightarrow> string" where
  "suggested_recovery e = join '' | '' (SUGGESTED_RECOVERY (fe_category e) # context_part ''Goal'' (fe_goal_id e)
     @ context_part ''Run'' (fe_run_id e) @ context_part ''Task'' (fe_task_id e) @ context_part ''Detail'' (Some (fe_detail e)))"

text \<open>What every constructor function sets; the identifiers and the detail come from its keyword arguments.\<close>

definition mk_error :: "error_category \<Rightarrow> retryability \<Rightarrow> string \<Rightarrow> string \<Rightarrow> string
    \<Rightarrow> string option \<Rightarrow> string option \<Rightarrow> string option \<Rightarrow> flow_error" where
  "mk_error category retry msg errcode detail goal run task =
     \<lparr>fe_message = msg, fe_category = category, fe_code = errcode, fe_retryability = retry, fe_detail = detail,
      fe_goal_id = goal, fe_run_id = run, fe_task_id = task\<rparr>"

definition config_error where "config_error = mk_error E_CONFIG FIXABLE"

definition runner_error where "runner_error = mk_error E_RUNNER TRANSIENT"

definition provider_error where "provider_error = mk_error E_PROVIDER TRANSIENT"

definition policy_error where "policy_error = mk_error E_POLICY PERMANENT"

definition verification_error where "verification_error = mk_error E_VERIFICATION FIXABLE"

definition persistence_error where "persistence_error = mk_error E_PERSISTENCE FIXABLE"

definition internal_error where "internal_error = mk_error E_INTERNAL PERMANENT"

lemma policy_never_retried: "\<not> can_retry (policy_error msg errcode detail goal run task)"
  by (simp add: policy_error_def mk_error_def can_retry_def)

end
