(* ===== verification/Spec2Isabelle.thy ===== *)
theory Spec2Isabelle
  imports CommandLine ContextEngine EventSocket GoalRuns GoalViews Housekeeping ProjectFiles SettingsApi Workforce
begin

text \<open>
  \<^bold>\<open>The Atlas Flow runtime.\<close> A verification development for the Python backend
  (\<open>reference/python-backend/atlas_flow\<close>), which turns a validated plan for a Goal into isolated tasks,
  runs coding agents on them, verifies the result and keeps the evidence.

  \<^bold>\<open>How the parts interact.\<close> A plan (\<open>planner/dag.py\<close>) is validated and handed to the goal runner
  (\<open>execution/goal_runner.py\<close>). The scheduler (\<open>execution/scheduler.py\<close>) moves runs and tasks through
  their lifecycles, every transition being one transaction of the store
  (\<open>execution/persistence.py\<close>) that writes the row and its event. For each ready task the runner asks
  the router (\<open>routing/\<close>) for a model, reserves an attempt in the budget (\<open>execution/budget.py\<close>),
  calls an agent through the harness (\<open>harness/\<close>), integrates the task's worktree
  (\<open>planner/worktree.py\<close>) under the security guard, and records evidence at the gates
  (\<open>verification/\<close>). Cancellation requests are polled between steps.

  \<^bold>\<open>The theories.\<close>
  \<^item> \<open>Prelude\<close>: JSON values, actions (state and exceptions), preservation of an invariant by an action,
    and what an action gives; \<open>PyString\<close>: the string methods used; \<open>Tables\<close>: SQL tables and the
    locale \<open>keyed_store\<close>.
  \<^item> \<open>Models\<close>, \<open>Plans\<close>, \<open>GateTypes\<close>: the records and enumerations, the transition table and its locale
    \<open>lifecycle\<close>.
  \<^item> \<open>Persistence\<close>, \<open>Scheduler\<close>: the store with its locale \<open>runtime_invariant\<close>, and the scheduler.
  \<^item> \<open>Dag\<close>, \<open>Worktree\<close>, \<open>Guard\<close>: plan validation and order, write scopes, git.
  \<^item> \<open>Config\<close>, \<open>Budget\<close>, \<open>CancelFaults\<close>: configuration, spending, cancellation and injected faults.
  \<^item> \<open>Router\<close>, \<open>RoutingStore\<close>, \<open>Harness\<close>: the choice of models, the stored scorecard, agent calls.
  \<^item> \<open>Gates\<close>, \<open>Commands\<close>, \<open>GoalCompletion\<close>: evidence and gates, declared checks, completing a Goal.
  \<^item> \<open>GoalRunner\<close>, \<open>GoalRuns\<close>: the execution of a plan and what it amounts to.
  \<^item> \<open>Discuss\<close>, \<open>DiscussStore\<close> (\<open>discuss/\<close>): the decision ledger of a discussion, its finalization into a
    Goal, how sessions are stored, and their routes.
  \<^item> \<open>ConfigLayers\<close>, \<open>Settings\<close> (\<open>config.py\<close>, \<open>settings.py\<close>): the layers that make up the configuration,
    and the settings document that shows and edits them.
  \<^item> \<open>McpServers\<close> (\<open>mcp/registry.py\<close>): which tool servers a role is handed.
  \<^item> \<open>PlanApi\<close> (\<open>api/routes.py\<close>): deriving, saving, locking and starting a plan, cancelling a run.
  \<^item> \<open>AcpEvents\<close>, \<open>AcpProtocol\<close>, \<open>AcpClient\<close>, \<open>AgentRunners\<close> (\<open>acp/\<close>, \<open>runners/\<close>): normalizing an agent's
    updates, JSON-RPC with it, sessions and permissions, and the runners. The agent is the list of lines it
    writes; the locale \<open>client_invariant\<close> carries a property of the client through all of them.
  \<^item> \<open>Manifests\<close> (\<open>goals/\<close>, \<open>bootstrap.py\<close>): the declared shapes, loading a project, the cache of contexts.
  \<^item> \<open>Adaptation\<close>, \<open>AdaptedProject\<close> (\<open>project/\<close>): what an inspection decides, the scaffold an adaptation
    writes, and that a fresh project adapted is ready.
  \<^item> \<open>Documents\<close>, \<open>DocRegistry\<close>, \<open>DocValidation\<close>, \<open>DocSite\<close>, \<open>ContextPlans\<close>, \<open>Intelligence\<close>
    (\<open>evolution/\<close>): a project's documents, their graph and validation, the published site, context plans
    and impact, and the cost ledger; \<open>Decimals\<close>: reading and printing numbers.
  \<^item> \<open>CommandLine\<close> (\<open>cli.py\<close>): every command over parsed arguments, what it prints and writes, its exit code.
  \<^item> \<open>Discovery\<close> (\<open>routing/discovery.py\<close>): the probe for live models; \<open>ContextEngine\<close> (\<open>context/engine.py\<close>): the
    pack of a Goal; \<open>Workforce\<close> (\<open>workforce/resolver.py\<close>, \<open>errors.py\<close>): agents, recipes, structured errors.
  \<^item> \<open>ProjectFiles\<close>, \<open>ProjectApi\<close>, \<open>SettingsApi\<close>, \<open>GoalViews\<close>, \<open>JsonViews\<close> (\<open>api/\<close>): the routes for files, documents,
    inspection, adaptation, settings, Goals and routing, and the shapes the routes answer in;
    \<open>EventSocket\<close>: sessions, broadcasts and the handler of a socket.
  \<^item> \<open>Housekeeping\<close> (\<open>workspace.py\<close>, \<open>execution/perf.py\<close>): private directories and timing statistics.

  \<^bold>\<open>State.\<close> The state is one record that each component extends: clock and identifiers (\<open>os\<close>), the
  database (\<open>db\<close>), git (\<open>vcs\<close>), routing, agents (\<open>harness_db\<close>), gates, processes, and the goal runner.
  Python's exceptions are the left summand of an action's result; the state is kept on both sides. What
  the outside world answers (git, agents, processes, clocks, random identifiers, cancellation requests
  that arrive) is a function in the state, from how often it was asked to its answer, so a theorem holds
  for every behaviour of it.

  \<^bold>\<open>Invariants.\<close> \<open>runtime_invariant\<close> states when a predicate is kept by every statement of the store;
  the locales \<open>vcs_invariant\<close>, \<open>routing_invariant\<close>, \<open>harness_invariant\<close>, \<open>gate_invariant\<close>,
  \<open>shell_invariant\<close> and \<open>goal_invariant\<close> extend it component by component. Each is interpreted for
  referential integrity, for the append-only event log or for the guarded git log; the goal runner's
  also for the set of planned tasks, which gives termination.

  \<^bold>\<open>Fuel and bounds.\<close> The loop over the batches takes one more unit of fuel than the run has planned
  tasks; each round that goes on takes a task out of the planned ones, so it is always enough
  (\<open>run_loop_ends\<close>). A call to an agent reads its script to the end, where its
  time-out passes. The depth-first search and the dependency order are total functions with a
  termination measure. Python's integers are \<open>int\<close>, its floats exact rationals.

  \<^bold>\<open>Not modelled.\<close> Interleavings inside one \<open>asyncio.gather\<close> (a batch is run in list order; the budget is
  proved for any interleaving), regular expressions (a parameter), YAML and SQL parsing (their values and
  tables are the interface: a file is the value it loads to), the framing of HTTP, the definition of the
  command line's arguments, the wiring at start-up, and the agents themselves.
\<close>

end
